(* ===== verification/Prelude.thy ===== *)
theory Prelude
  imports Main "HOL-Library.Word"
begin

text \<open>
  Shared vocabulary of the development: the machine integer types of the C++ code, the
  effect type used for every routine that touches the guest state, and the automation
  that runs such routines symbolically.

  A routine of type \<open>('s, 'a) prog\<close> takes the state and returns a result together with
  the state it leaves behind.  The state is returned on the error branch as well: a C++
  exception does not undo the stores that were made before it.  \<open>AccessViolation\<close> is the
  C++ exception \<open>Memory::AccessViolation\<close>; \<open>Fatal\<close> is a call that never returns
  (\<open>std::abort\<close>, an uncaught \<open>std::runtime_error\<close>) and that no handler catches;
  \<open>OutOfFuel\<close> is the model's own mark for a loop that was cut off.
\<close>

unbundle bit_operations_syntax

type_synonym u8 = "8 word"
type_synonym u16 = "16 word"
type_synonym u32 = "32 word"
type_synonym u64 = "64 word"

datatype fault = AccessViolation u32 nat | Fatal | OutOfFuel

datatype 'a res = Ok 'a | Throw fault

type_synonym ('s, 'a) prog = "'s \<Rightarrow> 'a res \<times> 's"

named_theorems run_simps "rules that execute a routine symbolically"

definition returnP :: "'a \<Rightarrow> ('s, 'a) prog" where
  "returnP x s = (Ok x, s)"

definition throwP :: "fault \<Rightarrow> ('s, 'a) prog" where
  "throwP e s = (Throw e, s)"

definition bindP :: "('s, 'a) prog \<Rightarrow> ('a \<Rightarrow> ('s, 'b) prog) \<Rightarrow> ('s, 'b) prog" where
  "bindP m f s = (case m s of (Ok a, s') \<Rightarrow> f a s' | (Throw e, s') \<Rightarrow> (Throw e, s'))"

definition thenP :: "('s, unit) prog \<Rightarrow> ('s, 'b) prog \<Rightarrow> ('s, 'b) prog" where
  "thenP m n = bindP m (\<lambda>_. n)"

definition whenP :: "bool \<Rightarrow> ('s, unit) prog \<Rightarrow> ('s, unit) prog" where
  "whenP b m = (if b then m else returnP ())"

definition getsP :: "('s \<Rightarrow> 'a) \<Rightarrow> ('s, 'a) prog" where
  "getsP f s = (Ok (f s), s)"

definition modifyP :: "('s \<Rightarrow> 's) \<Rightarrow> ('s, unit) prog" where
  "modifyP f s = (Ok (), f s)"

text \<open>A block of statements, executed in order.\<close>

fun stmts :: "('s, unit) prog list \<Rightarrow> ('s, unit) prog" where
  "stmts [] = returnP ()"
| "stmts (m # ms) = thenP m (stmts ms)"

text \<open>\<open>try { m } catch (const Memory::AccessViolation& e) { h }\<close>: other faults pass.\<close>

definition catchP :: "('s, 'a) prog \<Rightarrow> (u32 \<Rightarrow> ('s, 'a) prog) \<Rightarrow> ('s, 'a) prog" where
  "catchP m h s = (case m s of (Throw (AccessViolation a n), s') \<Rightarrow> h a s' | r \<Rightarrow> r)"

lemma returnP_run [run_simps]: "returnP x s = (Ok x, s)"
  by (simp add: returnP_def)

lemma throwP_run [run_simps]: "throwP e s = (Throw e, s)"
  by (simp add: throwP_def)

lemma getsP_run [run_simps]: "getsP f s = (Ok (f s), s)"
  by (simp add: getsP_def)

lemma modifyP_run [run_simps]: "modifyP f s = (Ok (), f s)"
  by (simp add: modifyP_def)

lemma bindP_Ok [run_simps]: "m s = (Ok a, s') \<Longrightarrow> bindP m f s = f a s'"
  by (simp add: bindP_def)

lemma bindP_Throw [run_simps]: "m s = (Throw e, s') \<Longrightarrow> bindP m f s = (Throw e, s')"
  by (simp add: bindP_def)

lemma thenP_Ok [run_simps]: "m s = (Ok a, s') \<Longrightarrow> thenP m n s = n s'"
  by (simp add: thenP_def bindP_def)

lemma thenP_Throw [run_simps]: "m s = (Throw e, s') \<Longrightarrow> thenP m n s = (Throw e, s')"
  by (simp add: thenP_def bindP_def)

lemma whenP_True [run_simps]: "b \<Longrightarrow> whenP b m = m"
  and whenP_False [run_simps]: "\<not> b \<Longrightarrow> whenP b m = returnP ()"
  by (simp_all add: whenP_def)

lemma catchP_Ok [run_simps]: "m s = (Ok a, s') \<Longrightarrow> catchP m h s = (Ok a, s')"
  by (simp add: catchP_def)

lemma catchP_Throw [run_simps]:
  "m s = (Throw (AccessViolation a n), s') \<Longrightarrow> catchP m h s = h a s'"
  "m s = (Throw Fatal, s') \<Longrightarrow> catchP m h s = (Throw Fatal, s')"
  "m s = (Throw OutOfFuel, s') \<Longrightarrow> catchP m h s = (Throw OutOfFuel, s')"
  by (simp_all add: catchP_def)

lemma bindP_assoc: "bindP (bindP m f) g = bindP m (\<lambda>x. bindP (f x) g)"
  by (rule ext) (simp add: bindP_def split: prod.splits res.splits)

lemma stmts_append: "stmts (ms @ ns) s = thenP (stmts ms) (stmts ns) s"
  by (induction ms arbitrary: s) (simp_all add: thenP_def bindP_def returnP_def split: prod.splits res.splits)

declare stmts.simps [run_simps]

text \<open>
  A loop: the body returns \<open>Inl\<close> the loop variables for the next iteration or
  \<open>Inr\<close> the value the loop ends with (\<open>break\<close>, \<open>return\<close>, a false condition).
  The first argument bounds the number of iterations.
\<close>

fun loopP :: "nat \<Rightarrow> ('a \<Rightarrow> ('s, 'a + 'b) prog) \<Rightarrow> 'a \<Rightarrow> ('s, 'b) prog" where
  "loopP 0 body a = throwP OutOfFuel"
| "loopP (Suc n) body a =
     bindP (body a) (\<lambda>r. case r of Inl a' \<Rightarrow> loopP n body a' | Inr b \<Rightarrow> returnP b)"

declare loopP.simps [simp del]

lemma loopP_next [run_simps]: "body a s = (Ok (Inl a'), s') \<Longrightarrow> loopP (Suc n) body a s = loopP n body a' s'"
  by (simp add: loopP.simps bindP_def)

lemma loopP_done [run_simps]: "body a s = (Ok (Inr b), s') \<Longrightarrow> loopP (Suc n) body a s = (Ok b, s')"
  by (simp add: loopP.simps bindP_def returnP_def)

text \<open>Runs that end normally.\<close>

definition runs :: "('s, 'a) prog \<Rightarrow> 's \<Rightarrow> 'a \<Rightarrow> 's \<Rightarrow> bool" where
  "runs m s a s' \<longleftrightarrow> m s = (Ok a, s')"

subsection \<open>Invariants of routines\<close>

text \<open>The routine keeps \<open>P\<close> whether it returns or throws.\<close>

named_theorems keeps_intros "routines that keep an invariant"

definition keeps :: "('s \<Rightarrow> bool) \<Rightarrow> ('s, 'a) prog \<Rightarrow> bool" where
  "keeps P m \<longleftrightarrow> (\<forall>s. P s \<longrightarrow> P (snd (m s)))"

lemma keepsD: "keeps P m \<Longrightarrow> P s \<Longrightarrow> m s = (r, t) \<Longrightarrow> P t"
  unfolding keeps_def by (metis snd_conv)

lemma keeps_return [keeps_intros]: "keeps P (returnP x)"
  and keeps_throw [keeps_intros]: "keeps P (throwP e)"
  and keeps_gets [keeps_intros]: "keeps P (getsP f)"
  by (simp_all add: keeps_def run_simps)

lemma keeps_modify: "(\<And>s. P s \<Longrightarrow> P (f s)) \<Longrightarrow> keeps P (modifyP f)"
  by (simp add: keeps_def run_simps)

lemma keeps_bind [keeps_intros]:
  assumes "keeps P m" and "\<And>x. keeps P (f x)"
  shows "keeps P (bindP m f)"
  unfolding keeps_def
proof (intro allI impI)
  fix s assume "P s"
  obtain r t where m: "m s = (r, t)" by (cases "m s")
  have "P t" by (rule keepsD [OF assms(1) \<open>P s\<close> m])
  then show "P (snd (bindP m f s))"
    using m assms(2) by (cases r) (auto simp: bindP_def keeps_def)
qed

lemma keeps_then [keeps_intros]: "keeps P m \<Longrightarrow> keeps P n \<Longrightarrow> keeps P (thenP m n)"
  unfolding thenP_def by (intro keeps_bind)

lemma keeps_when [keeps_intros]: "(b \<Longrightarrow> keeps P m) \<Longrightarrow> keeps P (whenP b m)"
  by (simp add: whenP_def keeps_return)

lemma keeps_if [keeps_intros]: "(b \<Longrightarrow> keeps P m) \<Longrightarrow> (\<not> b \<Longrightarrow> keeps P n) \<Longrightarrow> keeps P (if b then m else n)"
  by simp

lemma keeps_let [keeps_intros]: "(\<And>y. keeps P (f y)) \<Longrightarrow> keeps P (let y = x in f y)"
  by simp

lemma keeps_option [keeps_intros]:
  "keeps P m \<Longrightarrow> (\<And>x. keeps P (f x)) \<Longrightarrow> keeps P (case z of None \<Rightarrow> m | Some x \<Rightarrow> f x)"
  by (simp split: option.split)

lemma keeps_prod [keeps_intros]: "(\<And>x y. keeps P (f x y)) \<Longrightarrow> keeps P (case z of (x, y) \<Rightarrow> f x y)"
  by (simp split: prod.split)

lemma keeps_stmts [keeps_intros]: "list_all (keeps P) ms \<Longrightarrow> keeps P (stmts ms)"
  by (induction ms) (simp_all add: keeps_return keeps_then)

lemma keeps_catch [keeps_intros]:
  assumes "keeps P m" and "\<And>a. keeps P (h a)"
  shows "keeps P (catchP m h)"
  unfolding keeps_def
proof (intro allI impI)
  fix s assume "P s"
  obtain r t where m: "m s = (r, t)" by (cases "m s")
  have "P t" by (rule keepsD [OF assms(1) \<open>P s\<close> m])
  then show "P (snd (catchP m h s))"
    using m assms(2) unfolding catchP_def keeps_def by (cases r) (auto split: fault.split)
qed

lemma keeps_loop [keeps_intros]:
  assumes "\<And>a. keeps P (body a)"
  shows "keeps P (loopP n body a)"
proof (induction n arbitrary: a)
  case (Suc n)
  have "keeps P (case r of Inl a' \<Rightarrow> loopP n body a' | Inr b \<Rightarrow> returnP b)" for r
    using Suc.IH by (cases r) (simp_all add: keeps_return)
  then show ?case unfolding loopP.simps by (intro keeps_bind assms)
qed (simp add: loopP.simps keeps_throw)

subsection \<open>Words\<close>

text \<open>Big-endian splitting of a word and its inverse.\<close>

lemma ucast_8_32_join:
  "push_bit 24 (ucast (ucast (drop_bit 24 v :: u32) :: u8)) OR
   push_bit 16 (ucast (ucast (drop_bit 16 v :: u32) :: u8)) OR
   push_bit 8 (ucast (ucast (drop_bit 8 v :: u32) :: u8)) OR
   ucast (ucast v :: u8) = (v :: u32)" (is "?lhs = v")
proof (rule bit_word_eqI)
  fix n :: nat
  assume "n < LENGTH(32)"
  then consider "n < 8" | "8 \<le> n" "n < 16" | "16 \<le> n" "n < 24" | "24 \<le> n" "n < 32"
    by fastforce
  then show "bit ?lhs n = bit v n"
    by cases (auto simp add: bit_simps)
qed

lemma ucast_8_16_join:
  "push_bit 8 (ucast (ucast (drop_bit 8 v :: u16) :: u8)) OR ucast (ucast v :: u8) = (v :: u16)"
  by (rule bit_word_eqI) (auto simp add: bit_simps)

lemma unat_add_small:
  fixes a :: "'a::len word"
  assumes "unat a + n < 2 ^ LENGTH('a)"
  shows "unat (a + of_nat n) = unat a + n"
proof -
  have "unat (of_nat n :: 'a word) = n"
    using assms by (simp add: unat_of_nat)
  then show ?thesis
    using assms by (simp add: unat_word_ariths)
qed

lemma msb_uint: "bit (w :: u32) 31 \<longleftrightarrow> 2 ^ 31 \<le> uint w"
proof -
  have "odd (x div 2 ^ 31) \<longleftrightarrow> 2 ^ 31 \<le> x" if "0 \<le> x" "x < 2 ^ 32" for x :: int
  proof (cases "x < 2 ^ 31")
    case False
    then have "x div 2 ^ 31 = (x - 2 ^ 31) div 2 ^ 31 + 1" by (intro div_pos_geq) simp_all
    moreover have "(x - 2 ^ 31) div 2 ^ 31 = 0" using False that by (intro div_pos_pos_trivial) simp_all
    ultimately show ?thesis using False by simp
  qed (use that in simp)
  from this [of "uint w"] show ?thesis
    using uint_lt2p [of w] bit_uint_iff [of w 31] by (simp add: bit_iff_odd [of "uint w"])
qed

lemma sint_cases: "sint (w :: u32) = (if bit w 31 then uint w - 2 ^ 32 else uint w)"
proof -
  have "sint w = signed_take_bit 31 (uint w)" by (simp add: sint_uint)
  also have "\<dots> = take_bit 32 (uint w) - 2 ^ 32 * of_bool (bit (uint w) 31)"
    by (simp add: signed_take_bit_eq_take_bit_minus)
  also have "take_bit 32 (uint w) = uint w" using uint_lt2p [of w] by (simp add: take_bit_int_eq_self)
  finally show ?thesis by (simp add: bit_uint_iff)
qed

lemma unat_of_nat32: "i < 2 ^ 32 \<Longrightarrow> unat (of_nat i :: u32) = i"
  by (simp add: unat_of_nat)

end
