(* ===== verification/Guest_Memory.thy ===== *)
theory Guest_Memory
  imports Prelude
begin

text \<open>
  Guest memory: \<open>runtime/src/memory.cpp\<close>, the big-endian codec of
  \<open>runtime/include/isa/big_endian.h\<close>, the section layout of
  \<open>runtime/src/guest_flat_memory.cpp\<close> and the executable-write guard of
  \<open>runtime/src/recomp_mod_loader.cpp\<close>.

  A guest address is resolved to a region, a region to an offset in a host section; the
  physical, cached and uncached windows of MEM1 and MEM2 share one section each.  The
  state also holds the deferred reads, the executable ranges with their three page maps,
  and the calls made to the GX gather pipe.  The page-table fast path in front of these
  routines is a cache of the same region map and is not part of the state.
\<close>

section \<open>Big-endian codec\<close>

definition BigEndian_Read16 :: "u8 list \<Rightarrow> u16" where
  "BigEndian_Read16 src = push_bit 8 (ucast (src ! 0)) OR ucast (src ! 1)"

definition BigEndian_Read32 :: "u8 list \<Rightarrow> u32" where
  "BigEndian_Read32 src =
     push_bit 24 (ucast (src ! 0)) OR push_bit 16 (ucast (src ! 1)) OR
     push_bit 8 (ucast (src ! 2)) OR ucast (src ! 3)"

definition BigEndian_Write16 :: "u16 \<Rightarrow> u8 list" where
  "BigEndian_Write16 v = [ucast (drop_bit 8 v), ucast v]"

definition BigEndian_Write32 :: "u32 \<Rightarrow> u8 list" where
  "BigEndian_Write32 v =
     [ucast (drop_bit 24 v), ucast (drop_bit 16 v), ucast (drop_bit 8 v), ucast v]"

definition BigEndian_Write64 :: "u64 \<Rightarrow> u8 list" where
  "BigEndian_Write64 v = BigEndian_Write32 (ucast (drop_bit 32 v)) @ BigEndian_Write32 (ucast v)"

lemma BigEndian_16_roundtrip [simp]: "BigEndian_Read16 (BigEndian_Write16 v) = v"
  by (simp add: BigEndian_Read16_def BigEndian_Write16_def ucast_8_16_join)

lemma BigEndian_32_roundtrip [simp]: "BigEndian_Read32 (BigEndian_Write32 v) = v"
  using ucast_8_32_join [of v]
  by (simp add: BigEndian_Read32_def BigEndian_Write32_def numeral_3_eq_3 numeral_2_eq_2)

lemma BigEndian_Write_lengths [simp]:
  "length (BigEndian_Write16 v) = 2" "length (BigEndian_Write32 w) = 4"
  "length (BigEndian_Write64 x) = 8"
  by (simp_all add: BigEndian_Write16_def BigEndian_Write32_def BigEndian_Write64_def)

lemma BigEndian_Write_nonempty [simp]:
  "BigEndian_Write16 v \<noteq> []" "BigEndian_Write32 w \<noteq> []" "BigEndian_Write64 x \<noteq> []"
  by (simp_all add: BigEndian_Write16_def BigEndian_Write32_def BigEndian_Write64_def)

section \<open>State\<close>

text \<open>A section of host storage (\<open>GuestFlat::SectionKey\<close>) and the bytes behind it.\<close>

datatype section_key = SecMem1 | SecMem2 | SecOwned u32

type_synonym store = "section_key \<Rightarrow> nat \<Rightarrow> u8"

record region_config =
  rc_name :: string
  rc_baseAddress :: u32
  rc_sizeBytes :: nat

text \<open>\<open>Region\<close>: the configuration, the host pointer (section and offset), the size.\<close>

record region =
  r_config :: region_config
  r_storagePtr :: "section_key \<times> nat"
  r_storageSize :: nat

record deferred_read =
  dr_token :: u64
  dr_start :: u32
  dr_length :: nat
  dr_callback :: "store \<Rightarrow> bool \<times> store"

record exec_range =
  er_start :: u32
  er_end :: u32
  er_name :: string

record memory =
  Regions :: "region list"
  Storage :: store
  DeferredReads :: "deferred_read list"
  NextDeferredReadToken :: u64
  DeferredReadCoveredPages :: "nat \<Rightarrow> bool"
  ExecutableRanges :: "exec_range list"
  GuardEnabled :: bool
  GuardPages :: "nat \<Rightarrow> bool"
  GuardMidPages :: "nat \<Rightarrow> bool"
  GuardCoarsePages :: "nat \<Rightarrow> bool"
  ContextLr :: "u32 option"
  GatherPipe :: "(nat \<times> u32) list"

definition kPageShift :: nat where "kPageShift = 20"
definition kPageSize :: nat where "kPageSize = 2 ^ kPageShift"
definition kPageCount :: nat where "kPageCount = 2 ^ (32 - kPageShift)"

definition kMem1Size :: nat where "kMem1Size = 24 * 1024 * 1024"
definition kMem2Size :: nat where "kMem2Size = 128 * 1024 * 1024"

definition IsMmioAddress :: "u32 \<Rightarrow> bool" where
  "IsMmioAddress addr \<longleftrightarrow> addr \<ge> 0xCC000000 \<and> addr < 0xCE000000"

definition IsGpuFifoAddress :: "u32 \<Rightarrow> bool" where
  "IsGpuFifoAddress addr \<longleftrightarrow> addr \<ge> 0xCC008000 \<and> addr < 0xCC008100"

section \<open>Region map\<close>

datatype backing = Mem1 | Mem2 | Owned

definition in_window :: "u32 \<Rightarrow> nat \<Rightarrow> nat \<Rightarrow> bool" where
  "in_window a base sz \<longleftrightarrow> base \<le> unat a \<and> unat a < base + sz"

definition ClassifyBacking :: "u32 \<Rightarrow> backing" where
  "ClassifyBacking baseAddress =
     (if in_window baseAddress 0 kMem1Size \<or> in_window baseAddress 0x80000000 kMem1Size \<or>
         in_window baseAddress 0xC0000000 kMem1Size then Mem1
      else if in_window baseAddress 0x10000000 kMem2Size \<or>
         in_window baseAddress 0x90000000 kMem2Size \<or>
         in_window baseAddress 0xD0000000 kMem2Size then Mem2
      else Owned)"

fun SectionOffsetFor :: "backing \<Rightarrow> u32 \<Rightarrow> nat" where
  "SectionOffsetFor Mem1 base = unat (base AND 0x01FFFFFF)"
| "SectionOffsetFor Mem2 base = unat (base AND 0x0FFFFFFF)"
| "SectionOffsetFor Owned base = 0"

fun KeyFor :: "backing \<Rightarrow> u32 \<Rightarrow> section_key" where
  "KeyFor Mem1 base = SecMem1"
| "KeyFor Mem2 base = SecMem2"
| "KeyFor Owned base = SecOwned base"

text \<open>\<open>GuestFlat::HostPointer\<close>: the first mapped region that holds the address.\<close>

definition HostPointer :: "region_config list \<Rightarrow> u32 \<Rightarrow> (section_key \<times> nat) option" where
  "HostPointer mapped guestAddress =
     map_option
       (\<lambda>c. let b = ClassifyBacking (rc_baseAddress c) in
         (KeyFor b (rc_baseAddress c),
          SectionOffsetFor b (rc_baseAddress c) + (unat guestAddress - unat (rc_baseAddress c))))
       (find (\<lambda>c. in_window guestAddress (unat (rc_baseAddress c)) (rc_sizeBytes c)) mapped)"

definition WiiDefaults :: "region_config list" where
  "WiiDefaults =
    [\<lparr>rc_name = ''MEM1_PHYS'', rc_baseAddress = 0x00000000, rc_sizeBytes = kMem1Size\<rparr>,
     \<lparr>rc_name = ''MEM1'', rc_baseAddress = 0x80000000, rc_sizeBytes = kMem1Size\<rparr>,
     \<lparr>rc_name = ''MEM1_UNCACHED'', rc_baseAddress = 0xC0000000, rc_sizeBytes = kMem1Size\<rparr>,
     \<lparr>rc_name = ''MEM2_PHYS'', rc_baseAddress = 0x10000000, rc_sizeBytes = kMem2Size\<rparr>,
     \<lparr>rc_name = ''MEM2'', rc_baseAddress = 0x90000000, rc_sizeBytes = kMem2Size\<rparr>,
     \<lparr>rc_name = ''MEM2_UNCACHED'', rc_baseAddress = 0xD0000000, rc_sizeBytes = kMem2Size\<rparr>,
     \<lparr>rc_name = ''MEM1_KAMEK_OVERLAY'', rc_baseAddress = 0x81800000, rc_sizeBytes = 0x200000\<rparr>,
     \<lparr>rc_name = ''LOCKED_CACHE'', rc_baseAddress = 0xE0000000,
      rc_sizeBytes = kPageSize + 4096\<rparr>]"

text \<open>The region list \<open>Memory::Init\<close> builds; a region without storage is a runtime error.\<close>

fun InitRegions :: "region_config list \<Rightarrow> region_config list \<Rightarrow> region list \<times> bool" where
  "InitRegions mapped [] = ([], True)"
| "InitRegions mapped (c # cs) =
     (case HostPointer mapped (rc_baseAddress c) of
        None \<Rightarrow>
          (if rc_sizeBytes c \<noteq> 0 then ([], False)
           else let (rs, ok) = InitRegions mapped cs
                in (\<lparr>r_config = c, r_storagePtr = (SecOwned 0, 0), r_storageSize = 0\<rparr> # rs, ok))
      | Some p \<Rightarrow>
          (let (rs, ok) = InitRegions mapped cs
           in (\<lparr>r_config = c, r_storagePtr = p, r_storageSize = rc_sizeBytes c\<rparr> # rs, ok)))"

definition page_span :: "u32 \<Rightarrow> nat \<Rightarrow> nat \<Rightarrow> bool" where
  "page_span start len page \<longleftrightarrow>
     unat start div kPageSize \<le> page \<and> page \<le> (unat start + len - 1) div kPageSize"

definition Memory_Init :: "region_config list \<Rightarrow> ('a memory_scheme, unit) prog" where
  "Memory_Init config s =
     (let (rs, ok) = InitRegions config config
      in if ok
         then (Ok (), s\<lparr>Regions := rs,
                DeferredReadCoveredPages :=
                  (\<lambda>p. list_ex (\<lambda>d. page_span (dr_start d) (dr_length d) p) (DeferredReads s))\<rparr>)
         else (Throw Fatal, s\<lparr>Regions := rs, DeferredReadCoveredPages := (\<lambda>_. False)\<rparr>))"

definition TryResolveRegion :: "'a memory_scheme \<Rightarrow> u32 \<Rightarrow> nat \<Rightarrow> region option" where
  "TryResolveRegion s address len =
     find (\<lambda>r. unat (rc_baseAddress (r_config r)) \<le> unat address \<and>
               unat address + len \<le> unat (rc_baseAddress (r_config r)) + r_storageSize r)
       (Regions s)"

definition Contains :: "'a memory_scheme \<Rightarrow> u32 \<Rightarrow> nat \<Rightarrow> bool" where
  "Contains s addr len \<longleftrightarrow> TryResolveRegion s addr len \<noteq> None"

definition region_pointer :: "region \<Rightarrow> u32 \<Rightarrow> section_key \<times> nat" where
  "region_pointer r addr =
     (fst (r_storagePtr r),
      snd (r_storagePtr r) + unat (addr - rc_baseAddress (r_config r)))"

definition GetPointer :: "u32 \<Rightarrow> nat \<Rightarrow> ('a memory_scheme, section_key \<times> nat) prog" where
  "GetPointer addr len s =
     (case TryResolveRegion s addr len of
        None \<Rightarrow> (Throw (AccessViolation addr len), s)
      | Some r \<Rightarrow> (Ok (region_pointer r addr), s))"

section \<open>Deferred reads\<close>

definition RangesOverlap :: "u32 \<Rightarrow> nat \<Rightarrow> u32 \<Rightarrow> nat \<Rightarrow> bool" where
  "RangesOverlap firstStart firstLength secondStart secondLength \<longleftrightarrow>
     unat firstStart < unat secondStart + secondLength \<and>
     unat secondStart < unat firstStart + firstLength"

definition RefreshDeferredReadPage :: "deferred_read list \<Rightarrow> nat \<Rightarrow> bool" where
  "RefreshDeferredReadPage reads page =
     list_ex (\<lambda>d. RangesOverlap (of_nat (page * kPageSize)) kPageSize (dr_start d) (dr_length d)) reads"

definition RegisterDeferredRead ::
  "u32 \<Rightarrow> nat \<Rightarrow> (store \<Rightarrow> bool \<times> store) option \<Rightarrow> ('a memory_scheme, u64) prog" where
  "RegisterDeferredRead addr len callback s =
     (case callback of
        None \<Rightarrow> (Ok 0, s)
      | Some cb \<Rightarrow>
         (if len = 0 \<or> unat addr + len > 2 ^ 32 then (Ok 0, s)
          else
           let t0 = NextDeferredReadToken s;
               token = (if t0 = 0 then t0 + 1 else t0)
           in (Ok token,
               s\<lparr>NextDeferredReadToken := token + 1,
                 DeferredReads := DeferredReads s @
                   [\<lparr>dr_token = token, dr_start = addr, dr_length = len, dr_callback = cb\<rparr>],
                 DeferredReadCoveredPages :=
                   (\<lambda>p. page_span addr len p \<or> DeferredReadCoveredPages s p)\<rparr>)))"

definition ClearDeferredReads :: "('a memory_scheme, unit) prog" where
  "ClearDeferredReads s =
     (Ok (), s\<lparr>DeferredReads := [],
       DeferredReadCoveredPages :=
         (\<lambda>p. if list_ex (\<lambda>d. page_span (dr_start d) (dr_length d) p) (DeferredReads s)
              then RefreshDeferredReadPage [] p else DeferredReadCoveredPages s p)\<rparr>)"

text \<open>The callbacks of the matches, in registration order, until one fails.\<close>

fun materialize :: "u32 \<Rightarrow> nat \<Rightarrow> deferred_read list \<Rightarrow> ('a memory_scheme, unit) prog" where
  "materialize addr len [] s = (Ok (), s)"
| "materialize addr len (d # ds) s =
     (let (ok, st) = dr_callback d (Storage s); s' = s\<lparr>Storage := st\<rparr>
      in if ok then materialize addr len ds s' else (Throw (AccessViolation addr len), s'))"

definition ResolveDeferredReads :: "u32 \<Rightarrow> nat \<Rightarrow> ('a memory_scheme, unit) prog" where
  "ResolveDeferredReads addr len s =
     (let hit = (\<lambda>d. RangesOverlap addr len (dr_start d) (dr_length d));
          matches = filter hit (DeferredReads s);
          rest = filter (\<lambda>d. \<not> hit d) (DeferredReads s)
      in materialize addr len matches
           (s\<lparr>DeferredReads := rest,
              DeferredReadCoveredPages :=
                (\<lambda>p. if list_ex (\<lambda>d. page_span (dr_start d) (dr_length d) p) matches
                     then RefreshDeferredReadPage rest p else DeferredReadCoveredPages s p)\<rparr>))"

definition Memory_Reset :: "('a memory_scheme, unit) prog" where
  "Memory_Reset = thenP ClearDeferredReads
     (modifyP (\<lambda>s. s\<lparr>Regions := [], DeferredReadCoveredPages := (\<lambda>_. False)\<rparr>))"

section \<open>Executable ranges\<close>

definition kExecutableWriteGuardPageShift :: nat where "kExecutableWriteGuardPageShift = 12"
definition kExecutableWriteGuardMidPageShift :: nat where "kExecutableWriteGuardMidPageShift = 16"
definition kExecutableWriteGuardCoarsePageShift :: nat where "kExecutableWriteGuardCoarsePageShift = 20"

definition mark_pages :: "nat \<Rightarrow> u32 \<Rightarrow> u32 \<Rightarrow> (nat \<Rightarrow> bool) \<Rightarrow> nat \<Rightarrow> bool" where
  "mark_pages shift start stop pages p \<longleftrightarrow>
     unat start div 2 ^ shift \<le> p \<and> p \<le> (unat stop - 1) div 2 ^ shift \<or> pages p"

definition MarkExecutableGuardPages :: "u32 \<Rightarrow> u32 \<Rightarrow> 'a memory_scheme \<Rightarrow> 'a memory_scheme" where
  "MarkExecutableGuardPages start stop s =
     (if stop \<le> start then s
      else s\<lparr>GuardPages := mark_pages kExecutableWriteGuardPageShift start stop (GuardPages s),
             GuardMidPages := mark_pages kExecutableWriteGuardMidPageShift start stop (GuardMidPages s),
             GuardCoarsePages := mark_pages kExecutableWriteGuardCoarsePageShift start stop (GuardCoarsePages s)\<rparr>)"

definition AddExecutableRangeLocked ::
  "u32 \<Rightarrow> u32 \<Rightarrow> string \<Rightarrow> 'a memory_scheme \<Rightarrow> 'a memory_scheme" where
  "AddExecutableRangeLocked start stop name s =
     (if stop \<le> start then s
      else let r = \<lparr>er_start = start, er_end = stop, er_name = name\<rparr>
           in if r \<in> set (ExecutableRanges s) then s
              else (MarkExecutableGuardPages start stop
                     (s\<lparr>ExecutableRanges := ExecutableRanges s @ [r]\<rparr>))\<lparr>GuardEnabled := True\<rparr>)"

definition add_aliases ::
  "nat \<Rightarrow> u32 \<Rightarrow> u32 \<Rightarrow> nat \<Rightarrow> u32 \<Rightarrow> string \<Rightarrow> 'a memory_scheme \<Rightarrow> 'a memory_scheme" where
  "add_aliases limit cached uncached len offset name s =
     (if unat offset + len > limit then s
      else AddExecutableRangeLocked (uncached + offset) (uncached + offset + of_nat len)
             (name @ '' [uncached]'')
             (AddExecutableRangeLocked (cached + offset) (cached + offset + of_nat len)
               (name @ '' [cached]'') s))"

definition AddMem1AliasesLocked ::
  "u32 \<Rightarrow> u32 \<Rightarrow> string \<Rightarrow> 'a memory_scheme \<Rightarrow> 'a memory_scheme" where
  "AddMem1AliasesLocked start stop name s =
     (if stop \<le> start then s
      else let len = unat stop - unat start;
               addFromOffset = (\<lambda>offset. add_aliases (24 * 1024 * 1024) 0x80000000 0xC0000000 len offset name s)
      in if start < 0x01800000 \<and> stop \<le> 0x01800000 then addFromOffset start
         else if start \<ge> 0x80000000 \<and> stop \<le> 0x81800000 then addFromOffset (start - 0x80000000)
         else if start \<ge> 0xC0000000 \<and> stop \<le> 0xC1800000 then addFromOffset (start - 0xC0000000)
         else s)"

definition AddMem2AliasesLocked ::
  "u32 \<Rightarrow> u32 \<Rightarrow> string \<Rightarrow> 'a memory_scheme \<Rightarrow> 'a memory_scheme" where
  "AddMem2AliasesLocked start stop name s =
     (if stop \<le> start then s
      else let len = unat stop - unat start;
               addFromOffset = (\<lambda>offset. add_aliases kMem2Size 0x90000000 0xD0000000 len offset name s)
      in if start \<ge> 0x10000000 \<and> stop \<le> 0x18000000 then addFromOffset (start - 0x10000000)
         else if start \<ge> 0x90000000 \<and> stop \<le> 0x98000000 then addFromOffset (start - 0x90000000)
         else if start \<ge> 0xD0000000 \<and> stop \<le> 0xD8000000 then addFromOffset (start - 0xD0000000)
         else s)"

text \<open>Upper-case hexadecimal, as \<open>std::hex << std::uppercase\<close> prints it.\<close>

definition hex_digit :: "nat \<Rightarrow> char" where
  "hex_digit d = ''0123456789ABCDEF'' ! d"

fun to_hex :: "nat \<Rightarrow> string" where
  "to_hex n = (if n < 16 then [hex_digit n] else to_hex (n div 16) @ [hex_digit (n mod 16)])"

declare to_hex.simps [simp del]

definition RegisterExecutableRange ::
  "u32 \<Rightarrow> u32 \<Rightarrow> string \<Rightarrow> 'a memory_scheme \<Rightarrow> 'a memory_scheme" where
  "RegisterExecutableRange start stop name0 s =
     (if stop \<le> start then s
      else let name = (if name0 = [] then ''0x'' @ to_hex (unat start) @ ''-0x'' @ to_hex (unat stop) else name0)
           in AddMem2AliasesLocked start stop name
                (AddMem1AliasesLocked start stop name
                  (AddExecutableRangeLocked start stop name s)))"

definition Intersects :: "u32 \<Rightarrow> nat \<Rightarrow> exec_range \<Rightarrow> bool" where
  "Intersects address len r \<longleftrightarrow>
     unat address < unat (er_end r) \<and> unat address + len > unat (er_start r)"

definition FindExecutableRange :: "'a memory_scheme \<Rightarrow> u32 \<Rightarrow> nat \<Rightarrow> exec_range option" where
  "FindExecutableRange s address len = find (Intersects address len) (ExecutableRanges s)"

definition contains_substring :: "string \<Rightarrow> string \<Rightarrow> bool" where
  "contains_substring pat text =
     list_ex (\<lambda>i. take (length pat) (drop i text) = pat) [0..<Suc (length text)]"

definition IsKnownBaseRelLoaderWrite :: "'a memory_scheme \<Rightarrow> exec_range \<Rightarrow> bool" where
  "IsKnownBaseRelLoaderWrite s rng =
     (if \<not> contains_substring ''StaticR.rel'' (er_name rng) then False
      else case ContextLr s of
             None \<Rightarrow> False
           | Some lr \<Rightarrow> (lr \<ge> 0x8000A000 \<and> lr < 0x8000A400) \<or> (lr \<ge> 0x801A6000 \<and> lr < 0x801A7000))"

definition guard_level :: "nat \<Rightarrow> (nat \<Rightarrow> bool) \<Rightarrow> u32 \<Rightarrow> nat \<Rightarrow> bool" where
  "guard_level shift pages address len =
     list_ex pages [unat address div 2 ^ shift ..<
        Suc (min ((unat address + len - 1) div 2 ^ shift) (2 ^ (32 - shift) - 1))]"

definition ExecutableWriteGuardMayHit :: "'a memory_scheme \<Rightarrow> u32 \<Rightarrow> nat \<Rightarrow> bool" where
  "ExecutableWriteGuardMayHit s address len =
     (if len = 0 \<or> \<not> GuardEnabled s then False
      else guard_level kExecutableWriteGuardCoarsePageShift (GuardCoarsePages s) address len \<and>
           guard_level kExecutableWriteGuardMidPageShift (GuardMidPages s) address len \<and>
           guard_level kExecutableWriteGuardPageShift (GuardPages s) address len)"

definition HandleExecutableWrite :: "u32 \<Rightarrow> nat \<Rightarrow> ('a memory_scheme, bool) prog" where
  "HandleExecutableWrite address len s =
     (if \<not> ExecutableWriteGuardMayHit s address len then (Ok False, s)
      else case FindExecutableRange s address len of
             None \<Rightarrow> (Ok False, s)
           | Some hit \<Rightarrow> (if IsKnownBaseRelLoaderWrite s hit then (Ok False, s) else (Throw Fatal, s)))"

section \<open>Scalar access\<close>

definition bytes_at :: "'a memory_scheme \<Rightarrow> section_key \<times> nat \<Rightarrow> nat \<Rightarrow> u8 list" where
  "bytes_at s p n = map (\<lambda>i. Storage s (fst p) (snd p + i)) [0..<n]"

definition put_bytes :: "section_key \<times> nat \<Rightarrow> u8 list \<Rightarrow> 'a memory_scheme \<Rightarrow> 'a memory_scheme" where
  "put_bytes p bs s = s\<lparr>Storage := (\<lambda>k j.
     if k = fst p \<and> snd p \<le> j \<and> j < snd p + length bs then bs ! (j - snd p) else Storage s k j)\<rparr>"

definition ReadScalar :: "u32 \<Rightarrow> nat \<Rightarrow> ('a memory_scheme, u8 list) prog" where
  "ReadScalar address n = bindP (GetPointer address n) (\<lambda>p. getsP (\<lambda>s. bytes_at s p n))"

definition WriteScalar :: "u32 \<Rightarrow> u8 list \<Rightarrow> ('a memory_scheme, unit) prog" where
  "WriteScalar address bs =
     bindP (HandleExecutableWrite address (length bs)) (\<lambda>handled.
     if handled then returnP ()
     else bindP (GetPointer address (length bs)) (\<lambda>p. modifyP (put_bytes p bs)))"

definition ReadChecked :: "u32 \<Rightarrow> nat \<Rightarrow> ('a memory_scheme, u8 list) prog" where
  "ReadChecked addr n =
     (if IsMmioAddress addr then throwP (AccessViolation addr n)
      else thenP (ResolveDeferredReads addr n) (ReadScalar addr n))"

definition Read8 :: "u32 \<Rightarrow> ('a memory_scheme, u8) prog" where
  "Read8 addr = bindP (ReadChecked addr 1) (\<lambda>bs. returnP (bs ! 0))"

definition Read16 :: "u32 \<Rightarrow> ('a memory_scheme, u16) prog" where
  "Read16 addr = bindP (ReadChecked addr 2) (\<lambda>bs. returnP (BigEndian_Read16 bs))"

definition Read32 :: "u32 \<Rightarrow> ('a memory_scheme, u32) prog" where
  "Read32 addr = bindP (ReadChecked addr 4) (\<lambda>bs. returnP (BigEndian_Read32 bs))"

definition GX_HLE_FIFO_Write :: "nat \<Rightarrow> u32 \<Rightarrow> ('a memory_scheme, unit) prog" where
  "GX_HLE_FIFO_Write n val = modifyP (\<lambda>s. s\<lparr>GatherPipe := GatherPipe s @ [(n, val)]\<rparr>)"

definition WriteChecked :: "u32 \<Rightarrow> ('a memory_scheme, unit) prog \<Rightarrow> u8 list \<Rightarrow> ('a memory_scheme, unit) prog" where
  "WriteChecked addr fifo bs =
     (if IsGpuFifoAddress addr then fifo
      else if IsMmioAddress addr then throwP (AccessViolation addr (length bs))
      else WriteScalar addr bs)"

definition Write8 :: "u32 \<Rightarrow> u8 \<Rightarrow> ('a memory_scheme, unit) prog" where
  "Write8 addr val = WriteChecked addr (GX_HLE_FIFO_Write 1 (ucast val)) [val]"

definition Write16 :: "u32 \<Rightarrow> u16 \<Rightarrow> ('a memory_scheme, unit) prog" where
  "Write16 addr val = WriteChecked addr (GX_HLE_FIFO_Write 2 (ucast val)) (BigEndian_Write16 val)"

definition Write32 :: "u32 \<Rightarrow> u32 \<Rightarrow> ('a memory_scheme, unit) prog" where
  "Write32 addr val = WriteChecked addr (GX_HLE_FIFO_Write 4 val) (BigEndian_Write32 val)"

definition Write64 :: "u32 \<Rightarrow> u64 \<Rightarrow> ('a memory_scheme, unit) prog" where
  "Write64 addr val = WriteChecked addr
     (stmts [GX_HLE_FIFO_Write 4 (ucast (drop_bit 32 val)), GX_HLE_FIFO_Write 4 (ucast val)])
     (BigEndian_Write64 val)"

end
