(* ===== verification/Word_Memory.thy ===== *)
theory Word_Memory
  imports Guest_Memory
begin

text \<open>
  What the rest of the runtime relies on when it keeps a data structure in guest RAM:
  aligned 32-bit cells behave like independent variables.  The interface is the locale
  \<open>word_memory\<close>; the laws are proved here for the memory model under the region
  map the runtime installs (\<open>WiiDefaults\<close>), for the cached windows of MEM1 and MEM2,
  and the monadic accessors of \<open>Guest_Memory\<close> are reduced to the pure ones.
\<close>

section \<open>Interface\<close>

locale word_memory =
  fixes rd :: "'m \<Rightarrow> u32 \<Rightarrow> u32"
    and wr :: "'m \<Rightarrow> u32 \<Rightarrow> u32 \<Rightarrow> 'm"
    and ok :: "'m \<Rightarrow> u32 \<Rightarrow> bool"
  assumes rd_wr_same: "ok m a \<Longrightarrow> rd (wr m a v) a = v"
    and rd_wr_other: "ok m a \<Longrightarrow> ok m b \<Longrightarrow> a \<noteq> b \<Longrightarrow> rd (wr m a v) b = rd m b"
    and ok_wr: "ok (wr m a v) b = ok m b"
begin

lemma rd_wr: "ok m a \<Longrightarrow> ok m b \<Longrightarrow> rd (wr m a v) b = (if a = b then v else rd m b)"
  by (simp add: rd_wr_same rd_wr_other)

end

section \<open>Bytes\<close>

lemma length_bytes_at [simp]: "length (bytes_at s p n) = n"
  by (simp add: bytes_at_def)

lemma bytes_at_put_same: "length bs = n \<Longrightarrow> bytes_at (put_bytes p bs s) p n = bs"
  by (rule nth_equalityI) (simp_all add: bytes_at_def put_bytes_def)

lemma bytes_at_put_other:
  "fst p \<noteq> fst q \<or> snd p + length bs \<le> snd q \<or> snd q + n \<le> snd p \<Longrightarrow>
   bytes_at (put_bytes p bs s) q n = bytes_at s q n"
  by (auto simp: bytes_at_def put_bytes_def)

lemma bytes_at_cong: "Storage s = Storage t \<Longrightarrow> bytes_at s p n = bytes_at t p n"
  by (simp add: bytes_at_def)

lemma put_bytes_frame [simp]:
  "Regions (put_bytes p bs s) = Regions s"
  "DeferredReads (put_bytes p bs s) = DeferredReads s"
  "ExecutableRanges (put_bytes p bs s) = ExecutableRanges s"
  "GatherPipe (put_bytes p bs s) = GatherPipe s"
  "ContextLr (put_bytes p bs s) = ContextLr s"
  by (simp_all add: put_bytes_def)

section \<open>The cached RAM windows\<close>

definition ram_window :: "u32 \<Rightarrow> nat \<Rightarrow> bool" where
  "ram_window a n \<longleftrightarrow>
     (0x80000000 \<le> unat a \<and> unat a + n \<le> 0x80000000 + kMem1Size) \<or>
     (0x90000000 \<le> unat a \<and> unat a + n \<le> 0x90000000 + kMem2Size)"

definition ram_loc :: "u32 \<Rightarrow> section_key \<times> nat" where
  "ram_loc a = (if unat a < 0x90000000 then (SecMem1, unat a - 0x80000000)
                else (SecMem2, unat a - 0x90000000))"

definition wii_memory :: "'a memory_scheme \<Rightarrow> bool" where
  "wii_memory s \<longleftrightarrow> Regions s = fst (InitRegions WiiDefaults WiiDefaults) \<and> DeferredReads s = []"

text \<open>\<open>ram s a\<close>: \<open>a\<close> is an aligned, writable word of cached RAM.\<close>

definition ram :: "'a memory_scheme \<Rightarrow> u32 \<Rightarrow> bool" where
  "ram s a \<longleftrightarrow> wii_memory s \<and> 4 dvd unat a \<and> ram_window a 4 \<and> FindExecutableRange s a 4 = None"

text \<open>\<open>ram16 s a\<close>: \<open>a\<close> is one of the two halves of such a word.\<close>

definition ram16 :: "'a memory_scheme \<Rightarrow> u32 \<Rightarrow> bool" where
  "ram16 s a \<longleftrightarrow> (\<exists>c. ram s c \<and> (a = c \<or> a = c + 2))"

definition rd32 :: "'a memory_scheme \<Rightarrow> u32 \<Rightarrow> u32" where
  "rd32 s a = BigEndian_Read32 (bytes_at s (ram_loc a) 4)"

definition wr32 :: "'a memory_scheme \<Rightarrow> u32 \<Rightarrow> u32 \<Rightarrow> 'a memory_scheme" where
  "wr32 s a v = put_bytes (ram_loc a) (BigEndian_Write32 v) s"

definition rd16 :: "'a memory_scheme \<Rightarrow> u32 \<Rightarrow> u16" where
  "rd16 s a = BigEndian_Read16 (bytes_at s (ram_loc a) 2)"

definition wr16 :: "'a memory_scheme \<Rightarrow> u32 \<Rightarrow> u16 \<Rightarrow> 'a memory_scheme" where
  "wr16 s a v = put_bytes (ram_loc a) (BigEndian_Write16 v) s"

definition wii_region_list :: "region list" where
  "wii_region_list = map (\<lambda>(c, p). \<lparr>r_config = c, r_storagePtr = p, r_storageSize = rc_sizeBytes c\<rparr>)
     (zip WiiDefaults
       [(SecMem1, 0), (SecMem1, 0), (SecMem1, 0), (SecMem2, 0), (SecMem2, 0), (SecMem2, 0),
        (SecOwned 0x81800000, 0), (SecOwned 0xE0000000, 0)])"

lemma wii_regions: "fst (InitRegions WiiDefaults WiiDefaults) = wii_region_list"
  by (simp add: wii_region_list_def WiiDefaults_def HostPointer_def ClassifyBacking_def in_window_def
      kMem1Size_def kMem2Size_def kPageSize_def kPageShift_def)

lemma wii_init_ok: "snd (InitRegions WiiDefaults WiiDefaults)"
  by (simp add: WiiDefaults_def HostPointer_def ClassifyBacking_def in_window_def
      kMem1Size_def kMem2Size_def kPageSize_def kPageShift_def)

lemma resolve_window:
  assumes "wii_memory s" and "ram_window a n" and "0 < n"
  shows "\<exists>r. TryResolveRegion s a n = Some r \<and> region_pointer r a = ram_loc a"
proof -
  have regs: "Regions s = wii_region_list"
    using assms(1) by (simp add: wii_memory_def wii_regions)
  from assms(2) consider
      (mem1) "0x80000000 \<le> unat a" "unat a + n \<le> 0x80000000 + kMem1Size"
    | (mem2) "0x90000000 \<le> unat a" "unat a + n \<le> 0x90000000 + kMem2Size"
    by (auto simp: ram_window_def)
  then show ?thesis
  proof cases
    case mem1
    then have "unat (a - 0x80000000) = unat a - 0x80000000"
      by (simp add: unat_sub word_le_nat_alt)
    with mem1 \<open>0 < n\<close> show ?thesis
      by (simp add: TryResolveRegion_def regs wii_region_list_def WiiDefaults_def ram_loc_def
          region_pointer_def kMem1Size_def kMem2Size_def)
  next
    case mem2
    then have "unat (a - 0x90000000) = unat a - 0x90000000"
      by (simp add: unat_sub word_le_nat_alt)
    with mem2 \<open>0 < n\<close> show ?thesis
      by (simp add: TryResolveRegion_def regs wii_region_list_def WiiDefaults_def ram_loc_def
          region_pointer_def kMem1Size_def kMem2Size_def)
  qed
qed

lemma window_not_mmio: "ram_window a n \<Longrightarrow> 0 < n \<Longrightarrow> \<not> IsMmioAddress a \<and> \<not> IsGpuFifoAddress a"
  by (auto simp: ram_window_def IsMmioAddress_def IsGpuFifoAddress_def word_le_nat_alt
      word_less_nat_alt kMem1Size_def kMem2Size_def)

lemma locs_disjoint:
  assumes "ram_window a n" and "ram_window b k" and "0 < n" and "0 < k"
    and "unat a + n \<le> unat b \<or> unat b + k \<le> unat a"
  shows "fst (ram_loc a) \<noteq> fst (ram_loc b) \<or> snd (ram_loc a) + n \<le> snd (ram_loc b) \<or>
         snd (ram_loc b) + k \<le> snd (ram_loc a)"
  using assms by (auto simp: ram_window_def ram_loc_def kMem1Size_def kMem2Size_def)

section \<open>The accessors on RAM\<close>

lemma deferred_none: "DeferredReads s = [] \<Longrightarrow> ResolveDeferredReads a n s = (Ok (), s)"
proof -
  assume "DeferredReads s = []"
  then have "s\<lparr>DeferredReads := [], DeferredReadCoveredPages := DeferredReadCoveredPages s\<rparr> = s"
    by simp
  with \<open>DeferredReads s = []\<close> show ?thesis
    by (simp add: ResolveDeferredReads_def Let_def)
qed

lemma ReadChecked_ram:
  assumes "wii_memory s" and "ram_window a n" and "0 < n"
  shows "ReadChecked a n s = (Ok (bytes_at s (ram_loc a) n), s)"
proof -
  obtain r where r: "TryResolveRegion s a n = Some r" "region_pointer r a = ram_loc a"
    using resolve_window [OF assms] by blast
  have "ResolveDeferredReads a n s = (Ok (), s)"
    using assms(1) by (simp add: wii_memory_def deferred_none)
  moreover have "ReadScalar a n s = (Ok (bytes_at s (ram_loc a) n), s)"
    by (simp add: ReadScalar_def GetPointer_def bindP_def getsP_def r)
  ultimately show ?thesis
    using window_not_mmio [OF assms(2,3)] by (simp add: ReadChecked_def run_simps)
qed

lemma WriteChecked_ram:
  assumes "wii_memory s" and "ram_window a (length bs)" and "bs \<noteq> []"
    and "FindExecutableRange s a (length bs) = None"
  shows "WriteChecked a f bs s = (Ok (), put_bytes (ram_loc a) bs s)"
proof -
  have pos: "0 < length bs" using assms(3) by simp
  obtain r where r: "TryResolveRegion s a (length bs) = Some r" "region_pointer r a = ram_loc a"
    using resolve_window [OF assms(1,2) pos] by blast
  show ?thesis
    using window_not_mmio [OF assms(2) pos] assms(4)
    by (simp add: WriteChecked_def WriteScalar_def HandleExecutableWrite_def bindP_def
        GetPointer_def modifyP_def r)
qed

lemma ram_window_half: "ram_window c 4 \<Longrightarrow> 4 dvd unat c \<Longrightarrow> unat (c + 2) = unat c + 2"
  using unat_add_small [of c 2]
  by (auto simp: ram_window_def kMem1Size_def kMem2Size_def)

lemma find_exec_sub:
  assumes "FindExecutableRange s c n = None" and "unat c \<le> unat a" and "unat a + k \<le> unat c + n"
    and "0 < k"
  shows "FindExecutableRange s a k = None"
  using assms by (force simp: FindExecutableRange_def find_None_iff Intersects_def)

lemma ram16D:
  assumes "ram16 s a"
  shows "wii_memory s" "ram_window a 2" "FindExecutableRange s a 2 = None" "2 dvd unat a"
proof -
  obtain c where c: "ram s c" "a = c \<or> a = c + 2"
    using assms by (auto simp: ram16_def)
  have h: "unat (c + 2) = unat c + 2"
    using c(1) by (intro ram_window_half) (auto simp: ram_def)
  show "wii_memory s" using c(1) by (simp add: ram_def)
  show "ram_window a 2"
    using c h by (auto simp: ram_def ram_window_def)
  have u: "unat a = unat c \<or> unat a = unat c + 2" using c h by auto
  show "FindExecutableRange s a 2 = None"
    by (rule find_exec_sub [of s c 4]) (use c u in \<open>auto simp: ram_def\<close>)
  show "2 dvd unat a"
    using u c(1) by (auto simp: ram_def elim!: dvdE)
qed

lemma Read32_ram [run_simps]: "ram s a \<Longrightarrow> Read32 a s = (Ok (rd32 s a), s)"
  by (simp add: Read32_def bindP_def ReadChecked_ram ram_def rd32_def returnP_def)

lemma Read16_ram [run_simps]: "ram16 s a \<Longrightarrow> Read16 a s = (Ok (rd16 s a), s)"
  by (simp add: Read16_def bindP_def ReadChecked_ram ram16D rd16_def returnP_def)

lemma Write32_ram [run_simps]: "ram s a \<Longrightarrow> Write32 a v s = (Ok (), wr32 s a v)"
  unfolding Write32_def wr32_def
  by (rule WriteChecked_ram) (simp_all add: ram_def)

lemma Write16_ram [run_simps]: "ram16 s a \<Longrightarrow> Write16 a v s = (Ok (), wr16 s a v)"
  unfolding Write16_def wr16_def
  by (rule WriteChecked_ram) (simp_all add: ram16D)

lemma Contains_ram: "ram s a \<Longrightarrow> Contains s a 4"
  using resolve_window [of s a 4] by (auto simp: ram_def Contains_def)

section \<open>Laws\<close>

lemma ram_congI:
  "Regions s = Regions t \<Longrightarrow> DeferredReads s = DeferredReads t \<Longrightarrow>
   ExecutableRanges s = ExecutableRanges t \<Longrightarrow> ram s a = ram t a"
  by (simp add: ram_def wii_memory_def FindExecutableRange_def)

lemma ram_wr [simp]: "ram (wr32 s a v) b = ram s b" "ram (wr16 s a w) b = ram s b"
  by (simp_all add: ram_def wii_memory_def FindExecutableRange_def wr32_def wr16_def)

lemma ram16_wr [simp]: "ram16 (wr32 s a v) b = ram16 s b" "ram16 (wr16 s a w) b = ram16 s b"
  by (simp_all add: ram16_def)

lemma wii_memory_wr [simp]:
  "wii_memory (wr32 s a v) = wii_memory s" "wii_memory (wr16 s a w) = wii_memory s"
  by (simp_all add: wii_memory_def wr32_def wr16_def)

lemma rd32_wr32_same [simp]: "rd32 (wr32 s a v) a = v"
  by (simp add: rd32_def wr32_def bytes_at_put_same)

lemma rd16_wr16_same [simp]: "rd16 (wr16 s a v) a = v"
  by (simp add: rd16_def wr16_def bytes_at_put_same)

lemma aligned_apart: "4 dvd unat (a::u32) \<Longrightarrow> 4 dvd unat b \<Longrightarrow> a \<noteq> b \<Longrightarrow>
    unat a + 4 \<le> unat b \<or> unat b + 4 \<le> unat a"
  by (auto simp: dvd_def word_unat_eq_iff)

lemma rd32_wr32_other: "ram s a \<Longrightarrow> ram s b \<Longrightarrow> a \<noteq> b \<Longrightarrow> rd32 (wr32 s a v) b = rd32 s b"
  using aligned_apart [of a b] locs_disjoint [of a 4 b 4]
  by (simp add: rd32_def wr32_def bytes_at_put_other ram_def)

interpretation gm: word_memory rd32 wr32 ram
  by unfold_locales (simp_all add: rd32_wr32_other)

lemma rd16_wr16_other:
  assumes "ram16 s a" and "ram16 s b" and "a \<noteq> b"
  shows "rd16 (wr16 s a v) b = rd16 s b"
proof -
  have "unat a + 2 \<le> unat b \<or> unat b + 2 \<le> unat a"
    using ram16D(4) [OF assms(1)] ram16D(4) [OF assms(2)] assms(3)
    by (auto simp: dvd_def word_unat_eq_iff)
  then show ?thesis
    using locs_disjoint [of a 2 b 2] ram16D(2) [OF assms(1)] ram16D(2) [OF assms(2)]
    by (simp add: rd16_def wr16_def bytes_at_put_other)
qed

lemma half_word_apart:
  assumes "ram16 s a" and "ram s b" and "a \<noteq> b" and "a \<noteq> b + 2"
  shows "unat a + 2 \<le> unat b \<or> unat b + 4 \<le> unat a"
proof -
  have h: "unat (b + 2) = unat b + 2"
    using assms(2) by (intro ram_window_half) (auto simp: ram_def)
  have "2 dvd unat a" "4 dvd unat b"
    using ram16D(4) [OF assms(1)] assms(2) by (auto simp: ram_def)
  moreover have "unat a \<noteq> unat b" "unat a \<noteq> unat b + 2"
    using assms(3,4) h by (auto simp: word_unat_eq_iff)
  ultimately show ?thesis
    by presburger
qed

lemma rd32_wr16_other:
  "ram16 s a \<Longrightarrow> ram s b \<Longrightarrow> a \<noteq> b \<Longrightarrow> a \<noteq> b + 2 \<Longrightarrow> rd32 (wr16 s a v) b = rd32 s b"
  using half_word_apart [of s a b] locs_disjoint [of a 2 b 4] ram16D(2) [of s a]
  by (simp add: rd32_def wr16_def bytes_at_put_other ram_def)

lemma rd16_wr32_other:
  "ram16 s b \<Longrightarrow> ram s a \<Longrightarrow> b \<noteq> a \<Longrightarrow> b \<noteq> a + 2 \<Longrightarrow> rd16 (wr32 s a v) b = rd16 s b"
  using half_word_apart [of s b a] locs_disjoint [of a 4 b 2] ram16D(2) [of s b]
  by (auto simp add: rd16_def wr32_def bytes_at_put_other ram_def)

end
