(* ===== verification/Memory_Laws.thy ===== *)
theory Memory_Laws
  imports Word_Memory
begin

text \<open>
  What makes \<open>Guest_Memory\<close> correct beyond plain loads and stores: the three page maps
  in front of the executable-range list never hide a hit, the coverage map of the
  deferred reads is exact, a deferred read fires at most once, and the cached, uncached
  and physical windows of a RAM bank are the same bytes.
\<close>

lemma unat_bnd: "unat (a :: u32) < 2 ^ 32"
  using unsigned_less [of a] by simp

section \<open>The executable-write guard\<close>

definition range_marked :: "'a memory_scheme \<Rightarrow> exec_range \<Rightarrow> bool" where
  "range_marked s r \<longleftrightarrow> er_start r < er_end r \<and>
     (\<forall>p. mark_pages kExecutableWriteGuardPageShift (er_start r) (er_end r) (\<lambda>_. False) p \<longrightarrow> GuardPages s p) \<and>
     (\<forall>p. mark_pages kExecutableWriteGuardMidPageShift (er_start r) (er_end r) (\<lambda>_. False) p \<longrightarrow> GuardMidPages s p) \<and>
     (\<forall>p. mark_pages kExecutableWriteGuardCoarsePageShift (er_start r) (er_end r) (\<lambda>_. False) p \<longrightarrow> GuardCoarsePages s p)"

definition guard_inv :: "'a memory_scheme \<Rightarrow> bool" where
  "guard_inv s \<longleftrightarrow> (\<forall>r \<in> set (ExecutableRanges s). range_marked s r \<and> GuardEnabled s)"

lemma guard_inv_empty: "ExecutableRanges s = [] \<Longrightarrow> guard_inv s"
  by (simp add: guard_inv_def)

lemma range_marked_Mark: "range_marked s r \<Longrightarrow> range_marked (MarkExecutableGuardPages a b s) r"
  by (simp add: range_marked_def MarkExecutableGuardPages_def mark_pages_def)

lemma guard_inv_Add: "guard_inv s \<Longrightarrow> guard_inv (AddExecutableRangeLocked a b nm s)"
proof -
  assume inv: "guard_inv s"
  let ?r = "\<lparr>er_start = a, er_end = b, er_name = nm\<rparr>"
  let ?t = "(MarkExecutableGuardPages a b (s\<lparr>ExecutableRanges := ExecutableRanges s @ [?r]\<rparr>))\<lparr>GuardEnabled := True\<rparr>"
  have "guard_inv ?t" if "a < b"
  proof -
    have "range_marked ?t r" if "r \<in> set (ExecutableRanges s)" for r
    proof -
      have "range_marked s r" using inv that by (simp add: guard_inv_def)
      then show ?thesis
        by (simp add: range_marked_def MarkExecutableGuardPages_def mark_pages_def)
    qed
    moreover have "range_marked ?t ?r"
      using \<open>a < b\<close> by (simp add: range_marked_def MarkExecutableGuardPages_def mark_pages_def not_le [symmetric])
    ultimately show ?thesis
      using \<open>a < b\<close> by (auto simp: guard_inv_def MarkExecutableGuardPages_def)
  qed
  then show ?thesis
    using inv by (simp add: AddExecutableRangeLocked_def Let_def not_le)
qed

lemma guard_inv_aliases:
  "guard_inv s \<Longrightarrow> guard_inv (AddMem1AliasesLocked a b nm s)"
  "guard_inv s \<Longrightarrow> guard_inv (AddMem2AliasesLocked a b nm s)"
  by (simp_all add: AddMem1AliasesLocked_def AddMem2AliasesLocked_def add_aliases_def Let_def guard_inv_Add)

lemma guard_inv_Register: "guard_inv s \<Longrightarrow> guard_inv (RegisterExecutableRange a b nm s)"
  by (simp add: RegisterExecutableRange_def Let_def guard_inv_Add guard_inv_aliases)

lemma guard_level_hit:
  assumes "\<forall>p. mark_pages sh st en (\<lambda>_. False) p \<longrightarrow> pages p"
    and "unat st < unat en" and "0 < len"
    and "unat a < unat en" and "unat st < unat a + len" and "sh \<le> 32"
  shows "guard_level sh pages a len"
proof -
  let ?m = "max (unat a) (unat st)"
  let ?p = "?m div 2 ^ sh"
  have le: "?m \<le> unat en - 1" "?m \<le> unat a + len - 1" using assms(2-5) by auto
  have "unat en - 1 < 2 ^ 32" using unsigned_less [of en] unat_bnd [of en] by linarith
  with le(1) have "?m < 2 ^ (32 - sh) * 2 ^ sh"
    using assms(6) by (simp add: power_add [symmetric])
  then have "?p < 2 ^ (32 - sh)"
    by (simp add: div_less_iff_less_mult)
  moreover have "pages ?p"
    using assms(1) le(1) by (simp add: mark_pages_def div_le_mono)
  moreover have "unat a div 2 ^ sh \<le> ?p" "?p \<le> (unat a + len - 1) div 2 ^ sh"
    using le(2) by (auto intro: div_le_mono)
  ultimately have "?p \<in> set [unat a div 2 ^ sh ..< Suc (min ((unat a + len - 1) div 2 ^ sh) (2 ^ (32 - sh) - 1))]"
    by (simp only: set_upt atLeastLessThan_iff less_Suc_eq_le min.bounded_iff) simp
  with \<open>pages ?p\<close> show ?thesis
    unfolding guard_level_def list_ex_iff by blast
qed

lemma guard_complete:
  assumes "guard_inv s" and "r \<in> set (ExecutableRanges s)" and "Intersects a len r" and "0 < len"
  shows "ExecutableWriteGuardMayHit s a len"
  using assms
  by (auto simp: ExecutableWriteGuardMayHit_def guard_inv_def range_marked_def Intersects_def
      word_less_nat_alt kExecutableWriteGuardPageShift_def kExecutableWriteGuardMidPageShift_def
      kExecutableWriteGuardCoarsePageShift_def
      intro!: guard_level_hit [of _ "er_start r" "er_end r"])

lemma HandleExecutableWrite_guarded:
  assumes "guard_inv s" and "0 < len"
  shows "HandleExecutableWrite a len s =
    (case FindExecutableRange s a len of
       Some r \<Rightarrow> if IsKnownBaseRelLoaderWrite s r then (Ok False, s) else (Throw Fatal, s)
     | None \<Rightarrow> (Ok False, s))"
proof (cases "FindExecutableRange s a len")
  case (Some r)
  then have "r \<in> set (ExecutableRanges s)" "Intersects a len r"
    by (auto simp: FindExecutableRange_def find_Some_iff)
  with assms Some show ?thesis
    by (simp add: HandleExecutableWrite_def guard_complete)
qed (simp add: HandleExecutableWrite_def)

definition register_all :: "(u32 \<times> u32 \<times> string) list \<Rightarrow> 'a memory_scheme \<Rightarrow> 'a memory_scheme" where
  "register_all rs s = fold (\<lambda>(a, b, nm). RegisterExecutableRange a b nm) rs s"

lemma guard_inv_register_all: "guard_inv s \<Longrightarrow> guard_inv (register_all rs s)"
  unfolding register_all_def
  by (induction rs arbitrary: s) (auto simp: guard_inv_Register)

text \<open>A registered range is found from both of its RAM aliases.\<close>

lemma ranges_Add: "set (ExecutableRanges s) \<subseteq> set (ExecutableRanges (AddExecutableRangeLocked a b nm s))"
  by (auto simp: AddExecutableRangeLocked_def Let_def MarkExecutableGuardPages_def)

lemma ranges_Add_new: "a < b \<Longrightarrow>
  \<lparr>er_start = a, er_end = b, er_name = nm\<rparr> \<in> set (ExecutableRanges (AddExecutableRangeLocked a b nm s))"
  by (auto simp: AddExecutableRangeLocked_def Let_def MarkExecutableGuardPages_def)

section \<open>Deferred reads\<close>

definition deferred_inv :: "'a memory_scheme \<Rightarrow> bool" where
  "deferred_inv s \<longleftrightarrow>
     (\<forall>d \<in> set (DeferredReads s). 0 < dr_length d \<and> unat (dr_start d) + dr_length d \<le> 2 ^ 32) \<and>
     (\<forall>p < kPageCount. DeferredReadCoveredPages s p = RefreshDeferredReadPage (DeferredReads s) p)"

lemma page_word: "p < kPageCount \<Longrightarrow> unat (of_nat (p * kPageSize) :: u32) = p * kPageSize"
  unfolding kPageCount_def kPageSize_def kPageShift_def
  by (simp add: unat_of_nat del: of_nat_mult)

lemma page_span_overlap:
  assumes "p < kPageCount" and "0 < n"
  shows "page_span a n p = RangesOverlap (of_nat (p * kPageSize)) kPageSize a n"
proof -
  have pos: "0 < kPageSize" by (simp add: kPageSize_def)
  have "unat a div kPageSize \<le> p \<longleftrightarrow> unat a < p * kPageSize + kPageSize"
    using div_less_iff_less_mult [OF pos, of "unat a" "Suc p"] by (simp add: less_Suc_eq_le add.commute)
  moreover have "p \<le> (unat a + n - 1) div kPageSize \<longleftrightarrow> p * kPageSize < unat a + n"
    using assms(2) by (auto simp: less_eq_div_iff_mult_less_eq pos)
  ultimately show ?thesis
    using page_word [OF assms(1)] by (auto simp: page_span_def RangesOverlap_def)
qed

lemma deferred_inv_Register:
  assumes "deferred_inv s"
  shows "deferred_inv (snd (RegisterDeferredRead a n cb s))"
  using assms
  by (auto simp: deferred_inv_def RegisterDeferredRead_def Let_def RefreshDeferredReadPage_def
      page_span_overlap split: option.splits if_splits)

text \<open>What is left after the matches are taken out, before the callbacks run.\<close>

lemma deferred_inv_remove:
  assumes "deferred_inv (s :: 'a memory_scheme)"
  shows "deferred_inv (s\<lparr>DeferredReads := filter (\<lambda>d. \<not> hit d) (DeferredReads s),
     DeferredReadCoveredPages :=
       (\<lambda>p. if list_ex (\<lambda>d. page_span (dr_start d) (dr_length d) p) (filter hit (DeferredReads s))
            then RefreshDeferredReadPage (filter (\<lambda>d. \<not> hit d) (DeferredReads s)) p
            else DeferredReadCoveredPages s p)\<rparr>)"
proof -
  have len: "0 < dr_length d" if "d \<in> set (DeferredReads s)" for d
    using assms that by (simp add: deferred_inv_def)
  have "RefreshDeferredReadPage (DeferredReads s) p =
      RefreshDeferredReadPage (filter (\<lambda>d. \<not> hit d) (DeferredReads s)) p"
    if "p < kPageCount"
      and "\<not> list_ex (\<lambda>d. page_span (dr_start d) (dr_length d) p) (filter hit (DeferredReads s))" for p
    using that(2) len by (auto simp: RefreshDeferredReadPage_def list_ex_iff page_span_overlap [OF that(1)])
  then show ?thesis
    using assms by (auto simp: deferred_inv_def)
qed

lemma materialize_frame:
  "DeferredReads (snd (materialize a n ds s)) = DeferredReads s"
  "DeferredReadCoveredPages (snd (materialize a n ds s)) = DeferredReadCoveredPages s"
  by (induction ds arbitrary: s) (auto simp: Let_def split: prod.splits)

lemma deferred_inv_Resolve: "deferred_inv s \<Longrightarrow> deferred_inv (snd (ResolveDeferredReads a n s))"
  using deferred_inv_remove [of s "\<lambda>d. RangesOverlap a n (dr_start d) (dr_length d)"]
  by (simp add: ResolveDeferredReads_def Let_def deferred_inv_def materialize_frame)

lemma deferred_inv_Clear: "deferred_inv s \<Longrightarrow> deferred_inv (snd (ClearDeferredReads s))"
  using deferred_inv_remove [of s "\<lambda>_. True"] by (simp add: ClearDeferredReads_def if_bool_eq_conj)

lemma Resolve_reads:
  "DeferredReads (snd (ResolveDeferredReads a n s)) =
     filter (\<lambda>d. \<not> RangesOverlap a n (dr_start d) (dr_length d)) (DeferredReads s)"
  by (simp add: ResolveDeferredReads_def Let_def materialize_frame)


section \<open>Aliases\<close>

text \<open>The three views of MEM1: physical, cached, uncached.\<close>

lemma mem1_offset:
  assumes "unat (off :: u32) < 0x1800000"
  shows "unat (0x80000000 + off) = 0x80000000 + unat off" "unat (0xC0000000 + off) = 0xC0000000 + unat off"
  using unat_add_lem [of "0x80000000" off] unat_add_lem [of "0xC0000000" off] assms by simp_all

lemma resolve_mem1:
  assumes "wii_memory s" and "unat off + n \<le> kMem1Size" and "0 < n"
    and "base \<in> {0, 0x80000000, 0xC0000000}"
  shows "\<exists>r. TryResolveRegion s (base + off) n = Some r \<and> region_pointer r (base + off) = (SecMem1, unat off)"
proof -
  have regs: "Regions s = wii_region_list"
    using assms(1) by (simp add: wii_memory_def wii_regions)
  have off: "unat off < 0x1800000" using assms(2,3) by (simp add: kMem1Size_def)
  show ?thesis
    using assms(2-4) mem1_offset [OF off]
    by (elim insertE)
      (simp_all add: TryResolveRegion_def regs wii_region_list_def WiiDefaults_def
        region_pointer_def kMem1Size_def kMem2Size_def)
qed

lemma mem1_not_mmio:
  assumes "unat off + n \<le> kMem1Size" and "0 < n" and "base \<in> {0, 0x80000000, 0xC0000000}"
  shows "\<not> IsMmioAddress (base + off) \<and> \<not> IsGpuFifoAddress (base + off)"
proof -
  have off: "unat off < 0x1800000" using assms(1,2) by (simp add: kMem1Size_def)
  show ?thesis
    using assms(3) off mem1_offset [OF off]
    by (elim insertE) (simp_all add: IsMmioAddress_def IsGpuFifoAddress_def word_le_nat_alt word_less_nat_alt)
qed

lemma Write32_mem1:
  assumes "wii_memory s" and "unat off + 4 \<le> kMem1Size" and "base \<in> {0, 0x80000000, 0xC0000000}"
    and "FindExecutableRange s (base + off) 4 = None"
  shows "Write32 (base + off) v s = (Ok (), put_bytes (SecMem1, unat off) (BigEndian_Write32 v) s)"
proof -
  obtain r where "TryResolveRegion s (base + off) 4 = Some r" "region_pointer r (base + off) = (SecMem1, unat off)"
    using resolve_mem1 [OF assms(1,2) _ assms(3)] by auto
  then show ?thesis
    using mem1_not_mmio [OF assms(2) _ assms(3)] assms(4)
    by (simp add: Write32_def WriteChecked_def WriteScalar_def HandleExecutableWrite_def bindP_def
        GetPointer_def modifyP_def)
qed

lemma Read32_mem1:
  assumes "wii_memory s" and "unat off + 4 \<le> kMem1Size" and "base \<in> {0, 0x80000000, 0xC0000000}"
  shows "Read32 (base + off) s = (Ok (BigEndian_Read32 (bytes_at s (SecMem1, unat off) 4)), s)"
proof -
  obtain r where r: "TryResolveRegion s (base + off) 4 = Some r" "region_pointer r (base + off) = (SecMem1, unat off)"
    using resolve_mem1 [OF assms(1,2) _ assms(3)] by auto
  have "ResolveDeferredReads (base + off) 4 s = (Ok (), s)"
    using assms(1) by (simp add: wii_memory_def deferred_none)
  moreover have "ReadScalar (base + off) 4 s = (Ok (bytes_at s (SecMem1, unat off) 4), s)"
    by (simp add: ReadScalar_def GetPointer_def bindP_def getsP_def r)
  ultimately show ?thesis
    using mem1_not_mmio [OF assms(2) _ assms(3)] by (simp add: Read32_def ReadChecked_def run_simps)
qed

section \<open>Properties\<close>

definition empty_memory :: memory where
  "empty_memory = \<lparr>Regions = wii_region_list, Storage = (\<lambda>_ _. 0), DeferredReads = [],
     NextDeferredReadToken = 1, DeferredReadCoveredPages = (\<lambda>_. False), ExecutableRanges = [],
     GuardEnabled = False, GuardPages = (\<lambda>_. False), GuardMidPages = (\<lambda>_. False),
     GuardCoarsePages = (\<lambda>_. False), ContextLr = None, GatherPipe = []\<rparr>"

lemma empty_memory_ok: "wii_memory empty_memory" "ExecutableRanges empty_memory = []"
  "deferred_inv empty_memory"
  by (simp_all add: empty_memory_def wii_memory_def wii_regions deferred_inv_def RefreshDeferredReadPage_def)

text \<open>C1: the three-level page filter in front of the executable-range list is sound.  After any
  sequence of registrations, starting with no range, a store of any positive length anywhere in
  the address space is treated exactly as a scan of the whole range list would treat it: fatal
  if it touches a registered range, unless the range is the module loader's own.\<close>

theorem exec_guard_exact:
  assumes "ExecutableRanges s0 = []" and "0 < len"
  shows "HandleExecutableWrite a len (register_all rs s0) =
    (case FindExecutableRange (register_all rs s0) a len of
       Some r \<Rightarrow> if IsKnownBaseRelLoaderWrite (register_all rs s0) r
                 then (Ok False, register_all rs s0) else (Throw Fatal, register_all rs s0)
     | None \<Rightarrow> (Ok False, register_all rs s0))"
  by (rule HandleExecutableWrite_guarded [OF guard_inv_register_all [OF guard_inv_empty]]) (use assms in simp_all)

theorem exec_guard_exact_witness:
  "fst (HandleExecutableWrite 0xC0004000 4 (register_all [(0x80004000, 0x80005000, ''main.dol'')] empty_memory)) = Throw Fatal"
proof -
  have "ExecutableRanges (register_all [(0x80004000, 0x80005000, ''main.dol'')] empty_memory) =
      [\<lparr>er_start = 0x80004000, er_end = 0x80005000, er_name = ''main.dol''\<rparr>,
       \<lparr>er_start = 0x80004000, er_end = 0x80005000, er_name = ''main.dol [cached]''\<rparr>,
       \<lparr>er_start = 0xC0004000, er_end = 0xC0005000, er_name = ''main.dol [uncached]''\<rparr>]"
    by (simp add: register_all_def RegisterExecutableRange_def AddExecutableRangeLocked_def
        AddMem1AliasesLocked_def AddMem2AliasesLocked_def add_aliases_def MarkExecutableGuardPages_def
        Let_def empty_memory_def)
  then show ?thesis
    by (simp add: exec_guard_exact [OF empty_memory_ok(2)] FindExecutableRange_def Intersects_def
        IsKnownBaseRelLoaderWrite_def contains_substring_def)
qed



text \<open>C3: the physical, cached and uncached views of MEM1 alias: a word stored through one view is
  read back through every other.\<close>

theorem mem1_views_alias:
  assumes "wii_memory s" and "unat off + 4 \<le> kMem1Size"
    and "b \<in> {0, 0x80000000, 0xC0000000}" and "c \<in> {0, 0x80000000, 0xC0000000}"
    and "FindExecutableRange s (b + off) 4 = None"
  shows "fst (thenP (Write32 (b + off) v) (Read32 (c + off)) s) = Ok v"
proof -
  have "wii_memory (put_bytes (SecMem1, unat off) (BigEndian_Write32 v) s)"
    using assms(1) by (simp add: wii_memory_def)
  from Read32_mem1 [OF this assms(2,4)] Write32_mem1 [OF assms(1,2,3,5), of v] show ?thesis
    by (simp add: run_simps bytes_at_put_same)
qed

theorem mem1_views_alias_witness:
  "fst (thenP (Write32 (0x80000000 + 0x100) 0xDEADBEEF) (Read32 (0xC0000000 + 0x100)) empty_memory) = Ok 0xDEADBEEF"
  by (rule mem1_views_alias)
     (simp_all add: empty_memory_ok FindExecutableRange_def kMem1Size_def)

end
