(* ===== verification/Fast_Path.thy ===== *)
theory Fast_Path
  imports Memory_Laws
begin

text \<open>
  The page tables in front of \<open>Guest_Memory\<close> (\<open>BuildPageTable\<close>,
  \<open>RefreshFastPathTables\<close> of \<open>runtime/src/memory.cpp\<close>) and the inline accessors of
  \<open>runtime/include/memory_access.h\<close> that use them.  The tables are functions of the
  region list, of the deferred-read coverage and of the executable guard maps, which is
  what the code keeps them equal to.  A host pointer is a section and an offset, and an
  encoded bias is the pointer of the first byte of its page; pointers into different
  sections are never adjacent.
\<close>

definition kMaxFastScalarSize :: nat where "kMaxFastScalarSize = 8"

type_synonym host_ptr = "section_key \<times> nat"

definition ptr_add :: "host_ptr \<Rightarrow> nat \<Rightarrow> host_ptr" where
  "ptr_add p n = (fst p, snd p + n)"

text \<open>One region's entries; a later region overwrites an earlier one.\<close>

definition page_entry :: "region \<Rightarrow> nat \<Rightarrow> (host_ptr \<times> nat) option" where
  "page_entry r page =
     (let base = unat (rc_baseAddress (r_config r)); size' = r_storageSize r; pageBase = page * kPageSize
      in if size' \<noteq> 0 \<and> base div kPageSize \<le> page \<and> page \<le> (base + size' - 1) div kPageSize \<and>
            base \<le> pageBase \<and> pageBase - base < size'
         then Some (ptr_add (r_storagePtr r) (pageBase - base), min kPageSize (size' - (pageBase - base)))
         else None)"

fun BuildPageTable :: "region list \<Rightarrow> nat \<Rightarrow> (host_ptr \<times> nat) option" where
  "BuildPageTable [] page = None"
| "BuildPageTable (r # rs) page =
     (case BuildPageTable rs page of Some e \<Rightarrow> Some e | None \<Rightarrow> page_entry r page)"

definition FullPageBias :: "'a memory_scheme \<Rightarrow> nat \<Rightarrow> host_ptr option" where
  "FullPageBias s page =
     (if page + 1 < kPageCount then
        case (BuildPageTable (Regions s) page, BuildPageTable (Regions s) (page + 1)) of
          (Some (b, l), Some (b', l')) \<Rightarrow>
            if l \<noteq> kPageSize \<or> l' < kMaxFastScalarSize - 1 \<or> b' \<noteq> ptr_add b kPageSize
            then None else Some b
        | _ \<Rightarrow> None
      else None)"

definition FullReadablePageBias :: "'a memory_scheme \<Rightarrow> nat \<Rightarrow> host_ptr option" where
  "FullReadablePageBias s page =
     (if DeferredReadCoveredPages s page then None else FullPageBias s page)"

definition FullWritablePageBias :: "'a memory_scheme \<Rightarrow> nat \<Rightarrow> host_ptr option" where
  "FullWritablePageBias s page = (if GuardCoarsePages s page then None else FullPageBias s page)"

definition kWritableSubPagesPerPage :: nat where
  "kWritableSubPagesPerPage = 2 ^ (kPageShift - kExecutableWriteGuardPageShift)"

definition SparseWritablePageTable :: "'a memory_scheme \<Rightarrow> nat \<Rightarrow> (nat \<Rightarrow> host_ptr option) option" where
  "SparseWritablePageTable s page =
     (let bias = FullPageBias s page;
          executable = (\<lambda>sub. GuardPages s (page * kWritableSubPagesPerPage + sub));
          subs = [0..<kWritableSubPagesPerPage]
      in if \<not> GuardCoarsePages s page \<or> bias = None then None
         else if list_ex executable subs \<and> list_ex (\<lambda>sub. \<not> executable sub) subs
         then Some (\<lambda>sub. if executable sub then None else bias)
         else None)"

section \<open>Accessors\<close>

definition TryGetPointerFast :: "'a memory_scheme \<Rightarrow> u32 \<Rightarrow> nat \<Rightarrow> host_ptr option" where
  "TryGetPointerFast s address len =
     (let page = unat address div kPageSize; offset = unat address mod kPageSize
      in case (if len \<le> 8 then FullPageBias s page else None) of
           Some b \<Rightarrow> Some (ptr_add b offset)
         | None \<Rightarrow>
             (case BuildPageTable (Regions s) page of
                None \<Rightarrow> None
              | Some (b, l) \<Rightarrow> if offset + len > l then None else Some (ptr_add b offset)))"

definition TryReadGuestScalar :: "'a memory_scheme \<Rightarrow> u32 \<Rightarrow> nat \<Rightarrow> u8 list option" where
  "TryReadGuestScalar s address n =
     (case FullReadablePageBias s (unat address div kPageSize) of
        None \<Rightarrow> None
      | Some b \<Rightarrow> Some (bytes_at s (ptr_add b (unat address mod kPageSize)) n))"

definition TryGetWritablePointerFast :: "'a memory_scheme \<Rightarrow> u32 \<Rightarrow> nat \<Rightarrow> host_ptr option" where
  "TryGetWritablePointerFast s address len =
     (if len = 0 \<or> len > 8 \<or> unat address + len > 2 ^ 32 then None
      else
        let coarsePage = unat address div kPageSize;
            offset = unat address mod kPageSize;
            endAddress = unat address + len - 1;
            firstExactPage = unat address div 2 ^ kExecutableWriteGuardPageShift;
            lastExactPage = endAddress div 2 ^ kExecutableWriteGuardPageShift;
            guarded = GuardPages s firstExactPage \<or>
              (lastExactPage \<noteq> firstExactPage \<and> GuardPages s lastExactPage)
        in case FullWritablePageBias s coarsePage of
             Some b \<Rightarrow>
               if endAddress div kPageSize \<noteq> coarsePage \<and> GuardPages s lastExactPage
               then None else Some (ptr_add b offset)
           | None \<Rightarrow>
               (case SparseWritablePageTable s coarsePage of
                  Some subTable \<Rightarrow>
                    (case subTable (offset div 2 ^ kExecutableWriteGuardPageShift) of
                       None \<Rightarrow> None
                     | Some b \<Rightarrow> if guarded then None else Some (ptr_add b offset))
                | None \<Rightarrow>
                    (case BuildPageTable (Regions s) coarsePage of
                       None \<Rightarrow> None
                     | Some (b, l) \<Rightarrow>
                         if offset + len > l then None
                         else if guarded then None else Some (ptr_add b offset))))"

definition TryWriteGuestScalar :: "u32 \<Rightarrow> u8 list \<Rightarrow> ('a memory_scheme, bool) prog" where
  "TryWriteGuestScalar address bs s =
     (let n = length bs; coarsePage = unat address div kPageSize;
          endAddress = unat address + n - 1;
          store_at = (\<lambda>b. (Ok True, put_bytes b bs s))
      in if unat address + n > 2 ^ 32 then (Ok False, s)
         else if endAddress div kPageSize \<noteq> coarsePage then (Ok False, s)
         else case FullWritablePageBias s coarsePage of
                Some b \<Rightarrow> store_at (ptr_add b (unat address mod kPageSize))
              | None \<Rightarrow>
                  (case TryGetWritablePointerFast s address n of
                     None \<Rightarrow> (Ok False, s)
                   | Some p \<Rightarrow> store_at p))"

text \<open>\<open>Memory::Read32\<close> and \<open>Memory::Write32\<close> with the fast path in front.\<close>

definition Memory_Read32 :: "u32 \<Rightarrow> ('a memory_scheme, u32) prog" where
  "Memory_Read32 addr s =
     (case TryReadGuestScalar s addr 4 of
        Some bs \<Rightarrow> (Ok (BigEndian_Read32 bs), s)
      | None \<Rightarrow> Read32 addr s)"

definition Memory_Write32 :: "u32 \<Rightarrow> u32 \<Rightarrow> ('a memory_scheme, unit) prog" where
  "Memory_Write32 addr val =
     bindP (TryWriteGuestScalar addr (BigEndian_Write32 val)) (\<lambda>ok.
       if \<not> ok then Write32 addr val else returnP ())"

section \<open>The tables describe the regions\<close>

lemma BuildPageTable_region:
  "BuildPageTable rs page = Some e \<Longrightarrow> \<exists>r \<in> set rs. page_entry r page = Some e"
  by (induction rs) (auto split: option.splits)

lemma page_entryD:
  assumes "page_entry r page = Some (b, l)"
  shows "unat (rc_baseAddress (r_config r)) \<le> page * kPageSize"
    "page * kPageSize - unat (rc_baseAddress (r_config r)) < r_storageSize r"
    "b = ptr_add (r_storagePtr r) (page * kPageSize - unat (rc_baseAddress (r_config r)))"
    "l = min kPageSize (r_storageSize r - (page * kPageSize - unat (rc_baseAddress (r_config r))))"
  using assms by (auto simp: page_entry_def Let_def split: if_splits)

text \<open>Two regions of the Wii map with an address in common are the same.\<close>

lemma wii_regions_disjoint:
  assumes "r \<in> set wii_region_list" and "q \<in> set wii_region_list"
    and "unat (rc_baseAddress (r_config r)) \<le> a" "a < unat (rc_baseAddress (r_config r)) + r_storageSize r"
    and "unat (rc_baseAddress (r_config q)) \<le> a" "a < unat (rc_baseAddress (r_config q)) + r_storageSize q"
  shows "r = q"
  using assms
  by (simp add: wii_region_list_def WiiDefaults_def kMem1Size_def kMem2Size_def kPageSize_def kPageShift_def)
     (elim disjE; simp)

lemma wii_resolve:
  assumes regs: "Regions s = wii_region_list" and r: "r \<in> set wii_region_list" and "0 < n"
    and "unat (rc_baseAddress (r_config r)) \<le> unat a"
    and "unat a + n \<le> unat (rc_baseAddress (r_config r)) + r_storageSize r"
  shows "TryResolveRegion s a n = Some r"
proof -
  let ?P = "\<lambda>r. unat (rc_baseAddress (r_config r)) \<le> unat a \<and>
      unat a + n \<le> unat (rc_baseAddress (r_config r)) + r_storageSize r"
  obtain q where q: "find ?P wii_region_list = Some q"
    using r assms(4,5) by (fastforce simp: find_None_iff intro: option.exhaust_sel)
  then have "q \<in> set wii_region_list" "?P q"
    by (auto simp: find_Some_iff)
  then have "q = r"
    using wii_regions_disjoint [of q r "unat a"] r assms(3-5) by linarith
  then show ?thesis
    using q by (simp add: TryResolveRegion_def regs)
qed

lemma wii_storage: "r \<in> set wii_region_list \<Longrightarrow> snd (r_storagePtr r) = 0"
  by (auto simp: wii_region_list_def WiiDefaults_def)

lemma wii_same_base:
  "r \<in> set wii_region_list \<Longrightarrow> q \<in> set wii_region_list \<Longrightarrow>
   rc_baseAddress (r_config r) = rc_baseAddress (r_config q) \<Longrightarrow> r = q"
  by (simp add: wii_region_list_def WiiDefaults_def) (elim disjE; simp)

lemma wii_not_mmio:
  assumes "r \<in> set wii_region_list" and "unat (rc_baseAddress (r_config r)) \<le> unat a"
    and "unat a < unat (rc_baseAddress (r_config r)) + r_storageSize r"
  shows "\<not> IsMmioAddress a \<and> \<not> IsGpuFifoAddress a"
  using assms
  by (simp add: wii_region_list_def WiiDefaults_def kMem1Size_def kMem2Size_def kPageSize_def
      kPageShift_def IsMmioAddress_def IsGpuFifoAddress_def word_le_nat_alt word_less_nat_alt)
     (elim disjE; simp)

lemma page_offset: "unat a div kPageSize * kPageSize + unat a mod kPageSize = unat a"
  by simp

lemma region_pointer_page:
  assumes "unat (rc_baseAddress (r_config r)) \<le> unat a div kPageSize * kPageSize"
  shows "region_pointer r a = ptr_add (ptr_add (r_storagePtr r)
      (unat a div kPageSize * kPageSize - unat (rc_baseAddress (r_config r)))) (unat a mod kPageSize)"
proof -
  have "rc_baseAddress (r_config r) \<le> a"
    unfolding word_le_nat_alt using assms page_offset [of a] by linarith
  then have "unat (a - rc_baseAddress (r_config r)) = unat a - unat (rc_baseAddress (r_config r))"
    by (simp add: unat_sub)
  moreover have "unat a - unat (rc_baseAddress (r_config r)) =
      (unat a div kPageSize * kPageSize - unat (rc_baseAddress (r_config r))) + unat a mod kPageSize"
    using assms page_offset [of a] by linarith
  ultimately show ?thesis
    by (simp add: region_pointer_def ptr_add_def)
qed

text \<open>What a page-table entry promises about an access of \<open>n\<close> bytes.\<close>

definition resolves_to :: "'a memory_scheme \<Rightarrow> u32 \<Rightarrow> nat \<Rightarrow> host_ptr \<Rightarrow> bool" where
  "resolves_to s a n p \<longleftrightarrow>
     (\<exists>r. TryResolveRegion s a n = Some r \<and> region_pointer r a = p) \<and>
     \<not> IsMmioAddress a \<and> \<not> IsGpuFifoAddress a"

lemma resolves_toI:
  assumes "Regions s = wii_region_list" and "r \<in> set wii_region_list" and "0 < n"
    and "page_entry r (unat a div kPageSize) = Some (b, l)"
    and "unat a mod kPageSize + n \<le> r_storageSize r -
        (unat a div kPageSize * kPageSize - unat (rc_baseAddress (r_config r)))"
  shows "resolves_to s a n (ptr_add b (unat a mod kPageSize))"
proof -
  note P = page_entryD [OF assms(4)]
  have "unat (rc_baseAddress (r_config r)) \<le> unat a"
    "unat a + n \<le> unat (rc_baseAddress (r_config r)) + r_storageSize r"
    using P(1,2) assms(5) page_offset [of a] by linarith+
  then show ?thesis
    unfolding resolves_to_def
    using wii_resolve [OF assms(1,2,3)] wii_not_mmio [OF assms(2)] assms(3)
      region_pointer_page [OF P(1)] P(3) by auto
qed

lemma entry_resolves:
  assumes "Regions s = wii_region_list" and "0 < n"
    and "BuildPageTable (Regions s) (unat a div kPageSize) = Some (b, l)"
    and "unat a mod kPageSize + n \<le> l"
  shows "resolves_to s a n (ptr_add b (unat a mod kPageSize))"
proof -
  obtain r where r: "r \<in> set wii_region_list" "page_entry r (unat a div kPageSize) = Some (b, l)"
    using BuildPageTable_region [OF assms(3)] assms(1) by auto
  show ?thesis
    using page_entryD(4) [OF r(2)] assms(4) by (intro resolves_toI [OF assms(1) r(1) assms(2) r(2)]) simp
qed

lemma bias_resolves:
  assumes regs: "Regions s = wii_region_list" and n: "0 < n" "n \<le> kMaxFastScalarSize"
    and b: "FullPageBias s (unat a div kPageSize) = Some b"
  shows "resolves_to s a n (ptr_add b (unat a mod kPageSize))"
proof -
  let ?p = "unat a div kPageSize"
  obtain l b' l' where e: "BuildPageTable (Regions s) ?p = Some (b, kPageSize)"
      "BuildPageTable (Regions s) (?p + 1) = Some (b', l')" "kMaxFastScalarSize - 1 \<le> l'" "b' = ptr_add b kPageSize"
    using b by (auto simp: FullPageBias_def split: if_splits option.splits)
  obtain r where r: "r \<in> set wii_region_list" "page_entry r ?p = Some (b, kPageSize)"
    using BuildPageTable_region [OF e(1)] regs by auto
  obtain q where q: "q \<in> set wii_region_list" "page_entry q (?p + 1) = Some (b', l')"
    using BuildPageTable_region [OF e(2)] regs by auto
  note R = page_entryD [OF r(2)] and Q = page_entryD [OF q(2)]
  have "unat (rc_baseAddress (r_config q)) = unat (rc_baseAddress (r_config r))"
    using R(1,3) Q(1,3) e(4) wii_storage [OF r(1)] wii_storage [OF q(1)]
    by (auto simp: ptr_add_def)
  then have "q = r"
    using wii_same_base [OF q(1) r(1)] by (simp add: word_unat_eq_iff)
  have "kMaxFastScalarSize - 1 \<le> r_storageSize r - ((?p + 1) * kPageSize - unat (rc_baseAddress (r_config r)))"
    using Q(4) e(3) \<open>q = r\<close> by simp
  moreover have "unat a mod kPageSize < kPageSize" by (simp add: kPageSize_def)
  moreover have "(?p + 1) * kPageSize = ?p * kPageSize + kPageSize" by simp
  moreover have "kMaxFastScalarSize = 8" by (simp add: kMaxFastScalarSize_def)
  ultimately show ?thesis
    using R(1) n by (intro resolves_toI [OF regs r(1) n(1) r(2)]) linarith
qed

section \<open>The fast path agrees with the checked path\<close>

lemma no_deferred_overlap:
  assumes inv: "deferred_inv s" and "0 < n" and "unat a + n \<le> 2 ^ 32"
    and "\<not> DeferredReadCoveredPages s (unat a div kPageSize)"
    and "\<not> DeferredReadCoveredPages s ((unat a + n - 1) div kPageSize)"
    and "n \<le> kPageSize" and "d \<in> set (DeferredReads s)"
  shows "\<not> RangesOverlap a n (dr_start d) (dr_length d)"
proof
  assume ov: "RangesOverlap a n (dr_start d) (dr_length d)"
  let ?x = "max (unat a) (unat (dr_start d))"
  have x: "unat a \<le> ?x" "?x \<le> unat a + n - 1" "unat (dr_start d) \<le> ?x" "?x < unat (dr_start d) + dr_length d"
    using ov assms(2) inv assms(7) by (auto simp: RangesOverlap_def deferred_inv_def)
  have pos: "0 < kPageSize" by (simp add: kPageSize_def)
  have end_le: "(unat a + n - 1) div kPageSize \<le> unat a div kPageSize + 1"
  proof -
    have "(unat a + n - 1) div kPageSize \<le> (unat a + kPageSize) div kPageSize"
      using assms(6) by (intro div_le_mono) simp
    then show ?thesis using pos by (simp add: div_add_self2)
  qed
  have "unat a div kPageSize \<le> ?x div kPageSize" "?x div kPageSize \<le> (unat a + n - 1) div kPageSize"
    using x(1,2) by (simp_all add: div_le_mono)
  then have "?x div kPageSize = unat a div kPageSize \<or> ?x div kPageSize = (unat a + n - 1) div kPageSize"
    using end_le by linarith
  then have nc: "\<not> DeferredReadCoveredPages s (?x div kPageSize)"
    using assms(4,5) by metis
  have "?x < 2 ^ 32" using x(2) assms(2,3) by linarith
  then have lt: "?x div kPageSize < kPageCount"
    by (simp add: kPageSize_def kPageCount_def kPageShift_def div_less_iff_less_mult)
  have "page_span (dr_start d) (dr_length d) (?x div kPageSize)"
  proof -
    have "?x \<le> unat (dr_start d) + dr_length d - 1" using x(4) by linarith
    then show ?thesis using x(3) by (simp only: page_span_def div_le_mono)
  qed
  then have "RefreshDeferredReadPage (DeferredReads s) (?x div kPageSize)"
    using page_span_overlap [OF lt] assms(7) inv by (auto simp: RefreshDeferredReadPage_def list_ex_iff deferred_inv_def)
  with nc lt inv show False by (simp add: deferred_inv_def)
qed

lemma Resolve_none:
  assumes "\<forall>d \<in> set (DeferredReads s). \<not> RangesOverlap a n (dr_start d) (dr_length d)"
  shows "ResolveDeferredReads a n s = (Ok (), s)"
proof -
  have "filter (\<lambda>d. RangesOverlap a n (dr_start d) (dr_length d)) (DeferredReads s) = []"
    "filter (\<lambda>d. \<not> RangesOverlap a n (dr_start d) (dr_length d)) (DeferredReads s) = DeferredReads s"
    using assms by (simp_all add: filter_empty_conv filter_id_conv)
  then show ?thesis by (simp add: ResolveDeferredReads_def Let_def)
qed

lemma resolves_bound: "resolves_to s a n p \<Longrightarrow> Regions s = wii_region_list \<Longrightarrow> unat a + n \<le> 2 ^ 32"
  by (auto simp: resolves_to_def TryResolveRegion_def find_Some_iff wii_region_list_def WiiDefaults_def
      kMem1Size_def kMem2Size_def kPageSize_def kPageShift_def nth_Cons' split: if_splits)

lemma fast_read_slow:
  assumes "Regions s = wii_region_list" and "deferred_inv s" and "0 < n" and "n \<le> kMaxFastScalarSize"
    and "(unat a + n - 1) div kPageSize = unat a div kPageSize"
    and "TryReadGuestScalar s a n = Some bs"
  shows "ReadChecked a n s = (Ok bs, s)"
proof -
  obtain b where b: "\<not> DeferredReadCoveredPages s (unat a div kPageSize)"
      "FullPageBias s (unat a div kPageSize) = Some b"
      "bs = bytes_at s (ptr_add b (unat a mod kPageSize)) n"
    using assms(6) by (auto simp: TryReadGuestScalar_def FullReadablePageBias_def split: option.splits if_splits)
  note R = bias_resolves [OF assms(1,3,4) b(2)]
  have "n \<le> kPageSize" using assms(4) by (simp add: kMaxFastScalarSize_def kPageSize_def kPageShift_def)
  then have "ResolveDeferredReads a n s = (Ok (), s)"
    using no_deferred_overlap [OF assms(2,3) resolves_bound [OF R assms(1)] b(1)] assms(5) b(1)
    by (intro Resolve_none) simp
  then show ?thesis
    using R by (auto simp: ReadChecked_def run_simps ReadScalar_def GetPointer_def bindP_def getsP_def
        resolves_to_def b(3))
qed

lemma guard_level_one:
  assumes "guard_level sh pages a n" and "(unat a + n - 1) div 2 ^ sh = unat a div 2 ^ sh"
  shows "pages (unat a div 2 ^ sh)"
proof -
  obtain p where "pages p" "unat a div 2 ^ sh \<le> p" "p \<le> (unat a + n - 1) div 2 ^ sh"
    using assms(1) unfolding guard_level_def list_ex_iff
    by (auto simp del: upt_Suc simp: less_Suc_eq_le)
  then show ?thesis using assms(2) by (metis le_antisym)
qed

text \<open>An access of at most eight bytes touches at most two 4 KiB pages.\<close>

lemma guard_level_two:
  assumes "guard_level sh pages a n" and "0 < n" and "n \<le> 2 ^ sh"
  shows "pages (unat a div 2 ^ sh) \<or> pages ((unat a + n - 1) div 2 ^ sh)"
proof -
  obtain p where p: "pages p" "unat a div 2 ^ sh \<le> p" "p \<le> (unat a + n - 1) div 2 ^ sh"
    using assms(1) unfolding guard_level_def list_ex_iff
    by (auto simp del: upt_Suc simp: less_Suc_eq_le)
  have "(unat a + n - 1) div 2 ^ sh \<le> (unat a + 2 ^ sh) div 2 ^ sh"
    using assms(3) by (intro div_le_mono) simp
  then have "(unat a + n - 1) div 2 ^ sh \<le> unat a div 2 ^ sh + 1"
    by (simp add: div_add_self2)
  then have "p = unat a div 2 ^ sh \<or> p = (unat a + n - 1) div 2 ^ sh"
    using p(2,3) by linarith
  then show ?thesis using p(1) by auto
qed

text \<open>What a successful fast lookup has checked.\<close>

lemma TryGetWritable_guard:
  assumes "TryGetWritablePointerFast s a n = Some p" and "FullWritablePageBias s (unat a div kPageSize) = None"
  shows "\<not> GuardPages s (unat a div 2 ^ kExecutableWriteGuardPageShift)"
    "\<not> GuardPages s ((unat a + n - 1) div 2 ^ kExecutableWriteGuardPageShift)"
  using assms unfolding TryGetWritablePointerFast_def Let_def SparseWritablePageTable_def
  by (auto split: if_splits option.splits)

lemma TryGetWritable_bias:
  assumes "TryGetWritablePointerFast s a n = Some p" and "FullWritablePageBias s (unat a div kPageSize) = None"
  shows "\<exists>b. p = ptr_add b (unat a mod kPageSize) \<and>
      (FullPageBias s (unat a div kPageSize) = Some b \<or>
       (\<exists>l. BuildPageTable (Regions s) (unat a div kPageSize) = Some (b, l) \<and> unat a mod kPageSize + n \<le> l))"
  using assms unfolding TryGetWritablePointerFast_def Let_def SparseWritablePageTable_def
  by (auto split: if_splits option.splits simp: not_less; blast)

lemma TryWrite_result:
  "\<exists>ok t. TryWriteGuestScalar a bs s = (Ok ok, t) \<and> (\<not> ok \<longrightarrow> t = s)"
  by (cases "TryWriteGuestScalar a bs s")
    (auto simp: TryWriteGuestScalar_def Let_def split: option.splits if_splits)

lemma WriteChecked_resolved:
  assumes "resolves_to s a (length bs) p" and "\<not> ExecutableWriteGuardMayHit s a (length bs)"
  shows "WriteChecked a f bs s = (Ok (), put_bytes p bs s)"
  using assms
  by (auto simp: WriteChecked_def WriteScalar_def HandleExecutableWrite_def bindP_def GetPointer_def
      modifyP_def resolves_to_def)

lemma guard_off_coarse:
  assumes "\<not> GuardCoarsePages s (unat a div kPageSize)" and "(unat a + n - 1) div kPageSize = unat a div kPageSize"
  shows "\<not> ExecutableWriteGuardMayHit s a n"
  using assms guard_level_one [of kExecutableWriteGuardCoarsePageShift "GuardCoarsePages s" a n]
  by (auto simp: ExecutableWriteGuardMayHit_def kPageSize_def kPageShift_def kExecutableWriteGuardCoarsePageShift_def)

lemma guard_off_exact:
  assumes "\<not> GuardPages s (unat a div 2 ^ kExecutableWriteGuardPageShift)"
    and "\<not> GuardPages s ((unat a + n - 1) div 2 ^ kExecutableWriteGuardPageShift)" and "0 < n" "n \<le> 8"
  shows "\<not> ExecutableWriteGuardMayHit s a n"
  using assms guard_level_two [of kExecutableWriteGuardPageShift "GuardPages s" a n]
  by (auto simp: ExecutableWriteGuardMayHit_def kExecutableWriteGuardPageShift_def)

lemma fast_write_slow:
  assumes regs: "Regions s = wii_region_list" and bs: "bs \<noteq> []" "length bs \<le> 8"
    and w: "TryWriteGuestScalar a bs s = (Ok True, t)"
  shows "WriteChecked a f bs s = (Ok (), t)"
proof -
  let ?n = "length bs" and ?p = "unat a div kPageSize" and ?o = "unat a mod kPageSize"
  have n: "0 < ?n" "?n \<le> kMaxFastScalarSize" using bs by (simp_all add: kMaxFastScalarSize_def)
  from w have page: "(unat a + ?n - 1) div kPageSize = ?p"
    by (auto simp: TryWriteGuestScalar_def Let_def split: if_splits)
  show ?thesis
  proof (cases "FullWritablePageBias s ?p")
    case (Some b)
    then have "FullPageBias s ?p = Some b" "\<not> GuardCoarsePages s ?p"
      by (auto simp: FullWritablePageBias_def split: if_splits)
    moreover have "t = put_bytes (ptr_add b ?o) bs s"
      using w Some by (auto simp: TryWriteGuestScalar_def Let_def split: if_splits)
    ultimately show ?thesis
      using WriteChecked_resolved [OF bias_resolves [OF regs n]] guard_off_coarse page by metis
  next
    case None
    then obtain p where p: "TryGetWritablePointerFast s a ?n = Some p" "t = put_bytes p bs s"
      using w by (auto simp: TryWriteGuestScalar_def Let_def split: if_splits option.splits)
    note G = TryGetWritable_guard [OF p(1) None]
    obtain b where b: "p = ptr_add b ?o"
        "FullPageBias s ?p = Some b \<or> (\<exists>l. BuildPageTable (Regions s) ?p = Some (b, l) \<and> ?o + ?n \<le> l)"
      using TryGetWritable_bias [OF p(1) None] by blast
    have "resolves_to s a ?n p"
      using b(2) bias_resolves [OF regs n] entry_resolves [OF regs n(1)] unfolding b(1) by blast
    then show ?thesis
      using WriteChecked_resolved guard_off_exact [OF G(1,2) n(1) bs(2)] p(2) by metis
  qed
qed



text \<open>A deferred read pending on the second page of MEM1 only.\<close>

definition straddle_memory :: memory where
  "straddle_memory = snd (RegisterDeferredRead 0x80100000 4
     (Some (\<lambda>st. (True, st(SecMem1 := (st SecMem1)(0x100000 := 0xAB))))) empty_memory)"

lemma straddle_stale:
  "fst (Memory_Read32 0x800FFFFE straddle_memory) = Ok 0 \<and>
   fst (Read32 0x800FFFFE straddle_memory) = Ok 0xAB00"
proof -
  have d: "DeferredReads straddle_memory = [\<lparr>dr_token = 1, dr_start = 0x80100000, dr_length = 4,
      dr_callback = (\<lambda>st. (True, st(SecMem1 := (st SecMem1)(0x100000 := 0xAB))))\<rparr>]"
    and r: "Regions straddle_memory = wii_region_list" and m: "Storage straddle_memory = (\<lambda>_ _. 0)"
    and c: "DeferredReadCoveredPages straddle_memory 0x800 = False"
    by (simp_all add: straddle_memory_def RegisterDeferredRead_def empty_memory_def Let_def
        page_span_def kPageSize_def kPageShift_def)
  have t: "BuildPageTable wii_region_list 0x800 = Some ((SecMem1, 0), 0x100000)"
      "BuildPageTable wii_region_list 0x801 = Some ((SecMem1, 0x100000), 0x100000)"
    by (simp_all add: wii_region_list_def WiiDefaults_def page_entry_def Let_def ptr_add_def
        kMem1Size_def kMem2Size_def kPageSize_def kPageShift_def)
  have "TryReadGuestScalar straddle_memory 0x800FFFFE 4 = Some (bytes_at straddle_memory (SecMem1, 0xFFFFE) 4)"
    using t by (simp add: TryReadGuestScalar_def FullReadablePageBias_def FullPageBias_def r c ptr_add_def
        kPageSize_def kPageShift_def kPageCount_def kMaxFastScalarSize_def)
  moreover have "bytes_at straddle_memory (SecMem1, 0xFFFFE) 4 = [0, 0, 0, 0]"
    by (simp add: bytes_at_def m upt_rec)
  moreover have "fst (Read32 0x800FFFFE straddle_memory) = Ok 0xAB00"
    by (simp add: Read32_def ReadChecked_def bindP_def thenP_def ResolveDeferredReads_def d Let_def
        RangesOverlap_def ReadScalar_def GetPointer_def TryResolveRegion_def r wii_region_list_def
        WiiDefaults_def region_pointer_def getsP_def returnP_def bytes_at_def m upt_rec
        kMem1Size_def kMem2Size_def IsMmioAddress_def BigEndian_Read32_def)
  ultimately show ?thesis
    by (simp add: Memory_Read32_def BigEndian_Read32_def)
qed

text \<open>C5: a 32-bit load through the page tables equals the checked load, deferred reads included, for every load that
  does not straddle a 1 MiB page.  The restriction is needed: with a deferred read pending on the second page only, a
  load that straddles the page boundary is served by the first page's entry and returns the stale bytes, where the
  checked load runs the callback first.\<close>

theorem fast_read_equiv:
  assumes "Regions s = wii_region_list" and "deferred_inv s"
    and "(unat addr + 3) div kPageSize = unat addr div kPageSize"
  shows "Memory_Read32 addr s = Read32 addr s \<and>
    fst (Memory_Read32 0x800FFFFE straddle_memory) = Ok 0 \<and> fst (Read32 0x800FFFFE straddle_memory) = Ok 0xAB00"
proof (rule conjI [OF _ straddle_stale])
  show "Memory_Read32 addr s = Read32 addr s"
  proof (cases "TryReadGuestScalar s addr 4")
    case (Some bs)
    then have "ReadChecked addr 4 s = (Ok bs, s)"
      using assms by (intro fast_read_slow) (simp_all add: kMaxFastScalarSize_def add.commute)
    then show ?thesis using Some by (simp add: Memory_Read32_def Read32_def run_simps)
  qed (simp add: Memory_Read32_def)
qed

theorem fast_read_equiv_witness:
  "Memory_Read32 0x80001000 empty_memory = Read32 0x80001000 empty_memory"
proof -
  have "Regions empty_memory = wii_region_list" "deferred_inv empty_memory"
    "(unat (0x80001000 :: u32) + 3) div kPageSize = unat (0x80001000 :: u32) div kPageSize"
    by (simp_all add: empty_memory_ok, simp_all add: empty_memory_def kPageSize_def kPageShift_def)
  then show ?thesis by (blast dest: fast_read_equiv)
qed

end
