(* ===== verification/Guest_List.thy ===== *)
theory Guest_List
  imports Word_Memory
begin

text \<open>
  Doubly linked lists in guest memory: \<open>UnlinkGuestListNode\<close> of
  \<open>runtime/src/hle/os/os_internal.h\<close> and what it and the insertions of
  \<open>os_thread.cpp\<close>/\<open>os_scheduler.cpp\<close> do to the list a head and a tail slot stand
  for.  The list shape is \<open>dll\<close>, a predicate on a function from cells to words; the
  lemmas are about function updates and reach guest memory through \<open>word_memory\<close>.
\<close>

section \<open>Sequences of stores\<close>

fun writes :: "('m \<Rightarrow> u32 \<Rightarrow> u32 \<Rightarrow> 'm) \<Rightarrow> 'm \<Rightarrow> (u32 \<times> u32) list \<Rightarrow> 'm" where
  "writes wr m [] = m"
| "writes wr m ((a, v) # ps) = writes wr (wr m a v) ps"

fun upds :: "(u32 \<Rightarrow> u32) \<Rightarrow> (u32 \<times> u32) list \<Rightarrow> u32 \<Rightarrow> u32" where
  "upds f [] = f"
| "upds f ((a, v) # ps) = upds (f(a := v)) ps"

lemma upds_agree: "f c = g c \<Longrightarrow> upds f ps c = upds g ps c"
proof (induction ps arbitrary: f g)
  case (Cons p ps)
  obtain a v where p: "p = (a, v)" by (cases p)
  have "(f(a := v)) c = (g(a := v)) c" using Cons.prems by simp
  then show ?case unfolding p upds.simps by (rule Cons.IH)
qed simp

lemma upds_other: "c \<notin> fst ` set ps \<Longrightarrow> upds f ps c = f c"
proof (induction ps arbitrary: f)
  case (Cons p ps)
  then show ?case by (cases p) simp
qed simp

lemma upds_append: "upds f (ps @ qs) = upds (upds f ps) qs"
proof (induction ps arbitrary: f)
  case (Cons p ps)
  show ?case by (cases p) (simp only: append_Cons upds.simps Cons.IH)
qed simp

lemma writes_append: "writes wr m (ps @ qs) = writes wr (writes wr m ps) qs"
  by (induction wr m ps rule: writes.induct) simp_all

context word_memory
begin

lemma ok_writes [simp]: "ok (writes wr m ps) c = ok m c"
proof (induction ps arbitrary: m)
  case (Cons p ps)
  show ?case by (cases p) (simp add: Cons.IH ok_wr)
qed simp

lemma rd_writes:
  "\<forall>a \<in> fst ` set ps. ok m a \<Longrightarrow> ok m c \<Longrightarrow> rd (writes wr m ps) c = upds (rd m) ps c"
proof (induction ps arbitrary: m)
  case (Cons p ps)
  obtain a v where p: "p = (a, v)" by (cases p)
  have a: "ok m a" and r: "\<forall>b \<in> fst ` set ps. ok (wr m a v) b"
    using Cons.prems(1) by (simp_all add: p ok_wr)
  have "rd (writes wr (wr m a v) ps) c = upds (rd (wr m a v)) ps c"
    by (rule Cons.IH [OF r]) (simp add: ok_wr Cons.prems(2))
  also have "\<dots> = upds ((rd m)(a := v)) ps c"
    by (rule upds_agree) (simp add: rd_wr a Cons.prems(2))
  finally show ?case by (simp add: p)
qed simp

end

section \<open>List shape\<close>

definition first0 :: "u32 list \<Rightarrow> u32" where
  "first0 xs = (if xs = [] then 0 else hd xs)"

definition last0 :: "u32 list \<Rightarrow> u32" where
  "last0 xs = (if xs = [] then 0 else last xs)"

text \<open>\<open>dseg f nx pv p xs n\<close>: the nodes \<open>xs\<close> are linked, between \<open>p\<close> and \<open>n\<close>.\<close>

fun dseg :: "(u32 \<Rightarrow> u32) \<Rightarrow> u32 \<Rightarrow> u32 \<Rightarrow> u32 \<Rightarrow> u32 list \<Rightarrow> u32 \<Rightarrow> bool" where
  "dseg f nx pv p [] n \<longleftrightarrow> True"
| "dseg f nx pv p (x # xs) n \<longleftrightarrow>
     x \<noteq> 0 \<and> f (x + pv) = p \<and> f (x + nx) = (if xs = [] then n else hd xs) \<and> dseg f nx pv x xs n"

definition dll :: "(u32 \<Rightarrow> u32) \<Rightarrow> u32 \<Rightarrow> u32 \<Rightarrow> u32 \<Rightarrow> u32 \<Rightarrow> u32 list \<Rightarrow> bool" where
  "dll f nx pv h t xs \<longleftrightarrow>
     f h = first0 xs \<and> f t = last0 xs \<and> dseg f nx pv 0 xs 0 \<and> distinct xs"

text \<open>The cells of the nodes and of the two slots do not overlap.\<close>

definition node_sep :: "u32 \<Rightarrow> u32 \<Rightarrow> u32 \<Rightarrow> u32 \<Rightarrow> u32 set \<Rightarrow> bool" where
  "node_sep nx pv h t X \<longleftrightarrow>
     h \<noteq> t \<and> (\<forall>x\<in>X. x + nx \<noteq> h \<and> x + nx \<noteq> t \<and> x + pv \<noteq> h \<and> x + pv \<noteq> t \<and>
       (\<forall>y\<in>X. x + nx \<noteq> y + pv))"

lemma node_sep_mono: "node_sep nx pv h t X \<Longrightarrow> Y \<subseteq> X \<Longrightarrow> node_sep nx pv h t Y"
  by (auto simp: node_sep_def)

lemma node_sepD:
  assumes "node_sep nx pv h t X"
  shows "h \<noteq> t" "t \<noteq> h"
    "x \<in> X \<Longrightarrow> x + nx \<noteq> h" "x \<in> X \<Longrightarrow> h \<noteq> x + nx"
    "x \<in> X \<Longrightarrow> x + nx \<noteq> t" "x \<in> X \<Longrightarrow> t \<noteq> x + nx"
    "x \<in> X \<Longrightarrow> x + pv \<noteq> h" "x \<in> X \<Longrightarrow> h \<noteq> x + pv"
    "x \<in> X \<Longrightarrow> x + pv \<noteq> t" "x \<in> X \<Longrightarrow> t \<noteq> x + pv"
    "x \<in> X \<Longrightarrow> y \<in> X \<Longrightarrow> x + nx \<noteq> y + pv"
    "x \<in> X \<Longrightarrow> y \<in> X \<Longrightarrow> y + pv \<noteq> x + nx"
  using assms unfolding node_sep_def by metis+

lemma dseg_cong:
  "(\<And>x. x \<in> set xs \<Longrightarrow> f (x + nx) = g (x + nx) \<and> f (x + pv) = g (x + pv)) \<Longrightarrow>
   dseg f nx pv p xs n = dseg g nx pv p xs n"
  by (induction xs arbitrary: p) auto

lemma dll_cong:
  "f h = g h \<Longrightarrow> f t = g t \<Longrightarrow>
   (\<And>x. x \<in> set xs \<Longrightarrow> f (x + nx) = g (x + nx) \<and> f (x + pv) = g (x + pv)) \<Longrightarrow>
   dll f nx pv h t xs = dll g nx pv h t xs"
  using dseg_cong [of xs f nx g pv 0 0] by (simp add: dll_def)

lemma dseg_nonzero: "dseg f nx pv p xs n \<Longrightarrow> x \<in> set xs \<Longrightarrow> x \<noteq> 0"
  by (induction xs arbitrary: p) auto

lemma dseg_append:
  "dseg f nx pv p (xs @ ys) n \<longleftrightarrow>
     dseg f nx pv p xs (if ys = [] then n else hd ys) \<and>
     dseg f nx pv (if xs = [] then p else last xs) ys n"
proof (induction xs arbitrary: p)
  case Nil
  then show ?case by simp
next
  case (Cons x xs)
  then show ?case
    by (cases xs; cases ys) auto
qed

lemma dll_nonzero: "dll f nx pv h t xs \<Longrightarrow> x \<in> set xs \<Longrightarrow> x \<noteq> 0"
  by (auto simp: dll_def dest: dseg_nonzero)

lemma dll_empty: "dll f nx pv h t [] \<longleftrightarrow> f h = 0 \<and> f t = 0"
  by (simp add: dll_def first0_def last0_def)

text \<open>The links around a node in the middle.\<close>

lemma dll_mid:
  "dll f nx pv h t (xs @ x # ys) \<longleftrightarrow>
     f h = first0 (xs @ [x]) \<and> f t = last0 (x # ys) \<and>
     dseg f nx pv 0 xs x \<and> x \<noteq> 0 \<and> f (x + pv) = last0 xs \<and> f (x + nx) = first0 ys \<and>
     dseg f nx pv x ys 0 \<and> distinct (xs @ x # ys)"
  by (auto simp: dll_def dseg_append first0_def last0_def hd_append)

text \<open>Changing what a segment is linked to only touches its two ends.\<close>

lemma dseg_frame:
  assumes "\<forall>x \<in> set xs. a \<noteq> x + nx \<and> a \<noteq> x + pv"
  shows "dseg (f(a := v)) nx pv p xs n = dseg f nx pv p xs n"
  by (rule dseg_cong) (use assms in \<open>metis fun_upd_other\<close>)

lemma dseg_relink_next:
  assumes "dseg f nx pv p xs n" and "xs \<noteq> []" and "distinct xs"
    and "\<forall>x \<in> set xs. \<forall>y \<in> set xs. x + nx \<noteq> y + pv"
  shows "dseg (f(last xs + nx := n')) nx pv p xs n'"
proof -
  obtain ys l where xs: "xs = ys @ [l]" using assms(2) by (meson rev_exhaust)
  have fr: "\<forall>y \<in> set ys. l + nx \<noteq> y + nx \<and> l + nx \<noteq> y + pv"
    using assms(3,4) unfolding xs by auto
  have "l + nx \<noteq> l + pv" using assms(4) unfolding xs by simp
  then show ?thesis
    using assms(1) unfolding xs by (simp add: dseg_append dseg_frame [OF fr] fun_upd_other [OF not_sym])
qed

lemma dseg_relink_prev:
  assumes "dseg f nx pv p xs n" and "xs \<noteq> []" and "distinct xs"
    and "\<forall>x \<in> set xs. \<forall>y \<in> set xs. x + nx \<noteq> y + pv"
  shows "dseg (f(hd xs + pv := p')) nx pv p' xs n"
proof -
  obtain x ys where xs: "xs = x # ys" using assms(2) by (cases xs) auto
  have fr: "\<forall>y \<in> set ys. x + pv \<noteq> y + nx \<and> x + pv \<noteq> y + pv"
    using assms(3,4) unfolding xs by (metis add_right_cancel distinct.simps(2) list.set_intros)
  have "x + nx \<noteq> x + pv" using assms(4) unfolding xs by simp
  then show ?thesis
    using assms(1) unfolding xs by (simp add: dseg_frame [OF fr])
qed

section \<open>Unlinking\<close>

definition unlink_writes :: "(u32 \<Rightarrow> u32) \<Rightarrow> u32 \<Rightarrow> u32 \<Rightarrow> u32 \<Rightarrow> u32 \<Rightarrow> u32 \<Rightarrow> (u32 \<times> u32) list" where
  "unlink_writes f node nx pv h t =
     [if f (node + nx) \<noteq> 0 then (f (node + nx) + pv, f (node + pv)) else (t, f (node + pv)),
      if f (node + pv) \<noteq> 0 then (f (node + pv) + nx, f (node + nx)) else (h, f (node + nx)),
      (node + nx, 0), (node + pv, 0)]"

definition UnlinkGuestListNode ::
  "u32 \<Rightarrow> u32 \<Rightarrow> u32 \<Rightarrow> u32 \<Rightarrow> u32 \<Rightarrow> ('a memory_scheme, unit) prog" where
  "UnlinkGuestListNode node nextOff prevOff headAddr tailAddr =
     bindP (Read32 (node + nextOff)) (\<lambda>next.
     bindP (Read32 (node + prevOff)) (\<lambda>prev.
     stmts
       [if next \<noteq> 0 then Write32 (next + prevOff) prev else Write32 tailAddr prev,
        if prev \<noteq> 0 then Write32 (prev + nextOff) next else Write32 headAddr next,
        Write32 (node + nextOff) 0,
        Write32 (node + prevOff) 0]))"

lemma dll_unlink:
  assumes d: "dll f nx pv h t (xs @ x # ys)"
    and sep: "node_sep nx pv h t (set (xs @ x # ys))"
  shows "dll (upds f (unlink_writes f x nx pv h t)) nx pv h t (xs @ ys)"
proof -
  let ?A = "set (xs @ x # ys)"
  note D = node_sepD [OF sep]
  from d have f: "f h = first0 (xs @ [x])" "f t = last0 (x # ys)" "dseg f nx pv 0 xs x"
      "f (x + pv) = last0 xs" "f (x + nx) = first0 ys" "dseg f nx pv x ys 0"
      and dis: "distinct (xs @ x # ys)"
    by (simp_all add: dll_mid)
  have nz: "y \<noteq> 0" if "y \<in> ?A" for y using dll_nonzero [OF d that] .
  define f1 where "f1 = (if ys = [] then f(t := last0 xs) else f(hd ys + pv := last0 xs))"
  define f2 where "f2 = (if xs = [] then f1(h := first0 ys) else f1(last xs + nx := first0 ys))"
  define f3 where "f3 = f2(x + nx := 0, x + pv := 0)"
  have hd: "ys \<noteq> [] \<Longrightarrow> hd ys \<in> set ys" and la: "xs \<noteq> [] \<Longrightarrow> last xs \<in> set xs"
    by simp_all
  have hdn: "ys \<noteq> [] \<Longrightarrow> hd ys \<noteq> 0" and lan: "xs \<noteq> [] \<Longrightarrow> last xs \<noteq> 0"
    using nz hd la by simp_all
  have hdA: "ys \<noteq> [] \<Longrightarrow> hd ys \<in> ?A" and laA: "xs \<noteq> [] \<Longrightarrow> last xs \<in> ?A"
    using hd la by simp_all
  have xA: "x \<in> ?A" by simp
  have hdx: "ys \<noteq> [] \<Longrightarrow> hd ys \<noteq> x" and lax: "xs \<noteq> [] \<Longrightarrow> last xs \<noteq> x"
    using hd la dis by (metis distinct.simps(2) distinct_append, metis disjoint_iff distinct_append list.set_intros(1))
  have eq: "upds f (unlink_writes f x nx pv h t) = f3"
    using f(4,5) hdn lan
    by (simp add: unlink_writes_def first0_def last0_def f1_def f2_def f3_def)
  have sepX: "\<forall>y \<in> set xs. \<forall>z \<in> set xs. y + nx \<noteq> z + pv"
    and sepY: "\<forall>y \<in> set ys. \<forall>z \<in> set ys. y + nx \<noteq> z + pv"
    using D(11) by simp_all
  have disX: "distinct xs" and disY: "distinct ys" and inter: "set xs \<inter> set ys = {}"
    and xX: "x \<notin> set xs" and xY: "x \<notin> set ys"
    using dis by auto
  have xs1: "dseg f1 nx pv 0 xs x"
  proof -
    have "\<forall>y \<in> set xs. t \<noteq> y + nx \<and> t \<noteq> y + pv"
      using D(6,10) by simp
    moreover have "\<forall>y \<in> set xs. hd ys + pv \<noteq> y + nx \<and> hd ys + pv \<noteq> y + pv" if "ys \<noteq> []"
      using D(12) [OF _ hdA [OF that]] hd [OF that] inter by auto
    ultimately show ?thesis
      using f(3) by (simp add: f1_def dseg_frame)
  qed
  have ys1: "dseg f1 nx pv (last0 xs) ys 0"
    using dseg_relink_prev [OF f(6) _ disY sepY, of "last0 xs"] by (cases "ys = []") (simp_all add: f1_def)
  have xs2: "dseg f2 nx pv 0 xs (first0 ys)"
    using dseg_relink_next [OF xs1 _ disX sepX, of "first0 ys"] by (cases "xs = []") (simp_all add: f2_def)
  have ys2: "dseg f2 nx pv (last0 xs) ys 0"
  proof -
    have "\<forall>y \<in> set ys. h \<noteq> y + nx \<and> h \<noteq> y + pv"
      using D(4,8) by simp
    moreover have "\<forall>y \<in> set ys. last xs + nx \<noteq> y + nx \<and> last xs + nx \<noteq> y + pv" if "xs \<noteq> []"
      using D(11) [OF laA [OF that]] la [OF that] inter by auto
    ultimately show ?thesis
      using ys1 by (cases "xs = []") (simp_all add: f2_def dseg_frame)
  qed
  have "dseg f2 nx pv 0 (xs @ ys) 0"
    using xs2 ys2 by (cases ys) (simp_all add: dseg_append first0_def last0_def)
  moreover have "\<forall>y \<in> set (xs @ ys). x + nx \<noteq> y + nx \<and> x + nx \<noteq> y + pv"
      "\<forall>y \<in> set (xs @ ys). x + pv \<noteq> y + nx \<and> x + pv \<noteq> y + pv"
    using D(11,12) [of x] D(12) [OF _ xA] xX xY by auto
  ultimately have seg: "dseg f3 nx pv 0 (xs @ ys) 0"
    by (simp add: f3_def dseg_frame)
  have h: "f3 h = first0 (xs @ ys)"
    using f(1) D(1) D(3) [OF xA] D(7) [OF xA] D(7) [OF hdA] D(3) [OF laA]
    by (auto simp: f1_def f2_def f3_def first0_def hd_append)
  have t: "f3 t = last0 (xs @ ys)"
    using f(2) D(1) D(5) [OF xA] D(9) [OF xA] D(9) [OF hdA] D(5) [OF laA]
    by (auto simp: f1_def f2_def f3_def last0_def)
  show ?thesis
    unfolding eq dll_def using seg h t dis by simp
qed


lemma unlink_writes_ok:
  assumes "dll f nx pv h t (xs @ x # ys)"
  shows "fst ` set (unlink_writes f x nx pv h t) \<subseteq>
    {h, t} \<union> (\<lambda>y. y + nx) ` set (xs @ x # ys) \<union> (\<lambda>y. y + pv) ` set (xs @ x # ys)"
  using assms hd_in_set [of ys] last_in_set [of xs]
  by (auto simp: dll_mid unlink_writes_def first0_def last0_def)

lemma UnlinkGuestListNode_run:
  assumes "dll (rd32 s) nx pv h t (xs @ x # ys)" and "ram s h" and "ram s t"
    and "\<forall>y \<in> set (xs @ x # ys). ram s (y + nx) \<and> ram s (y + pv)"
  shows "UnlinkGuestListNode x nx pv h t s = (Ok (), writes wr32 s (unlink_writes (rd32 s) x nx pv h t))"
proof -
  have f: "rd32 s (x + pv) = last0 xs" "rd32 s (x + nx) = first0 ys"
    using assms(1) by (simp_all add: dll_mid)
  have r: "ram s (x + nx)" "ram s (x + pv)"
    "last0 xs \<noteq> 0 \<Longrightarrow> ram s (last0 xs + nx)" "first0 ys \<noteq> 0 \<Longrightarrow> ram s (first0 ys + pv)"
    using assms(4) by (simp_all add: last0_def first0_def split: if_splits)
  show ?thesis
    using r assms(2,3)
    by (simp add: UnlinkGuestListNode_def unlink_writes_def run_simps f)
qed

section \<open>Insertion\<close>

text \<open>A node put before the node \<open>y\<close>, at the end, and the head taken off.\<close>

definition append_writes :: "(u32 \<Rightarrow> u32) \<Rightarrow> u32 \<Rightarrow> u32 \<Rightarrow> u32 \<Rightarrow> u32 \<Rightarrow> u32 \<Rightarrow> (u32 \<times> u32) list" where
  "append_writes f x nx pv h t =
     [if f t = 0 then (h, x) else (f t + nx, x), (x + pv, f t), (x + nx, 0), (t, x)]"

definition before_writes :: "(u32 \<Rightarrow> u32) \<Rightarrow> u32 \<Rightarrow> u32 \<Rightarrow> u32 \<Rightarrow> u32 \<Rightarrow> u32 \<Rightarrow> (u32 \<times> u32) list" where
  "before_writes f x y nx pv h =
     [(x + nx, y), (y + pv, x), (x + pv, f (y + pv)),
      if f (y + pv) = 0 then (h, x) else (f (y + pv) + nx, x)]"

definition pop_writes :: "(u32 \<Rightarrow> u32) \<Rightarrow> u32 \<Rightarrow> u32 \<Rightarrow> u32 \<Rightarrow> u32 \<Rightarrow> (u32 \<times> u32) list" where
  "pop_writes f nx pv h t =
     [if f (f h + nx) = 0 then (t, 0) else (f (f h + nx) + pv, 0), (h, f (f h + nx))]"

lemma dll_append:
  assumes d: "dll f nx pv h t xs" and x: "x \<noteq> 0" "x \<notin> set xs"
    and sep: "node_sep nx pv h t (insert x (set xs))"
  shows "dll (upds f (append_writes f x nx pv h t)) nx pv h t (xs @ [x])"
proof -
  note D = node_sepD [OF sep]
  let ?g = "if xs = [] then f(h := x) else f(last xs + nx := x)"
  let ?k = "?g(x + pv := last0 xs, x + nx := 0, t := x)"
  have f: "f h = first0 xs" "f t = last0 xs" "dseg f nx pv 0 xs 0" and dis: "distinct xs"
    using d by (simp_all add: dll_def)
  have la: "last xs \<in> set xs" "last xs \<in> insert x (set xs)" "last xs \<noteq> 0" if "xs \<noteq> []"
    using that dll_nonzero [OF d] by simp_all
  have eq: "upds f (append_writes f x nx pv h t) = ?k"
    using la(3) by (simp add: append_writes_def f(2) last0_def)
  have sepX: "\<forall>y \<in> set xs. \<forall>z \<in> set xs. y + nx \<noteq> z + pv"
    using D(11) by simp
  have "dseg ?g nx pv 0 xs x"
    using dseg_relink_next [OF f(3) _ dis sepX, of x] by (cases "xs = []") simp_all
  moreover have "\<forall>y \<in> set xs. x + nx \<noteq> y + nx \<and> x + nx \<noteq> y + pv"
      "\<forall>y \<in> set xs. x + pv \<noteq> y + nx \<and> x + pv \<noteq> y + pv" "\<forall>y \<in> set xs. t \<noteq> y + nx \<and> t \<noteq> y + pv"
    using D(6,10) D(11) [of x] D(12) [of _ x] x(2) by auto
  ultimately have "dseg ?k nx pv 0 xs x"
    by (simp add: dseg_frame)
  moreover have "?k (x + pv) = last0 xs" "?k (x + nx) = 0" "?k t = x"
    using D(9) [of x] D(5) [of x] D(12) [of x x] by simp_all
  moreover have "?k h = first0 (xs @ [x])"
    using f(1) D(1) D(4) [of x] D(8) [of x] D(4) [OF la(2)] by (simp add: first0_def)
  ultimately show ?thesis
    unfolding eq dll_mid using x dis by (simp add: first0_def last0_def)
qed

lemma dll_before:
  assumes d: "dll f nx pv h t (xs @ y # ys)" and x: "x \<noteq> 0" "x \<notin> set (xs @ y # ys)"
    and sep: "node_sep nx pv h t (insert x (set (xs @ y # ys)))"
  shows "dll (upds f (before_writes f x y nx pv h)) nx pv h t (xs @ x # y # ys)"
proof -
  let ?A = "insert x (set (xs @ y # ys))"
  note D = node_sepD [OF sep]
  have f: "f h = first0 (xs @ [y])" "f t = last0 (y # ys)" "dseg f nx pv 0 xs y" "y \<noteq> 0"
      "f (y + pv) = last0 xs" "f (y + nx) = first0 ys" "dseg f nx pv y ys 0"
      and dis: "distinct (xs @ y # ys)"
    using d by (simp_all add: dll_mid)
  let ?g = "f(x + nx := y, y + pv := x, x + pv := last0 xs)"
  let ?k = "if xs = [] then ?g(h := x) else ?g(last xs + nx := x)"
  have la: "last xs \<in> set xs" "last xs \<in> ?A" "last xs \<noteq> 0" if "xs \<noteq> []"
    using that dll_nonzero [OF d] by simp_all
  have yA: "y \<in> ?A" and xA: "x \<in> ?A" by simp_all
  have xy: "x \<noteq> y" using x(2) by simp
  have eq: "upds f (before_writes f x y nx pv h) = ?k"
    using la(3) D(11) [OF xA yA] xy by (simp add: before_writes_def f(5) last0_def)
  have fr: "\<forall>z \<in> set xs \<union> set ys. x + nx \<noteq> z + nx \<and> x + nx \<noteq> z + pv"
      "\<forall>z \<in> set xs \<union> set ys. x + pv \<noteq> z + nx \<and> x + pv \<noteq> z + pv"
      "\<forall>z \<in> set xs \<union> set ys. y + pv \<noteq> z + nx \<and> y + pv \<noteq> z + pv"
    using D(11) [OF xA] D(12) [OF _ xA] D(12) [OF _ yA] x(2) dis by auto
  have sepX: "\<forall>y \<in> set xs. \<forall>z \<in> set xs. y + nx \<noteq> z + pv"
    using D(11) by simp
  have "dseg ?g nx pv 0 xs y"
    using f(3) fr by (simp add: dseg_frame)
  then have xs: "dseg ?k nx pv 0 xs x"
    using dseg_relink_next [OF _ _ _ sepX, of ?g 0 y x] dis by (cases "xs = []") simp_all
  have "dseg ?g nx pv y ys 0"
    using f(7) fr by (simp add: dseg_frame)
  moreover have "\<forall>z \<in> set ys. h \<noteq> z + nx \<and> h \<noteq> z + pv"
    using D(4,8) by simp
  moreover have "\<forall>z \<in> set ys. last xs + nx \<noteq> z + nx \<and> last xs + nx \<noteq> z + pv" if "xs \<noteq> []"
    using D(11) [OF la(2) [OF that]] la(1) [OF that] dis by auto
  ultimately have ys: "dseg ?k nx pv y ys 0"
    by (cases "xs = []") (simp_all add: dseg_frame)
  have lax: "xs \<noteq> [] \<Longrightarrow> last xs \<noteq> x" "xs \<noteq> [] \<Longrightarrow> last xs \<noteq> y"
    using la(1) x(2) dis by auto
  have "?k (x + nx) = y" "?k (x + pv) = last0 xs" "?k (y + pv) = x" "?k (y + nx) = first0 ys"
    using f(6) xy lax D(11) [OF xA yA] D(11) [OF yA yA] D(11) [OF xA xA] D(11) [OF yA xA]
      D(3) [OF xA] D(7) [OF xA] D(7) [OF yA] D(3) [OF yA] D(11) [OF la(2) xA] D(11) [OF la(2) yA]
      D(12) [OF xA xA] D(12) [OF yA yA] D(12) [OF xA la(2)] D(12) [OF yA la(2)]
    by auto
  moreover have "?k h = first0 (xs @ [x])" "?k t = last0 (y # ys)"
    using f(1,2) D(1) D(4) [OF xA] D(8) [OF xA] D(8) [OF yA] D(4) [OF la(2)]
      D(6) [OF xA] D(10) [OF xA] D(10) [OF yA] D(6) [OF la(2)]
    by (auto simp: first0_def hd_append)
  ultimately show ?thesis
    unfolding eq dll_mid using xs ys x f(4) dis by (simp add: first0_def last0_def)
qed


lemma dll_pop:
  assumes d: "dll f nx pv h t (x # xs)" and sep: "node_sep nx pv h t (set (x # xs))"
  shows "dll (upds f (pop_writes f nx pv h t)) nx pv h t xs"
proof -
  note D = node_sepD [OF sep]
  have f: "f h = x" "f t = last0 (x # xs)" "f (x + nx) = first0 xs" "dseg f nx pv x xs 0"
    and dis: "distinct (x # xs)"
    using d dll_mid [of f nx pv h t "[]" x xs] by (simp_all add: first0_def)
  show ?thesis
  proof (cases xs)
    case Nil
    then show ?thesis
      using f D(1,2) by (simp add: pop_writes_def first0_def last0_def dll_empty)
  next
    case (Cons y ys)
    have y0: "y \<noteq> 0" using dll_nonzero [OF d, of y] Cons by simp
    have A: "y \<in> set (x # xs)" by (simp add: Cons)
    have "dseg (f(y + pv := 0)) nx pv 0 xs 0"
      using dseg_relink_prev [OF f(4), of 0] dis D(11) by (simp add: Cons)
    moreover have "\<forall>z \<in> set xs. h \<noteq> z + nx \<and> h \<noteq> z + pv"
      using D(4,8) by simp
    ultimately have "dseg (f(y + pv := 0, h := y)) nx pv 0 xs 0"
      by (simp add: dseg_frame)
    moreover have "(f(y + pv := 0, h := y)) t = last0 xs"
      using f(2) D(2) D(10) [OF A] Cons by (simp add: last0_def)
    moreover have "upds f (pop_writes f nx pv h t) = f(y + pv := 0, h := y)"
      using f(1,3) y0 Cons by (simp add: pop_writes_def first0_def)
    ultimately show ?thesis
      using dis Cons by (simp add: dll_def first0_def)
  qed
qed

end
