(* ===== verification/Os_State.thy ===== *)
theory Os_State
  imports Fast_Path Guest_List
begin

text \<open>
  State of the guest operating system's HLE (\<open>runtime/src/hle/os/\<close>): guest memory, the
  CPU context the handlers work on, the interrupt flags, the fiber table, the sleep timers.
  Then the interrupt, context and mask routines of \<open>os_interrupt.cpp\<close> and
  \<open>os_context.cpp\<close>.  Everything the handlers call that is not under these files is a
  field of \<open>env\<close>: translated guest functions, the host context switch, the devices polled
  by the idle loop, the clock, the iteration order of a hash set.
\<close>

section \<open>State\<close>

record cpu_context =
  gpr :: "nat \<Rightarrow> u32"
  cr :: u32
  lr :: u32
  ctr :: u32
  xer :: u32
  fpscr :: u32
  pc :: u32
  gqr :: "nat \<Rightarrow> u32"
  hid0 :: u32
  hid1 :: u32
  hid2 :: u32
  srr0 :: u32
  srr1 :: u32
  msr :: u32

datatype thread_state = READY | RUNNING | WAITING | MORIBUND

type_synonym host_fiber = nat

record guest_fiber =
  gf_fiber :: "host_fiber option"
  gf_entryPoint :: u32
  gf_entryArg :: u32
  gf_cpuContext :: cpu_context
  gf_state :: thread_state
  gf_isSchedulerFiber :: bool
  gf_terminated :: bool

record sleep_timer =
  st_threadPtr :: u32
  st_deadline :: int

record os_state = memory +
  Cpu :: cpu_context
  g_interrupts_enabled :: bool
  g_interrupt_mask :: u32
  s_fibers :: "u32 \<Rightarrow> guest_fiber option"
  s_fibersPendingDelete :: "host_fiber list"
  s_schedulerFiber :: host_fiber
  s_currentGuestThread :: u32
  s_initialized :: bool
  CurrentFiber :: host_fiber
  LiveFibers :: "host_fiber set"
  gSleepTimers :: "sleep_timer list"
  gOutstandingParks :: "u32 set"
  strandScanDueAt :: int
  strandFirstSeen :: "u32 \<Rightarrow> int option"
  g_alarmProcessDepth :: nat

text \<open>What the handlers call outside the modelled files.\<close>

record env =
  env_call :: "u32 \<Rightarrow> (os_state, unit) prog"
  env_registered :: "u32 \<Rightarrow> bool"
  env_new_fiber :: "os_state \<Rightarrow> host_fiber option"
  env_switch :: "host_fiber \<Rightarrow> (os_state, unit) prog"
  env_is_advancing :: "os_state \<Rightarrow> bool"
  env_audio_poll :: "(os_state, unit) prog"
  env_idle_poll :: "(os_state, unit) prog"
  env_idle_wait :: "(os_state, unit) prog"
  env_now :: "os_state \<Rightarrow> int"
  env_timebase :: "os_state \<Rightarrow> u64"
  env_completions :: "(os_state, bool) prog"
  env_SDA1_BASE :: u32
  env_set_order :: "u32 set \<Rightarrow> u32 list"
  env_nand_callbacks :: "int \<Rightarrow> (os_state, bool) prog"

text \<open>The general purpose registers a handler reads and writes.\<close>

definition get_gpr :: "nat \<Rightarrow> (os_state, u32) prog" where
  "get_gpr i = getsP (\<lambda>s. gpr (Cpu s) i)"

definition set_gpr :: "nat \<Rightarrow> u32 \<Rightarrow> (os_state, unit) prog" where
  "set_gpr i v = modifyP (\<lambda>s. s\<lparr>Cpu := (Cpu s)\<lparr>gpr := (gpr (Cpu s))(i := v)\<rparr>\<rparr>)"

section \<open>Guest memory layout\<close>

definition kInterruptHandlerTablePtrAddr :: u32 where "kInterruptHandlerTablePtrAddr = 0x803868f8"
definition kInterruptHandlerTableAddr :: u32 where "kInterruptHandlerTableAddr = 0x80003040"
definition kInterruptMaskLoAddr :: u32 where "kInterruptMaskLoAddr = 0x800000c4"
definition kInterruptMaskHiAddr :: u32 where "kInterruptMaskHiAddr = 0x800000c8"
definition kOSPhysicalContextAddr :: u32 where "kOSPhysicalContextAddr = 0x800000c0"
definition kOSCurrentContextAddr :: u32 where "kOSCurrentContextAddr = 0x800000d4"
definition kOSExceptionContextAddr :: u32 where "kOSExceptionContextAddr = 0x800000d8"
definition kThreadListHeadAddr :: u32 where "kThreadListHeadAddr = 0x800000dc"
definition kThreadListTailAddr :: u32 where "kThreadListTailAddr = 0x800000e0"
definition kOSRunningContextAddr :: u32 where "kOSRunningContextAddr = 0x800000e4"
definition kDefaultThreadContextAddr :: u32 where "kDefaultThreadContextAddr = 0x80347498"
definition kIdleThreadContextAddr :: u32 where "kIdleThreadContextAddr = 0x803478b0"
definition kThreadQueueArrayAddr :: u32 where "kThreadQueueArrayAddr = 0x803477b0"
definition kThreadQueueArrayBytes :: nat where "kThreadQueueArrayBytes = 0x100"
definition kSwitchThreadCallbackPtrAddr :: u32 where "kSwitchThreadCallbackPtrAddr = 0x80385ae0"
definition kSchedulerReschedCounterAddr :: u32 where "kSchedulerReschedCounterAddr = 0x8038691c"
definition kSchedulerPendingFlagAddr :: u32 where "kSchedulerPendingFlagAddr = 0x80386920"
definition kSchedulerIdleFlagAddr :: u32 where "kSchedulerIdleFlagAddr = 0x80386918"

definition kThreadStateOffset :: u32 where "kThreadStateOffset = 0x2C8"
definition kThreadAttrOffset :: u32 where "kThreadAttrOffset = 0x2CA"
definition kThreadSuspendOffset :: u32 where "kThreadSuspendOffset = 0x2CC"
definition kThreadPriorityOffset :: u32 where "kThreadPriorityOffset = 0x2D0"
definition kThreadBasePriorityOffset :: u32 where "kThreadBasePriorityOffset = 0x2D4"
definition kThreadExitValueOffset :: u32 where "kThreadExitValueOffset = 0x2D8"
definition kThreadQueueOffset :: u32 where "kThreadQueueOffset = 0x2DC"
definition kThreadNextOffset :: u32 where "kThreadNextOffset = 0x2E0"
definition kThreadPrevOffset :: u32 where "kThreadPrevOffset = 0x2E4"
definition kThreadJoinQueueOffset :: u32 where "kThreadJoinQueueOffset = 0x2E8"
definition kThreadMutexOffset :: u32 where "kThreadMutexOffset = 0x2F0"
definition kThreadMutexQueueOffset :: u32 where "kThreadMutexQueueOffset = 0x2F4"
definition kThreadMutexTailOffset :: u32 where "kThreadMutexTailOffset = 0x2F8"
definition kThreadListNextOffset :: u32 where "kThreadListNextOffset = 0x2FC"
definition kThreadListPrevOffset :: u32 where "kThreadListPrevOffset = 0x300"

definition kMutexWaitQueueHeadOffset :: u32 where "kMutexWaitQueueHeadOffset = 0"
definition kMutexOwnerOffset :: u32 where "kMutexOwnerOffset = 8"
definition kMutexCountOffset :: u32 where "kMutexCountOffset = 0xC"
definition kMutexThreadNextOffset :: u32 where "kMutexThreadNextOffset = 0x10"
definition kMutexThreadPrevOffset :: u32 where "kMutexThreadPrevOffset = 0x14"

definition kThreadStateReady :: u16 where "kThreadStateReady = 1"
definition kThreadStateRunning :: u16 where "kThreadStateRunning = 2"
definition kThreadStateWaiting :: u16 where "kThreadStateWaiting = 4"
definition kThreadStateMoribund :: u16 where "kThreadStateMoribund = 8"
definition kSuspendedWaitPriority :: int where "kSuspendedWaitPriority = 32"

definition kMsgQueueSendOffset :: u32 where "kMsgQueueSendOffset = 0"
definition kMsgQueueRecvOffset :: u32 where "kMsgQueueRecvOffset = 8"
definition kMsgQueueArrayOffset :: u32 where "kMsgQueueArrayOffset = 0x10"
definition kMsgQueueCountOffset :: u32 where "kMsgQueueCountOffset = 0x14"
definition kMsgQueueFirstOffset :: u32 where "kMsgQueueFirstOffset = 0x18"
definition kMsgQueueUsedOffset :: u32 where "kMsgQueueUsedOffset = 0x1C"

lemmas os_addrs =
  kInterruptHandlerTablePtrAddr_def kInterruptHandlerTableAddr_def kInterruptMaskLoAddr_def
  kInterruptMaskHiAddr_def kOSPhysicalContextAddr_def kOSCurrentContextAddr_def
  kOSExceptionContextAddr_def kThreadListHeadAddr_def kThreadListTailAddr_def
  kOSRunningContextAddr_def kDefaultThreadContextAddr_def kIdleThreadContextAddr_def
  kThreadQueueArrayAddr_def kThreadQueueArrayBytes_def kSwitchThreadCallbackPtrAddr_def
  kSchedulerReschedCounterAddr_def kSchedulerPendingFlagAddr_def kSchedulerIdleFlagAddr_def

lemmas os_offsets =
  kThreadStateOffset_def kThreadAttrOffset_def kThreadSuspendOffset_def kThreadPriorityOffset_def
  kThreadBasePriorityOffset_def kThreadExitValueOffset_def kThreadQueueOffset_def
  kThreadNextOffset_def kThreadPrevOffset_def kThreadJoinQueueOffset_def kThreadMutexOffset_def
  kThreadMutexQueueOffset_def kThreadMutexTailOffset_def kThreadListNextOffset_def
  kThreadListPrevOffset_def kMutexWaitQueueHeadOffset_def kMutexOwnerOffset_def
  kMutexCountOffset_def kMutexThreadNextOffset_def kMutexThreadPrevOffset_def
  kMsgQueueSendOffset_def kMsgQueueRecvOffset_def kMsgQueueArrayOffset_def
  kMsgQueueCountOffset_def kMsgQueueFirstOffset_def kMsgQueueUsedOffset_def

definition ThreadStateIsTerminated :: "u16 \<Rightarrow> bool" where
  "ThreadStateIsTerminated state \<longleftrightarrow> state = 0 \<or> state = kThreadStateMoribund"

text \<open>\<open>static_cast<int32_t>\<close> of a guest word, and back.\<close>

definition to_i32 :: "u32 \<Rightarrow> int" where
  "to_i32 w = sint w"

definition of_i32 :: "int \<Rightarrow> u32" where
  "of_i32 i = word_of_int i"

text \<open>Bound on the steps of a walk over guest pointers: a longer one repeats an address.\<close>

definition kWalkFuel :: nat where
  "kWalkFuel = 2 ^ 32"

section \<open>Interrupts\<close>

definition UpdateCurrentContextInterruptFlag :: "bool \<Rightarrow> (os_state, unit) prog" where
  "UpdateCurrentContextInterruptFlag enabled s =
     (case TryReadGuestScalar s kOSCurrentContextAddr 4 of
        None \<Rightarrow> (Ok (), s)
      | Some cs \<Rightarrow>
          let currentContext = BigEndian_Read32 cs
          in if currentContext = 0 then (Ok (), s)
             else let modeFlagsAddr = currentContext + 0x1A2
                  in case TryReadGuestScalar s modeFlagsAddr 2 of
                       None \<Rightarrow> (Ok (), s)
                     | Some ms \<Rightarrow>
                         let modeFlags = BigEndian_Read16 ms;
                             updated = (if enabled then modeFlags OR 2 else modeFlags AND NOT 2)
                         in if updated = modeFlags then (Ok (), s)
                            else bindP (TryWriteGuestScalar modeFlagsAddr (BigEndian_Write16 updated))
                                   (\<lambda>_. returnP ()) s)"

definition exchange_interrupts :: "bool \<Rightarrow> (os_state, bool) prog" where
  "exchange_interrupts b s = (Ok (g_interrupts_enabled s), s\<lparr>g_interrupts_enabled := b\<rparr>)"

definition OS__DisableInterrupts :: "(os_state, int) prog" where
  "OS__DisableInterrupts = bindP (exchange_interrupts False) (\<lambda>previous.
     thenP (UpdateCurrentContextInterruptFlag False) (returnP (if previous then 1 else 0)))"

definition OS__RestoreInterrupts :: "int \<Rightarrow> (os_state, int) prog" where
  "OS__RestoreInterrupts level = bindP (exchange_interrupts (level \<noteq> 0)) (\<lambda>prev.
     thenP (UpdateCurrentContextInterruptFlag (level \<noteq> 0)) (returnP (if prev then 1 else 0)))"

definition OS__EnableInterrupts :: "(os_state, int) prog" where
  "OS__EnableInterrupts = bindP (exchange_interrupts True) (\<lambda>prev.
     thenP (UpdateCurrentContextInterruptFlag True) (returnP (if prev then 1 else 0)))"

text \<open>A call whose result is ignored.\<close>

definition ignoreP :: "('s, 'a) prog \<Rightarrow> ('s, unit) prog" where
  "ignoreP m = bindP m (\<lambda>_. returnP ())"

definition SetInterruptMask :: "u32 \<Rightarrow> u32 \<Rightarrow> (os_state, u32) prog" where
  "SetInterruptMask bits enable =
     thenP (modifyP (\<lambda>s. s\<lparr>g_interrupt_mask :=
       (if enable \<noteq> 0 then g_interrupt_mask s OR bits else g_interrupt_mask s AND NOT bits)\<rparr>))
     (returnP 0)"

definition OS____MaskInterrupts :: "u32 \<Rightarrow> u32 \<Rightarrow> (os_state, u32) prog" where
  "OS____MaskInterrupts bits unmask =
     bindP (getsP g_interrupt_mask) (\<lambda>old_mask.
     thenP (modifyP (\<lambda>s. s\<lparr>g_interrupt_mask :=
       (if unmask \<noteq> 0 then old_mask AND NOT bits else old_mask OR bits)\<rparr>))
     (returnP old_mask))"

definition OS____InterruptInit :: "(os_state, u32) prog" where
  "OS____InterruptInit =
     thenP (modifyP (\<lambda>s. s\<lparr>g_interrupts_enabled := False\<rparr>))
     (thenP (catchP
       (thenP (Write32 kInterruptHandlerTablePtrAddr kInterruptHandlerTableAddr)
       (bindP (GetPointer kInterruptHandlerTableAddr 0x80) (\<lambda>table.
        stmts
          [modifyP (put_bytes table (replicate 0x80 0)),
           Write32 kInterruptMaskLoAddr 0,
           Write32 kInterruptMaskHiAddr 0,
           modifyP (\<lambda>s. s\<lparr>g_interrupt_mask := 0\<rparr>)])))
       (\<lambda>_. returnP ()))
     (returnP 0))"

definition OSSetInterruptHandler :: "u32 \<Rightarrow> u32 \<Rightarrow> (os_state, u32) prog" where
  "OSSetInterruptHandler interrupt handler =
     bindP (catchP (Read32 kInterruptHandlerTablePtrAddr) (\<lambda>_. returnP 0)) (\<lambda>base0.
     bindP (if base0 = 0
            then thenP (catchP (Write32 kInterruptHandlerTablePtrAddr kInterruptHandlerTableAddr)
                          (\<lambda>_. returnP ()))
                  (returnP kInterruptHandlerTableAddr)
            else returnP base0) (\<lambda>tableBase.
     if unat interrupt \<ge> 32 then returnP 0
     else
       let entryAddr = tableBase + interrupt * 4
       in bindP (catchP (bindP (Read32 entryAddr) (\<lambda>p. returnP (Some p))) (\<lambda>_. returnP None)) (\<lambda>previous.
          case previous of
            None \<Rightarrow> returnP 0
          | Some p \<Rightarrow> thenP (catchP (Write32 entryAddr handler) (\<lambda>_. returnP ())) (returnP p))))"

text \<open>
  The loop over \<open>SetInterruptMask\<close> runs once when a bit is pending: the call returns 0.
\<close>

definition OSUnmaskInterrupts :: "u32 \<Rightarrow> (os_state, u32) prog" where
  "OSUnmaskInterrupts bits =
     bindP OS__DisableInterrupts (\<lambda>level.
     bindP (catchP
         (bindP (Read32 kInterruptMaskLoAddr) (\<lambda>loMask.
          bindP (Read32 kInterruptMaskHiAddr) (\<lambda>hiMask. returnP (Some (loMask, hiMask)))))
         (\<lambda>_. returnP None)) (\<lambda>masks.
     bindP (case masks of
        None \<Rightarrow> returnP 0
      | Some (loMask, hiMask) \<Rightarrow>
          let newLo = loMask AND NOT bits
          in thenP (catchP
               (stmts
                 [Write32 kInterruptMaskLoAddr newLo,
                  modifyP (\<lambda>s. s\<lparr>g_interrupt_mask := newLo\<rparr>),
                  loopP kWalkFuel
                    (\<lambda>pending. if pending = 0 then returnP (Inr ())
                       else bindP (SetInterruptMask pending (newLo OR hiMask)) (\<lambda>p. returnP (Inl p)))
                    (bits AND (loMask OR hiMask))])
               (\<lambda>_. returnP ()))
             (returnP loMask))
     (\<lambda>r. thenP (ignoreP (OS__RestoreInterrupts level)) (returnP r))))"


section \<open>Contexts\<close>

definition OS__GetCurrentThread :: "(os_state, u32) prog" where
  "OS__GetCurrentThread = catchP (Read32 kOSRunningContextAddr) (\<lambda>_. returnP 0)"

definition OS__ClearContext :: "u32 \<Rightarrow> (os_state, unit) prog" where
  "OS__ClearContext contextAddr =
     (if contextAddr = 0 then returnP ()
      else catchP
        (stmts
          [Write16 (contextAddr + 0x1a0) 0,
           Write16 (contextAddr + 0x1a2) 0,
           bindP (Read32 kOSExceptionContextAddr) (\<lambda>exceptionCtx.
             whenP (exceptionCtx = contextAddr) (Write32 kOSExceptionContextAddr 0))])
        (\<lambda>_. returnP ()))"

definition OS__SetCurrentContext :: "u32 \<Rightarrow> (os_state, unit) prog" where
  "OS__SetCurrentContext contextAddr =
     catchP
       (if contextAddr = 0
        then stmts [Write32 kOSPhysicalContextAddr 0, Write32 kOSCurrentContextAddr 0]
        else
          thenP (Write32 kOSPhysicalContextAddr (contextAddr AND 0x3fffffff))
          (thenP (Write32 kOSCurrentContextAddr contextAddr)
          (bindP (Read32 kOSExceptionContextAddr) (\<lambda>exceptionCtx.
           bindP (Read32 (contextAddr + 0x19c)) (\<lambda>flags.
           thenP (Write32 (contextAddr + 0x19c)
             (if exceptionCtx = contextAddr then flags OR 0x2000 else flags AND NOT 0x2000))
           (bindP (Read16 (contextAddr + 0x1a2)) (\<lambda>modeFlags.
            bindP (getsP g_interrupts_enabled) (\<lambda>enabled.
            Write16 (contextAddr + 0x1a2)
              (if enabled then modeFlags OR 2 else modeFlags AND NOT 2)))))))))
       (\<lambda>_. returnP ())"

text \<open>The register loads of \<open>OSLoadContext\<close>, in the order of the code.\<close>

fun load_words :: "(nat \<times> u32) list \<Rightarrow> (nat \<Rightarrow> u32) \<Rightarrow> (os_state, nat \<Rightarrow> u32) prog" where
  "load_words [] regs = returnP regs"
| "load_words ((i, a) # ps) regs = bindP (Read32 a) (\<lambda>v. load_words ps (regs(i := v)))"

definition upd_cpu :: "(cpu_context \<Rightarrow> cpu_context) \<Rightarrow> (os_state, unit) prog" where
  "upd_cpu f = modifyP (\<lambda>s. s\<lparr>Cpu := f (Cpu s)\<rparr>)"

text \<open>
  A store into a register happens as each load succeeds; a load that faults ends in
  \<open>std::abort\<close>, so the registers loaded before it are never observed.
\<close>

definition OS__LoadContext :: "env \<Rightarrow> (os_state, unit) prog" where
  "OS__LoadContext env =
     bindP (get_gpr 3) (\<lambda>guestContextAddr.
     if guestContextAddr = 0 then throwP Fatal
     else thenP (catchP
       (bindP (Read32 (guestContextAddr + 0x198)) (\<lambda>srr0v.
        if srr0v = 0 then throwP Fatal
        else
          bindP (getsP (\<lambda>s. gpr (Cpu s))) (\<lambda>g0.
          bindP (load_words (map (\<lambda>i. (i, guestContextAddr + of_nat (i * 4))) [0..<32]) g0) (\<lambda>g.
          bindP (Read32 (guestContextAddr + 0x80)) (\<lambda>crv.
          bindP (Read32 (guestContextAddr + 0x84)) (\<lambda>lrv.
          bindP (Read32 (guestContextAddr + 0x88)) (\<lambda>ctrv.
          bindP (Read32 (guestContextAddr + 0x8C)) (\<lambda>xerv.
          bindP (getsP (\<lambda>s. gqr (Cpu s))) (\<lambda>q0.
          bindP (load_words (map (\<lambda>i. (i, guestContextAddr + 0x1A4 + of_nat (i * 4))) [1..<8]) (q0(0 := 0))) (\<lambda>q.
          thenP (upd_cpu (\<lambda>c. c\<lparr>gpr := g, cr := crv, lr := lrv, ctr := ctrv, xer := xerv, gqr := q\<rparr>))
          (bindP (Read16 (guestContextAddr + 0x1A2)) (\<lambda>modeFlags.
           thenP (whenP (modeFlags AND 2 \<noteq> 0) (Write16 (guestContextAddr + 0x1A2) (modeFlags AND NOT 2)))
           (bindP (Read32 (guestContextAddr + 0x19C)) (\<lambda>srr1v.
            thenP (upd_cpu (\<lambda>c. c\<lparr>srr0 := srr0v, srr1 := srr1v, pc := srr0v\<rparr>))
            (env_call env srr0v)))))))))))))))
       (\<lambda>_. throwP Fatal))
     (throwP Fatal))"

end
