(* ===== verification/Fiber_Manager.thy ===== *)
theory Fiber_Manager
  imports Os_State
begin

text \<open>
  The fiber table of \<open>runtime/src/fiber_manager.cpp\<close>: one host context per guest thread,
  its bookkeeping around a switch, and the guest-side clean-up when a thread function
  returns.  Host contexts are numbers; \<open>LiveFibers\<close> is the set of contexts that have been
  created and not destroyed, \<open>CurrentFiber\<close> the one that executes.  The switch itself is
  \<open>env_switch\<close>: it returns when some other fiber switches back.
\<close>

section \<open>Table\<close>

definition HostContext_IsCurrent :: "os_state \<Rightarrow> host_fiber \<Rightarrow> bool" where
  "HostContext_IsCurrent s f \<longleftrightarrow> CurrentFiber s = f"

definition HostContext_Destroy :: "host_fiber \<Rightarrow> os_state \<Rightarrow> os_state" where
  "HostContext_Destroy f s = s\<lparr>LiveFibers := LiveFibers s - {f}\<rparr>"

definition PurgePendingFibers :: "(os_state, unit) prog" where
  "PurgePendingFibers = modifyP (\<lambda>s.
     fold (\<lambda>f t. if \<not> HostContext_IsCurrent t f then HostContext_Destroy f t else t)
       (s_fibersPendingDelete s) (s\<lparr>s_fibersPendingDelete := []\<rparr>))"

definition IsInitialized :: "(os_state, bool) prog" where
  "IsInitialized = getsP s_initialized"

definition HasFiber :: "u32 \<Rightarrow> (os_state, bool) prog" where
  "HasFiber guestThreadAddr = getsP (\<lambda>s. s_fibers s guestThreadAddr \<noteq> None)"

definition IsTerminated :: "u32 \<Rightarrow> (os_state, bool) prog" where
  "IsTerminated guestThreadAddr = getsP (\<lambda>s.
     case s_fibers s guestThreadAddr of Some gf \<Rightarrow> gf_terminated gf | None \<Rightarrow> False)"

definition GetCurrentGuestThread :: "(os_state, u32) prog" where
  "GetCurrentGuestThread = getsP s_currentGuestThread"

definition put_fiber :: "u32 \<Rightarrow> guest_fiber \<Rightarrow> os_state \<Rightarrow> os_state" where
  "put_fiber a gf s = s\<lparr>s_fibers := (s_fibers s)(a := Some gf)\<rparr>"

text \<open>The context of a fresh fiber: all zero but the entry registers.\<close>

definition initial_context :: "u32 \<Rightarrow> u32 \<Rightarrow> u32 \<Rightarrow> cpu_context" where
  "initial_context entryPoint entryArg stackBase =
     \<lparr>gpr = (\<lambda>_. 0)(1 := stackBase, 3 := entryArg), cr = 0, lr = 0, ctr = 0, xer = 0, fpscr = 0,
      pc = entryPoint, gqr = (\<lambda>_. 0), hid0 = 0, hid1 = 0, hid2 = 0, srr0 = entryPoint, srr1 = 0, msr = 0\<rparr>"

definition CreateGuestFiber :: "env \<Rightarrow> u32 \<Rightarrow> u32 \<Rightarrow> u32 \<Rightarrow> u32 \<Rightarrow> (os_state, bool) prog" where
  "CreateGuestFiber env guestThreadAddr entryPoint entryArg stackBase s =
     (if \<not> s_initialized s then (Ok False, s)
      else
        let s1 = (case s_fibers s guestThreadAddr of
               None \<Rightarrow> s
             | Some old \<Rightarrow>
                 (case gf_fiber old of
                    Some f \<Rightarrow> if \<not> gf_isSchedulerFiber old then HostContext_Destroy f s else s
                  | None \<Rightarrow> s)\<lparr>s_fibers := (s_fibers s)(guestThreadAddr := None)\<rparr>)
        in case env_new_fiber env s1 of
             None \<Rightarrow> (Ok False, s1)
           | Some f \<Rightarrow>
               (Ok True, put_fiber guestThreadAddr
                 \<lparr>gf_fiber = Some f, gf_entryPoint = entryPoint, gf_entryArg = entryArg,
                  gf_cpuContext = initial_context entryPoint entryArg stackBase,
                  gf_state = WAITING, gf_isSchedulerFiber = False, gf_terminated = False\<rparr>
                 (s1\<lparr>LiveFibers := insert f (LiveFibers s1)\<rparr>)))"

definition ResumeGuestThread :: "u32 \<Rightarrow> (os_state, unit) prog" where
  "ResumeGuestThread guestThreadAddr s =
     (case s_fibers s guestThreadAddr of
        None \<Rightarrow> (Ok (), s)
      | Some gf \<Rightarrow>
          if gf_terminated gf then (Ok (), s)
          else (Ok (), put_fiber guestThreadAddr (gf\<lparr>gf_state := READY\<rparr>) s))"

definition SuspendGuestThread :: "u32 \<Rightarrow> (os_state, unit) prog" where
  "SuspendGuestThread guestThreadAddr s =
     (case s_fibers s guestThreadAddr of
        None \<Rightarrow> (Ok (), s)
      | Some gf \<Rightarrow> (Ok (), put_fiber guestThreadAddr (gf\<lparr>gf_state := WAITING\<rparr>) s))"

definition ExitGuestThread :: "u32 \<Rightarrow> thread_state \<Rightarrow> (os_state, unit) prog" where
  "ExitGuestThread guestThreadAddr finalState s =
     (case s_fibers s guestThreadAddr of
        None \<Rightarrow> (Ok (), s)
      | Some gf \<Rightarrow>
          let gf1 = gf\<lparr>gf_state := finalState, gf_terminated := True\<rparr>;
              s1 = (if s_currentGuestThread s = guestThreadAddr then s\<lparr>s_currentGuestThread := 0\<rparr> else s)
          in case gf_fiber gf of
               Some f \<Rightarrow>
                 if \<not> gf_isSchedulerFiber gf
                 then (Ok (), put_fiber guestThreadAddr (gf1\<lparr>gf_fiber := None\<rparr>)
                        (if HostContext_IsCurrent s1 f
                         then s1\<lparr>s_fibersPendingDelete := s_fibersPendingDelete s1 @ [f]\<rparr>
                         else HostContext_Destroy f s1))
                 else (Ok (), put_fiber guestThreadAddr gf1 s1)
             | None \<Rightarrow> (Ok (), put_fiber guestThreadAddr gf1 s1))"

definition RegisterMainThreadAsFiber :: "u32 \<Rightarrow> (os_state, bool) prog" where
  "RegisterMainThreadAsFiber guestThreadAddr s =
     (if \<not> s_initialized s then (Ok False, s)
      else if s_fibers s guestThreadAddr \<noteq> None then (Ok True, s)
      else (Ok True, put_fiber guestThreadAddr
             \<lparr>gf_fiber = Some (s_schedulerFiber s), gf_entryPoint = 0, gf_entryArg = 0,
              gf_cpuContext = Cpu s, gf_state = RUNNING, gf_isSchedulerFiber = True,
              gf_terminated = False\<rparr>
             (s\<lparr>s_currentGuestThread := guestThreadAddr\<rparr>)))"

section \<open>Switching\<close>

text \<open>The state \<open>SwitchToThread\<close> enters the target with, or \<open>None\<close> if it refuses.\<close>

definition switch_out :: "u32 \<Rightarrow> os_state \<Rightarrow> (host_fiber \<times> os_state) option" where
  "switch_out guestThreadAddr s =
     (case s_fibers s guestThreadAddr of
        None \<Rightarrow> None
      | Some gf \<Rightarrow>
          (case gf_fiber gf of
             None \<Rightarrow> None
           | Some fiberHandle \<Rightarrow>
               if gf_terminated gf then None
               else
                 let previous = s_currentGuestThread s;
                     s1 = (case (if previous \<noteq> 0 then s_fibers s previous else None) of
                             None \<Rightarrow> s
                           | Some cur \<Rightarrow> put_fiber previous (cur\<lparr>gf_cpuContext := Cpu s\<rparr>) s)
                 in case s_fibers s1 guestThreadAddr of
                      None \<Rightarrow> None
                    | Some gf1 \<Rightarrow>
                        Some (fiberHandle, (put_fiber guestThreadAddr (gf1\<lparr>gf_state := RUNNING\<rparr>) s1)
                          \<lparr>s_currentGuestThread := guestThreadAddr\<rparr>)))"

text \<open>What runs after \<open>HostContext::Switch\<close> came back.\<close>

definition switch_back :: "u32 \<Rightarrow> cpu_context \<Rightarrow> (os_state, unit) prog" where
  "switch_back previousThread callerContext =
     bindP (catchP
         (bindP (Read32 kOSRunningContextAddr) (\<lambda>running.
          bindP (Read32 kOSCurrentContextAddr) (\<lambda>current. returnP (running, current))))
         (\<lambda>_. returnP (0, 0))) (\<lambda>(running, current).
     modifyP (\<lambda>s.
       if previousThread \<noteq> 0 \<and> running = previousThread \<and> current = previousThread
       then (case s_fibers s previousThread of
               None \<Rightarrow> s
             | Some gf \<Rightarrow> put_fiber previousThread (gf\<lparr>gf_state := RUNNING\<rparr>) (s\<lparr>Cpu := gf_cpuContext gf\<rparr>))
            \<lparr>s_currentGuestThread := previousThread\<rparr>
       else s\<lparr>Cpu := callerContext, s_currentGuestThread := 0\<rparr>))"

definition SwitchToThread :: "env \<Rightarrow> u32 \<Rightarrow> (os_state, unit) prog" where
  "SwitchToThread env guestThreadAddr =
     thenP PurgePendingFibers (\<lambda>s.
     if \<not> s_initialized s then (Ok (), s)
     else case switch_out guestThreadAddr s of
            None \<Rightarrow> (Ok (), s)
          | Some (fiberHandle, s1) \<Rightarrow>
              if HostContext_IsCurrent s1 fiberHandle then (Ok (), s1)
              else case s_fibers s1 guestThreadAddr of
                     None \<Rightarrow> (Ok (), s1)
                   | Some target \<Rightarrow>
                       thenP (modifyP (\<lambda>s. s\<lparr>Cpu := gf_cpuContext target\<rparr>))
                       (thenP (env_switch env fiberHandle)
                       (switch_back (s_currentGuestThread s) (Cpu s))) s1)"

section \<open>Clean-up of a thread whose function returned\<close>

definition ClearPendingMaskForEmptyGuestQueue :: "u32 \<Rightarrow> ('a memory_scheme, unit) prog" where
  "ClearPendingMaskForEmptyGuestQueue queueEntry =
     (if queueEntry < kThreadQueueArrayAddr \<or> (queueEntry - kThreadQueueArrayAddr) mod 8 \<noteq> 0
      then returnP ()
      else
        let priority = (queueEntry - kThreadQueueArrayAddr) div 8
        in if priority \<ge> 32 then returnP ()
           else bindP (Read32 queueEntry) (\<lambda>head.
             if head \<noteq> 0 then returnP ()
             else bindP (Read32 kSchedulerPendingFlagAddr) (\<lambda>pending.
               Write32 kSchedulerPendingFlagAddr (pending AND NOT (push_bit (unat (31 - priority)) 1)))))"

definition RemoveGuestThreadFromQueue :: "u32 \<Rightarrow> ('a memory_scheme, unit) prog" where
  "RemoveGuestThreadFromQueue threadPtr =
     bindP (Read32 (threadPtr + kThreadQueueOffset)) (\<lambda>queuePtr.
     if queuePtr = 0 then returnP ()
     else bindP (Read32 (threadPtr + kThreadNextOffset)) (\<lambda>next.
          bindP (Read32 (threadPtr + kThreadPrevOffset)) (\<lambda>prev.
          stmts
            [if next \<noteq> 0 then Write32 (next + kThreadPrevOffset) prev else Write32 (queuePtr + 4) prev,
             if prev \<noteq> 0 then Write32 (prev + kThreadNextOffset) next else Write32 queuePtr next,
             Write32 (threadPtr + kThreadQueueOffset) 0,
             Write32 (threadPtr + kThreadNextOffset) 0,
             Write32 (threadPtr + kThreadPrevOffset) 0,
             ClearPendingMaskForEmptyGuestQueue queuePtr])))"

definition clamp_prio :: "int \<Rightarrow> int" where
  "clamp_prio p = max 0 (min 31 p)"

definition WakeGuestThreadsOnQueueNoSwitch :: "u32 \<Rightarrow> (os_state, unit) prog" where
  "WakeGuestThreadsOnQueueNoSwitch queueAddr =
     loopP 257 (\<lambda>woke :: nat.
       if \<not> woke < 256 then returnP (Inr ())
       else bindP (Read32 queueAddr) (\<lambda>thread.
         if thread = 0 then returnP (Inr ())
         else bindP (Read32 (thread + kThreadNextOffset)) (\<lambda>next.
           thenP (if next = 0 then Write32 (queueAddr + 4) 0 else Write32 (next + kThreadPrevOffset) 0)
           (thenP (Write32 queueAddr next)
           (thenP (Write32 (thread + kThreadNextOffset) 0)
           (thenP (Write32 (thread + kThreadPrevOffset) 0)
           (bindP (Read16 (thread + kThreadStateOffset)) (\<lambda>state.
            if state = 0 \<or> state = 8
            then thenP (Write32 (thread + kThreadQueueOffset) 0) (returnP (Inl (woke + 1)))
            else thenP (Write16 (thread + kThreadStateOffset) 1)
              (bindP (Read32 (thread + kThreadSuspendOffset)) (\<lambda>suspend.
               if to_i32 suspend \<ge> 1
               then thenP (Write32 (thread + kThreadQueueOffset) 0) (returnP (Inl (woke + 1)))
               else bindP (Read32 (thread + kThreadPriorityOffset)) (\<lambda>prio.
                 let priority = clamp_prio (to_i32 prio);
                     runQueue = kThreadQueueArrayAddr + of_i32 priority * 8
                 in bindP (Read32 (runQueue + 4)) (\<lambda>tail.
                    thenP (stmts
                      [if tail = 0 then Write32 runQueue thread else Write32 (tail + kThreadNextOffset) thread,
                       Write32 (thread + kThreadPrevOffset) tail,
                       Write32 (thread + kThreadNextOffset) 0,
                       Write32 (runQueue + 4) thread,
                       Write32 (thread + kThreadQueueOffset) runQueue,
                       bindP (Read32 kSchedulerPendingFlagAddr) (\<lambda>pending.
                         Write32 kSchedulerPendingFlagAddr (pending OR push_bit (nat (31 - priority)) 1)),
                       Write32 kSchedulerReschedCounterAddr 1,
                       ResumeGuestThread thread])
                    (returnP (Inl (woke + 1))))))))))))))) 0"

text \<open>The guest-side part of \<open>FiberProc\<close> after the entry function returned.\<close>

definition FiberProc_cleanup :: "u32 \<Rightarrow> (os_state, unit) prog" where
  "FiberProc_cleanup guestThreadAddr =
     catchP
       (thenP (RemoveGuestThreadFromQueue guestThreadAddr)
       (bindP (Read16 (guestThreadAddr + kThreadAttrOffset)) (\<lambda>attributes.
        let detached = (attributes AND 1 \<noteq> 0)
        in stmts
          [whenP (\<not> detached) (Write32 (guestThreadAddr + kThreadExitValueOffset) 0),
           Write16 (guestThreadAddr + kThreadStateOffset) (if detached then 0 else 8),
           WakeGuestThreadsOnQueueNoSwitch (guestThreadAddr + kThreadJoinQueueOffset),
           bindP (Read32 kOSRunningContextAddr) (\<lambda>r.
             whenP (r = guestThreadAddr) (Write32 kOSRunningContextAddr 0)),
           bindP (Read32 kOSCurrentContextAddr) (\<lambda>c.
             whenP (c = guestThreadAddr) (Write32 kOSCurrentContextAddr 0)),
           Write32 kSchedulerReschedCounterAddr 1])))
       (\<lambda>_. returnP ())"

definition FiberProc_finish :: "env \<Rightarrow> u32 \<Rightarrow> (os_state, unit) prog" where
  "FiberProc_finish env guestThreadAddr =
     thenP (FiberProc_cleanup guestThreadAddr)
     (thenP (modifyP (\<lambda>s.
        (case s_fibers s guestThreadAddr of
           None \<Rightarrow> s
         | Some gf \<Rightarrow> put_fiber guestThreadAddr (gf\<lparr>gf_terminated := True, gf_state := MORIBUND\<rparr>) s)
        \<lparr>s_currentGuestThread := 0\<rparr>))
     (bindP (getsP s_schedulerFiber) (env_switch env)))"

end
