(* ===== verification/Os_Queue.thy ===== *)
theory Os_Queue
  imports Fiber_Manager
begin

text \<open>
  Thread queues in guest memory: the list and priority helpers of
  \<open>runtime/src/hle/os/os_thread.cpp\<close> and of the head of \<open>os_scheduler.cpp\<close>.  A queue is a
  head slot \<open>q\<close> and a tail slot \<open>q + 4\<close>; the 32 run queues are an array, and bit
  \<open>31 - p\<close> of the pending word says that run queue \<open>p\<close> is not empty.  A walk over guest
  pointers is a loop bounded by \<open>kWalkFuel\<close>: a longer one has met an address twice and
  never ends.
\<close>

section \<open>Thread list and run-queue bits\<close>

definition RemoveThreadFromList :: "u32 \<Rightarrow> ('a memory_scheme, unit) prog" where
  "RemoveThreadFromList threadPtr =
     UnlinkGuestListNode threadPtr kThreadListNextOffset kThreadListPrevOffset
       kThreadListHeadAddr kThreadListTailAddr"

definition is_run_queue :: "u32 \<Rightarrow> bool" where
  "is_run_queue q \<longleftrightarrow> \<not> (q < kThreadQueueArrayAddr \<or>
     q \<ge> kThreadQueueArrayAddr + of_nat kThreadQueueArrayBytes \<or>
     (q - kThreadQueueArrayAddr) mod 8 \<noteq> 0)"

text \<open>\<open>1u << (31u - n)\<close>; the shift count is below 32 wherever the code gets here.\<close>

definition pending_bit :: "u32 \<Rightarrow> u32" where
  "pending_bit n = push_bit (unat (31 - n)) 1"

definition UpdatePendingMaskForQueue :: "u32 \<Rightarrow> ('a memory_scheme, unit) prog" where
  "UpdatePendingMaskForQueue queueEntry =
     (if \<not> is_run_queue queueEntry then returnP ()
      else bindP (Read32 queueEntry) (\<lambda>head.
        if head \<noteq> 0 then returnP ()
        else let priority = (queueEntry - kThreadQueueArrayAddr) div 8
             in bindP (Read32 kSchedulerPendingFlagAddr) (\<lambda>pending.
                Write32 kSchedulerPendingFlagAddr (pending AND NOT (pending_bit priority)))))"

definition RemoveThreadFromQueue :: "u32 \<Rightarrow> ('a memory_scheme, unit) prog" where
  "RemoveThreadFromQueue threadPtr =
     bindP (Read32 (threadPtr + kThreadQueueOffset)) (\<lambda>queuePtr.
     if queuePtr = 0 then returnP ()
     else stmts
       [UnlinkGuestListNode threadPtr kThreadNextOffset kThreadPrevOffset queuePtr (queuePtr + 4),
        Write32 (threadPtr + kThreadQueueOffset) 0,
        UpdatePendingMaskForQueue queuePtr])"

section \<open>Priorities\<close>

definition ComputeThreadEffectivePriority :: "u32 \<Rightarrow> ('a memory_scheme, int) prog" where
  "ComputeThreadEffectivePriority threadPtr =
     bindP (Read32 (threadPtr + kThreadBasePriorityOffset)) (\<lambda>base.
     bindP (Read32 (threadPtr + kThreadMutexQueueOffset)) (\<lambda>mutex0.
     loopP kWalkFuel (\<lambda>(mutexPtr, priority).
       if mutexPtr = 0 then returnP (Inr priority)
       else bindP (Read32 (mutexPtr + kMutexWaitQueueHeadOffset)) (\<lambda>waiterThread.
         bindP (if waiterThread = 0 then returnP priority
                else bindP (Read32 (waiterThread + kThreadPriorityOffset)) (\<lambda>w.
                  returnP (if to_i32 w < priority then to_i32 w else priority)))
           (\<lambda>priority'.
            bindP (Read32 (mutexPtr + kMutexThreadNextOffset)) (\<lambda>next. returnP (Inl (next, priority'))))))
       (mutex0, to_i32 base)))"

text \<open>The first queued thread of lower priority, or 0.\<close>

definition find_insert_before :: "u32 \<Rightarrow> int \<Rightarrow> ('a memory_scheme, u32) prog" where
  "find_insert_before first priority =
     loopP kWalkFuel (\<lambda>insertBefore.
       if insertBefore = 0 then returnP (Inr 0)
       else bindP (Read32 (insertBefore + kThreadPriorityOffset)) (\<lambda>queuedPriority.
         if to_i32 queuedPriority > priority then returnP (Inr insertBefore)
         else bindP (Read32 (insertBefore + kThreadNextOffset)) (\<lambda>next. returnP (Inl next)))) first"

text \<open>The two link sequences.\<close>

definition link_at_tail :: "u32 \<Rightarrow> u32 \<Rightarrow> ('a memory_scheme, unit) prog" where
  "link_at_tail queuePtr threadPtr =
     bindP (Read32 (queuePtr + 4)) (\<lambda>tail.
     stmts
       [if tail = 0 then Write32 queuePtr threadPtr else Write32 (tail + kThreadNextOffset) threadPtr,
        Write32 (threadPtr + kThreadPrevOffset) tail,
        Write32 (threadPtr + kThreadNextOffset) 0,
        Write32 (queuePtr + 4) threadPtr])"

definition link_before :: "u32 \<Rightarrow> u32 \<Rightarrow> u32 \<Rightarrow> ('a memory_scheme, unit) prog" where
  "link_before queuePtr threadPtr insertBefore =
     thenP (Write32 (threadPtr + kThreadNextOffset) insertBefore)
     (bindP (Read32 (insertBefore + kThreadPrevOffset)) (\<lambda>prev.
      stmts
        [Write32 (insertBefore + kThreadPrevOffset) threadPtr,
         Write32 (threadPtr + kThreadPrevOffset) prev,
         if prev = 0 then Write32 queuePtr threadPtr else Write32 (prev + kThreadNextOffset) threadPtr]))"

definition InsertThreadIntoQueueByPriority :: "u32 \<Rightarrow> u32 \<Rightarrow> int \<Rightarrow> ('a memory_scheme, unit) prog" where
  "InsertThreadIntoQueueByPriority queuePtr threadPtr priority =
     thenP (Write32 (threadPtr + kThreadQueueOffset) queuePtr)
     (bindP (Read32 queuePtr) (\<lambda>first.
      bindP (find_insert_before first priority) (\<lambda>insertBefore.
      thenP (if insertBefore = 0 then link_at_tail queuePtr threadPtr
             else link_before queuePtr threadPtr insertBefore)
      (if is_run_queue queuePtr
       then bindP (Read32 kSchedulerPendingFlagAddr) (\<lambda>pending.
            Write32 kSchedulerPendingFlagAddr
              (pending OR pending_bit ((queuePtr - kThreadQueueArrayAddr) div 8)))
       else returnP ()))))"

definition SetThreadEffectivePriority :: "u32 \<Rightarrow> int \<Rightarrow> ('a memory_scheme, u32) prog" where
  "SetThreadEffectivePriority threadPtr priority =
     bindP (Read16 (threadPtr + kThreadStateOffset)) (\<lambda>state.
     if state = 3 then returnP 0
     else if state < 3 then
       (if state = kThreadStateReady then
          let queueEntry = kThreadQueueArrayAddr + of_i32 priority * 8
          in thenP (stmts
               [RemoveThreadFromQueue threadPtr,
                Write32 (threadPtr + kThreadPriorityOffset) (of_i32 priority),
                InsertThreadIntoQueueByPriority queueEntry threadPtr priority,
                Write32 kSchedulerReschedCounterAddr 1]) (returnP 0)
        else if state \<noteq> 0 then
          thenP (stmts
               [Write32 kSchedulerReschedCounterAddr 1,
                Write32 (threadPtr + kThreadPriorityOffset) (of_i32 priority)]) (returnP 0)
        else returnP 0)
     else if state < 5 then
       bindP (Read32 (threadPtr + kThreadQueueOffset)) (\<lambda>queuePtr.
       thenP (stmts
         [RemoveThreadFromQueue threadPtr,
          Write32 (threadPtr + kThreadPriorityOffset) (of_i32 priority),
          whenP (queuePtr \<noteq> 0) (InsertThreadIntoQueueByPriority queuePtr threadPtr priority)])
       (bindP (Read32 (threadPtr + kThreadMutexOffset)) (\<lambda>mutexPtr.
        if mutexPtr \<noteq> 0 then Read32 (mutexPtr + kMutexOwnerOffset) else returnP 0)))
     else returnP 0)"

definition PropagateMutexOwnerPriority :: "u32 \<Rightarrow> ('a memory_scheme, unit) prog" where
  "PropagateMutexOwnerPriority mutexPtr =
     (if mutexPtr = 0 then returnP ()
      else bindP (Read32 (mutexPtr + kMutexOwnerOffset)) (\<lambda>owner0.
        loopP kWalkFuel (\<lambda>ownerThread.
          if ownerThread = 0 then returnP (Inr ())
          else bindP (Read32 (ownerThread + kThreadSuspendOffset)) (\<lambda>suspend.
            if \<not> to_i32 suspend < 1 then returnP (Inr ())
            else bindP (ComputeThreadEffectivePriority ownerThread) (\<lambda>ownerPriority.
              bindP (Read32 (ownerThread + kThreadPriorityOffset)) (\<lambda>current.
              if current = of_i32 ownerPriority then returnP (Inr ())
              else bindP (SetThreadEffectivePriority ownerThread ownerPriority)
                     (\<lambda>next. returnP (Inl next)))))) owner0))"

section \<open>Helpers of the scheduler\<close>

definition LinkMutexToThread :: "u32 \<Rightarrow> u32 \<Rightarrow> ('a memory_scheme, unit) prog" where
  "LinkMutexToThread threadPtr mutexPtr =
     bindP (Read32 (threadPtr + kThreadMutexTailOffset)) (\<lambda>tail.
     stmts
       [if tail = 0 then Write32 (threadPtr + kThreadMutexQueueOffset) mutexPtr
        else Write32 (tail + kMutexThreadNextOffset) mutexPtr,
        Write32 (mutexPtr + kMutexThreadPrevOffset) tail,
        Write32 (mutexPtr + kMutexThreadNextOffset) 0,
        Write32 (threadPtr + kThreadMutexTailOffset) mutexPtr])"

definition UnlinkMutexFromThread :: "u32 \<Rightarrow> u32 \<Rightarrow> ('a memory_scheme, unit) prog" where
  "UnlinkMutexFromThread threadPtr mutexPtr =
     UnlinkGuestListNode mutexPtr kMutexThreadNextOffset kMutexThreadPrevOffset
       (threadPtr + kThreadMutexQueueOffset) (threadPtr + kThreadMutexTailOffset)"

definition LinkThreadOnRunQueue :: "u32 \<Rightarrow> int \<Rightarrow> ('a memory_scheme, unit) prog" where
  "LinkThreadOnRunQueue thread priority =
     (let queueEntry = kThreadQueueArrayAddr + of_i32 priority * 8
      in thenP (link_at_tail queueEntry thread)
           (Write32 (thread + kThreadQueueOffset) queueEntry))"

definition MarkRunQueuePending :: "int \<Rightarrow> ('a memory_scheme, unit) prog" where
  "MarkRunQueuePending priority =
     bindP (Read32 kSchedulerPendingFlagAddr) (\<lambda>pending.
     stmts
       [Write32 kSchedulerPendingFlagAddr (pending OR push_bit (nat (31 - priority)) 1),
        Write32 kSchedulerReschedCounterAddr 1])"

definition PopThreadQueueHead :: "u32 \<Rightarrow> u32 \<Rightarrow> ('a memory_scheme, u32) prog" where
  "PopThreadQueueHead queueAddr head =
     bindP (Read32 (head + kThreadNextOffset)) (\<lambda>next.
     thenP (if next = 0 then Write32 (queueAddr + 4) 0 else Write32 (next + kThreadPrevOffset) 0)
     (thenP (Write32 queueAddr next) (returnP next)))"

definition PromoteThreadPriority :: "u32 \<Rightarrow> int \<Rightarrow> ('a memory_scheme, unit) prog" where
  "PromoteThreadPriority thread0 priority =
     loopP kWalkFuel (\<lambda>threadPtr.
       if threadPtr = 0 then returnP (Inr ())
       else bindP (Read32 (threadPtr + kThreadSuspendOffset)) (\<lambda>suspend.
         if to_i32 suspend > 0 then returnP (Inr ())
         else bindP (Read32 (threadPtr + kThreadPriorityOffset)) (\<lambda>current.
           if to_i32 current \<le> priority then returnP (Inr ())
           else bindP (SetThreadEffectivePriority threadPtr priority)
                  (\<lambda>next. returnP (Inl next))))) thread0"

end
