(* ===== verification/Os_Queue_Laws.thy ===== *)
theory Os_Queue_Laws
  imports Os_Queue
begin

text \<open>
  The thread queues of \<open>Os_Queue\<close> as lists.  \<open>queue_ok\<close> is the invariant of one queue;
  each operation is run to a sequence of stores, and the list lemmas of \<open>Guest_List\<close>
  give the queue it leaves behind.
\<close>

section \<open>Thread fields\<close>

definition thread_offs :: "u32 set" where
  "thread_offs = {kThreadStateOffset, kThreadPriorityOffset, kThreadQueueOffset, kThreadNextOffset, kThreadPrevOffset,
     kThreadBasePriorityOffset, kThreadSuspendOffset, kThreadMutexOffset}"

lemma offs_mem [simp]:
  "kThreadPriorityOffset \<in> thread_offs" "kThreadQueueOffset \<in> thread_offs"
  "kThreadNextOffset \<in> thread_offs" "kThreadPrevOffset \<in> thread_offs"
  "kThreadBasePriorityOffset \<in> thread_offs" "kThreadSuspendOffset \<in> thread_offs"
  "kThreadMutexOffset \<in> thread_offs" "kThreadStateOffset \<in> thread_offs"
  by (simp_all add: thread_offs_def)

lemma offs_distinct [simp]:
  "kThreadPriorityOffset \<noteq> kThreadQueueOffset" "kThreadQueueOffset \<noteq> kThreadPriorityOffset"
  "kThreadPriorityOffset \<noteq> kThreadNextOffset" "kThreadNextOffset \<noteq> kThreadPriorityOffset"
  "kThreadPriorityOffset \<noteq> kThreadPrevOffset" "kThreadPrevOffset \<noteq> kThreadPriorityOffset"
  "kThreadQueueOffset \<noteq> kThreadNextOffset" "kThreadNextOffset \<noteq> kThreadQueueOffset"
  "kThreadQueueOffset \<noteq> kThreadPrevOffset" "kThreadPrevOffset \<noteq> kThreadQueueOffset"
  "kThreadNextOffset \<noteq> kThreadPrevOffset" "kThreadPrevOffset \<noteq> kThreadNextOffset"
  by (simp_all add: os_offsets)

definition apart :: "u32 set \<Rightarrow> bool" where
  "apart T \<longleftrightarrow> 0 \<notin> T \<and> (\<forall>x\<in>T. \<forall>y\<in>T. \<forall>i\<in>thread_offs. \<forall>j\<in>thread_offs. x + i = y + j \<longrightarrow> x = y)"

lemma apart_cell:
  "apart T \<Longrightarrow> x \<in> T \<Longrightarrow> y \<in> T \<Longrightarrow> i \<in> thread_offs \<Longrightarrow> j \<in> thread_offs \<Longrightarrow>
   (x + i = y + j) = (x = y \<and> i = j)"
  unfolding apart_def by (metis add_left_cancel)

definition threads_ram :: "'a memory_scheme \<Rightarrow> u32 set \<Rightarrow> bool" where
  "threads_ram s T \<longleftrightarrow> (\<forall>x\<in>T. \<forall>i\<in>thread_offs. ram s (x + i))"

text \<open>A cell outside every thread's fields.\<close>

definition off_threads :: "u32 set \<Rightarrow> u32 \<Rightarrow> bool" where
  "off_threads T c \<longleftrightarrow> (\<forall>x\<in>T. \<forall>i\<in>thread_offs. x + i \<noteq> c)"

lemma off_threadsD: "off_threads T c \<Longrightarrow> x \<in> T \<Longrightarrow> i \<in> thread_offs \<Longrightarrow> x + i \<noteq> c \<and> c \<noteq> x + i"
  unfolding off_threads_def by metis

definition queue_ok :: "'a memory_scheme \<Rightarrow> u32 set \<Rightarrow> u32 \<Rightarrow> u32 list \<Rightarrow> bool" where
  "queue_ok s T q xs \<longleftrightarrow> ram s q \<and> ram s (q + 4) \<and> threads_ram s T \<and> apart T \<and> set xs \<subseteq> T \<and>
     off_threads T q \<and> off_threads T (q + 4) \<and>
     dll (rd32 s) kThreadNextOffset kThreadPrevOffset q (q + 4) xs"

lemma slots_differ: "q \<noteq> q + (4 :: u32)" "q + (4 :: u32) \<noteq> q"
  by simp_all

lemma queue_node_sep:
  assumes "apart T" and "off_threads T q" and "off_threads T (q + 4)" and "X \<subseteq> T"
  shows "node_sep kThreadNextOffset kThreadPrevOffset q (q + 4) X"
  unfolding node_sep_def
  using assms slots_differ [of q] off_threadsD [OF assms(2)] off_threadsD [OF assms(3)]
    apart_cell [OF assms(1)]
  by (simp add: subset_iff)

lemma queue_length:
  assumes "distinct (xs :: u32 list)" and "0 \<notin> set xs"
  shows "length xs < kWalkFuel"
proof -
  have "insert 0 (set xs) \<subseteq> UNIV" by simp
  then have "card (insert 0 (set xs)) \<le> CARD(u32)"
    by (intro card_mono) simp_all
  moreover have "CARD(u32) = kWalkFuel" by (simp add: card_word kWalkFuel_def)
  ultimately show ?thesis
    using assms by (simp add: distinct_card)
qed

lemma threads_ram_writes [simp]: "threads_ram (writes wr32 s ps) T = threads_ram s T"
  by (simp add: threads_ram_def)

section \<open>Running the link sequences\<close>

lemma link_at_tail_run:
  assumes "ram s q" and "ram s (q + 4)" and "ram s (x + kThreadNextOffset)" and "ram s (x + kThreadPrevOffset)"
    and "rd32 s (q + 4) \<noteq> 0 \<Longrightarrow> ram s (rd32 s (q + 4) + kThreadNextOffset)"
  shows "link_at_tail q x s =
    (Ok (), writes wr32 s (append_writes (rd32 s) x kThreadNextOffset kThreadPrevOffset q (q + 4)))"
  using assms by (simp add: link_at_tail_def append_writes_def run_simps)

lemma link_before_run:
  assumes "ram s q" and "ram s (x + kThreadNextOffset)" and "ram s (x + kThreadPrevOffset)"
    and "ram s (y + kThreadPrevOffset)" and "x + kThreadNextOffset \<noteq> y + kThreadPrevOffset"
    and "rd32 s (y + kThreadPrevOffset) \<noteq> 0 \<Longrightarrow> ram s (rd32 s (y + kThreadPrevOffset) + kThreadNextOffset)"
  shows "link_before q x y s =
    (Ok (), writes wr32 s (before_writes (rd32 s) x y kThreadNextOffset kThreadPrevOffset q))"
  using assms
  by (simp add: link_before_def before_writes_def run_simps rd32_wr32_other)

lemma find_insert_before_run:
  assumes "dseg (rd32 s) kThreadNextOffset kThreadPrevOffset pv xs 0"
    and "\<forall>x \<in> set xs. ram s (x + kThreadPriorityOffset) \<and> ram s (x + kThreadNextOffset)"
    and "length xs < n"
  shows "loopP n (\<lambda>insertBefore.
       if insertBefore = 0 then returnP (Inr 0)
       else bindP (Read32 (insertBefore + kThreadPriorityOffset)) (\<lambda>queuedPriority.
         if to_i32 queuedPriority > p then returnP (Inr insertBefore)
         else bindP (Read32 (insertBefore + kThreadNextOffset)) (\<lambda>next. returnP (Inl next)))) (first0 xs) s =
    (Ok (first0 (dropWhile (\<lambda>y. to_i32 (rd32 s (y + kThreadPriorityOffset)) \<le> p) xs)), s)"
  using assms
proof (induction xs arbitrary: pv n)
  case Nil
  then obtain m where "n = Suc m" by (cases n) auto
  then show ?case by (simp add: first0_def run_simps)
next
  case (Cons x xs)
  then obtain m where n: "n = Suc m" by (cases n) auto
  have x: "x \<noteq> 0" "rd32 s (x + kThreadNextOffset) = first0 xs"
    "dseg (rd32 s) kThreadNextOffset kThreadPrevOffset x xs 0"
    using Cons.prems(1) by (simp_all add: first0_def)
  show ?case
  proof (cases "to_i32 (rd32 s (x + kThreadPriorityOffset)) > p")
    case True
    then show ?thesis
      using x Cons.prems(2) by (simp add: first0_def [of "x # _"] n run_simps)
  next
    case False
    have "\<forall>x \<in> set xs. ram s (x + kThreadPriorityOffset) \<and> ram s (x + kThreadNextOffset)" "length xs < m"
      using Cons.prems(2,3) n by simp_all
    from Cons.IH [OF x(3) this] show ?thesis
      using x(1,2) Cons.prems(2) False by (simp add: first0_def [of "x # _"] n run_simps not_less)
  qed
qed


section \<open>Lists after a run\<close>

definition link_cells :: "u32 \<Rightarrow> u32 set \<Rightarrow> u32 set" where
  "link_cells q T = {q, q + 4} \<union> (\<lambda>x. x + kThreadNextOffset) ` T \<union> (\<lambda>x. x + kThreadPrevOffset) ` T"

lemma link_cells_ram:
  "ram s q \<Longrightarrow> ram s (q + 4) \<Longrightarrow> threads_ram s T \<Longrightarrow> c \<in> link_cells q T \<Longrightarrow> ram s c"
  by (auto simp: link_cells_def threads_ram_def)

lemma link_cellsI [simp]:
  "q \<in> link_cells q T" "q + 4 \<in> link_cells q T"
  "x \<in> T \<Longrightarrow> x + kThreadNextOffset \<in> link_cells q T"
  "x \<in> T \<Longrightarrow> x + kThreadPrevOffset \<in> link_cells q T"
  by (auto simp: link_cells_def)

lemma link_cells_mono: "A \<subseteq> B \<Longrightarrow> link_cells q A \<subseteq> link_cells q B"
  by (auto simp: link_cells_def)

lemma cells_ram:
  assumes "queue_ok s T q xs" and "A \<subseteq> link_cells q X" and "X \<subseteq> T"
  shows "\<forall>c \<in> A. ram s c"
  using link_cells_ram [of s q T] link_cells_mono [OF assms(3)] assms(1,2)
  unfolding queue_ok_def by blast

lemma first0_mem: "first0 xs \<noteq> 0 \<Longrightarrow> set xs \<subseteq> T \<Longrightarrow> first0 xs \<in> T"
  and last0_mem: "last0 xs \<noteq> 0 \<Longrightarrow> set xs \<subseteq> T \<Longrightarrow> last0 xs \<in> T"
  using hd_in_set [of xs] last_in_set [of xs]
  by (auto simp: first0_def last0_def split: if_splits)

lemma append_writes_cells:
  assumes "dll f kThreadNextOffset kThreadPrevOffset q (q + 4) xs" and "set xs \<subseteq> T" and "x \<in> T"
  shows "fst ` set (append_writes f x kThreadNextOffset kThreadPrevOffset q (q + 4)) \<subseteq> link_cells q T"
proof -
  have "f (q + 4) = last0 xs" using assms(1) by (simp add: dll_def)
  then show ?thesis
    using assms last0_mem [of xs T] by (simp add: append_writes_def)
qed

lemma before_writes_cells:
  assumes "dll f kThreadNextOffset kThreadPrevOffset q (q + 4) (xs @ y # ys)"
    and "set (xs @ y # ys) \<subseteq> T" and "x \<in> T"
  shows "fst ` set (before_writes f x y kThreadNextOffset kThreadPrevOffset q) \<subseteq> link_cells q T"
proof -
  have "f (y + kThreadPrevOffset) = last0 xs" using assms(1) by (simp add: dll_mid)
  then show ?thesis
    using assms last0_mem [of xs T] by (simp add: before_writes_def)
qed

lemma unlink_writes_cells:
  assumes "dll f kThreadNextOffset kThreadPrevOffset q (q + 4) (xs @ y # ys)" and "set (xs @ y # ys) \<subseteq> T"
  shows "fst ` set (unlink_writes f y kThreadNextOffset kThreadPrevOffset q (q + 4)) \<subseteq> link_cells q T"
proof -
  have "f (y + kThreadPrevOffset) = last0 xs" "f (y + kThreadNextOffset) = first0 ys"
    using assms(1) by (simp_all add: dll_mid)
  then show ?thesis
    using assms last0_mem [of xs T] first0_mem [of ys T] by (simp add: unlink_writes_def)
qed

lemma pop_writes_cells:
  assumes "dll f kThreadNextOffset kThreadPrevOffset q (q + 4) (y # ys)" and "set (y # ys) \<subseteq> T"
  shows "fst ` set (pop_writes f kThreadNextOffset kThreadPrevOffset q (q + 4)) \<subseteq> link_cells q T"
proof -
  have "f q = y" "f (y + kThreadNextOffset) = first0 ys"
    using assms(1) dll_mid [of f kThreadNextOffset kThreadPrevOffset q "q + 4" "[]" y ys] by (simp_all add: first0_def)
  then show ?thesis
    using assms first0_mem [of ys T] by (simp add: pop_writes_def)
qed

text \<open>The queue after a sequence of stores is the one the updated cells spell out.\<close>

lemma queue_ok_writes:
  assumes q: "queue_ok s T q xs" and ps: "\<forall>c \<in> fst ` set ps. ram s c"
    and d: "dll (upds (rd32 s) ps) kThreadNextOffset kThreadPrevOffset q (q + 4) ys" and "set ys \<subseteq> T"
  shows "queue_ok (writes wr32 s ps) T q ys"
proof -
  have r: "ram s q" "ram s (q + 4)" "\<forall>x \<in> T. ram s (x + kThreadNextOffset) \<and> ram s (x + kThreadPrevOffset)"
    using q by (auto simp: queue_ok_def threads_ram_def)
  have "dll (rd32 (writes wr32 s ps)) kThreadNextOffset kThreadPrevOffset q (q + 4) ys =
      dll (upds (rd32 s) ps) kThreadNextOffset kThreadPrevOffset q (q + 4) ys"
    by (rule dll_cong) (use r assms(4) in \<open>auto simp: gm.rd_writes [OF ps]\<close>)
  then show ?thesis
    using q d assms(4) by (simp add: queue_ok_def)
qed

text \<open>Every other queue keeps its contents when no cell of it is stored to.\<close>

lemma queue_ok_frame:
  assumes q: "queue_ok s T q xs" and ps: "\<forall>c \<in> fst ` set ps. ram s c"
    and "q \<notin> fst ` set ps" and "q + 4 \<notin> fst ` set ps"
    and "\<forall>x \<in> set xs. x + kThreadNextOffset \<notin> fst ` set ps \<and> x + kThreadPrevOffset \<notin> fst ` set ps"
  shows "queue_ok (writes wr32 s ps) T q xs"
proof -
  have "dll (upds (rd32 s) ps) kThreadNextOffset kThreadPrevOffset q (q + 4) xs =
      dll (rd32 s) kThreadNextOffset kThreadPrevOffset q (q + 4) xs"
    by (rule dll_cong) (use assms(3-5) in \<open>simp_all add: upds_other\<close>)
  then show ?thesis
    using q by (intro queue_ok_writes [OF q ps]) (auto simp: queue_ok_def)
qed

section \<open>Insertion by priority\<close>

definition prio_of :: "'a memory_scheme \<Rightarrow> u32 \<Rightarrow> int" where
  "prio_of s x = to_i32 (rd32 s (x + kThreadPriorityOffset))"

text \<open>The queue after an insertion: behind every thread of the same or a higher priority.\<close>

definition insert_prio :: "(u32 \<Rightarrow> int) \<Rightarrow> int \<Rightarrow> u32 \<Rightarrow> u32 list \<Rightarrow> u32 list" where
  "insert_prio pr p x xs = takeWhile (\<lambda>y. pr y \<le> p) xs @ x # dropWhile (\<lambda>y. pr y \<le> p) xs"

definition insert_writes :: "'a memory_scheme \<Rightarrow> u32 \<Rightarrow> u32 \<Rightarrow> int \<Rightarrow> u32 list \<Rightarrow> (u32 \<times> u32) list" where
  "insert_writes s q x p xs = (x + kThreadQueueOffset, q) #
     (let f = (rd32 s)(x + kThreadQueueOffset := q);
          y = first0 (dropWhile (\<lambda>y. prio_of s y \<le> p) xs)
      in if y = 0 then append_writes f x kThreadNextOffset kThreadPrevOffset q (q + 4)
         else before_writes f x y kThreadNextOffset kThreadPrevOffset q)"

definition mark_pending :: "u32 \<Rightarrow> ('a memory_scheme, unit) prog" where
  "mark_pending queuePtr =
     (if is_run_queue queuePtr
      then bindP (Read32 kSchedulerPendingFlagAddr) (\<lambda>pending.
           Write32 kSchedulerPendingFlagAddr
             (pending OR pending_bit ((queuePtr - kThreadQueueArrayAddr) div 8)))
      else returnP ())"

lemma queue_field_free:
  assumes "queue_ok s T q xs" and "x \<in> T" and "X \<subseteq> T"
  shows "x + kThreadQueueOffset \<notin> link_cells q X"
proof
  assume "x + kThreadQueueOffset \<in> link_cells q X"
  then consider "x + kThreadQueueOffset \<in> {q, q + 4}"
    | z where "z \<in> T" "x + kThreadQueueOffset = z + kThreadNextOffset \<or> x + kThreadQueueOffset = z + kThreadPrevOffset"
    using assms(3) unfolding link_cells_def by blast
  then show False
  proof cases
    case 1
    then show False
      using assms off_threadsD [of T q x kThreadQueueOffset] off_threadsD [of T "q + 4" x kThreadQueueOffset]
      by (auto simp: queue_ok_def)
  next
    case 2
    then show False
      using assms apart_cell [of T x z kThreadQueueOffset kThreadNextOffset]
        apart_cell [of T x z kThreadQueueOffset kThreadPrevOffset]
      by (simp add: queue_ok_def)
  qed
qed

lemma queue_ok_setQueue:
  assumes "queue_ok s T q xs" and "x \<in> T"
  shows "queue_ok (wr32 s (x + kThreadQueueOffset) v) T q xs"
proof -
  have X: "set xs \<subseteq> T" and r: "ram s (x + kThreadQueueOffset)"
    using assms by (simp_all add: queue_ok_def threads_ram_def)
  have "c \<noteq> x + kThreadQueueOffset" if "c \<in> link_cells q (set xs)" for c
    using queue_field_free [OF assms X] that by auto
  then have "queue_ok (writes wr32 s [(x + kThreadQueueOffset, v)]) T q xs"
    using r by (intro queue_ok_frame [OF assms(1)]) simp_all
  then show ?thesis by simp
qed

lemma rd32_upd: "ram s a \<Longrightarrow> ram s c \<Longrightarrow> rd32 (wr32 s a v) c = ((rd32 s)(a := v)) c"
  using gm.rd_wr [of s a c v] by simp

lemma append_writes_cong:
  "f t = g t \<Longrightarrow> append_writes f x nx pv h t = append_writes g x nx pv h t"
  by (simp add: append_writes_def)

lemma before_writes_cong:
  "f (y + pv) = g (y + pv) \<Longrightarrow> before_writes f x y nx pv h = before_writes g x y nx pv h"
  by (simp add: before_writes_def)

lemma takeWhile_dropWhile_mid:
  "dropWhile P xs = y # ys \<Longrightarrow> xs = takeWhile P xs @ y # ys"
  by (metis takeWhile_dropWhile_id)

text \<open>The queue after the thread got its queue field, and the place of the thread in it.\<close>

lemma Insert_prepared:
  assumes q: "queue_ok s T q xs" and x: "x \<in> T" "x \<notin> set xs"
  shows "ram s c \<Longrightarrow> rd32 (wr32 s (x + kThreadQueueOffset) q) c = ((rd32 s)(x + kThreadQueueOffset := q)) c"
    and "dll ((rd32 s)(x + kThreadQueueOffset := q)) kThreadNextOffset kThreadPrevOffset q (q + 4) xs"
    and "dll (rd32 (wr32 s (x + kThreadQueueOffset) q)) kThreadNextOffset kThreadPrevOffset q (q + 4) xs"
proof -
  let ?s1 = "wr32 s (x + kThreadQueueOffset) q"
  let ?f = "(rd32 s)(x + kThreadQueueOffset := q)"
  have R: "ram s q" "ram s (q + 4)" "\<And>z i. z \<in> T \<Longrightarrow> i \<in> thread_offs \<Longrightarrow> ram s (z + i)"
    and ap: "apart T" and off: "off_threads T q" "off_threads T (q + 4)" and sub: "set xs \<subseteq> T"
    using q by (auto simp: queue_ok_def threads_ram_def)
  have q1: "queue_ok ?s1 T q xs" using queue_ok_setQueue [OF q x(1)] .
  then have d1: "dll (rd32 ?s1) kThreadNextOffset kThreadPrevOffset q (q + 4) xs"
    by (simp add: queue_ok_def)
  have f: "rd32 ?s1 c = ?f c" if "ram s c" for c
    using rd32_upd [of s "x + kThreadQueueOffset" c q] R(3) [OF x(1)] that by simp
  have d: "dll ?f kThreadNextOffset kThreadPrevOffset q (q + 4) xs"
    using d1 sub R by (subst (asm) dll_cong [where g = ?f]) (auto simp: f simp del: fun_upd_apply)
  show "ram s c \<Longrightarrow> rd32 (wr32 s (x + kThreadQueueOffset) q) c = ((rd32 s)(x + kThreadQueueOffset := q)) c"
    "dll ?f kThreadNextOffset kThreadPrevOffset q (q + 4) xs" "dll (rd32 ?s1) kThreadNextOffset kThreadPrevOffset q (q + 4) xs"
    by (erule f, rule d, rule d1)
qed

lemma Insert_place:
  assumes q: "queue_ok s T q xs" and x: "x \<in> T" "x \<notin> set xs"
  shows "find_insert_before (rd32 (wr32 s (x + kThreadQueueOffset) q) q) p (wr32 s (x + kThreadQueueOffset) q) =
    (Ok (first0 (dropWhile (\<lambda>y. prio_of s y \<le> p) xs)), wr32 s (x + kThreadQueueOffset) q)"
proof -
  let ?s1 = "wr32 s (x + kThreadQueueOffset) q"
  let ?f = "(rd32 s)(x + kThreadQueueOffset := q)"
  let ?P = "\<lambda>y. prio_of s y \<le> p"
  let ?y = "first0 (dropWhile ?P xs)"
  have R: "ram s q" "ram s (q + 4)" "\<And>z i. z \<in> T \<Longrightarrow> i \<in> thread_offs \<Longrightarrow> ram s (z + i)"
    and ap: "apart T" and off: "off_threads T q" "off_threads T (q + 4)" and sub: "set xs \<subseteq> T"
    using q by (auto simp: queue_ok_def threads_ram_def)
  note f = Insert_prepared(1) [OF q x] and d = Insert_prepared(2) [OF q x] and d1 = Insert_prepared(3) [OF q x]
  have pr: "to_i32 (rd32 ?s1 (z + kThreadPriorityOffset)) = prio_of s z" if "z \<in> set xs" for z
    using f [of "z + kThreadPriorityOffset"] R(3) that sub apart_cell [OF ap _ x(1)]
    by (simp add: prio_of_def subset_iff)
  have len: "length xs < kWalkFuel"
    using d ap sub by (intro queue_length) (auto simp: dll_def apart_def)
  have seg: "dseg (rd32 ?s1) kThreadNextOffset kThreadPrevOffset 0 xs 0" and first: "rd32 ?s1 q = first0 xs"
    using d1 by (simp_all add: dll_def)
  have dw: "dropWhile (\<lambda>y. to_i32 (rd32 ?s1 (y + kThreadPriorityOffset)) \<le> p) xs = dropWhile ?P xs"
    by (rule dropWhile_cong) (simp_all add: pr)
  have rams: "\<forall>z \<in> set xs. ram ?s1 (z + kThreadPriorityOffset) \<and> ram ?s1 (z + kThreadNextOffset)"
    using R(3) sub by auto
  show ?thesis
    using find_insert_before_run [OF seg rams len, of p] dw by (simp add: find_insert_before_def first)
qed

lemma Insert_tail:
  assumes q: "queue_ok s T q xs" and x: "x \<in> T" "x \<notin> set xs"
    and Nil: "dropWhile (\<lambda>y. prio_of s y \<le> p) xs = []"
  shows "InsertThreadIntoQueueByPriority q x p s = mark_pending q (writes wr32 s (insert_writes s q x p xs)) \<and>
    queue_ok (writes wr32 s (insert_writes s q x p xs)) T q (insert_prio (prio_of s) p x xs) \<and>
    fst ` set (tl (insert_writes s q x p xs)) \<subseteq> link_cells q (insert x (set xs))"
proof -
  let ?s1 = "wr32 s (x + kThreadQueueOffset) q"
  let ?f = "(rd32 s)(x + kThreadQueueOffset := q)"
  let ?P = "\<lambda>y. prio_of s y \<le> p"
  let ?y = "first0 (dropWhile ?P xs)"
  have R: "ram s q" "ram s (q + 4)" "\<And>z i. z \<in> T \<Longrightarrow> i \<in> thread_offs \<Longrightarrow> ram s (z + i)"
    and ap: "apart T" and off: "off_threads T q" "off_threads T (q + 4)" and sub: "set xs \<subseteq> T"
    using q by (auto simp: queue_ok_def threads_ram_def)
  have x0: "x \<noteq> 0" using ap x(1) by (auto simp: apart_def)
  have subT: "insert x (set xs) \<subseteq> T" using sub x(1) by simp
  note f = Insert_prepared(1) [OF q x] and d = Insert_prepared(2) [OF q x] and d1 = Insert_prepared(3) [OF q x]
    and find = Insert_place [OF q x, of p]
  have sep: "node_sep kThreadNextOffset kThreadPrevOffset q (q + 4) (insert x (set xs))"
    using queue_node_sep [OF ap off] sub x(1) by simp
  have y: "?y = 0" and tw: "takeWhile ?P xs = xs"
    using Nil takeWhile_dropWhile_id [of ?P xs] by (simp_all add: first0_def)
  have iw: "insert_writes s q x p xs = (x + kThreadQueueOffset, q) #
      append_writes ?f x kThreadNextOffset kThreadPrevOffset q (q + 4)"
    using y by (simp add: insert_writes_def Let_def)
  have aw: "append_writes (rd32 ?s1) x kThreadNextOffset kThreadPrevOffset q (q + 4) =
      append_writes ?f x kThreadNextOffset kThreadPrevOffset q (q + 4)"
    by (rule append_writes_cong) (rule f [OF R(2)])
  have tail: "ram ?s1 (rd32 ?s1 (q + 4) + kThreadNextOffset)" if "rd32 ?s1 (q + 4) \<noteq> 0"
    using that d1 last0_mem [OF _ sub] R(3) by (simp add: dll_def)
  have "InsertThreadIntoQueueByPriority q x p s = mark_pending q (writes wr32 s (insert_writes s q x p xs))"
    using R x(1) link_at_tail_run [of ?s1 q x] tail
    by (simp add: InsertThreadIntoQueueByPriority_def run_simps find y iw aw mark_pending_def)
  moreover have cells: "fst ` set (append_writes ?f x kThreadNextOffset kThreadPrevOffset q (q + 4)) \<subseteq>
      link_cells q (insert x (set xs))"
    using append_writes_cells [OF d] by blast
  moreover have "queue_ok (writes wr32 s (insert_writes s q x p xs)) T q (xs @ [x])"
  proof (rule queue_ok_writes [OF q])
    show "\<forall>c \<in> fst ` set (insert_writes s q x p xs). ram s c"
      using cells_ram [OF q cells subT] R(3) [OF x(1)] by (simp add: iw)
    show "dll (upds (rd32 s) (insert_writes s q x p xs)) kThreadNextOffset kThreadPrevOffset q (q + 4) (xs @ [x])"
      using dll_append [OF d x0 x(2) sep] by (simp add: iw)
  qed (use sub x(1) in simp)
  ultimately show ?thesis
    using cells by (auto simp: insert_prio_def Nil tw iw)
qed

lemma Insert_middle:
  assumes q: "queue_ok s T q xs" and x: "x \<in> T" "x \<notin> set xs"
    and Cons: "dropWhile (\<lambda>y. prio_of s y \<le> p) xs = y # ys"
  shows "InsertThreadIntoQueueByPriority q x p s = mark_pending q (writes wr32 s (insert_writes s q x p xs)) \<and>
    queue_ok (writes wr32 s (insert_writes s q x p xs)) T q (insert_prio (prio_of s) p x xs) \<and>
    fst ` set (tl (insert_writes s q x p xs)) \<subseteq> link_cells q (insert x (set xs))"
proof -
  let ?s1 = "wr32 s (x + kThreadQueueOffset) q"
  let ?f = "(rd32 s)(x + kThreadQueueOffset := q)"
  let ?P = "\<lambda>y. prio_of s y \<le> p"
  let ?y = "first0 (dropWhile ?P xs)"
  have R: "ram s q" "ram s (q + 4)" "\<And>z i. z \<in> T \<Longrightarrow> i \<in> thread_offs \<Longrightarrow> ram s (z + i)"
    and ap: "apart T" and off: "off_threads T q" "off_threads T (q + 4)" and sub: "set xs \<subseteq> T"
    using q by (auto simp: queue_ok_def threads_ram_def)
  have x0: "x \<noteq> 0" using ap x(1) by (auto simp: apart_def)
  have subT: "insert x (set xs) \<subseteq> T" using sub x(1) by simp
  note f = Insert_prepared(1) [OF q x] and d = Insert_prepared(2) [OF q x] and d1 = Insert_prepared(3) [OF q x]
    and find = Insert_place [OF q x, of p]
  have sep: "node_sep kThreadNextOffset kThreadPrevOffset q (q + 4) (insert x (set xs))"
    using queue_node_sep [OF ap off] sub x(1) by simp
  note xs = takeWhile_dropWhile_mid [OF Cons]
  let ?xs = "takeWhile ?P xs"
  have sub': "set (?xs @ y # ys) \<subseteq> T" using sub xs by metis
  have yT: "y \<in> T" using sub' by simp
  have y0: "?y = y" "y \<noteq> 0"
    using yT ap Cons by (auto simp: first0_def apart_def)
  have iw: "insert_writes s q x p xs = (x + kThreadQueueOffset, q) #
      before_writes ?f x y kThreadNextOffset kThreadPrevOffset q"
    using y0 by (simp add: insert_writes_def Let_def)
  have bw: "before_writes (rd32 ?s1) x y kThreadNextOffset kThreadPrevOffset q =
      before_writes ?f x y kThreadNextOffset kThreadPrevOffset q"
    by (rule before_writes_cong) (rule f [OF R(3) [OF yT]], simp)
  have d': "dll ?f kThreadNextOffset kThreadPrevOffset q (q + 4) (?xs @ y # ys)"
    using d xs by metis
  have prev: "rd32 ?s1 (y + kThreadPrevOffset) = last0 ?xs"
    using d1 xs dll_mid [of "rd32 ?s1" _ _ _ _ ?xs y ys] by metis
  have tail: "ram ?s1 (rd32 ?s1 (y + kThreadPrevOffset) + kThreadNextOffset)"
    if "rd32 ?s1 (y + kThreadPrevOffset) \<noteq> 0"
    using that last0_mem [of ?xs T] sub' R(3) by (simp add: prev)
  have x': "x \<notin> set (?xs @ y # ys)" using x(2) xs by metis
  have sep': "node_sep kThreadNextOffset kThreadPrevOffset q (q + 4) (insert x (set (?xs @ y # ys)))"
    using sep xs by metis
  have ne: "x + kThreadNextOffset \<noteq> y + kThreadPrevOffset"
    using apart_cell [OF ap x(1) yT] by simp
  have "InsertThreadIntoQueueByPriority q x p s = mark_pending q (writes wr32 s (insert_writes s q x p xs))"
    using R x(1) yT link_before_run [of ?s1 q x y] tail ne
    by (simp add: InsertThreadIntoQueueByPriority_def run_simps find y0 iw bw mark_pending_def)
  moreover have "insert x (set (?xs @ y # ys)) = insert x (set xs)"
    using xs by metis
  then have cells: "fst ` set (before_writes ?f x y kThreadNextOffset kThreadPrevOffset q) \<subseteq>
      link_cells q (insert x (set xs))"
    using before_writes_cells [OF d', of "insert x (set xs)"] by auto
  moreover have "queue_ok (writes wr32 s (insert_writes s q x p xs)) T q (?xs @ x # y # ys)"
  proof (rule queue_ok_writes [OF q])
    show "\<forall>c \<in> fst ` set (insert_writes s q x p xs). ram s c"
      using cells_ram [OF q cells subT] R(3) [OF x(1)] by (simp add: iw)
    show "dll (upds (rd32 s) (insert_writes s q x p xs)) kThreadNextOffset kThreadPrevOffset q (q + 4) (?xs @ x # y # ys)"
      using dll_before [OF d' x0 x' sep'] by (simp add: iw)
  qed (use sub' x(1) in simp)
  ultimately show ?thesis
    using cells by (auto simp: insert_prio_def Cons iw)
qed

lemma Insert_run:
  assumes q: "queue_ok s T q xs" and x: "x \<in> T" "x \<notin> set xs"
  shows "InsertThreadIntoQueueByPriority q x p s = mark_pending q (writes wr32 s (insert_writes s q x p xs))"
    and "queue_ok (writes wr32 s (insert_writes s q x p xs)) T q (insert_prio (prio_of s) p x xs)"
    and "fst ` set (tl (insert_writes s q x p xs)) \<subseteq> link_cells q (insert x (set xs))"
  using Insert_tail [OF q x] Insert_middle [OF q x] by (cases "dropWhile (\<lambda>y. prio_of s y \<le> p) xs"; blast)+

lemma Insert_field:
  assumes q: "queue_ok s T q xs" and x: "x \<in> T" "x \<notin> set xs"
  shows "fst ` set (insert_writes s q x p xs) \<subseteq> insert (x + kThreadQueueOffset) (link_cells q (insert x (set xs)))"
    and "rd32 (writes wr32 s (insert_writes s q x p xs)) (x + kThreadQueueOffset) = q"
proof -
  note I = Insert_run(3) [OF q x, of p]
  obtain ps where ps: "insert_writes s q x p xs = (x + kThreadQueueOffset, q) # ps"
    by (simp add: insert_writes_def)
  have XT: "insert x (set xs) \<subseteq> T" using q x(1) by (auto simp: queue_ok_def)
  show "fst ` set (insert_writes s q x p xs) \<subseteq> insert (x + kThreadQueueOffset) (link_cells q (insert x (set xs)))"
    using I by (auto simp: ps)
  have r: "ram s (x + kThreadQueueOffset)" using q x(1) by (auto simp: queue_ok_def threads_ram_def)
  have rs: "\<forall>c \<in> fst ` set (insert_writes s q x p xs). ram s c"
    using cells_ram [OF q _ XT] I r by (simp add: ps)
  have "x + kThreadQueueOffset \<notin> fst ` set ps"
    using queue_field_free [OF q x(1) XT] I by (auto simp: ps)
  then show "rd32 (writes wr32 s (insert_writes s q x p xs)) (x + kThreadQueueOffset) = q"
    unfolding gm.rd_writes [OF rs r] by (simp add: ps upds_other)
qed

section \<open>Removal\<close>

lemma Unlink_queue_run:
  assumes q: "queue_ok s T q (xs @ x # ys)"
  shows "UnlinkGuestListNode x kThreadNextOffset kThreadPrevOffset q (q + 4) s =
      (Ok (), writes wr32 s (unlink_writes (rd32 s) x kThreadNextOffset kThreadPrevOffset q (q + 4)))"
    and "queue_ok (writes wr32 s (unlink_writes (rd32 s) x kThreadNextOffset kThreadPrevOffset q (q + 4))) T q (xs @ ys)"
    and "fst ` set (unlink_writes (rd32 s) x kThreadNextOffset kThreadPrevOffset q (q + 4)) \<subseteq>
      link_cells q (set (xs @ x # ys))"
proof -
  have d: "dll (rd32 s) kThreadNextOffset kThreadPrevOffset q (q + 4) (xs @ x # ys)"
    and R: "ram s q" "ram s (q + 4)" "threads_ram s T" and sub: "set (xs @ x # ys) \<subseteq> T"
    and ap: "apart T" and off: "off_threads T q" "off_threads T (q + 4)"
    using q by (auto simp: queue_ok_def)
  show run: "UnlinkGuestListNode x kThreadNextOffset kThreadPrevOffset q (q + 4) s =
      (Ok (), writes wr32 s (unlink_writes (rd32 s) x kThreadNextOffset kThreadPrevOffset q (q + 4)))"
    using sub R by (intro UnlinkGuestListNode_run [OF d]) (auto simp: threads_ram_def)
  show cells: "fst ` set (unlink_writes (rd32 s) x kThreadNextOffset kThreadPrevOffset q (q + 4)) \<subseteq>
      link_cells q (set (xs @ x # ys))"
    using unlink_writes_cells [OF d order_refl] .
  show "queue_ok (writes wr32 s (unlink_writes (rd32 s) x kThreadNextOffset kThreadPrevOffset q (q + 4))) T q (xs @ ys)"
  proof (rule queue_ok_writes [OF q])
    show "\<forall>c \<in> fst ` set (unlink_writes (rd32 s) x kThreadNextOffset kThreadPrevOffset q (q + 4)). ram s c"
      using cells_ram [OF q cells sub] .
    show "dll (upds (rd32 s) (unlink_writes (rd32 s) x kThreadNextOffset kThreadPrevOffset q (q + 4)))
        kThreadNextOffset kThreadPrevOffset q (q + 4) (xs @ ys)"
      using dll_unlink [OF d queue_node_sep [OF ap off sub]] .
  qed (use sub in auto)
qed

definition remove_writes :: "'a memory_scheme \<Rightarrow> u32 \<Rightarrow> u32 \<Rightarrow> (u32 \<times> u32) list" where
  "remove_writes s q x =
     unlink_writes (rd32 s) x kThreadNextOffset kThreadPrevOffset q (q + 4) @ [(x + kThreadQueueOffset, 0)]"

lemma Remove_run:
  assumes q: "queue_ok s T q (xs @ x # ys)" and "rd32 s (x + kThreadQueueOffset) = q" and "q \<noteq> 0"
  shows "RemoveThreadFromQueue x s = UpdatePendingMaskForQueue q (writes wr32 s (remove_writes s q x))"
    and "queue_ok (writes wr32 s (remove_writes s q x)) T q (xs @ ys)"
    and "fst ` set (remove_writes s q x) \<subseteq> insert (x + kThreadQueueOffset) (link_cells q (set (xs @ x # ys)))"
proof -
  note U = Unlink_queue_run [OF q]
  have x: "x \<in> T" and r: "ram s (x + kThreadQueueOffset)"
    using q by (auto simp: queue_ok_def threads_ram_def)
  show "RemoveThreadFromQueue x s = UpdatePendingMaskForQueue q (writes wr32 s (remove_writes s q x))"
    using assms(2,3) r by (cases "UpdatePendingMaskForQueue q (writes wr32 s (remove_writes s q x))")
      (simp add: RemoveThreadFromQueue_def run_simps U(1) remove_writes_def writes_append thenP_def bindP_def returnP_def
        split: res.splits)
  show "queue_ok (writes wr32 s (remove_writes s q x)) T q (xs @ ys)"
    using queue_ok_setQueue [OF U(2) x] by (simp add: remove_writes_def writes_append)
  show "fst ` set (remove_writes s q x) \<subseteq> insert (x + kThreadQueueOffset) (link_cells q (set (xs @ x # ys)))"
    using U(3) by (auto simp: remove_writes_def)
qed

end
