(* ===== verification/Run_Queues.thy ===== *)
theory Run_Queues
  imports Os_Queue_Laws
begin

text \<open>
  The 32 run queues and the pending word.  \<open>runq_ok s T Q\<close>: queue \<open>p\<close> of the array at
  \<open>0x803477b0\<close> holds the threads \<open>Q p\<close>, no thread is in two queues, every queued thread
  names its queue, and bit \<open>31 - p\<close> of the pending word is set exactly when queue \<open>p\<close>
  is not empty.  Every operation of \<open>Os_Queue\<close> on a run queue keeps it.
\<close>

abbreviation "Pending \<equiv> kSchedulerPendingFlagAddr"

definition run_queue :: "nat \<Rightarrow> u32" where
  "run_queue p = kThreadQueueArrayAddr + of_nat p * 8"

text \<open>The words of the scheduler that are not part of a queue.\<close>

definition sched_globals :: "u32 set" where
  "sched_globals = {Pending, kSchedulerReschedCounterAddr, kSchedulerIdleFlagAddr,
     kOSRunningContextAddr, kOSCurrentContextAddr}"

lemma sched_globals_mem [simp]:
  "Pending \<in> sched_globals" "kSchedulerReschedCounterAddr \<in> sched_globals"
  "kSchedulerIdleFlagAddr \<in> sched_globals" "kOSRunningContextAddr \<in> sched_globals"
  "kOSCurrentContextAddr \<in> sched_globals"
  by (simp_all add: sched_globals_def)

definition runq_ok :: "'a memory_scheme \<Rightarrow> u32 set \<Rightarrow> (nat \<Rightarrow> u32 list) \<Rightarrow> bool" where
  "runq_ok s T Q \<longleftrightarrow> (\<forall>c\<in>sched_globals. ram s c \<and> off_threads T c) \<and>
     (\<forall>p<32. queue_ok s T (run_queue p) (Q p)) \<and>
     (\<forall>p<32. \<forall>r<32. p \<noteq> r \<longrightarrow> set (Q p) \<inter> set (Q r) = {}) \<and>
     (\<forall>p<32. \<forall>x\<in>set (Q p). rd32 s (x + kThreadQueueOffset) = run_queue p) \<and>
     (\<forall>p<32. bit (rd32 s Pending) (31 - p) \<longleftrightarrow> Q p \<noteq> [])"

lemma unat_run_queue: "p < 32 \<Longrightarrow> unat (run_queue p) = 0x803477b0 + p * 8"
  using unat_add_small [of "kThreadQueueArrayAddr" "p * 8"]
  by (simp add: run_queue_def kThreadQueueArrayAddr_def)

lemma unat_run_queue4: "p < 32 \<Longrightarrow> unat (run_queue p + 4) = 0x803477b0 + p * 8 + 4"
  using unat_add_small [of "run_queue p" 4] unat_run_queue [of p] by simp

lemma run_queue_distinct:
  assumes "p < 32" and "r < 32"
  shows "run_queue p = run_queue r \<longleftrightarrow> p = r" "run_queue p \<noteq> run_queue r + 4" "run_queue p + 4 \<noteq> run_queue r"
    "run_queue p + 4 = run_queue r + 4 \<longleftrightarrow> p = r"
    "run_queue p \<noteq> Pending" "run_queue p + 4 \<noteq> Pending" "run_queue p \<noteq> 0"
proof -
  note U = unat_run_queue [OF assms(1)] unat_run_queue4 [OF assms(1)]
    unat_run_queue [OF assms(2)] unat_run_queue4 [OF assms(2)]
  have P: "unat Pending = 0x80386920" by (simp add: os_addrs)
  show "run_queue p = run_queue r \<longleftrightarrow> p = r" "run_queue p \<noteq> run_queue r + 4" "run_queue p + 4 \<noteq> run_queue r"
    "run_queue p + 4 = run_queue r + 4 \<longleftrightarrow> p = r"
    "run_queue p \<noteq> Pending" "run_queue p + 4 \<noteq> Pending" "run_queue p \<noteq> 0"
    using assms unfolding word_unat_eq_iff U P by (auto, presburger+)
qed

lemma unat_queue_offset: "p < 32 \<Longrightarrow> unat (of_nat p * 8 :: u32) = p * 8"
  by (simp add: unat_word_ariths unat_of_nat)

lemma is_run_queue_run_queue: "p < 32 \<Longrightarrow> is_run_queue (run_queue p)"
  using unat_run_queue [of p] unat_queue_offset [of p]
  by (auto simp: is_run_queue_def word_less_nat_alt word_le_nat_alt os_addrs run_queue_def
      word_unat_eq_iff unat_mod)

lemma run_queue_index: "p < 32 \<Longrightarrow> (run_queue p - kThreadQueueArrayAddr) div 8 = of_nat p"
  using unat_queue_offset [of p] by (simp add: run_queue_def word_unat_eq_iff unat_div unat_of_nat)

lemma pending_bit_of_nat: "p < 32 \<Longrightarrow> pending_bit (of_nat p) = 2 ^ (31 - p)"
  by (simp add: pending_bit_def unat_sub word_le_nat_alt unat_of_nat push_bit_eq_mult)

lemma bit_set_pending:
  "p < 32 \<Longrightarrow> r < 32 \<Longrightarrow> bit (w OR 2 ^ (31 - p) :: u32) (31 - r) = (bit w (31 - r) \<or> p = r)"
  by (auto simp: bit_simps)

lemma bit_clear_pending:
  "p < 32 \<Longrightarrow> r < 32 \<Longrightarrow> bit (w AND NOT (2 ^ (31 - p)) :: u32) (31 - r) = (bit w (31 - r) \<and> p \<noteq> r)"
  by (auto simp: bit_simps)

text \<open>The cells that an operation on one queue writes.\<close>

lemma update_ram:
  assumes inv: "runq_ok s T Q" and p: "p < 32" and x: "x \<in> T"
    and cells: "fst ` set ps \<subseteq> {x + kThreadQueueOffset, Pending} \<union> link_cells (run_queue p) (insert x (set (Q p)))"
  shows "\<forall>c \<in> fst ` set ps. ram s c"
proof -
  let ?X = "insert x (set (Q p))"
  have P: "ram s Pending" "off_threads T Pending" and Qok: "\<And>r. r < 32 \<Longrightarrow> queue_ok s T (run_queue r) (Q r)"
    using inv by (simp_all add: runq_ok_def)
  have ap: "apart T" and tr: "threads_ram s T" and XT: "?X \<subseteq> T"
    and off: "\<And>r. r < 32 \<Longrightarrow> off_threads T (run_queue r)" "\<And>r. r < 32 \<Longrightarrow> off_threads T (run_queue r + 4)"
    using Qok p x by (auto simp: queue_ok_def)
  show "\<forall>c \<in> fst ` set ps. ram s c"
  proof
    fix c assume "c \<in> fst ` set ps"
    then have "c = x + kThreadQueueOffset \<or> c = Pending \<or> c \<in> link_cells (run_queue p) ?X"
      using cells by auto
    then show "ram s c"
      using P(1) tr x cells_ram [OF Qok [OF p] order_refl XT] by (auto simp: threads_ram_def)
  qed
qed

text \<open>Fields of threads that are not in this queue are untouched.\<close>

lemma update_other:
  assumes inv: "runq_ok s T Q" and p: "p < 32" and x: "x \<in> T"
    and cells: "fst ` set ps \<subseteq> {x + kThreadQueueOffset, Pending} \<union> link_cells (run_queue p) (insert x (set (Q p)))"
    and that: "y \<in> T" "i \<in> thread_offs" "y \<notin> insert x (set (Q p)) \<or> i = kThreadQueueOffset \<and> y \<noteq> x"
  shows "y + i \<notin> fst ` set ps"
proof -
  let ?X = "insert x (set (Q p))"
  have P: "ram s Pending" "off_threads T Pending" and Qok: "\<And>r. r < 32 \<Longrightarrow> queue_ok s T (run_queue r) (Q r)"
    using inv by (simp_all add: runq_ok_def)
  have ap: "apart T" and tr: "threads_ram s T" and XT: "?X \<subseteq> T"
    and off: "\<And>r. r < 32 \<Longrightarrow> off_threads T (run_queue r)" "\<And>r. r < 32 \<Longrightarrow> off_threads T (run_queue r + 4)"
    using Qok p x by (auto simp: queue_ok_def)
  show "y + i \<notin> fst ` set ps"
  proof
    assume "y + i \<in> fst ` set ps"
    with cells consider "y + i = x + kThreadQueueOffset" | "y + i \<in> {Pending, run_queue p, run_queue p + 4}"
      | z where "z \<in> ?X" "y + i = z + kThreadNextOffset" | z where "z \<in> ?X" "y + i = z + kThreadPrevOffset"
      unfolding link_cells_def by blast
    then show False
    proof cases
      case 1
      then show False using that apart_cell [OF ap that(1) x that(2)] by auto
    next
      case 2
      then show False
        using off_threadsD [OF P(2) that(1,2)] off_threadsD [OF off(1) [OF p] that(1,2)]
          off_threadsD [OF off(2) [OF p] that(1,2)] by auto
    next
      case 3
      then show False using that apart_cell [OF ap that(1) _ that(2), of z kThreadNextOffset] XT by auto
    next
      case 4
      then show False using that apart_cell [OF ap that(1) _ that(2), of z kThreadPrevOffset] XT by auto
    qed
  qed
qed

lemma update_slots:
  assumes inv: "runq_ok s T Q" and p: "p < 32" and x: "x \<in> T"
    and cells: "fst ` set ps \<subseteq> {x + kThreadQueueOffset, Pending} \<union> link_cells (run_queue p) (insert x (set (Q p)))"
    and that: "r < 32" "r \<noteq> p" "c = run_queue r \<or> c = run_queue r + 4"
  shows "c \<notin> fst ` set ps"
proof -
  let ?X = "insert x (set (Q p))"
  have P: "ram s Pending" "off_threads T Pending" and Qok: "\<And>r. r < 32 \<Longrightarrow> queue_ok s T (run_queue r) (Q r)"
    using inv by (simp_all add: runq_ok_def)
  have ap: "apart T" and tr: "threads_ram s T" and XT: "?X \<subseteq> T"
    and off: "\<And>r. r < 32 \<Longrightarrow> off_threads T (run_queue r)" "\<And>r. r < 32 \<Longrightarrow> off_threads T (run_queue r + 4)"
    using Qok p x by (auto simp: queue_ok_def)
  show "c \<notin> fst ` set ps"
  proof
    assume "c \<in> fst ` set ps"
    with cells consider "c \<in> {Pending, run_queue p, run_queue p + 4}"
      | z where "z \<in> ?X" "c = z + kThreadNextOffset \<or> c = z + kThreadPrevOffset \<or> c = z + kThreadQueueOffset"
      unfolding link_cells_def by blast
    then show False
    proof cases
      case 1
      then show False using that run_queue_distinct [OF that(1) p] run_queue_distinct [OF p that(1)] by auto
    next
      case 2
      have "z \<in> T" using 2(1) XT by blast
      then show False
        using 2(2) that(3) off_threadsD [OF off(1) [OF that(1)], of z] off_threadsD [OF off(2) [OF that(1)], of z]
        by (metis offs_mem)
    qed
  qed
qed

text \<open>One queue changes.\<close>

lemma runq_update:
  assumes inv: "runq_ok s T Q" and p: "p < 32" and x: "x \<in> T" "\<forall>r<32. r \<noteq> p \<longrightarrow> x \<notin> set (Q r)"
    and cells: "fst ` set ps \<subseteq> {x + kThreadQueueOffset, Pending} \<union> link_cells (run_queue p) (insert x (set (Q p)))"
    and new: "queue_ok (writes wr32 s ps) T (run_queue p) ys" "set ys \<subseteq> insert x (set (Q p))"
    and qf: "x \<in> set ys \<longrightarrow> rd32 (writes wr32 s ps) (x + kThreadQueueOffset) = run_queue p"
    and bits: "\<forall>r<32. bit (rd32 (writes wr32 s ps) Pending) (31 - r) = ((Q(p := ys)) r \<noteq> [])"
  shows "runq_ok (writes wr32 s ps) T (Q(p := ys))"
proof -
  let ?t = "writes wr32 s ps" and ?X = "insert x (set (Q p))"
  have G: "\<forall>c\<in>sched_globals. ram s c \<and> off_threads T c"
    and P: "ram s Pending" "off_threads T Pending"
    and Qok: "\<And>r. r < 32 \<Longrightarrow> queue_ok s T (run_queue r) (Q r)"
    and dis: "\<And>a b. a < 32 \<Longrightarrow> b < 32 \<Longrightarrow> a \<noteq> b \<Longrightarrow> set (Q a) \<inter> set (Q b) = {}"
    and fld: "\<And>r y. r < 32 \<Longrightarrow> y \<in> set (Q r) \<Longrightarrow> rd32 s (y + kThreadQueueOffset) = run_queue r"
    using inv by (simp_all add: runq_ok_def)
  have ap: "apart T" and tr: "threads_ram s T" and sub: "\<And>r. r < 32 \<Longrightarrow> set (Q r) \<subseteq> T"
    and off: "\<And>r. r < 32 \<Longrightarrow> off_threads T (run_queue r)" "\<And>r. r < 32 \<Longrightarrow> off_threads T (run_queue r + 4)"
    using Qok p by (auto simp: queue_ok_def)
  have XT: "?X \<subseteq> T" using x(1) sub [OF p] by simp
  note ramps = update_ram [OF inv p x(1) cells] and other = update_other [OF inv p x(1) cells]
    and slots = update_slots [OF inv p x(1) cells]
  have keep: "rd32 ?t c = rd32 s c" if "ram s c" "c \<notin> fst ` set ps" for c
    using gm.rd_writes [OF ramps that(1)] upds_other [OF that(2)] by simp
  have queues: "queue_ok ?t T (run_queue r) (Q r)" if "r < 32" "r \<noteq> p" for r
  proof (rule queue_ok_frame [OF Qok [OF that(1)] ramps])
    show "\<forall>y \<in> set (Q r). y + kThreadNextOffset \<notin> fst ` set ps \<and> y + kThreadPrevOffset \<notin> fst ` set ps"
    proof
      fix y assume "y \<in> set (Q r)"
      then have "y \<notin> ?X" "y \<in> T"
        using x(2) dis [OF \<open>r < 32\<close> p \<open>r \<noteq> p\<close>] sub [OF \<open>r < 32\<close>] \<open>r < 32\<close> \<open>r \<noteq> p\<close> by auto
      then show "y + kThreadNextOffset \<notin> fst ` set ps \<and> y + kThreadPrevOffset \<notin> fst ` set ps"
        using other by simp
    qed
    show "run_queue r \<notin> fst ` set ps" "run_queue r + 4 \<notin> fst ` set ps"
      using slots [OF that] by blast+
  qed
  have fields: "rd32 ?t (y + kThreadQueueOffset) = run_queue r"
    if "r < 32" "y \<in> set ((Q(p := ys)) r)" for r y
  proof (cases "r = p \<and> y = x")
    case True
    then show ?thesis using qf that by simp
  next
    case False
    have yr: "y \<in> set (Q r)" "y \<noteq> x"
      using that False new(2) x(2) by (auto split: if_splits)
    then have "y \<in> T" using sub [OF that(1)] by auto
    then show ?thesis
      using keep [of "y + kThreadQueueOffset"] other [of y kThreadQueueOffset] yr fld [OF that(1)] tr
      by (simp add: threads_ram_def)
  qed
  have "set ((Q(p := ys)) a) \<inter> set ((Q(p := ys)) b) = {}" if "a < 32" "b < 32" "a \<noteq> b" for a b
    using that dis [of a b] dis [OF p, of a] dis [OF p, of b] new(2) x(2) p by (auto split: if_splits)
  then show ?thesis
    unfolding runq_ok_def using G new(1) queues fields bits by (auto split: if_splits)
qed


section \<open>Operations on a run queue\<close>

lemma runq_facts:
  assumes "runq_ok s T Q" and "p < 32"
  shows "queue_ok s T (run_queue p) (Q p)" "ram s Pending" "off_threads T Pending"
    "apart T" "threads_ram s T" "set (Q p) \<subseteq> T" "distinct (Q p)"
    "x \<in> set (Q p) \<Longrightarrow> rd32 s (x + kThreadQueueOffset) = run_queue p"
    "bit (rd32 s Pending) (31 - p) \<longleftrightarrow> Q p \<noteq> []"
    "x \<in> set (Q p) \<Longrightarrow> r < 32 \<Longrightarrow> r \<noteq> p \<Longrightarrow> x \<notin> set (Q r)"
proof -
  show "x \<in> set (Q p) \<Longrightarrow> r < 32 \<Longrightarrow> r \<noteq> p \<Longrightarrow> x \<notin> set (Q r)"
    using assms unfolding runq_ok_def by blast
qed (use assms in \<open>auto simp: runq_ok_def queue_ok_def dll_def\<close>)

lemma pending_keep:
  assumes "runq_ok s T Q" and "p < 32" and "X \<subseteq> T" and "x \<in> T"
    and "fst ` set ps \<subseteq> insert (x + kThreadQueueOffset) (link_cells (run_queue p) X)"
  shows "Pending \<notin> fst ` set ps" "\<forall>c \<in> fst ` set ps. ram s c" "rd32 (writes wr32 s ps) Pending = rd32 s Pending"
proof -
  note F = runq_facts [OF assms(1,2)]
  show n: "Pending \<notin> fst ` set ps"
  proof
    assume "Pending \<in> fst ` set ps"
    with assms(5) consider "Pending \<in> {run_queue p, run_queue p + 4}"
      | z where "z \<in> T" "Pending = z + kThreadNextOffset \<or> Pending = z + kThreadPrevOffset \<or> Pending = z + kThreadQueueOffset"
      using assms(3,4) unfolding link_cells_def by blast
    then show False
    proof cases
      case 1
      then show False using run_queue_distinct(5,6) [OF assms(2) assms(2)] by auto
    next
      case 2
      then show False using off_threadsD [OF F(3), of z] by (metis offs_mem)
    qed
  qed
  show r: "\<forall>c \<in> fst ` set ps. ram s c"
    using assms(4,5) cells_ram [OF F(1) order_refl assms(3)] F(5) by (auto simp: threads_ram_def)
  show "rd32 (writes wr32 s ps) Pending = rd32 s Pending"
    using gm.rd_writes [OF r F(2)] upds_other [OF n] by simp
qed

lemma mark_pending_run:
  assumes "ram s Pending" and "p < 32"
  shows "mark_pending (run_queue p) s = (Ok (), wr32 s Pending (rd32 s Pending OR 2 ^ (31 - p)))"
  using assms
  by (simp add: mark_pending_def is_run_queue_run_queue run_queue_index pending_bit_of_nat run_simps)

lemma writes_snoc: "writes wr m (ps @ [(a, v)]) = wr (writes wr m ps) a v"
  by (simp add: writes_append)

lemma queue_ok_setPending:
  assumes "queue_ok s T (run_queue p) xs" and "p < 32" and "ram s Pending" and "off_threads T Pending"
  shows "queue_ok (wr32 s Pending v) T (run_queue p) xs"
proof -
  have "queue_ok (writes wr32 s [(Pending, v)]) T (run_queue p) xs"
  proof (rule queue_ok_frame [OF assms(1)])
    show "run_queue p \<notin> fst ` set [(Pending, v)]" "run_queue p + 4 \<notin> fst ` set [(Pending, v)]"
      using run_queue_distinct(5,6) [OF assms(2) assms(2)] by simp_all
    have "z + kThreadNextOffset \<noteq> Pending \<and> z + kThreadPrevOffset \<noteq> Pending" if "z \<in> set xs" for z
      using that assms(1) off_threadsD [OF assms(4), of z] by (auto simp: queue_ok_def)
    then show "\<forall>x\<in>set xs. x + kThreadNextOffset \<notin> fst ` set [(Pending, v)] \<and>
        x + kThreadPrevOffset \<notin> fst ` set [(Pending, v)]"
      by simp
  qed (use assms(3) in simp)
  then show ?thesis by simp
qed

lemma insert_prio_set: "set (insert_prio pr p x xs) = insert x (set xs)"
  unfolding insert_prio_def by (metis (no_types) Un_insert_right list.simps(15) set_append takeWhile_dropWhile_id)

text \<open>Marking the queue that just received a thread.\<close>

lemma runq_after_link:
  assumes inv: "runq_ok s T Q" and p: "p < 32" and x: "x \<in> T" "\<forall>r<32. x \<notin> set (Q r)"
    and cells: "fst ` set ps \<subseteq> insert (x + kThreadQueueOffset) (link_cells (run_queue p) (insert x (set (Q p))))"
    and q: "queue_ok (writes wr32 s ps) T (run_queue p) ys" and ys: "set ys = insert x (set (Q p))"
    and f: "rd32 (writes wr32 s ps) (x + kThreadQueueOffset) = run_queue p"
  shows "runq_ok (wr32 (writes wr32 s ps) Pending (rd32 (writes wr32 s ps) Pending OR 2 ^ (31 - p))) T (Q(p := ys))"
proof -
  note F = runq_facts [OF inv p]
  have XT: "insert x (set (Q p)) \<subseteq> T" using x(1) F(6) by simp
  note K = pending_keep [OF inv p XT x(1) cells]
  let ?v = "rd32 (writes wr32 s ps) Pending OR 2 ^ (31 - p)"
  let ?ps = "ps @ [(Pending, ?v)]"
  have "runq_ok (writes wr32 s ?ps) T (Q(p := ys))"
  proof (rule runq_update [OF inv p x(1)])
    show "\<forall>r<32. r \<noteq> p \<longrightarrow> x \<notin> set (Q r)" using x(2) by simp
    show "fst ` set ?ps \<subseteq> {x + kThreadQueueOffset, Pending} \<union> link_cells (run_queue p) (insert x (set (Q p)))"
      using cells by auto
    show "queue_ok (writes wr32 s ?ps) T (run_queue p) ys"
      unfolding writes_snoc using queue_ok_setPending [OF q p] F(2,3) by simp
    show "set ys \<subseteq> insert x (set (Q p))" using ys by simp
    have "x + kThreadQueueOffset \<noteq> Pending" using off_threadsD [OF F(3) x(1)] by simp
    moreover have "ram s (x + kThreadQueueOffset)" using F(5) x(1) by (simp add: threads_ram_def)
    ultimately show "x \<in> set ys \<longrightarrow> rd32 (writes wr32 s ?ps) (x + kThreadQueueOffset) = run_queue p"
      unfolding writes_snoc using f F(2) by (simp add: rd32_wr32_other)
    show "\<forall>r<32. bit (rd32 (writes wr32 s ?ps) Pending) (31 - r) = ((Q(p := ys)) r \<noteq> [])"
      unfolding writes_snoc
      using p ys runq_facts(9) [OF inv] by (auto simp: K(3) bit_set_pending)
  qed
  then show ?thesis by (simp add: writes_snoc)
qed

text \<open>
  What an operation on the run queues may store to: link fields and queue fields of threads,
  the slots of the run queues, the pending word and the reschedule counter.
\<close>

definition link_field :: "u32 set \<Rightarrow> u32 \<Rightarrow> bool" where
  "link_field T c \<longleftrightarrow> c = Pending \<or> c = kSchedulerReschedCounterAddr \<or>
     (\<exists>p<32. c = run_queue p \<or> c = run_queue p + 4) \<or>
     (\<exists>x\<in>T. c = x + kThreadQueueOffset \<or> c = x + kThreadNextOffset \<or> c = x + kThreadPrevOffset)"

definition links_only :: "'a memory_scheme \<Rightarrow> u32 set \<Rightarrow> 'a memory_scheme \<Rightarrow> bool" where
  "links_only s T t \<longleftrightarrow> (\<exists>ps. t = writes wr32 s ps \<and> (\<forall>c \<in> fst ` set ps. ram s c \<and> link_field T c))"

lemma links_onlyI:
  "(\<forall>c \<in> fst ` set ps. ram s c \<and> link_field T c) \<Longrightarrow> links_only s T (writes wr32 s ps)"
  by (auto simp: links_only_def)

lemma links_only_refl [simp]: "links_only s T s"
  using links_onlyI [of "[]" s T] by simp

lemma links_only_trans: "links_only s T t \<Longrightarrow> links_only t T u \<Longrightarrow> links_only s T u"
proof -
  assume "links_only s T t" "links_only t T u"
  then obtain ps qs where p: "t = writes wr32 s ps" "\<forall>c \<in> fst ` set ps. ram s c \<and> link_field T c"
    and q: "u = writes wr32 t qs" "\<forall>c \<in> fst ` set qs. ram t c \<and> link_field T c"
    by (auto simp: links_only_def)
  have "u = writes wr32 s (ps @ qs)" using p q by (simp add: writes_append)
  moreover have "\<forall>c \<in> fst ` set (ps @ qs). ram s c \<and> link_field T c" using p q by auto
  ultimately show ?thesis unfolding links_only_def by blast
qed

lemma links_only_wr:
  "ram s c \<Longrightarrow> link_field T c \<Longrightarrow> links_only s T (wr32 s c v)"
  using links_onlyI [of "[(c, v)]" s T] by simp

lemma cells_link_field:
  assumes "p < 32" and "X \<subseteq> T" and "x \<in> T" and "c \<in> insert (x + kThreadQueueOffset) (link_cells (run_queue p) X)"
  shows "link_field T c"
  using assms unfolding link_field_def link_cells_def by blast

lemma Insert_runq:
  assumes inv: "runq_ok s T Q" and p: "p < 32" and x: "x \<in> T" "\<forall>r<32. x \<notin> set (Q r)"
  shows "\<exists>t. InsertThreadIntoQueueByPriority (run_queue p) x pr s = (Ok (), t) \<and>
    runq_ok t T (Q(p := insert_prio (prio_of s) pr x (Q p))) \<and> links_only s T t"
proof -
  note F = runq_facts [OF inv p]
  have "x \<notin> set (Q p)" using x(2) p by blast
  note I = Insert_run [OF F(1) x(1) this, of pr] and J = Insert_field [OF F(1) x(1) this, of pr]
  let ?ps = "insert_writes s (run_queue p) x pr (Q p)"
  have XT: "insert x (set (Q p)) \<subseteq> T" using x(1) F(6) by simp
  have "links_only s T (writes wr32 s ?ps)"
    using pending_keep(2) [OF inv p XT x(1) J(1)] cells_link_field [OF p XT x(1)] J(1)
    by (intro links_onlyI) blast
  moreover have "links_only (writes wr32 s ?ps) T (wr32 (writes wr32 s ?ps) Pending v)" for v
    using F(2) by (intro links_only_wr) (simp_all add: link_field_def)
  ultimately show ?thesis
    using runq_after_link [OF inv p x J(1) I(2) insert_prio_set J(2)]
      mark_pending_run [OF _ p, of "writes wr32 s ?ps"] F(2)
    by (auto simp: I(1) intro: links_only_trans)
qed


text \<open>Clearing the bit of a queue that just lost a thread.\<close>

lemma UpdatePending_run:
  assumes "queue_ok s T (run_queue p) ys" and "p < 32" and "ram s Pending" and "0 \<notin> set ys"
  shows "UpdatePendingMaskForQueue (run_queue p) s =
    (Ok (), if ys = [] then wr32 s Pending (rd32 s Pending AND NOT (2 ^ (31 - p))) else s)"
proof -
  have "rd32 s (run_queue p) = first0 ys" "ram s (run_queue p)"
    using assms(1) by (simp_all add: queue_ok_def dll_def)
  moreover have "first0 ys = 0 \<longleftrightarrow> ys = []"
    using assms(4) by (cases ys) (auto simp: first0_def)
  ultimately show ?thesis
    using assms(2,3)
    by (simp add: UpdatePendingMaskForQueue_def is_run_queue_run_queue run_queue_index
        pending_bit_of_nat run_simps)
qed

lemma runq_after_unlink:
  assumes inv: "runq_ok s T Q" and p: "p < 32" and x: "x \<in> set (Q p)"
    and cells: "fst ` set ps \<subseteq> insert (x + kThreadQueueOffset) (link_cells (run_queue p) (set (Q p)))"
    and q: "queue_ok (writes wr32 s ps) T (run_queue p) ys" and ys: "set ys = set (Q p) - {x}"
  shows "runq_ok (if ys = [] then wr32 (writes wr32 s ps) Pending
      (rd32 (writes wr32 s ps) Pending AND NOT (2 ^ (31 - p))) else writes wr32 s ps) T (Q(p := ys))"
proof -
  note F = runq_facts [OF inv p]
  have xT: "x \<in> T" using x F(6) by auto
  have XX: "insert x (set (Q p)) = set (Q p)" using x by auto
  note K = pending_keep [OF inv p F(6) xT cells]
  have other: "\<forall>r<32. r \<noteq> p \<longrightarrow> x \<notin> set (Q r)" using F(10) [OF x] by blast
  show ?thesis
  proof (cases "ys = []")
    case False
    have "runq_ok (writes wr32 s ps) T (Q(p := ys))"
    proof (rule runq_update [OF inv p xT other _ q])
      show "\<forall>r<32. bit (rd32 (writes wr32 s ps) Pending) (31 - r) = ((Q(p := ys)) r \<noteq> [])"
        using False ys runq_facts(9) [OF inv] p by (auto simp: K(3))
    qed (use cells ys XX in auto)
    then show ?thesis using False by simp
  next
    case True
    let ?v = "rd32 (writes wr32 s ps) Pending AND NOT (2 ^ (31 - p))"
    have "runq_ok (writes wr32 s (ps @ [(Pending, ?v)])) T (Q(p := ys))"
    proof (rule runq_update [OF inv p xT other])
      show "queue_ok (writes wr32 s (ps @ [(Pending, ?v)])) T (run_queue p) ys"
        unfolding writes_snoc using queue_ok_setPending [OF q p] F(2,3) by simp
      show "\<forall>r<32. bit (rd32 (writes wr32 s (ps @ [(Pending, ?v)])) Pending) (31 - r) = ((Q(p := ys)) r \<noteq> [])"
        unfolding writes_snoc using p True runq_facts(9) [OF inv] by (auto simp: K(3) bit_clear_pending)
    qed (use cells XX True in auto)
    then show ?thesis using True by (simp add: writes_snoc)
  qed
qed

lemma Remove_runq:
  assumes inv: "runq_ok s T Q" and p: "p < 32" and x: "x \<in> set (Q p)"
  shows "\<exists>t. RemoveThreadFromQueue x s = (Ok (), t) \<and> runq_ok t T (Q(p := remove1 x (Q p))) \<and> links_only s T t"
proof -
  note F = runq_facts [OF inv p]
  obtain xs ys where Q: "Q p = xs @ x # ys" using split_list [OF x] by blast
  have ys: "remove1 x (Q p) = xs @ ys" "set (xs @ ys) = set (Q p) - {x}"
    using F(7) Q by (auto simp: remove1_append)
  have q0: "queue_ok s T (run_queue p) (xs @ x # ys)" using F(1) Q by simp
  note R = Remove_run [OF q0 F(8) [OF x] run_queue_distinct(7) [OF p p]]
  have xT: "x \<in> T" using x F(6) by auto
  have "0 \<notin> set (xs @ ys)" using ys(2) F(4,6) by (auto simp: apart_def)
  note U = UpdatePending_run [OF R(2) p _ this]
  let ?ps = "remove_writes s (run_queue p) x"
  have cells: "fst ` set ?ps \<subseteq> insert (x + kThreadQueueOffset) (link_cells (run_queue p) (set (Q p)))"
    using R(3) unfolding Q .
  have "links_only s T (writes wr32 s ?ps)"
    using pending_keep(2) [OF inv p F(6) xT cells] cells_link_field [OF p F(6) xT] cells
    by (intro links_onlyI) blast
  moreover have "links_only (writes wr32 s ?ps) T (wr32 (writes wr32 s ?ps) Pending v)" for v
    using F(2) by (intro links_only_wr) (simp_all add: link_field_def)
  ultimately show ?thesis
    using runq_after_unlink [OF inv p x cells R(2) ys(2)] F(2)
    by (auto simp: R(1) U ys(1) intro: links_only_trans)
qed

text \<open>Queueing at the tail and marking, in the two steps the scheduler uses.\<close>

lemma Link_run:
  assumes q: "queue_ok s T (run_queue p) xs" and x: "x \<in> T" "x \<notin> set xs"
  defines "ps \<equiv> append_writes (rd32 s) x kThreadNextOffset kThreadPrevOffset (run_queue p) (run_queue p + 4)
      @ [(x + kThreadQueueOffset, run_queue p)]"
  shows "LinkThreadOnRunQueue x (int p) s = (Ok (), writes wr32 s ps)"
    and "queue_ok (writes wr32 s ps) T (run_queue p) (xs @ [x])"
    and "fst ` set ps \<subseteq> insert (x + kThreadQueueOffset) (link_cells (run_queue p) (insert x (set xs)))"
    and "rd32 (writes wr32 s ps) (x + kThreadQueueOffset) = run_queue p"
proof -
  let ?q = "run_queue p" and ?a = "append_writes (rd32 s) x kThreadNextOffset kThreadPrevOffset (run_queue p) (run_queue p + 4)"
  have d: "dll (rd32 s) kThreadNextOffset kThreadPrevOffset ?q (?q + 4) xs"
    and R: "ram s ?q" "ram s (?q + 4)" "threads_ram s T" and sub: "set xs \<subseteq> T"
    and ap: "apart T" and off: "off_threads T ?q" "off_threads T (?q + 4)"
    using q by (auto simp: queue_ok_def)
  have XT: "insert x (set xs) \<subseteq> T" using sub x(1) by simp
  have x0: "x \<noteq> 0" using ap x(1) by (auto simp: apart_def)
  have Rx: "ram s (x + kThreadNextOffset)" "ram s (x + kThreadPrevOffset)" "ram s (x + kThreadQueueOffset)"
    using R(3) x(1) by (simp_all add: threads_ram_def)
  have "rd32 s (?q + 4) = last0 xs" using d by (simp add: dll_def)
  then have tail: "rd32 s (?q + 4) \<noteq> 0 \<Longrightarrow> ram s (rd32 s (?q + 4) + kThreadNextOffset)"
    using last0_mem [of xs T] sub R(3) by (simp add: threads_ram_def)
  have eq: "kThreadQueueArrayAddr + of_i32 (int p) * 8 = ?q"
    by (simp add: run_queue_def of_i32_def)
  show "LinkThreadOnRunQueue x (int p) s = (Ok (), writes wr32 s ps)"
    using Rx by (simp add: LinkThreadOnRunQueue_def Let_def eq run_simps
        link_at_tail_run [OF R(1,2) Rx(1,2) tail] ps_def writes_append)
  have cells: "fst ` set ?a \<subseteq> link_cells ?q (insert x (set xs))"
    using append_writes_cells [OF d] by blast
  have q1: "queue_ok (writes wr32 s ?a) T ?q (xs @ [x])"
    using cells_ram [OF q cells XT] dll_append [OF d x0 x(2) queue_node_sep [OF ap off XT]] XT
    by (intro queue_ok_writes [OF q]) simp_all
  from queue_ok_setQueue [OF this x(1)] show "queue_ok (writes wr32 s ps) T ?q (xs @ [x])"
    by (simp add: ps_def writes_append)
  show "fst ` set ps \<subseteq> insert (x + kThreadQueueOffset) (link_cells ?q (insert x (set xs)))"
    using cells by (auto simp: ps_def)
  show "rd32 (writes wr32 s ps) (x + kThreadQueueOffset) = ?q"
    by (simp add: ps_def writes_append)
qed

lemma Mark_run:
  assumes "p < 32" and "ram s Pending" and "ram s kSchedulerReschedCounterAddr"
  shows "MarkRunQueuePending (int p) s =
    (Ok (), wr32 (wr32 s Pending (rd32 s Pending OR 2 ^ (31 - p))) kSchedulerReschedCounterAddr 1)"
proof -
  have "nat (31 - int p) = 31 - p" using assms(1) by simp
  then show ?thesis
    using assms by (simp add: MarkRunQueuePending_def run_simps)
qed

text \<open>A store outside the queues keeps the invariant.\<close>

definition off_queues :: "u32 \<Rightarrow> bool" where
  "off_queues c \<longleftrightarrow> c \<noteq> Pending \<and> (\<forall>p<32. c \<noteq> run_queue p \<and> c \<noteq> run_queue p + 4)"

lemma runq_store:
  assumes inv: "runq_ok s T Q" and c: "ram s c" "off_queues c"
    and off: "\<forall>x\<in>T. x + kThreadNextOffset \<noteq> c \<and> x + kThreadPrevOffset \<noteq> c \<and> x + kThreadQueueOffset \<noteq> c"
  shows "runq_ok (wr32 s c v) T Q"
proof -
  have keep: "rd32 (wr32 s c v) a = rd32 s a" if "ram s a" "a \<noteq> c" for a
    using rd32_wr32_other [OF c(1) that(1)] that(2) by simp
  have "queue_ok (wr32 s c v) T (run_queue p) (Q p)" if "p < 32" for p
  proof -
    note F = runq_facts [OF inv that]
    have "queue_ok (writes wr32 s [(c, v)]) T (run_queue p) (Q p)"
      using c off F(6) that by (intro queue_ok_frame [OF F(1)]) (auto simp: off_queues_def)
    then show ?thesis by simp
  qed
  moreover have "rd32 (wr32 s c v) (x + kThreadQueueOffset) = run_queue p" if "p < 32" "x \<in> set (Q p)" for p x
    using runq_facts(5,6,8) [OF inv that(1)] that(2) off
    by (subst keep) (auto simp: threads_ram_def)
  moreover have "rd32 (wr32 s c v) Pending = rd32 s Pending"
    using c(2) runq_facts(2) [OF inv, of 0] by (intro keep) (auto simp: off_queues_def)
  ultimately show ?thesis
    using inv c(1) by (simp add: runq_ok_def)
qed

section \<open>What such an operation leaves alone\<close>

lemma rd16_high: "ram s a \<Longrightarrow> rd16 s a = ucast (drop_bit 16 (rd32 s a))"
proof -
  have "bit (b :: u8) n \<Longrightarrow> n < 8" for b n
    using bit_imp_le_length [of b n] by simp
  then have "push_bit 8 (ucast a) OR ucast b = (ucast (drop_bit 16 (push_bit 24 (ucast a) OR push_bit 16 (ucast b) OR
      push_bit 8 (ucast c) OR ucast d :: u32)) :: u16)" for a b c d :: u8
    by (intro bit_word_eqI) (force simp: bit_simps)
  then show ?thesis
    by (simp add: rd16_def rd32_def BigEndian_Read16_def BigEndian_Read32_def bytes_at_def upt_rec)
qed

lemma runq_node_fields:
  assumes "runq_ok s T Q" and "links_only s T t" and "y \<in> T" and "i \<in> thread_offs"
    and "i \<notin> {kThreadQueueOffset, kThreadNextOffset, kThreadPrevOffset}"
  shows "rd32 t (y + i) = rd32 s (y + i)"
proof -
  obtain ps where t: "t = writes wr32 s ps" and ps: "\<forall>c \<in> fst ` set ps. ram s c \<and> link_field T c"
    using assms(2) by (auto simp: links_only_def)
  have G: "off_threads T Pending" "off_threads T kSchedulerReschedCounterAddr"
    using assms(1) by (auto simp: runq_ok_def)
  have S: "off_threads T (run_queue p)" "off_threads T (run_queue p + 4)" "apart T" "threads_ram s T"
    if "p < 32" for p
    using runq_facts(1) [OF assms(1) that] by (simp_all add: queue_ok_def)
  note ap = S(3) [of 0, simplified] and tr = S(4) [of 0, simplified]
  have "y + i \<notin> fst ` set ps"
  proof
    assume "y + i \<in> fst ` set ps"
    then have "link_field T (y + i)" using ps by blast
    then consider "y + i \<in> {Pending, kSchedulerReschedCounterAddr}"
      | p where "p < 32" "y + i = run_queue p \<or> y + i = run_queue p + 4"
      | z where "z \<in> T" "y + i = z + kThreadQueueOffset \<or> y + i = z + kThreadNextOffset \<or> y + i = z + kThreadPrevOffset"
      unfolding link_field_def by blast
    then show False
    proof cases
      case 1
      then show False using off_threadsD [OF G(1) assms(3,4)] off_threadsD [OF G(2) assms(3,4)] by auto
    next
      case 2
      then show False
        using off_threadsD [OF S(1) [OF 2(1)] assms(3,4)] off_threadsD [OF S(2) [OF 2(1)] assms(3,4)] by auto
    next
      case 3
      then show False using apart_cell [OF ap assms(3) 3(1) assms(4)] assms(5) by (metis insertCI offs_mem)
    qed
  qed
  moreover have "ram s (y + i)" using tr assms(3,4) by (simp add: threads_ram_def)
  ultimately show ?thesis
    using gm.rd_writes [of ps s "y + i"] ps upds_other [of "y + i" ps] t by simp
qed

lemma state_keep:
  assumes "runq_ok s T Q" and "links_only s T t" and "y \<in> T"
  shows "rd16 t (y + kThreadStateOffset) = rd16 s (y + kThreadStateOffset)"
proof -
  have "threads_ram s T" using runq_facts(5) [OF assms(1), of 0] by simp
  then have r: "ram s (y + kThreadStateOffset)" using assms(3) by (simp add: threads_ram_def)
  moreover have "ram t (y + kThreadStateOffset)" using r assms(2) by (auto simp: links_only_def)
  moreover have "rd32 t (y + kThreadStateOffset) = rd32 s (y + kThreadStateOffset)"
    by (rule runq_node_fields [OF assms]) (simp_all add: os_offsets thread_offs_def)
  ultimately show ?thesis by (simp add: rd16_high)
qed

lemma wr_os_frame [simp]:
  "Cpu (wr32 s a v) = Cpu s" "s_fibers (wr32 s a v) = s_fibers s"
  "g_interrupts_enabled (wr32 s a v) = g_interrupts_enabled s"
  "Cpu (wr16 s a w) = Cpu s" "s_fibers (wr16 s a w) = s_fibers s"
  "g_interrupts_enabled (wr16 s a w) = g_interrupts_enabled s"
  by (simp_all add: wr32_def wr16_def put_bytes_def)

lemma writes_os_frame [simp]:
  "Cpu (writes wr32 s ps) = Cpu s" "s_fibers (writes wr32 s ps) = s_fibers s"
  "g_interrupts_enabled (writes wr32 s ps) = g_interrupts_enabled s"
proof (induction ps arbitrary: s)
  case (Cons p ps)
  { case 1 show ?case by (cases p) (simp add: Cons.IH) }
  { case 2 show ?case by (cases p) (simp add: Cons.IH) }
  { case 3 show ?case by (cases p) (simp add: Cons.IH) }
qed simp_all

lemma links_only_os:
  "links_only s T t \<Longrightarrow> Cpu t = Cpu s \<and> s_fibers t = s_fibers s \<and> g_interrupts_enabled t = g_interrupts_enabled s"
  by (auto simp: links_only_def)

section \<open>Queueing at the tail\<close>

lemma resched_off_queues: "off_queues kSchedulerReschedCounterAddr"
proof -
  have "kSchedulerReschedCounterAddr \<noteq> run_queue p \<and> kSchedulerReschedCounterAddr \<noteq> run_queue p + 4" if "p < 32" for p
  proof -
    have "unat kSchedulerReschedCounterAddr = 0x8038691c" by (simp add: os_addrs)
    then show ?thesis
      using unat_run_queue [OF that] unat_run_queue4 [OF that] that by (auto simp: word_unat_eq_iff)
  qed
  then show ?thesis by (simp add: off_queues_def) (simp add: os_addrs)
qed

lemma Append_runq:
  assumes inv: "runq_ok s T Q" and p: "p < 32" and x: "x \<in> T" "\<forall>r<32. x \<notin> set (Q r)"
  shows "\<exists>t. thenP (LinkThreadOnRunQueue x (int p)) (MarkRunQueuePending (int p)) s = (Ok (), t) \<and>
    runq_ok t T (Q(p := Q p @ [x])) \<and> links_only s T t"
proof -
  note F = runq_facts [OF inv p]
  have nx: "x \<notin> set (Q p)" using x(2) p by blast
  note L = Link_run [OF F(1) x(1) nx]
  have G: "ram s kSchedulerReschedCounterAddr" "off_threads T kSchedulerReschedCounterAddr"
    using inv by (auto simp: runq_ok_def)
  obtain ps where run: "LinkThreadOnRunQueue x (int p) s = (Ok (), writes wr32 s ps)"
    and q: "queue_ok (writes wr32 s ps) T (run_queue p) (Q p @ [x])"
    and cells: "fst ` set ps \<subseteq> insert (x + kThreadQueueOffset) (link_cells (run_queue p) (insert x (set (Q p))))"
    and f: "rd32 (writes wr32 s ps) (x + kThreadQueueOffset) = run_queue p"
    using L by blast
  let ?t = "writes wr32 s ps"
  let ?u = "wr32 ?t Pending (rd32 ?t Pending OR 2 ^ (31 - p))"
  have u: "runq_ok ?u T (Q(p := Q p @ [x]))"
    using runq_after_link [OF inv p x cells q _ f] by simp
  have "runq_ok (wr32 ?u kSchedulerReschedCounterAddr 1) T (Q(p := Q p @ [x]))"
    using G off_threadsD [OF G(2)] by (intro runq_store [OF u _ resched_off_queues]) simp_all
  moreover have XT: "insert x (set (Q p)) \<subseteq> T" using x(1) F(6) by simp
  have "links_only s T ?t"
    using pending_keep(2) [OF inv p XT x(1) cells] cells_link_field [OF p XT x(1)] cells
    by (intro links_onlyI) blast
  moreover have "links_only ?t T (wr32 ?u kSchedulerReschedCounterAddr 1)"
    using F(2) G(1) links_onlyI [of "[(Pending, rd32 ?t Pending OR 2 ^ (31 - p)), (kSchedulerReschedCounterAddr, 1)]" ?t T]
    by (simp add: link_field_def)
  ultimately show ?thesis
    using run Mark_run [OF p, of ?t] F(2) G(1) by (auto simp: run_simps intro: links_only_trans)
qed

end
