(* ===== verification/Os_Sleep.thy ===== *)
theory Os_Sleep
  imports Os_Queue
begin

text \<open>
  Sleep timers and blocking: \<open>runtime/src/hle/os/os_sleep.cpp\<close> and
  \<open>runtime/include/timebase_contract.h\<close>.  Time is in nanoseconds.  Routines that reach the
  scheduler take it as their argument \<open>sel\<close> (and \<open>resume\<close>, \<open>suspend\<close> for the thread
  handlers); \<open>Os_Scheduler\<close> ties the knot.  The file's thread-local logging has no effect
  on the guest and is left out, except for the guest loads it makes.
\<close>

section \<open>Time base\<close>

definition kTickRatioNumerator :: nat where "kTickRatioNumerator = 243"
definition kTickRatioDenominator :: nat where "kTickRatioDenominator = 4000"

text \<open>All intermediate products stay below \<open>2 ^ 64\<close> on the arguments of \<open>uint64_t\<close>.\<close>

definition NanosecondsToTicks :: "nat \<Rightarrow> nat" where
  "NanosecondsToTicks ns =
     (ns div kTickRatioDenominator) * kTickRatioNumerator +
     ((ns mod kTickRatioDenominator) * kTickRatioNumerator) div kTickRatioDenominator"

definition kMaxTicks :: nat where "kMaxTicks = NanosecondsToTicks (2 ^ 63 - 1)"

definition TicksToDuration :: "nat \<Rightarrow> nat" where
  "TicksToDuration ticks =
     (if ticks = 0 \<or> ticks > kMaxTicks then 0
      else (ticks div kTickRatioNumerator) * kTickRatioDenominator +
           ((ticks mod kTickRatioNumerator) * kTickRatioDenominator) div kTickRatioNumerator)"

section \<open>The timer table\<close>

definition CancelSleepTimer :: "u32 \<Rightarrow> (os_state, unit) prog" where
  "CancelSleepTimer threadPtr =
     modifyP (\<lambda>s. s\<lparr>gSleepTimers := filter (\<lambda>e. st_threadPtr e \<noteq> threadPtr) (gSleepTimers s)\<rparr>)"

definition SleepTimerIsPending :: "u32 \<Rightarrow> os_state \<Rightarrow> bool" where
  "SleepTimerIsPending threadPtr s = list_ex (\<lambda>e. st_threadPtr e = threadPtr) (gSleepTimers s)"

definition MarkParkOutstanding :: "u32 \<Rightarrow> (os_state, unit) prog" where
  "MarkParkOutstanding threadPtr = modifyP (\<lambda>s. s\<lparr>gOutstandingParks := insert threadPtr (gOutstandingParks s)\<rparr>)"

definition ClearOutstandingPark :: "u32 \<Rightarrow> (os_state, unit) prog" where
  "ClearOutstandingPark threadPtr = modifyP (\<lambda>s. s\<lparr>gOutstandingParks := gOutstandingParks s - {threadPtr}\<rparr>)"

definition ScheduleSleepTimer :: "env \<Rightarrow> u32 \<Rightarrow> nat \<Rightarrow> (os_state, unit) prog" where
  "ScheduleSleepTimer env threadPtr ticks =
     modifyP (\<lambda>s. s\<lparr>gSleepTimers :=
       filter (\<lambda>e. st_threadPtr e \<noteq> threadPtr) (gSleepTimers s) @
       [\<lparr>st_threadPtr = threadPtr, st_deadline = env_now env s + int (TicksToDuration ticks)\<rparr>]\<rparr>)"

text \<open>The first due timer is taken out of the table.\<close>

fun take_due :: "int \<Rightarrow> sleep_timer list \<Rightarrow> (sleep_timer \<times> sleep_timer list) option" where
  "take_due now [] = None"
| "take_due now (e # es) =
     (if st_deadline e \<le> now then Some (e, es)
      else map_option (\<lambda>(d, rest). (d, e # rest)) (take_due now es))"

definition pop_due :: "int \<Rightarrow> (os_state, sleep_timer option) prog" where
  "pop_due now s =
     (case take_due now (gSleepTimers s) of
        None \<Rightarrow> (Ok None, s)
      | Some (d, rest) \<Rightarrow> (Ok (Some d), s\<lparr>gSleepTimers := rest\<rparr>))"

definition ms :: "int \<Rightarrow> int" where
  "ms n = n * 1000000"

text \<open>One popped timer.\<close>

definition fire_timer :: "(os_state, unit) prog \<Rightarrow> int \<Rightarrow> u32 \<Rightarrow> (os_state, unit) prog" where
  "fire_timer resume now threadPtr =
     bindP (getsP (\<lambda>s. threadPtr = 0 \<or> \<not> Contains s (threadPtr + kThreadSuspendOffset) 4)) (\<lambda>skip.
     if skip then returnP ()
     else bindP (Read16 (threadPtr + kThreadStateOffset)) (\<lambda>stateAtFire.
          bindP (Read32 (threadPtr + kThreadSuspendOffset)) (\<lambda>countAtFire.
          if stateAtFire = kThreadStateRunning
          then modifyP (\<lambda>s. if SleepTimerIsPending threadPtr s then s
                 else s\<lparr>gSleepTimers := gSleepTimers s @
                   [\<lparr>st_threadPtr = threadPtr, st_deadline = now + ms 2\<rparr>]\<rparr>)
          else if stateAtFire \<noteq> kThreadStateReady \<or> to_i32 countAtFire < 1
          then ClearOutstandingPark threadPtr
          else stmts [ClearOutstandingPark threadPtr, set_gpr 3 threadPtr, resume])))"

definition kMaxTimersPerCall :: nat where "kMaxTimersPerCall = 64"

definition fire_timers :: "(os_state, unit) prog \<Rightarrow> int \<Rightarrow> (os_state, bool) prog" where
  "fire_timers resume now =
     loopP (kMaxTimersPerCall + 1) (\<lambda>processedCount.
       if \<not> processedCount < kMaxTimersPerCall then returnP (Inr (0 < processedCount))
       else bindP (pop_due now) (\<lambda>timer.
         case timer of
           None \<Rightarrow> returnP (Inr (0 < processedCount))
         | Some e \<Rightarrow> thenP (fire_timer resume now (st_threadPtr e)) (returnP (Inl (processedCount + 1))))) 0"

text \<open>Whether the reconciler resumes an outstanding park, with its bookkeeping.\<close>

definition reconcile_one :: "int \<Rightarrow> u32 \<Rightarrow> (os_state, bool) prog" where
  "reconcile_one reconcileNow threadPtr =
     (let forget = modifyP (\<lambda>s. s\<lparr>strandFirstSeen := (strandFirstSeen s)(threadPtr := None)\<rparr>)
      in bindP (getsP (SleepTimerIsPending threadPtr)) (\<lambda>pending.
         if pending then thenP forget (returnP False)
         else bindP (getsP (\<lambda>s. \<not> Contains s (threadPtr + kThreadSuspendOffset) 4)) (\<lambda>gone.
           bindP (IsTerminated threadPtr) (\<lambda>terminated.
           if gone \<or> terminated
           then thenP (ClearOutstandingPark threadPtr) (thenP forget (returnP False))
           else bindP (Read16 (threadPtr + kThreadStateOffset)) (\<lambda>state.
             bindP (Read32 (threadPtr + kThreadSuspendOffset)) (\<lambda>count.
             if state \<noteq> kThreadStateReady \<or> to_i32 count < 1
             then thenP (ClearOutstandingPark threadPtr) (thenP forget (returnP False))
             else bindP (getsP (\<lambda>s. strandFirstSeen s threadPtr)) (\<lambda>seen.
               case seen of
                 None \<Rightarrow>
                   thenP (modifyP (\<lambda>s. s\<lparr>strandFirstSeen := (strandFirstSeen s)(threadPtr := Some reconcileNow)\<rparr>))
                     (returnP False)
               | Some t \<Rightarrow>
                   if reconcileNow - t < ms 100 then returnP False
                   else thenP forget (thenP (ClearOutstandingPark threadPtr) (returnP True)))))))))"

fun reconcile_all :: "int \<Rightarrow> u32 list \<Rightarrow> (os_state, u32 list) prog" where
  "reconcile_all now [] = returnP []"
| "reconcile_all now (t # ts) =
     bindP (reconcile_one now t) (\<lambda>heal.
     bindP (reconcile_all now ts) (\<lambda>rest. returnP (if heal then t # rest else rest)))"

definition run_strand_reconciler :: "env \<Rightarrow> (os_state, unit) prog \<Rightarrow> int \<Rightarrow> (os_state, unit) prog" where
  "run_strand_reconciler env resume now =
     bindP (getsP (\<lambda>s. now \<ge> strandScanDueAt s)) (\<lambda>due.
     if \<not> due then returnP ()
     else
       thenP (modifyP (\<lambda>s. s\<lparr>strandScanDueAt := now + ms 50\<rparr>))
       (bindP (getsP (\<lambda>s. env_set_order env (gOutstandingParks s))) (\<lambda>outstanding.
        thenP (modifyP (\<lambda>s. s\<lparr>strandFirstSeen :=
          (\<lambda>t. if t \<in> set outstanding then strandFirstSeen s t else None)\<rparr>))
        (bindP (getsP (env_now env)) (\<lambda>reconcileNow.
         bindP (reconcile_all reconcileNow outstanding) (\<lambda>toHeal.
         stmts (map (\<lambda>t. thenP (set_gpr 3 t) resume) toHeal)))))))"

definition ProcessSleepTimers_body :: "env \<Rightarrow> (os_state, unit) prog \<Rightarrow> (os_state, bool) prog" where
  "ProcessSleepTimers_body env resume =
     bindP (getsP (env_now env)) (\<lambda>now.
     bindP (fire_timers resume now) (\<lambda>processedAny.
     thenP (run_strand_reconciler env resume now) (returnP processedAny)))"

section \<open>Handlers\<close>

text \<open>
  The frame of a handler: interrupts off, the body under the \<open>AccessViolation\<close> handler,
  interrupts back.  The body returns \<open>True\<close> when it has itself restored and returned.
\<close>

definition handler_frame ::
  "(int \<Rightarrow> (os_state, bool) prog) \<Rightarrow> (os_state, unit) prog \<Rightarrow> (os_state, unit) prog \<Rightarrow> (os_state, unit) prog" where
  "handler_frame body on_error finish =
     bindP OS__DisableInterrupts (\<lambda>irqState.
     bindP (catchP (body irqState) (\<lambda>_. thenP on_error (returnP False))) (\<lambda>returned.
     if returned then returnP ()
     else thenP (ignoreP (OS__RestoreInterrupts irqState)) finish))"

definition restore_and_return :: "int \<Rightarrow> (os_state, bool) prog" where
  "restore_and_return irqState = thenP (ignoreP (OS__RestoreInterrupts irqState)) (returnP True)"

definition OSSleepTicks_body :: "env \<Rightarrow> (os_state, unit) prog \<Rightarrow> (os_state, unit) prog" where
  "OSSleepTicks_body env suspend =
     bindP (get_gpr 3) (\<lambda>hi. bindP (get_gpr 4) (\<lambda>lo.
     let ticks = unat hi * 2 ^ 32 + unat lo
     in handler_frame (\<lambda>irqState.
       bindP (Read32 kOSRunningContextAddr) (\<lambda>running.
       bindP IsInitialized (\<lambda>init.
       bindP GetCurrentGuestThread (\<lambda>fiberThread.
       let currentThread = (if init \<and> fiberThread \<noteq> 0 then fiberThread else running)
       in if currentThread = 0 then restore_and_return irqState
          else bindP (Read32 kSchedulerIdleFlagAddr) (\<lambda>sleepIdleFlag.
            bindP (Read32 kOSCurrentContextAddr) (\<lambda>sleepCurrentContext.
            if sleepIdleFlag \<noteq> 0 \<or> (sleepCurrentContext \<noteq> 0 \<and> sleepCurrentContext \<noteq> currentThread)
            then restore_and_return irqState
            else thenP (stmts
               [ScheduleSleepTimer env currentThread ticks,
                MarkParkOutstanding currentThread,
                set_gpr 3 currentThread,
                suspend])
              (bindP (Read32 (currentThread + kThreadSuspendOffset)) (\<lambda>suspendCount.
               thenP (whenP (to_i32 suspendCount > 0) (stmts
                 [CancelSleepTimer currentThread,
                  ClearOutstandingPark currentThread,
                  Write32 (currentThread + kThreadSuspendOffset) (suspendCount - 1),
                  whenP (suspendCount = 1) (stmts
                    [bindP (Read16 (currentThread + kThreadStateOffset)) (\<lambda>state.
                       if state = kThreadStateReady
                       then bindP (Read32 (currentThread + kThreadQueueOffset)) (\<lambda>q.
                         whenP (q = 0) (Write16 (currentThread + kThreadStateOffset) kThreadStateRunning))
                       else returnP ()),
                     bindP IsInitialized (\<lambda>i. bindP (HasFiber currentThread) (\<lambda>h.
                       whenP (i \<and> h) (ResumeGuestThread currentThread)))])]))
               (returnP False)))))))))
       (returnP ()) (returnP ())))"

definition OSSleepThread_body :: "(os_state, unit) prog \<Rightarrow> (os_state, unit) prog" where
  "OSSleepThread_body sel =
     bindP (get_gpr 3) (\<lambda>queuePtr.
     if queuePtr = 0 then returnP ()
     else handler_frame (\<lambda>irqState.
       bindP (Read32 kOSRunningContextAddr) (\<lambda>running.
       bindP (getsP (\<lambda>s. running = 0 \<and> \<not> Contains s kDefaultThreadContextAddr 4)) (\<lambda>invalid.
       if invalid then restore_and_return irqState
       else
         let currentThread = (if running = 0 then kDefaultThreadContextAddr else running)
         in thenP (whenP (running = 0) (stmts
              [Write32 kOSRunningContextAddr currentThread,
               OS__SetCurrentContext currentThread,
               bindP IsInitialized (\<lambda>i. bindP (HasFiber currentThread) (\<lambda>h.
                 whenP (i \<and> \<not> h) (ignoreP (RegisterMainThreadAsFiber currentThread))))]))
            (bindP (Read32 kSchedulerIdleFlagAddr) (\<lambda>idle.
             if idle \<noteq> 0
             then thenP (ignoreP (Read32 kSchedulerIdleFlagAddr)) (restore_and_return irqState)
             else thenP (stmts
                 [Write16 (currentThread + kThreadStateOffset) kThreadStateWaiting,
                  Write32 (currentThread + kThreadQueueOffset) queuePtr,
                  bindP (Read32 (currentThread + kThreadPriorityOffset)) (\<lambda>ourPrio.
                    InsertThreadIntoQueueByPriority queuePtr currentThread (to_i32 ourPrio)),
                  bindP IsInitialized (\<lambda>i. whenP i (SuspendGuestThread currentThread)),
                  Write32 kSchedulerReschedCounterAddr 1,
                  set_gpr 3 0,
                  sel])
               (bindP (Read16 (currentThread + kThreadStateOffset)) (\<lambda>state.
                bindP (if state = kThreadStateWaiting
                       then bindP (Read32 (currentThread + kThreadQueueOffset)) (\<lambda>q. returnP (q = queuePtr))
                       else returnP False) (\<lambda>stuck.
                thenP (whenP stuck (stmts
                  [UnlinkGuestListNode currentThread kThreadNextOffset kThreadPrevOffset queuePtr (queuePtr + 4),
                   Write32 (currentThread + kThreadQueueOffset) 0,
                   Write16 (currentThread + kThreadStateOffset) kThreadStateRunning,
                   bindP IsInitialized (\<lambda>i. bindP (HasFiber currentThread) (\<lambda>h.
                     whenP (i \<and> h) (ResumeGuestThread currentThread))),
                   ignoreP (Read32 kSchedulerIdleFlagAddr)]))
                (returnP False)))))))))
       (returnP ()) (returnP ()))"

end
