(* ===== verification/Os_Thread.thy ===== *)
theory Os_Thread
  imports Os_Sleep
begin

text \<open>
  The thread life cycle of \<open>runtime/src/hle/os/os_thread.cpp\<close>.  The handlers take the
  scheduler (\<open>sel\<close>), the waking of a queue (\<open>wake\<close>, which is \<open>OSWakeupThread\<close>) and the
  blocking on one (\<open>sleep\<close>) as arguments; \<open>Os_Scheduler\<close> supplies them.
\<close>

definition IsThpVideoDecoderEntry :: "u32 \<Rightarrow> bool" where
  "IsThpVideoDecoderEntry entryFunc \<longleftrightarrow> entryFunc = 0x805529A8 \<or> entryFunc = 0x80552A74"

definition MarkFiberThreadTerminated :: "u32 \<Rightarrow> u16 \<Rightarrow> (os_state, unit) prog" where
  "MarkFiberThreadTerminated threadPtr finalState =
     bindP IsInitialized (\<lambda>init.
     whenP init (ExitGuestThread threadPtr (if finalState = 0 then WAITING else MORIBUND)))"

definition WakeThreadJoiners :: "(os_state, unit) prog \<Rightarrow> u32 \<Rightarrow> (os_state, unit) prog" where
  "WakeThreadJoiners wake threadPtr = thenP (set_gpr 3 (threadPtr + kThreadJoinQueueOffset)) wake"

definition UnlockAllThreadMutexes :: "env \<Rightarrow> u32 \<Rightarrow> (os_state, unit) prog" where
  "UnlockAllThreadMutexes env threadPtr = thenP (set_gpr 3 threadPtr) (env_call env 0x801A8088)"

definition TerminateThreadCommon ::
  "env \<Rightarrow> (os_state, unit) prog \<Rightarrow> u32 \<Rightarrow> bool \<Rightarrow> u32 \<Rightarrow> (os_state, unit) prog" where
  "TerminateThreadCommon env wake threadPtr publishExitValue exitValue =
     thenP (OS__ClearContext threadPtr)
     (bindP (Read16 (threadPtr + kThreadAttrOffset)) (\<lambda>attributes.
      let detached = (attributes AND 1 \<noteq> 0);
          finalState = (if detached then 0 else kThreadStateMoribund)
      in stmts
        [if detached then RemoveThreadFromList threadPtr
         else whenP publishExitValue (Write32 (threadPtr + kThreadExitValueOffset) exitValue),
         Write16 (threadPtr + kThreadStateOffset) finalState,
         MarkFiberThreadTerminated threadPtr finalState,
         UnlockAllThreadMutexes env threadPtr,
         WakeThreadJoiners wake threadPtr]))"

section \<open>OSCreateThread\<close>

text \<open>The fiber of the new thread gets the creator's HID2.\<close>

definition create_fiber :: "env \<Rightarrow> u32 \<Rightarrow> u32 \<Rightarrow> u32 \<Rightarrow> u32 \<Rightarrow> (os_state, unit) prog" where
  "create_fiber env threadPtr entryFunc entryArg stackTop =
     bindP IsInitialized (\<lambda>init. whenP init (stmts
       [ignoreP (CreateGuestFiber env threadPtr entryFunc entryArg stackTop),
        modifyP (\<lambda>s. case s_fibers s threadPtr of
            None \<Rightarrow> s
          | Some gf \<Rightarrow> put_fiber threadPtr
              (gf\<lparr>gf_cpuContext := (gf_cpuContext gf)
                \<lparr>hid2 := (if hid2 (Cpu s) \<noteq> 0 then hid2 (Cpu s) else 0x10000000)\<rparr>\<rparr>) s)]))"

definition append_to_thread_list :: "u32 \<Rightarrow> ('a memory_scheme, unit) prog" where
  "append_to_thread_list threadPtr =
     bindP (Read32 kThreadListTailAddr) (\<lambda>tailThread.
     bindP (if tailThread \<noteq> 0
            then thenP (Write32 (tailThread + kThreadListNextOffset) threadPtr) (Read32 kThreadListHeadAddr)
            else returnP threadPtr) (\<lambda>newHead.
     stmts
       [Write32 kThreadListHeadAddr newHead,
        Write32 (threadPtr + kThreadListPrevOffset) tailThread,
        Write32 (threadPtr + kThreadListNextOffset) 0,
        Write32 kThreadListTailAddr threadPtr]))"

definition init_thread_struct :: "env \<Rightarrow> u32 \<Rightarrow> u32 \<Rightarrow> u32 \<Rightarrow> u32 \<Rightarrow> u32 \<Rightarrow> u32 \<Rightarrow> u16 \<Rightarrow> (os_state, unit) prog" where
  "init_thread_struct env threadPtr entryFunc entryArg stackTop stackSize priority attributes =
     (let alignedStack = stackTop AND 0xFFFFFFF8
      in stmts
         [Write16 (threadPtr + 0x2C8) 1,
          Write16 (threadPtr + 0x2CA) (attributes AND 1),
          Write32 (threadPtr + 0x2D4) priority,
          Write32 (threadPtr + 0x2D0) priority,
          Write32 (threadPtr + 0x2CC) 1,
          Write32 (threadPtr + 0x2D8) 0xFFFFFFFF,
          Write32 (threadPtr + 0x2F0) 0,
          Write32 (threadPtr + 0x2EC) 0,
          Write32 (threadPtr + 0x2E8) 0,
          Write32 (threadPtr + 0x2F8) 0,
          Write32 (threadPtr + 0x2F4) 0,
          Write32 (alignedStack - 8) 0,
          Write32 (alignedStack - 4) 0,
          set_gpr 3 threadPtr,
          set_gpr 4 entryFunc,
          set_gpr 5 (alignedStack - 8),
          env_call env 0x801A20BC,
          whenP (IsThpVideoDecoderEntry entryFunc) (stmts
            [Write32 (threadPtr + 0x1AC) 0x00040004,
             Write32 (threadPtr + 0x1B0) 0x00050005,
             Write32 (threadPtr + 0x1B4) 0x00060006,
             Write32 (threadPtr + 0x1B8) 0x00070007]),
          Write32 (threadPtr + 0x84) 0x801AA0F0,
          Write32 (threadPtr + 0x0C) entryArg,
          Write32 (threadPtr + 0x304) stackTop,
          Write32 (threadPtr + 0x308) (stackTop - stackSize),
          Write32 (stackTop - stackSize) 0xDEADBABE,
          Write32 (threadPtr + 0x30C) 0,
          Write32 (threadPtr + 0x310) 0,
          Write32 (threadPtr + 0x314) 0])"

definition init_thread_slow_path :: "u32 \<Rightarrow> ('a memory_scheme, unit) prog" where
  "init_thread_slow_path threadPtr =
     bindP (getsP (\<lambda>s. Contains s 0x80347130 4)) (\<lambda>mapped.
     bindP (if mapped then Read32 0x80347130 else returnP 0) (\<lambda>initFlag.
     if initFlag = 0 then returnP ()
     else stmts
       ([bindP (Read32 (threadPtr + 0x19C)) (\<lambda>v. Write32 (threadPtr + 0x19C) (v OR 0x900)),
         bindP (Read16 (threadPtr + 0x1A2)) (\<lambda>m. Write16 (threadPtr + 0x1A2) (m OR 1)),
         bindP (getsP (\<lambda>s. Contains s 0x80385AA8 4)) (\<lambda>c. whenP c
           (bindP (Read32 0x80385AA8) (\<lambda>a. Write32 (threadPtr + 0x194) ((a AND 0xF8) OR 4))))] @
        concat (map (\<lambda>i. [Write32 (threadPtr + 0x90 + of_nat (i * 4)) 0,
                            Write32 (threadPtr + 0x1C8 + of_nat (i * 4)) 0]) [0..<32]))))"

text \<open>
  The handler that catches an access fault does not restore interrupts: a fault between
  the two interrupt calls leaves them off.
\<close>

definition OSCreateThread :: "env \<Rightarrow> (os_state, unit) prog" where
  "OSCreateThread env =
     bindP (get_gpr 3) (\<lambda>threadPtr. bindP (get_gpr 4) (\<lambda>entryFunc. bindP (get_gpr 5) (\<lambda>entryArg.
     bindP (get_gpr 6) (\<lambda>stackTop. bindP (get_gpr 7) (\<lambda>stackSize. bindP (get_gpr 8) (\<lambda>priority.
     bindP (get_gpr 9) (\<lambda>r9.
     if to_i32 priority < 0 \<or> to_i32 priority > 31 then set_gpr 3 0
     else
       thenP (create_fiber env threadPtr entryFunc entryArg stackTop)
       (catchP (stmts
         [init_thread_struct env threadPtr entryFunc entryArg stackTop stackSize priority (ucast r9),
          init_thread_slow_path threadPtr,
          bindP OS__DisableInterrupts (\<lambda>irqState.
            thenP (append_to_thread_list threadPtr) (ignoreP (OS__RestoreInterrupts irqState))),
          set_gpr 3 1])
        (\<lambda>_. set_gpr 3 0)))))))))"

section \<open>Exit, cancel, join, detach\<close>

definition OSExitThread_body :: "env \<Rightarrow> (os_state, unit) prog \<Rightarrow> (os_state, unit) prog \<Rightarrow> (os_state, unit) prog" where
  "OSExitThread_body env sel wake =
     bindP (get_gpr 3) (\<lambda>exitValue.
     handler_frame (\<lambda>irqState.
       bindP (Read32 kOSRunningContextAddr) (\<lambda>threadPtr.
       if threadPtr = 0 then restore_and_return irqState
       else thenP (stmts
         [TerminateThreadCommon env wake threadPtr True exitValue,
          Write32 kSchedulerReschedCounterAddr 1,
          set_gpr 3 0,
          sel]) (returnP False)))
     (returnP ()) (returnP ()))"

definition OSCancelThread_body :: "env \<Rightarrow> (os_state, unit) prog \<Rightarrow> (os_state, unit) prog \<Rightarrow> (os_state, unit) prog" where
  "OSCancelThread_body env sel wake =
     bindP (get_gpr 3) (\<lambda>threadPtr.
     if threadPtr = 0 then returnP ()
     else handler_frame (\<lambda>irqState.
       bindP (Read16 (threadPtr + kThreadStateOffset)) (\<lambda>state.
       if state = 3 \<or> state = 0 \<or> state > 4 then restore_and_return irqState
       else thenP (stmts
         [if state = kThreadStateReady then
            bindP (Read32 (threadPtr + kThreadSuspendOffset)) (\<lambda>suspend.
              whenP (to_i32 suspend < 1) (RemoveThreadFromQueue threadPtr))
          else if state = kThreadStateRunning then Write32 kSchedulerReschedCounterAddr 1
          else whenP (state = kThreadStateWaiting) (RemoveThreadFromQueue threadPtr),
          TerminateThreadCommon env wake threadPtr False 0,
          bindP (Read32 kSchedulerReschedCounterAddr) (\<lambda>r.
            whenP (r \<noteq> 0) (thenP (set_gpr 3 0) sel))]) (returnP False)))
     (returnP ()) (returnP ()))"

text \<open>Whether a thread is in the global list.\<close>

definition found_in_list :: "u32 \<Rightarrow> ('a memory_scheme, bool) prog" where
  "found_in_list threadPtr =
     bindP (Read32 kThreadListHeadAddr) (\<lambda>head.
     loopP kWalkFuel (\<lambda>it.
       if it = 0 then returnP (Inr False)
       else if it = threadPtr then returnP (Inr True)
       else bindP (Read32 (it + kThreadListNextOffset)) (\<lambda>next. returnP (Inl next))) head)"

text \<open>
  The value of the body is the result, or \<open>None\<close> where the handler has already returned.
\<close>

definition OSJoinThread_body :: "(os_state, unit) prog \<Rightarrow> (os_state, unit) prog" where
  "OSJoinThread_body sleep =
     bindP (get_gpr 3) (\<lambda>threadPtr. bindP (get_gpr 4) (\<lambda>outExitValue.
     if threadPtr = 0 then set_gpr 3 0
     else bindP OS__DisableInterrupts (\<lambda>irqState.
       bindP (catchP
         (bindP (Read16 (threadPtr + kThreadAttrOffset)) (\<lambda>attributes.
          bindP (Read16 (threadPtr + kThreadStateOffset)) (\<lambda>state0.
          bindP (Read32 (threadPtr + kThreadJoinQueueOffset)) (\<lambda>joinHead.
          bindP (if attributes AND 1 = 0 \<and> state0 \<noteq> kThreadStateMoribund \<and> joinHead = 0
                 then thenP (set_gpr 3 (threadPtr + kThreadJoinQueueOffset))
                   (thenP sleep
                   (bindP (Read16 (threadPtr + kThreadStateOffset)) (\<lambda>state.
                    bindP (if state \<noteq> 0 then found_in_list threadPtr else returnP False) (\<lambda>found.
                    returnP (if \<not> found \<and> state \<noteq> kThreadStateMoribund then None else Some state)))))
                 else returnP (Some state0)) (\<lambda>st.
          case st of
            None \<Rightarrow> thenP (ignoreP (OS__RestoreInterrupts irqState)) (thenP (set_gpr 3 0) (returnP None))
          | Some state \<Rightarrow>
              if state = kThreadStateMoribund
              then thenP (stmts
                [whenP (outExitValue \<noteq> 0)
                   (bindP (Read32 (threadPtr + kThreadExitValueOffset)) (Write32 outExitValue)),
                 RemoveThreadFromList threadPtr,
                 Write16 (threadPtr + kThreadStateOffset) 0]) (returnP (Some 1))
              else returnP (Some 0))))))
         (\<lambda>_. returnP (Some 0))) (\<lambda>result.
       case result of
         None \<Rightarrow> returnP ()
       | Some r \<Rightarrow> thenP (ignoreP (OS__RestoreInterrupts irqState)) (set_gpr 3 r)))))"

definition OSDetachThread_body :: "(os_state, unit) prog \<Rightarrow> (os_state, unit) prog" where
  "OSDetachThread_body wake =
     bindP (get_gpr 3) (\<lambda>threadPtr.
     if threadPtr = 0 then returnP ()
     else handler_frame (\<lambda>irqState.
       thenP (stmts
         [bindP (Read16 (threadPtr + kThreadAttrOffset)) (\<lambda>attributes.
            Write16 (threadPtr + kThreadAttrOffset) (attributes OR 1)),
          bindP (Read16 (threadPtr + kThreadStateOffset)) (\<lambda>state.
            whenP (state = kThreadStateMoribund) (stmts
              [RemoveThreadFromList threadPtr,
               Write16 (threadPtr + kThreadStateOffset) 0,
               MarkFiberThreadTerminated threadPtr 0])),
          WakeThreadJoiners wake threadPtr]) (returnP False))
     (returnP ()) (returnP ()))"

section \<open>Suspend and resume\<close>

definition reschedule_if_pending :: "(os_state, unit) prog \<Rightarrow> (os_state, unit) prog" where
  "reschedule_if_pending sel =
     bindP (Read32 kSchedulerReschedCounterAddr) (\<lambda>r. whenP (r \<noteq> 0) (thenP (set_gpr 3 0) sel))"

definition OSSuspendThread_body :: "(os_state, unit) prog \<Rightarrow> (os_state, unit) prog" where
  "OSSuspendThread_body sel =
     bindP (get_gpr 3) (\<lambda>threadPtr.
     if threadPtr = 0 then set_gpr 3 0
     else handler_frame (\<lambda>irqState.
       bindP (Read32 (threadPtr + kThreadSuspendOffset)) (\<lambda>suspendCount.
       thenP (stmts
         [Write32 (threadPtr + kThreadSuspendOffset) (suspendCount + 1),
          whenP (suspendCount = 0) (stmts
            [bindP (Read16 (threadPtr + kThreadStateOffset)) (\<lambda>state.
               if state < 3 then
                 if state = kThreadStateReady then RemoveThreadFromQueue threadPtr
                 else whenP (state \<noteq> 0) (stmts
                   [Write32 kSchedulerReschedCounterAddr 1,
                    Write16 (threadPtr + kThreadStateOffset) kThreadStateReady])
               else whenP (state < 5)
                 (bindP (Read32 (threadPtr + kThreadQueueOffset)) (\<lambda>queuePtr. stmts
                   [RemoveThreadFromQueue threadPtr,
                    Write32 (threadPtr + kThreadPriorityOffset) (of_i32 kSuspendedWaitPriority),
                    whenP (queuePtr \<noteq> 0)
                      (InsertThreadIntoQueueByPriority queuePtr threadPtr kSuspendedWaitPriority),
                    bindP (Read32 (threadPtr + kThreadMutexOffset)) PropagateMutexOwnerPriority]))),
             bindP IsInitialized (\<lambda>i. whenP i (SuspendGuestThread threadPtr)),
             reschedule_if_pending sel]),
          set_gpr 3 suspendCount]) (returnP False)))
     (set_gpr 3 0) (returnP ()))"

definition make_ready :: "u32 \<Rightarrow> (os_state, unit) prog" where
  "make_ready threadPtr =
     bindP (ComputeThreadEffectivePriority threadPtr) (\<lambda>priority.
     stmts
       [Write32 (threadPtr + kThreadPriorityOffset) (of_i32 priority),
        InsertThreadIntoQueueByPriority (kThreadQueueArrayAddr + of_i32 priority * 8) threadPtr priority,
        Write32 kSchedulerReschedCounterAddr 1])"

definition OSResumeThread_body :: "(os_state, unit) prog \<Rightarrow> (os_state, unit) prog" where
  "OSResumeThread_body sel =
     bindP (get_gpr 3) (\<lambda>threadPtr.
     if threadPtr = 0 then set_gpr 3 0
     else handler_frame (\<lambda>irqState.
       bindP (Read32 (threadPtr + 0x2CC)) (\<lambda>suspendCount.
       let newSuspend = suspendCount - 1
       in thenP (stmts
         [if to_i32 newSuspend < 0 then Write32 (threadPtr + 0x2CC) 0
          else stmts
            [Write32 (threadPtr + 0x2CC) newSuspend,
             whenP (newSuspend = 0) (stmts
               [CancelSleepTimer threadPtr,
                ClearOutstandingPark threadPtr,
                bindP (Read16 (threadPtr + 0x2C8)) (\<lambda>state.
                  if state = kThreadStateWaiting then
                    bindP (Read32 (threadPtr + kThreadQueueOffset)) (\<lambda>queuePtr.
                    thenP (RemoveThreadFromQueue threadPtr)
                    (bindP (ComputeThreadEffectivePriority threadPtr) (\<lambda>priority. stmts
                      [Write32 (threadPtr + kThreadPriorityOffset) (of_i32 priority),
                       whenP (queuePtr \<noteq> 0) (InsertThreadIntoQueueByPriority queuePtr threadPtr priority),
                       bindP IsInitialized (\<lambda>i. whenP i (SuspendGuestThread threadPtr)),
                       bindP (Read32 (threadPtr + kThreadMutexOffset)) PropagateMutexOwnerPriority])))
                  else if state = kThreadStateReady then stmts
                    [make_ready threadPtr,
                     bindP IsInitialized (\<lambda>i. bindP (HasFiber threadPtr) (\<lambda>h. whenP i (stmts
                       [whenP (threadPtr = kDefaultThreadContextAddr \<and> \<not> h)
                          (ignoreP (RegisterMainThreadAsFiber threadPtr)),
                        ResumeGuestThread threadPtr])))]
                  else bindP (IsTerminated threadPtr) (\<lambda>terminated.
                    whenP (state = kThreadStateRunning \<and> \<not> terminated) (stmts
                      [Write16 (threadPtr + kThreadStateOffset) kThreadStateReady,
                       make_ready threadPtr,
                       bindP IsInitialized (\<lambda>i. whenP i (ResumeGuestThread threadPtr))]))),
                reschedule_if_pending sel])],
          set_gpr 3 suspendCount]) (returnP False)))
     (set_gpr 3 0) (returnP ()))"

end
