(* ===== verification/Os_Alarm.thy ===== *)
theory Os_Alarm
  imports Os_Thread
begin

text \<open>
  The alarm queue of \<open>runtime/src/hle/os/os_alarm.cpp\<close> and \<open>ReadSystemTime\<close> of
  \<open>os_time.cpp\<close>: a doubly linked guest list sorted by fire time, its head and tail slots at
  \<open>r13 - 0x6360\<close>.  The base of the small-data area is generated configuration
  (\<open>env_SDA1_BASE\<close>); the periodic re-insertion is translated code (\<open>func_801A0620\<close>).
\<close>

definition kAlarmHandlerOffset :: u32 where "kAlarmHandlerOffset = 0"
definition kAlarmFireTimeHiOffset :: u32 where "kAlarmFireTimeHiOffset = 8"
definition kAlarmFireTimeLoOffset :: u32 where "kAlarmFireTimeLoOffset = 0xC"
definition kAlarmPrevOffset :: u32 where "kAlarmPrevOffset = 0x10"
definition kAlarmNextOffset :: u32 where "kAlarmNextOffset = 0x14"
definition kAlarmPeriodHiOffset :: u32 where "kAlarmPeriodHiOffset = 0x18"
definition kAlarmPeriodLoOffset :: u32 where "kAlarmPeriodLoOffset = 0x1C"
definition kAlarmQueueOffsetFromR13 :: u32 where "kAlarmQueueOffsetFromR13 = 0x6360"

lemmas alarm_offsets = kAlarmHandlerOffset_def kAlarmFireTimeHiOffset_def kAlarmFireTimeLoOffset_def
  kAlarmPrevOffset_def kAlarmNextOffset_def kAlarmPeriodHiOffset_def kAlarmPeriodLoOffset_def

definition join64 :: "u32 \<Rightarrow> u32 \<Rightarrow> u64" where
  "join64 hi lo = push_bit 32 (ucast hi) OR ucast lo"

definition ReadSystemTime :: "env \<Rightarrow> (os_state, u64) prog" where
  "ReadSystemTime env =
     bindP (getsP (env_timebase env)) (\<lambda>timeBase.
     bindP (Read32 0x800030D8) (\<lambda>baseHi.
     bindP (Read32 0x800030DC) (\<lambda>baseLo. returnP (join64 baseHi baseLo + timeBase))))"

definition EnsureSda1Base :: "env \<Rightarrow> (os_state, unit) prog" where
  "EnsureSda1Base env =
     bindP (get_gpr 13) (\<lambda>r13. whenP (r13 \<noteq> env_SDA1_BASE env) (set_gpr 13 (env_SDA1_BASE env)))"

definition IncrementSchedulerDisableCount :: "('a memory_scheme, unit) prog" where
  "IncrementSchedulerDisableCount =
     bindP (Read32 kSchedulerIdleFlagAddr) (\<lambda>count. Write32 kSchedulerIdleFlagAddr (count + 1))"

definition DecrementSchedulerDisableCount :: "('a memory_scheme, unit) prog" where
  "DecrementSchedulerDisableCount =
     bindP (Read32 kSchedulerIdleFlagAddr) (\<lambda>count.
     if count = 0 then returnP () else Write32 kSchedulerIdleFlagAddr (count - 1))"

text \<open>\<open>catch (...) { h; throw; }\<close>; a call that never returns is not an exception.\<close>

definition rethrowP :: "('s, unit) prog \<Rightarrow> ('s, unit) prog \<Rightarrow> ('s, unit) prog" where
  "rethrowP m h s =
     (case m s of
        (Throw (AccessViolation a n), s') \<Rightarrow> thenP h (throwP (AccessViolation a n)) s'
      | r \<Rightarrow> r)"

definition RunDeferredReschedule :: "env \<Rightarrow> (os_state, unit) prog \<Rightarrow> (os_state, unit) prog" where
  "RunDeferredReschedule env sel =
     bindP (getsP (env_is_advancing env)) (\<lambda>advancing.
     if advancing then returnP ()
     else bindP (Read32 kSchedulerReschedCounterAddr) (\<lambda>r.
       if r = 0 then returnP () else thenP (set_gpr 3 0) sel))"

definition alarm_queue_base :: "(os_state, u32) prog" where
  "alarm_queue_base = bindP (get_gpr 13) (\<lambda>r13. returnP (r13 - kAlarmQueueOffsetFromR13))"

definition SanitizeAlarmQueue :: "(os_state, unit) prog" where
  "SanitizeAlarmQueue =
     bindP alarm_queue_base (\<lambda>queueBase.
     catchP
       (bindP (Read32 queueBase) (\<lambda>head.
        bindP (Read32 (queueBase + 4)) (\<lambda>tail.
        if head = 0 then returnP ()
        else bindP (Read32 (head + kAlarmPrevOffset)) (\<lambda>prev.
             bindP (Read32 (head + kAlarmNextOffset)) (\<lambda>next.
             whenP (next = head \<and> prev = head \<and> head = tail) (stmts
               [Write32 queueBase 0,
                Write32 (queueBase + 4) 0,
                Write32 (head + kAlarmPrevOffset) 0,
                Write32 (head + kAlarmNextOffset) 0]))))))
       (\<lambda>_. returnP ()))"

section \<open>Dispatch\<close>

text \<open>The head alarm leaves the list and its handler field is cleared.\<close>

definition unlink_head_alarm :: "u32 \<Rightarrow> u32 \<Rightarrow> ('a memory_scheme, unit) prog" where
  "unlink_head_alarm queueBase alarm =
     bindP (Read32 (alarm + kAlarmNextOffset)) (\<lambda>next.
     stmts
       [Write32 queueBase next,
        if next = 0 then Write32 (queueBase + 4) 0 else Write32 (next + kAlarmPrevOffset) 0,
        Write32 (alarm + kAlarmNextOffset) 0,
        Write32 (alarm + kAlarmPrevOffset) 0,
        Write32 (alarm + kAlarmHandlerOffset) 0])"

definition call_alarm_handler :: "env \<Rightarrow> (os_state, unit) prog \<Rightarrow> u32 \<Rightarrow> u32 \<Rightarrow> (os_state, unit) prog" where
  "call_alarm_handler env sel alarm handler =
     stmts
       [IncrementSchedulerDisableCount,
        rethrowP
          (stmts [set_gpr 3 alarm,
                  bindP (Read32 kOSCurrentContextAddr) (set_gpr 4),
                  env_call env handler])
          DecrementSchedulerDisableCount,
        DecrementSchedulerDisableCount,
        RunDeferredReschedule env sel]"

text \<open>The head alarm and its handler, when it is due.\<close>

definition due_alarm :: "env \<Rightarrow> u32 \<Rightarrow> (os_state, (u32 \<times> u32) option) prog" where
  "due_alarm env queueBase =
     bindP (Read32 queueBase) (\<lambda>alarm.
     if alarm = 0 then returnP None
     else bindP (ReadSystemTime env) (\<lambda>now.
       bindP (Read32 (alarm + kAlarmFireTimeHiOffset)) (\<lambda>fireHi.
       bindP (Read32 (alarm + kAlarmFireTimeLoOffset)) (\<lambda>fireLo.
       bindP (Read32 (alarm + kAlarmHandlerOffset)) (\<lambda>handler.
       returnP (if now < join64 fireHi fireLo then None else Some (alarm, handler)))))))"

definition fire_alarm :: "env \<Rightarrow> (os_state, unit) prog \<Rightarrow> u32 \<Rightarrow> u32 \<Rightarrow> u32 \<Rightarrow> (os_state, unit) prog" where
  "fire_alarm env sel queueBase alarm handler =
     thenP (unlink_head_alarm queueBase alarm)
     (bindP (Read32 (alarm + kAlarmPeriodHiOffset)) (\<lambda>periodHi.
      bindP (Read32 (alarm + kAlarmPeriodLoOffset)) (\<lambda>periodLo.
      thenP (whenP (periodHi OR periodLo \<noteq> 0) (stmts
        [set_gpr 3 alarm, set_gpr 5 0, set_gpr 6 0, set_gpr 7 handler, env_call env 0x801A0620]))
      (whenP (handler \<noteq> 0) (call_alarm_handler env sel alarm handler)))))"

text \<open>
  A fault ends the loop; whether an alarm was handled is known from where it happened.
\<close>

definition dispatch_alarms :: "env \<Rightarrow> (os_state, unit) prog \<Rightarrow> nat \<Rightarrow> u32 \<Rightarrow> (os_state, bool) prog" where
  "dispatch_alarms env sel maxToProcess queueBase =
     loopP (maxToProcess + 1) (\<lambda>(i, handledAny).
       if \<not> i < maxToProcess then returnP (Inr handledAny)
       else bindP (catchP (due_alarm env queueBase) (\<lambda>_. returnP None)) (\<lambda>due.
         case due of
           None \<Rightarrow> returnP (Inr handledAny)
         | Some (alarm, handler) \<Rightarrow>
             bindP (catchP (thenP (fire_alarm env sel queueBase alarm handler) (returnP True))
                     (\<lambda>_. returnP False)) (\<lambda>ok.
             returnP (if ok then Inl (i + 1, True) else Inr True)))) (0 :: nat, False)"

definition ProcessAlarmQueue_body :: "env \<Rightarrow> (os_state, unit) prog \<Rightarrow> int \<Rightarrow> (os_state, bool) prog" where
  "ProcessAlarmQueue_body env sel maxToProcess =
     bindP (getsP g_alarmProcessDepth) (\<lambda>depth.
     if maxToProcess \<le> 0 \<or> depth \<noteq> 0 then returnP False
     else thenP (EnsureSda1Base env)
       (bindP (get_gpr 13) (\<lambda>r13.
        if r13 = 0 then returnP False
        else
          thenP (modifyP (\<lambda>s. s\<lparr>g_alarmProcessDepth := g_alarmProcessDepth s + 1\<rparr>))
          (thenP SanitizeAlarmQueue
          (bindP alarm_queue_base (\<lambda>queueBase.
           bindP (dispatch_alarms env sel (nat maxToProcess) queueBase) (\<lambda>handled.
           thenP (modifyP (\<lambda>s. s\<lparr>g_alarmProcessDepth := g_alarmProcessDepth s - 1\<rparr>))
           (bindP (env_completions env) (\<lambda>completed.
            bindP (env_nand_callbacks env maxToProcess) (\<lambda>called.
            thenP (whenP (completed \<or> called) (RunDeferredReschedule env sel))
            (returnP (handled \<or> completed \<or> called)))))))))))) "

section \<open>OSSetAlarm\<close>

definition IsLikelyCodeAddress :: "env \<Rightarrow> u32 \<Rightarrow> os_state \<Rightarrow> bool" where
  "IsLikelyCodeAddress env addr s \<longleftrightarrow> addr \<noteq> 0 \<and> (env_registered env addr \<or> Contains s addr 4)"

text \<open>The walk to the first alarm that fires later: \<open>(prev, cur)\<close>.\<close>

definition find_alarm_slot :: "u64 \<Rightarrow> u32 \<Rightarrow> ('a memory_scheme, u32 \<times> u32) prog" where
  "find_alarm_slot fireTime head =
     loopP kWalkFuel (\<lambda>(prev, cur).
       if cur = 0 then returnP (Inr (prev, 0))
       else bindP (Read32 (cur + kAlarmFireTimeHiOffset)) (\<lambda>curHi.
            bindP (Read32 (cur + kAlarmFireTimeLoOffset)) (\<lambda>curLo.
            if sint fireTime < sint (join64 curHi curLo) then returnP (Inr (prev, cur))
            else bindP (Read32 (cur + kAlarmNextOffset)) (\<lambda>next. returnP (Inl (cur, next)))))) (0, head)"

definition insert_alarm :: "u32 \<Rightarrow> u32 \<Rightarrow> u64 \<Rightarrow> ('a memory_scheme, unit) prog" where
  "insert_alarm queueBase alarm fireTime =
     bindP (Read32 queueBase) (\<lambda>head.
     if head = 0 then stmts [Write32 queueBase alarm, Write32 (queueBase + 4) alarm]
     else bindP (find_alarm_slot fireTime head) (\<lambda>(prev, cur).
       if prev = 0 then stmts
         [Write32 (alarm + kAlarmNextOffset) head,
          Write32 (head + kAlarmPrevOffset) alarm,
          Write32 queueBase alarm]
       else stmts
         [Write32 (alarm + kAlarmPrevOffset) prev,
          Write32 (alarm + kAlarmNextOffset) cur,
          Write32 (prev + kAlarmNextOffset) alarm,
          if cur \<noteq> 0 then Write32 (cur + kAlarmPrevOffset) alarm else Write32 (queueBase + 4) alarm]))"

definition init_alarm :: "u32 \<Rightarrow> u32 \<Rightarrow> u64 \<Rightarrow> ('a memory_scheme, unit) prog" where
  "init_alarm alarm handler fireTime =
     stmts
       [Write32 (alarm + kAlarmPeriodLoOffset) 0,
        Write32 (alarm + kAlarmPeriodHiOffset) 0,
        Write32 (alarm + kAlarmHandlerOffset) handler,
        Write32 (alarm + kAlarmFireTimeHiOffset) (ucast (drop_bit 32 fireTime)),
        Write32 (alarm + kAlarmFireTimeLoOffset) (ucast fireTime),
        Write32 (alarm + kAlarmNextOffset) 0,
        Write32 (alarm + kAlarmPrevOffset) 0]"

definition OSSetAlarm :: "env \<Rightarrow> (os_state, unit) prog" where
  "OSSetAlarm env =
     bindP (get_gpr 3) (\<lambda>alarm. bindP (get_gpr 4) (\<lambda>r4. bindP (get_gpr 5) (\<lambda>r5.
     bindP (get_gpr 6) (\<lambda>r6. bindP (get_gpr 7) (\<lambda>r7.
     bindP (getsP (\<lambda>s. \<not> IsLikelyCodeAddress env r7 s \<and> IsLikelyCodeAddress env r6 s)) (\<lambda>alt.
     let handler = (if alt then r6 else r7); tickHi = (if alt then r4 else r5); tickLo = (if alt then r5 else r6)
     in if alarm = 0 then returnP ()
        else bindP OS__DisableInterrupts (\<lambda>level.
          thenP SanitizeAlarmQueue
          (bindP (catchP (ReadSystemTime env) (\<lambda>_. getsP (env_timebase env))) (\<lambda>now.
           let fireTime = now + join64 tickHi tickLo
           in bindP (catchP (thenP (init_alarm alarm handler fireTime) (returnP True)) (\<lambda>_. returnP False)) (\<lambda>ok.
              thenP (whenP ok (bindP alarm_queue_base (\<lambda>queueBase.
                catchP (insert_alarm queueBase alarm fireTime) (\<lambda>_. returnP ()))))
              (ignoreP (OS__RestoreInterrupts level)))))))))))) "

definition OS__SetPeriodicAlarm :: "env \<Rightarrow> (os_state, unit) prog" where
  "OS__SetPeriodicAlarm env =
     thenP SanitizeAlarmQueue
     (bindP (get_gpr 3) (\<lambda>alarm. bindP (get_gpr 5) (\<lambda>startHi. bindP (get_gpr 6) (\<lambda>startLo.
      bindP (get_gpr 7) (\<lambda>periodHi. bindP (get_gpr 8) (\<lambda>periodLo. bindP (get_gpr 9) (\<lambda>handler.
      bindP OS__DisableInterrupts (\<lambda>level.
      thenP (stmts
        [Write32 (alarm + kAlarmPeriodLoOffset) periodLo,
         Write32 (alarm + kAlarmPeriodHiOffset) periodHi,
         set_gpr 3 startHi,
         set_gpr 4 startLo,
         env_call env 0x801AADE0,
         bindP (get_gpr 3) (Write32 (alarm + 0x20)),
         bindP (get_gpr 4) (Write32 (alarm + 0x24)),
         set_gpr 3 alarm,
         set_gpr 5 0,
         set_gpr 6 0,
         set_gpr 7 handler,
         env_call env 0x801A0620])
      (bindP (OS__RestoreInterrupts level) (\<lambda>prev. set_gpr 3 (of_i32 prev)))))))))))"

end
