(* ===== verification/Os_Scheduler.thy ===== *)
theory Os_Scheduler
  imports Os_Alarm
begin

text \<open>
  The scheduler of \<open>runtime/src/hle/os/os_scheduler.cpp\<close>: \<open>SelectThread\<close>, the waking of
  a queue and the mutexes, and the handlers of the other files with the scheduler tied in.
  \<open>SelectThread\<close> re-enters itself through the sleep timers it fires and the alarms its idle
  loop dispatches, so it is a recursion on a bound \<open>n\<close> of the nesting depth, which also
  bounds the iterations of the idle loop; a run that needs more is \<open>OutOfFuel\<close>.
\<close>

definition TryInvokeSwitchCallback :: "env \<Rightarrow> u32 \<Rightarrow> u32 \<Rightarrow> (os_state, unit) prog" where
  "TryInvokeSwitchCallback env oldCtx newCtx =
     catchP
       (bindP (Read32 kSwitchThreadCallbackPtrAddr) (\<lambda>callbackAddr.
        if callbackAddr = 0 then returnP ()
        else whenP (env_registered env callbackAddr) (stmts
          [set_gpr 3 oldCtx, set_gpr 4 newCtx, env_call env callbackAddr])))
       (\<lambda>_. returnP ())"

text \<open>\<open>PPC_Cntlzw\<close>: the number of leading zeros, 32 for zero.\<close>

fun clz_from :: "nat \<Rightarrow> u32 \<Rightarrow> nat" where
  "clz_from 0 w = 0"
| "clz_from (Suc k) w = (if bit w k then 0 else Suc (clz_from k w))"

definition PPC_Cntlzw :: "u32 \<Rightarrow> nat" where
  "PPC_Cntlzw w = clz_from 32 w"

section \<open>Choosing a thread\<close>

text \<open>\<open>None\<close> where \<open>SelectThread\<close> returns 0 to its caller, else the running context.\<close>

definition give_up :: "(os_state, 'a option) prog" where
  "give_up = thenP (set_gpr 3 0) (returnP None)"

text \<open>
  The part of \<open>SelectThread\<close> that leaves the running thread: early exits, preemption test,
  re-queueing at the tail of its run queue, saving a context that is not preemptible.
\<close>

definition leave_running :: "env \<Rightarrow> u32 \<Rightarrow> (os_state, u32 option) prog" where
  "leave_running env forceSwitch =
     bindP (Read32 kSchedulerIdleFlagAddr) (\<lambda>idleFlag.
     if idleFlag \<ge> 1 then give_up
     else
       bindP (Read32 kOSCurrentContextAddr) (\<lambda>currentContext.
       bindP (Read32 kOSRunningContextAddr) (\<lambda>runningContext.
       if currentContext = 0 \<and> runningContext = 0 then give_up
       else if currentContext \<noteq> runningContext then give_up
       else
         bindP (Read16 (runningContext + 0x2C8)) (\<lambda>threadState.
         bindP (if threadState = 2
           then bindP (Read32 kSchedulerPendingFlagAddr) (\<lambda>reschedPending.
             bindP (if forceSwitch = 0
               then bindP (Read32 (runningContext + 0x2D0)) (\<lambda>threadPriority.
                 returnP (to_i32 threadPriority \<le> int (if reschedPending \<noteq> 0 then PPC_Cntlzw reschedPending else 32)))
               else returnP False) (\<lambda>keep_running.
             if keep_running then returnP True
             else thenP (Write16 (runningContext + 0x2C8) 1)
               (bindP (Read32 (runningContext + 0x2D0)) (\<lambda>prio.
                thenP (LinkThreadOnRunQueue runningContext (to_i32 prio))
                (thenP (MarkRunQueuePending (to_i32 prio)) (returnP False))))))
           else returnP False) (\<lambda>stay.
         if stay then give_up
         else
           bindP (catchP
             (bindP (Read16 (runningContext + 0x1A2)) (\<lambda>modeFlags.
              if modeFlags AND 2 = 0
              then thenP (set_gpr 3 runningContext)
                (thenP (env_call env 0x801A1ED8)
                (bindP (get_gpr 3) (\<lambda>r3. returnP (r3 \<noteq> 0))))
              else returnP False))
             (\<lambda>_. returnP False)) (\<lambda>resumed.
           if resumed then give_up else returnP (Some runningContext)))))))"

text \<open>The idle loop: interrupts on, poll until some queue is pending.\<close>

definition idle_inner :: "env \<Rightarrow> (os_state, unit) prog \<Rightarrow> (os_state, unit) prog \<Rightarrow> nat \<Rightarrow> (os_state, unit) prog" where
  "idle_inner env timers alarms n =
     loopP n (\<lambda>_.
       bindP (Read32 kSchedulerPendingFlagAddr) (\<lambda>pending.
       if pending \<noteq> 0 then returnP (Inr ())
       else thenP timers (thenP (env_audio_poll env)
         (bindP (Read32 kSchedulerPendingFlagAddr) (\<lambda>p.
          if p \<noteq> 0 then returnP (Inr ())
          else thenP (env_idle_poll env) (thenP alarms
            (bindP (Read32 kSchedulerPendingFlagAddr) (\<lambda>p2.
             if p2 \<noteq> 0 then returnP (Inr ())
             else thenP (env_idle_wait env) (returnP (Inl ())))))))))) ()"

definition idle_until_pending ::
  "env \<Rightarrow> (os_state, unit) prog \<Rightarrow> (os_state, unit) prog \<Rightarrow> nat \<Rightarrow> u32 \<Rightarrow> (os_state, unit) prog" where
  "idle_until_pending env timers alarms n runningContext =
     stmts
       [TryInvokeSwitchCallback env runningContext 0,
        Write32 kOSRunningContextAddr 0,
        OS__SetCurrentContext kIdleThreadContextAddr,
        loopP n (\<lambda>_.
          thenP (ignoreP OS__EnableInterrupts)
          (thenP (idle_inner env timers alarms n)
          (thenP (ignoreP OS__DisableInterrupts)
          (bindP (Read32 kSchedulerPendingFlagAddr) (\<lambda>p.
           returnP (if p \<noteq> 0 then Inr () else Inl ())))))) (),
        OS__ClearContext kIdleThreadContextAddr]"

text \<open>
  The search for the highest non-empty queue whose head is alive: \<open>(priority, thread)\<close> and
  the pending mask it was found with.  One round of the search:
\<close>

definition find_step :: "u32 \<Rightarrow> (os_state, u32 + (nat \<times> u32 \<times> u32) option) prog" where
  "find_step pendingMask =
     (let priorityLevel = PPC_Cntlzw pendingMask;
          queueEntry = kThreadQueueArrayAddr + of_nat priorityLevel * 8;
          reload = bindP (Read32 kSchedulerPendingFlagAddr) (\<lambda>m.
            if m = 0 then bindP give_up (\<lambda>r. returnP (Inr r)) else returnP (Inl m))
      in bindP (Read32 queueEntry) (\<lambda>nextThread.
         if nextThread = 0
         then thenP (Write32 kSchedulerPendingFlagAddr (pendingMask AND NOT (push_bit (31 - priorityLevel) 1)))
                reload
         else bindP (Read16 (nextThread + kThreadStateOffset)) (\<lambda>state.
           bindP (IsTerminated nextThread) (\<lambda>terminated.
           if ThreadStateIsTerminated state \<or> terminated
           then thenP (RemoveThreadFromQueue nextThread) reload
           else returnP (Inr (Some (priorityLevel, nextThread, pendingMask)))))))"

definition find_runnable :: "(os_state, (nat \<times> u32 \<times> u32) option) prog" where
  "find_runnable =
     bindP (Read32 kSchedulerPendingFlagAddr) (\<lambda>mask0.
     if mask0 = 0 then give_up else loopP kWalkFuel find_step mask0)"

text \<open>Taking the thread off its queue and making it the running one.\<close>

definition dispatch_thread :: "env \<Rightarrow> u32 \<Rightarrow> nat \<Rightarrow> u32 \<Rightarrow> u32 \<Rightarrow> (os_state, unit) prog" where
  "dispatch_thread env runningContext priorityLevel nextThread pendingMask =
     (let queueEntry = kThreadQueueArrayAddr + of_nat priorityLevel * 8
      in bindP (PopThreadQueueHead queueEntry nextThread) (\<lambda>threadNext.
         stmts
           [whenP (threadNext = 0)
              (Write32 kSchedulerPendingFlagAddr (pendingMask AND NOT (push_bit (31 - priorityLevel) 1))),
            Write32 (nextThread + 0x2DC) 0,
            Write16 (nextThread + 0x2C8) 2,
            TryInvokeSwitchCallback env runningContext nextThread,
            Write32 kOSRunningContextAddr nextThread,
            OS__SetCurrentContext nextThread]))"

definition switch_fibers :: "env \<Rightarrow> u32 \<Rightarrow> u32 \<Rightarrow> (os_state, unit) prog" where
  "switch_fibers env runningContext nextThread =
     bindP IsInitialized (\<lambda>init.
     if init then
       bindP GetCurrentGuestThread (\<lambda>currentGuestThread.
       thenP (whenP (currentGuestThread = 0 \<and> runningContext \<noteq> 0)
         (bindP (HasFiber runningContext) (\<lambda>h.
          whenP (\<not> h) (ignoreP (RegisterMainThreadAsFiber runningContext)))))
       (bindP (HasFiber nextThread) (\<lambda>h.
        if \<not> h then thenP (set_gpr 3 nextThread) (OS__LoadContext env)
        else SwitchToThread env nextThread)))
     else thenP (set_gpr 3 nextThread) (OS__LoadContext env))"

definition SelectThread_body ::
  "env \<Rightarrow> (os_state, unit) prog \<Rightarrow> (os_state, unit) prog \<Rightarrow> nat \<Rightarrow> (os_state, unit) prog" where
  "SelectThread_body env timers alarms n =
     bindP (get_gpr 3) (\<lambda>forceSwitch.
     thenP timers
     (bindP (leave_running env forceSwitch) (\<lambda>left.
      case left of
        None \<Rightarrow> returnP ()
      | Some runningContext \<Rightarrow>
          thenP (bindP (Read32 kSchedulerPendingFlagAddr) (\<lambda>reschedPending.
            whenP (reschedPending = 0) (idle_until_pending env timers alarms n runningContext)))
          (thenP (Write32 kSchedulerReschedCounterAddr 0)
          (bindP find_runnable (\<lambda>found.
           case found of
             None \<Rightarrow> returnP ()
           | Some (priorityLevel, nextThread, pendingMask) \<Rightarrow>
               thenP (dispatch_thread env runningContext priorityLevel nextThread pendingMask)
                 (switch_fibers env runningContext nextThread)))))))"

fun SelectThread :: "env \<Rightarrow> nat \<Rightarrow> (os_state, unit) prog" where
  "SelectThread env 0 = throwP OutOfFuel"
| "SelectThread env (Suc n) =
     SelectThread_body env
       (ignoreP (ProcessSleepTimers_body env (OSResumeThread_body (SelectThread env n))))
       (ignoreP (ProcessAlarmQueue_body env (SelectThread env n) 8))
       (Suc n)"

definition OSResumeThread :: "env \<Rightarrow> nat \<Rightarrow> (os_state, unit) prog" where
  "OSResumeThread env n = OSResumeThread_body (SelectThread env n)"

definition OSSuspendThread :: "env \<Rightarrow> nat \<Rightarrow> (os_state, unit) prog" where
  "OSSuspendThread env n = OSSuspendThread_body (SelectThread env n)"

definition ProcessSleepTimers :: "env \<Rightarrow> nat \<Rightarrow> (os_state, bool) prog" where
  "ProcessSleepTimers env n = ProcessSleepTimers_body env (OSResumeThread env n)"

definition ProcessAlarmQueue :: "env \<Rightarrow> nat \<Rightarrow> int \<Rightarrow> (os_state, bool) prog" where
  "ProcessAlarmQueue env n = ProcessAlarmQueue_body env (SelectThread env n)"

definition OSSleepThread :: "env \<Rightarrow> nat \<Rightarrow> (os_state, unit) prog" where
  "OSSleepThread env n = OSSleepThread_body (SelectThread env n)"

definition OSSleepTicks :: "env \<Rightarrow> nat \<Rightarrow> (os_state, unit) prog" where
  "OSSleepTicks env n = OSSleepTicks_body env (OSSuspendThread env n)"

section \<open>Waking a queue\<close>

definition wake_one :: "u32 \<Rightarrow> (os_state, bool) prog" where
  "wake_one thread =
     bindP (Read16 (thread + kThreadStateOffset)) (\<lambda>state.
     bindP (IsTerminated thread) (\<lambda>terminated.
     if ThreadStateIsTerminated state \<or> terminated
     then thenP (stmts
       [Write32 (thread + kThreadQueueOffset) 0,
        Write32 (thread + kThreadNextOffset) 0,
        Write32 (thread + kThreadPrevOffset) 0]) (returnP False)
     else thenP (Write16 (thread + 0x2C8) 1)
       (bindP (Read32 (thread + 0x2CC)) (\<lambda>suspend.
        if to_i32 suspend < 1
        then bindP (Read32 (thread + 0x2D0)) (\<lambda>prio.
          let p = clamp_prio (to_i32 prio)
          in thenP (stmts
            [LinkThreadOnRunQueue thread p,
             bindP IsInitialized (\<lambda>i. bindP (HasFiber thread) (\<lambda>h. whenP i (stmts
               [whenP (thread = kDefaultThreadContextAddr \<and> \<not> h) (ignoreP (RegisterMainThreadAsFiber thread)),
                ResumeGuestThread thread]))),
             MarkRunQueuePending p]) (returnP True))
        else returnP False))))"

definition kMaxWake :: nat where "kMaxWake = 256"

definition drain_queue :: "u32 \<Rightarrow> (os_state, bool) prog" where
  "drain_queue queueAddr =
     loopP (kMaxWake + 1) (\<lambda>(woke :: nat, resched).
       if \<not> woke < kMaxWake then returnP (Inr resched)
       else bindP (Read32 queueAddr) (\<lambda>thread.
         if thread = 0 then returnP (Inr resched)
         else thenP (ignoreP (PopThreadQueueHead queueAddr thread))
           (bindP (wake_one thread) (\<lambda>r. returnP (Inl (woke + 1, resched \<or> r)))))) (0, False)"

definition WakeupThreadQueue :: "env \<Rightarrow> (os_state, unit) prog \<Rightarrow> bool \<Rightarrow> (os_state, unit) prog" where
  "WakeupThreadQueue env sel allowImmediateReschedule =
     bindP (get_gpr 3) (\<lambda>queueAddr.
     if queueAddr = 0 then returnP ()
     else bindP OS__DisableInterrupts (\<lambda>irqState.
       bindP (drain_queue queueAddr) (\<lambda>resched.
       bindP (getsP (env_is_advancing env)) (\<lambda>advancing.
       thenP (whenP (allowImmediateReschedule \<and> resched \<and> \<not> advancing) (thenP (set_gpr 3 0) sel))
       (ignoreP (OS__RestoreInterrupts irqState))))))"

definition OSWakeupThread :: "env \<Rightarrow> nat \<Rightarrow> (os_state, unit) prog" where
  "OSWakeupThread env n = WakeupThreadQueue env (SelectThread env n) True"

definition OS_HLE_WakeupThreadNoReschedule :: "env \<Rightarrow> (os_state, unit) prog \<Rightarrow> u32 \<Rightarrow> (os_state, unit) prog" where
  "OS_HLE_WakeupThreadNoReschedule env sel waitQueue =
     bindP (get_gpr 3) (\<lambda>savedR3.
     stmts [set_gpr 3 waitQueue, WakeupThreadQueue env sel False, set_gpr 3 savedR3])"

definition OSExitThread :: "env \<Rightarrow> nat \<Rightarrow> (os_state, unit) prog" where
  "OSExitThread env n = OSExitThread_body env (SelectThread env n) (OSWakeupThread env n)"

definition OSCancelThread :: "env \<Rightarrow> nat \<Rightarrow> (os_state, unit) prog" where
  "OSCancelThread env n = OSCancelThread_body env (SelectThread env n) (OSWakeupThread env n)"

definition OSJoinThread :: "env \<Rightarrow> nat \<Rightarrow> (os_state, unit) prog" where
  "OSJoinThread env n = OSJoinThread_body (OSSleepThread env n)"

definition OSDetachThread :: "env \<Rightarrow> nat \<Rightarrow> (os_state, unit) prog" where
  "OSDetachThread env n = OSDetachThread_body (OSWakeupThread env n)"

section \<open>Mutexes\<close>

definition OSLockMutex_body :: "nat \<Rightarrow> (os_state, unit) prog \<Rightarrow> (os_state, unit) prog" where
  "OSLockMutex_body n sleep =
     bindP (get_gpr 3) (\<lambda>mutexPtr.
     if mutexPtr = 0 then returnP ()
     else handler_frame (\<lambda>irqState.
       bindP (Read32 kOSRunningContextAddr) (\<lambda>currentThread.
       if currentThread = 0 then restore_and_return irqState
       else thenP (loopP n (\<lambda>_.
         bindP (Read32 (mutexPtr + kMutexOwnerOffset)) (\<lambda>ownerThread.
         if ownerThread = 0 then
           thenP (Write32 (mutexPtr + kMutexOwnerOffset) currentThread)
           (bindP (Read32 (mutexPtr + kMutexCountOffset)) (\<lambda>count.
            thenP (stmts
              [Write32 (mutexPtr + kMutexCountOffset) (count + 1),
               LinkMutexToThread currentThread mutexPtr]) (returnP (Inr ()))))
         else if ownerThread = currentThread then
           bindP (Read32 (mutexPtr + kMutexCountOffset)) (\<lambda>count.
           thenP (Write32 (mutexPtr + kMutexCountOffset) (count + 1)) (returnP (Inr ())))
         else
           thenP (stmts
             [Write32 (currentThread + kThreadMutexOffset) mutexPtr,
              bindP (Read32 (currentThread + kThreadPriorityOffset)) (\<lambda>priority.
                PromoteThreadPriority ownerThread (to_i32 priority)),
              set_gpr 3 mutexPtr,
              sleep,
              Write32 (currentThread + kThreadMutexOffset) 0]) (returnP (Inl ())))) ())
         (returnP False)))
     (returnP ()) (returnP ()))"

definition OSUnlockMutex_body :: "(os_state, unit) prog \<Rightarrow> (os_state, unit) prog" where
  "OSUnlockMutex_body wake =
     bindP (get_gpr 3) (\<lambda>mutexPtr.
     if mutexPtr = 0 then returnP ()
     else handler_frame (\<lambda>irqState.
       bindP (Read32 kOSRunningContextAddr) (\<lambda>currentThread.
       if currentThread = 0 then restore_and_return irqState
       else bindP (Read32 (mutexPtr + kMutexOwnerOffset)) (\<lambda>owner.
         thenP (whenP (owner = currentThread)
           (bindP (Read32 (mutexPtr + kMutexCountOffset)) (\<lambda>c.
            let count = c - 1
            in stmts
              [Write32 (mutexPtr + kMutexCountOffset) count,
               whenP (count = 0) (stmts
                 [UnlinkMutexFromThread currentThread mutexPtr,
                  Write32 (mutexPtr + kMutexOwnerOffset) 0,
                  bindP (Read32 (currentThread + kThreadPriorityOffset)) (\<lambda>effectivePriority.
                  bindP (Read32 (currentThread + kThreadBasePriorityOffset)) (\<lambda>basePriority.
                  whenP (to_i32 effectivePriority < to_i32 basePriority)
                    (bindP (ComputeThreadEffectivePriority currentThread) (\<lambda>recomputed.
                     Write32 (currentThread + kThreadPriorityOffset) (of_i32 recomputed))))),
                  set_gpr 3 mutexPtr,
                  wake])])))
         (returnP False))))
     (returnP ()) (returnP ()))"

definition OSLockMutex :: "env \<Rightarrow> nat \<Rightarrow> (os_state, unit) prog" where
  "OSLockMutex env n = OSLockMutex_body n (OSSleepThread env n)"

definition OSUnlockMutex :: "env \<Rightarrow> nat \<Rightarrow> (os_state, unit) prog" where
  "OSUnlockMutex env n = OSUnlockMutex_body (OSWakeupThread env n)"

end
