(* ===== verification/Sample_State.thy ===== *)
theory Sample_State
  imports Run_Queues Memory_Laws
begin

text \<open>
  The state the witnesses start from: the region map of the console, memory all zero, no
  fiber, interrupts on.  A structure in guest memory is built by storing its cells.
\<close>

definition boot_cpu :: cpu_context where
  "boot_cpu = \<lparr>gpr = (\<lambda>_. 0), cr = 0, lr = 0, ctr = 0, xer = 0, fpscr = 0, pc = 0, gqr = (\<lambda>_. 0),
     hid0 = 0, hid1 = 0, hid2 = 0, srr0 = 0, srr1 = 0, msr = 0\<rparr>"

definition boot_os :: os_state where
  "boot_os = memory.extend empty_memory
     (os_state.fields boot_cpu True 0 (\<lambda>_. None) [] 1 0 True 1 {1} [] {} 0 (\<lambda>_. None) 0)"

lemma boot_os_fields [simp]:
  "Cpu boot_os = boot_cpu" "g_interrupts_enabled boot_os" "s_fibers boot_os = (\<lambda>_. None)"
  "s_fibersPendingDelete boot_os = []" "s_schedulerFiber boot_os = 1" "s_currentGuestThread boot_os = 0"
  "s_initialized boot_os" "CurrentFiber boot_os = 1" "LiveFibers boot_os = {1}" "gSleepTimers boot_os = []"
  "DeferredReads boot_os = []" "Regions boot_os = wii_region_list" "ExecutableRanges boot_os = []"
  "Storage boot_os = (\<lambda>_ _. 0)" "DeferredReadCoveredPages boot_os = (\<lambda>_. False)"
  "GuardPages boot_os = (\<lambda>_. False)" "GuardCoarsePages boot_os = (\<lambda>_. False)"
  by (simp_all add: boot_os_def memory.defs os_state.defs empty_memory_def)

lemma boot_ram: "ram boot_os a \<longleftrightarrow> 4 dvd unat a \<and> ram_window a 4"
  by (simp add: ram_def wii_memory_def wii_regions FindExecutableRange_def)

lemma boot_rd: "rd32 boot_os a = 0"
  by (simp add: rd32_def bytes_at_def upt_rec BigEndian_Read32_def)

lemma boot_writes_rd:
  "\<forall>c \<in> fst ` set ps. ram boot_os c \<Longrightarrow> ram boot_os c \<Longrightarrow> rd32 (writes wr32 boot_os ps) c = upds (\<lambda>_. 0) ps c"
proof -
  assume "\<forall>c \<in> fst ` set ps. ram boot_os c" and "ram boot_os c"
  then have "rd32 (writes wr32 boot_os ps) c = upds (rd32 boot_os) ps c"
    by (rule gm.rd_writes)
  also have "\<dots> = upds (\<lambda>_. 0) ps c" by (rule upds_agree) (simp add: boot_rd)
  finally show ?thesis .
qed

lemmas ram_eval = boot_ram ram_window_def kMem1Size_def kMem2Size_def

text \<open>A wait queue at \<open>0x80500000\<close> with a thread of priority 5 and one of priority 10, and a
  third thread of priority 5.\<close>

definition sample_threads :: "u32 set" where
  "sample_threads = {0x80400000, 0x80401000, 0x80402000}"

definition sample_cells :: "(u32 \<times> u32) list" where
  "sample_cells =
     [(0x80500000, 0x80400000), (0x80500004, 0x80401000),
      (0x804002E0, 0x80401000), (0x804012E4, 0x80400000),
      (0x804002DC, 0x80500000), (0x804012DC, 0x80500000),
      (0x804002D0, 5), (0x804012D0, 10), (0x804022D0, 5)]"

definition sample_wait :: os_state where
  "sample_wait = writes wr32 boot_os sample_cells"

lemma sample_cells_ram: "\<forall>c \<in> fst ` set sample_cells. ram boot_os c"
  by (simp add: sample_cells_def ram_eval)

lemma sample_threads_ok: "apart sample_threads" "threads_ram boot_os sample_threads"
  by (simp_all add: apart_def threads_ram_def sample_threads_def thread_offs_def os_offsets ram_eval)

lemma sample_wait_rd: "ram boot_os c \<Longrightarrow> rd32 sample_wait c = upds (\<lambda>_. 0) sample_cells c"
  using boot_writes_rd [OF sample_cells_ram] by (simp add: sample_wait_def)

lemma sample_wait_ok: "queue_ok sample_wait sample_threads 0x80500000 [0x80400000, 0x80401000]"
proof -
  have "ram sample_wait c = ram boot_os c" for c by (simp add: sample_wait_def)
  moreover have "dll (rd32 sample_wait) kThreadNextOffset kThreadPrevOffset 0x80500000 (0x80500000 + 4)
      [0x80400000, 0x80401000]"
    by (simp add: dll_def first0_def last0_def os_offsets sample_wait_rd ram_eval sample_cells_def)
  moreover have "off_threads sample_threads 0x80500000" "off_threads sample_threads (0x80500000 + 4)"
    by (simp_all add: off_threads_def sample_threads_def thread_offs_def os_offsets)
  ultimately show ?thesis
    using sample_threads_ok by (simp add: queue_ok_def threads_ram_def ram_eval) (simp add: sample_threads_def)
qed

lemma sample_prio:
  "prio_of sample_wait 0x80400000 = 5" "prio_of sample_wait 0x80401000 = 10" "prio_of sample_wait 0x80402000 = 5"
  by (simp_all add: prio_of_def os_offsets sample_wait_rd ram_eval sample_cells_def to_i32_def)

text \<open>
  Run queues: \<open>0x80400000\<close> and \<open>0x80401000\<close> at priority 5, nothing else.  The first of the
  two is moribund, the second ready.
\<close>

definition sample_run_cells :: "(u32 \<times> u32) list" where
  "sample_run_cells =
     [(0x803477d8, 0x80400000), (0x803477dc, 0x80401000),
      (0x804002E0, 0x80401000), (0x804012E4, 0x80400000),
      (0x804002DC, 0x803477d8), (0x804012DC, 0x803477d8),
      (0x804002C8, 0x00080000), (0x804012C8, 0x00010000),
      (0x804002D0, 5), (0x804012D0, 5), (0x804022D0, 5), (0x80386920, 0x04000000)]"

definition sample_run :: os_state where
  "sample_run = writes wr32 boot_os sample_run_cells"

definition sample_queues :: "nat \<Rightarrow> u32 list" where
  "sample_queues p = (if p = 5 then [0x80400000, 0x80401000] else [])"

lemma sample_run_ram: "\<forall>c \<in> fst ` set sample_run_cells. ram boot_os c"
  by (simp add: sample_run_cells_def ram_eval)

lemma sample_run_rd: "ram boot_os c \<Longrightarrow> rd32 sample_run c = upds (\<lambda>_. 0) sample_run_cells c"
  using boot_writes_rd [OF sample_run_ram] by (simp add: sample_run_def)

lemma ram_run_queue: "p < 32 \<Longrightarrow> ram boot_os (run_queue p) \<and> ram boot_os (run_queue p + 4)"
  unfolding boot_ram ram_window_def
  by (simp add: unat_run_queue unat_run_queue4 kMem1Size_def dvd_add_right_iff)

lemma run_queue_off_sample:
  assumes "p < 32"
  shows "off_threads sample_threads (run_queue p) \<and> off_threads sample_threads (run_queue p + 4)"
proof -
  have "unat (x + i) > 0x80400000" if "x \<in> sample_threads" "i \<in> thread_offs" for x i
    using that by (auto simp: sample_threads_def thread_offs_def os_offsets)
  moreover have "unat (run_queue p) < 0x80400000" "unat (run_queue p + 4) < 0x80400000"
    using assms by (simp_all add: unat_run_queue unat_run_queue4)
  ultimately show ?thesis
    unfolding off_threads_def by (metis less_asym)
qed

lemma sample_run_empty:
  assumes "p < 32" "p \<noteq> 5"
  shows "rd32 sample_run (run_queue p) = 0 \<and> rd32 sample_run (run_queue p + 4) = 0"
proof -
  have "c \<notin> fst ` set sample_run_cells" if "c = run_queue p \<or> c = run_queue p + 4" for c
    using that assms unat_run_queue [of p] unat_run_queue4 [of p]
    by (auto simp: sample_run_cells_def word_unat_eq_iff)
  then show ?thesis using ram_run_queue [OF assms(1)] by (simp add: sample_run_rd upds_other)
qed

lemma sample_run_ok: "runq_ok sample_run sample_threads sample_queues"
proof -
  have R: "ram sample_run c = ram boot_os c" for c by (simp add: sample_run_def)
  have q5: "run_queue 5 = 0x803477d8" by (simp add: run_queue_def os_addrs)
  have "dll (rd32 sample_run) kThreadNextOffset kThreadPrevOffset (run_queue p) (run_queue p + 4) (sample_queues p)"
    if "p < 32" for p
    using sample_run_empty [OF that]
    by (cases "p = 5") (simp_all add: sample_queues_def dll_empty dll_def first0_def last0_def q5
        os_offsets sample_run_rd ram_eval sample_run_cells_def)
  moreover have "rd32 sample_run Pending = 0x04000000"
    by (simp add: sample_run_rd ram_eval sample_run_cells_def os_addrs)
  moreover have "bit (0x04000000 :: u32) (31 - p) \<longleftrightarrow> p = 5" if "p < 32" for p
  proof -
    have "(0x04000000 :: u32) = 2 ^ 26" by simp
    then have "bit (0x04000000 :: u32) (31 - p) \<longleftrightarrow> 31 - p = 26"
      by (simp only: bit_exp_iff) auto
    then show ?thesis using that by auto
  qed
  moreover have "\<forall>c\<in>sched_globals. ram boot_os c \<and> off_threads sample_threads c"
    by (simp add: sched_globals_def os_addrs ram_eval off_threads_def sample_threads_def thread_offs_def os_offsets)
  moreover have "threads_ram sample_run sample_threads"
    using sample_threads_ok(2) by (simp add: threads_ram_def R)
  ultimately show ?thesis
    using sample_threads_ok(1) ram_run_queue run_queue_off_sample
    by (auto simp: runq_ok_def queue_ok_def R sample_queues_def q5 sample_threads_def os_offsets
        sample_run_rd ram_eval sample_run_cells_def)
qed

end
