(* ===== verification/Scheduler_Laws.thy ===== *)
theory Scheduler_Laws
  imports Run_Queues Os_Scheduler Sample_State
begin

text \<open>
  What the scheduler promises on well-formed queues: where a thread is inserted, what the
  run-queue bitmap says afterwards, which thread \<open>SelectThread\<close> picks and what a wake-up
  does to a queue.  The states of the witnesses are built by storing the cells of a queue
  into the empty memory.
\<close>

section \<open>Sorted insertion\<close>

lemma insert_prio_sorted:
  assumes "sorted (map pr xs)" and "pr x = p"
  shows "sorted (map pr (insert_prio pr p x xs))"
  using assms(1)
proof (induction xs)
  case (Cons y ys)
  show ?case
  proof (cases "pr y \<le> p")
    case True
    have "insert_prio pr p x (y # ys) = y # insert_prio pr p x ys"
      using True by (simp add: insert_prio_def)
    moreover have "\<forall>z \<in> set (insert_prio pr p x ys). pr y \<le> pr z"
      using Cons.prems True assms(2) by (simp add: insert_prio_set)
    ultimately show ?thesis using Cons by simp
  next
    case False
    then have "insert_prio pr p x (y # ys) = x # y # ys"
      by (simp add: insert_prio_def)
    then show ?thesis using Cons.prems False assms(2) by auto
  qed
qed (simp add: insert_prio_def)

lemma insert_prio_fifo:
  assumes "sorted (map pr xs)" and "pr x = p"
  shows "filter (\<lambda>y. pr y = p) (insert_prio pr p x xs) = filter (\<lambda>y. pr y = p) xs @ [x]"
  using assms(1)
proof (induction xs)
  case (Cons y ys)
  show ?case
  proof (cases "pr y \<le> p")
    case True
    then have "insert_prio pr p x (y # ys) = y # insert_prio pr p x ys"
      by (simp add: insert_prio_def)
    then show ?thesis using Cons by simp
  next
    case False
    then have "filter (\<lambda>z. pr z = p) (y # ys) = []"
      using Cons.prems by (auto simp: filter_empty_conv)
    then show ?thesis using False assms(2) by (simp add: insert_prio_def)
  qed
qed (simp add: insert_prio_def assms(2))

lemma insert_prio_remove: "x \<notin> set xs \<Longrightarrow> remove1 x (insert_prio pr p x xs) = xs"
  using set_takeWhileD [of x "\<lambda>y. pr y \<le> p" xs]
  by (auto simp: insert_prio_def remove1_append)

text \<open>Fields that are not links keep their value.\<close>

lemma fields_keep:
  assumes q: "queue_ok s T q xs" and X: "X \<subseteq> T" "x \<in> T"
    and ps: "fst ` set ps \<subseteq> insert (x + kThreadQueueOffset) (link_cells q X)"
    and y: "y \<in> T" "i \<in> thread_offs" "i \<notin> {kThreadQueueOffset, kThreadNextOffset, kThreadPrevOffset}"
  shows "rd32 (writes wr32 s ps) (y + i) = rd32 s (y + i)"
proof -
  have ap: "apart T" and off: "off_threads T q" "off_threads T (q + 4)" and tr: "threads_ram s T"
    using q by (auto simp: queue_ok_def)
  have "y + i \<notin> fst ` set ps"
  proof
    assume "y + i \<in> fst ` set ps"
    with ps consider "y + i = x + kThreadQueueOffset" | "y + i \<in> {q, q + 4}"
      | z where "z \<in> T" "y + i = z + kThreadNextOffset \<or> y + i = z + kThreadPrevOffset"
      using X unfolding link_cells_def by blast
    then show False
    proof cases
      case 1
      then show False using apart_cell [OF ap y(1) X(2) y(2)] y(3) by simp
    next
      case 2
      then show False using off_threadsD [OF off(1) y(1,2)] off_threadsD [OF off(2) y(1,2)] by auto
    next
      case 3
      then show False
        using apart_cell [OF ap y(1) 3(1) y(2)] y(3) by (metis insertCI offs_mem)
    qed
  qed
  moreover have "\<forall>c \<in> fst ` set ps. ram s c"
    using ps cells_ram [OF q order_refl X(1)] tr X(2) by (auto simp: threads_ram_def)
  moreover have "ram s (y + i)" using tr y by (simp add: threads_ram_def)
  ultimately show ?thesis
    using gm.rd_writes [of ps s "y + i"] upds_other [of "y + i" ps] by simp
qed

lemma insert_keeps_prio:
  assumes "queue_ok s T q xs" and "x \<in> T" "x \<notin> set xs" and "y \<in> T"
  shows "prio_of (writes wr32 s (insert_writes s q x p xs)) y = prio_of s y"
proof -
  have "insert x (set xs) \<subseteq> T" using assms(1,2) by (simp add: queue_ok_def)
  from fields_keep [OF assms(1) this assms(2) Insert_field(1) [OF assms(1-3)] assms(4)] show ?thesis
    by (simp add: prio_of_def)
qed

text \<open>C6: \<open>InsertThreadIntoQueueByPriority\<close> on a wait queue that is ordered by priority leaves
  it ordered, adds the thread and nothing else, and queues it behind the threads of its own
  priority (first come, first served within a priority).\<close>

theorem insert_sorted_fifo:
  assumes "queue_ok s T q xs" and "x \<in> T" and "x \<notin> set xs" and "\<not> is_run_queue q"
    and "sorted (map (prio_of s) xs)"
  shows "\<exists>t ys. InsertThreadIntoQueueByPriority q x (prio_of s x) s = (Ok (), t) \<and>
    queue_ok t T q ys \<and> sorted (map (prio_of t) ys) \<and> remove1 x ys = xs \<and>
    filter (\<lambda>y. prio_of t y = prio_of t x) ys = filter (\<lambda>y. prio_of s y = prio_of s x) xs @ [x]"
proof -
  let ?p = "prio_of s x"
  let ?t = "writes wr32 s (insert_writes s q x ?p xs)" and ?ys = "insert_prio (prio_of s) ?p x xs"
  note I = Insert_run [OF assms(1-3), of ?p]
  have pr: "prio_of ?t y = prio_of s y" if "y \<in> T" for y
    using insert_keeps_prio [OF assms(1-3) that] .
  have sub: "set ?ys \<subseteq> T" using assms(1,2) by (auto simp: insert_prio_set queue_ok_def)
  have "map (prio_of ?t) ?ys = map (prio_of s) ?ys"
    using sub pr by (intro map_cong) auto
  then have "sorted (map (prio_of ?t) ?ys)"
    using insert_prio_sorted [OF assms(5) refl] by (simp only:)
  moreover have "filter (\<lambda>y. prio_of ?t y = prio_of ?t x) ?ys = filter (\<lambda>y. prio_of s y = ?p) ?ys"
    using sub pr assms(2) by (intro filter_cong) auto
  ultimately show ?thesis
    using I(1,2) assms(4) insert_prio_fifo [OF assms(5) refl] insert_prio_remove [OF assms(3)]
    by (intro exI [of _ ?t] exI [of _ ?ys]) (simp add: mark_pending_def run_simps)
qed

theorem insert_sorted_fifo_witness:
  "\<exists>t ys. InsertThreadIntoQueueByPriority 0x80500000 0x80402000 5 sample_wait = (Ok (), t) \<and>
    remove1 0x80402000 ys = [0x80400000, 0x80401000] \<and>
    queue_ok t sample_threads 0x80500000 ys \<and>
    filter (\<lambda>y. prio_of t y = prio_of t 0x80402000) ys = [0x80400000, 0x80402000]"
proof -
  have "\<not> is_run_queue 0x80500000" by (simp add: is_run_queue_def os_addrs)
  from insert_sorted_fifo [OF sample_wait_ok _ _ this, of "0x80402000"]
  show ?thesis by (simp add: sample_prio) (auto simp: sample_threads_def)
qed

section \<open>The run queues\<close>

text \<open>C7: the operations on the run queues keep every run queue a well-linked list and bit \<open>31 - p\<close> of the pending
  word the fact that queue \<open>p\<close> is not empty.  An insertion by priority puts the thread behind the threads that may run
  before it; the scheduler's own queueing (\<open>LinkThreadOnRunQueue\<close> followed by \<open>MarkRunQueuePending\<close>) puts it behind
  all others; a removal takes exactly the given thread out and clears the pending bit of a queue that it emptied.  The
  other queues are untouched.\<close>

theorem run_queue_operations:
  assumes "runq_ok s T Q" and "p < 32"
  shows "(x \<in> T \<and> (\<forall>r<32. x \<notin> set (Q r)) \<longrightarrow>
      (\<exists>t. InsertThreadIntoQueueByPriority (run_queue p) x pr s = (Ok (), t) \<and>
        runq_ok t T (Q(p := insert_prio (prio_of s) pr x (Q p)))) \<and>
      (\<exists>t. thenP (LinkThreadOnRunQueue x (int p)) (MarkRunQueuePending (int p)) s = (Ok (), t) \<and>
        runq_ok t T (Q(p := Q p @ [x])))) \<and>
    (x \<in> set (Q p) \<longrightarrow>
      (\<exists>t. RemoveThreadFromQueue x s = (Ok (), t) \<and> runq_ok t T (Q(p := remove1 x (Q p)))))"
  using Insert_runq [OF assms] Append_runq [OF assms] Remove_runq [OF assms] by blast

theorem run_queue_operations_witness:
  "(\<exists>t. InsertThreadIntoQueueByPriority (run_queue 5) 0x80402000 4 sample_run = (Ok (), t) \<and>
      runq_ok t sample_threads (sample_queues(5 := [0x80402000, 0x80400000, 0x80401000]))) \<and>
   (\<exists>t. thenP (LinkThreadOnRunQueue 0x80402000 3) (MarkRunQueuePending 3) sample_run = (Ok (), t) \<and>
      runq_ok t sample_threads (sample_queues(3 := [0x80402000]))) \<and>
   (\<exists>t. RemoveThreadFromQueue 0x80401000 sample_run = (Ok (), t) \<and>
      runq_ok t sample_threads (sample_queues(5 := [0x80400000])))"
proof -
  have "insert_prio (prio_of sample_run) 4 0x80402000 (sample_queues 5) = [0x80402000, 0x80400000, 0x80401000]"
    by (simp add: insert_prio_def sample_queues_def prio_of_def os_offsets sample_run_rd ram_eval
        sample_run_cells_def to_i32_def)
  with run_queue_operations [OF sample_run_ok, of 5 "0x80402000" 4] run_queue_operations [OF sample_run_ok, of 3 "0x80402000"]
    run_queue_operations [OF sample_run_ok, of 5 "0x80401000"] show ?thesis
    by (simp add: sample_queues_def sample_threads_def)
qed

section \<open>The pending word\<close>

lemma clz_from_spec:
  "clz_from k w \<le> k \<and>
   (\<forall>j<clz_from k w. \<not> bit w (k - 1 - j)) \<and> (clz_from k w < k \<longrightarrow> bit w (k - 1 - clz_from k w))"
proof (induction k)
  case (Suc k)
  show ?case
  proof (cases "bit w k")
    case False
    have "\<not> bit w (k - j)" if "j < Suc (clz_from k w)" for j
    proof (cases j)
      case (Suc i)
      then show ?thesis using Suc.IH that by simp
    qed (use False in simp)
    then show ?thesis using Suc.IH False by auto
  qed auto
qed simp

text \<open>\<open>PPC_Cntlzw\<close> of the pending word is the first non-empty queue.\<close>

lemma Cntlzw_pending:
  assumes "\<forall>p<32. bit w (31 - p) \<longleftrightarrow> Q p \<noteq> []"
  shows "w = 0 \<longleftrightarrow> (\<forall>p<32. Q p = [])"
    and "w \<noteq> 0 \<Longrightarrow> PPC_Cntlzw w < 32 \<and> Q (PPC_Cntlzw w) \<noteq> [] \<and> (\<forall>r<PPC_Cntlzw w. Q r = [])"
proof -
  have "w = 0 \<longleftrightarrow> (\<forall>n<32. \<not> bit w n)"
    by (auto intro!: bit_word_eqI)
  also have "\<dots> \<longleftrightarrow> (\<forall>p<32. \<not> bit w (31 - p))"
  proof (rule iffI)
    assume H: "\<forall>p<32. \<not> bit w (31 - p)"
    show "\<forall>n<32. \<not> bit w n"
    proof (intro allI impI)
      fix n :: nat assume "n < 32"
      then have "31 - n < 32" "31 - (31 - n) = n" by simp_all
      then show "\<not> bit w n" using H by metis
    qed
  qed simp
  finally show z: "w = 0 \<longleftrightarrow> (\<forall>p<32. Q p = [])" using assms by auto
  assume "w \<noteq> 0"
  have C: "PPC_Cntlzw w \<le> 32" "\<And>j. j < PPC_Cntlzw w \<Longrightarrow> \<not> bit w (31 - j)"
      "PPC_Cntlzw w < 32 \<Longrightarrow> bit w (31 - PPC_Cntlzw w)"
    using clz_from_spec [of 32 w] by (auto simp: PPC_Cntlzw_def)
  have "PPC_Cntlzw w < 32"
  proof (rule ccontr)
    assume "\<not> PPC_Cntlzw w < 32"
    then have "\<forall>p<32. Q p = []" using C(1,2) assms by auto
    then show False using z \<open>w \<noteq> 0\<close> by simp
  qed
  then show "PPC_Cntlzw w < 32 \<and> Q (PPC_Cntlzw w) \<noteq> [] \<and> (\<forall>r<PPC_Cntlzw w. Q r = [])"
    using C assms by auto
qed

section \<open>The search for a runnable thread\<close>

definition dead :: "os_state \<Rightarrow> u32 \<Rightarrow> bool" where
  "dead s x \<longleftrightarrow> ThreadStateIsTerminated (rd16 s (x + kThreadStateOffset)) \<or>
     (case s_fibers s x of Some gf \<Rightarrow> gf_terminated gf | None \<Rightarrow> False)"

lemma dead_keep:
  "runq_ok s T Q \<Longrightarrow> links_only s T t \<Longrightarrow> x \<in> T \<Longrightarrow> dead t x = dead s x"
  using state_keep [of s T Q t x] links_only_os [of s T t] by (simp add: dead_def)

lemma ram_Cpu [simp]: "ram (s\<lparr>Cpu := c\<rparr>) a = ram s a"
  by (rule ram_congI) simp_all

lemma rd_Cpu [simp]: "rd32 (s\<lparr>Cpu := c\<rparr>) = rd32 s" "rd16 (s\<lparr>Cpu := c\<rparr>) = rd16 s"
  by (rule ext, simp add: rd32_def rd16_def bytes_at_def)+

lemma runq_ok_Cpu [simp]: "runq_ok (s\<lparr>Cpu := c\<rparr>) T Q = runq_ok s T Q"
  by (simp add: runq_ok_def queue_ok_def threads_ram_def)

lemma find_step_run:
  assumes inv: "runq_ok s T Q" and w: "w = rd32 s Pending" "w \<noteq> 0"
  defines "p \<equiv> PPC_Cntlzw w"
  shows "\<not> dead s (hd (Q p)) \<Longrightarrow> find_step w s = (Ok (Inr (Some (p, hd (Q p), w))), s)"
    and "dead s (hd (Q p)) \<Longrightarrow> RemoveThreadFromQueue (hd (Q p)) s = (Ok (), t) \<Longrightarrow> ram t Pending \<Longrightarrow>
      find_step w s = (if rd32 t Pending = 0
        then (Ok (Inr None), t\<lparr>Cpu := (Cpu t)\<lparr>gpr := (gpr (Cpu t))(3 := 0)\<rparr>\<rparr>)
        else (Ok (Inl (rd32 t Pending)), t))"
proof -
  have p: "p < 32" "Q p \<noteq> []"
    using Cntlzw_pending(2) [of w Q] w inv by (simp_all add: p_def runq_ok_def)
  note F = runq_facts [OF inv p(1)]
  let ?x = "hd (Q p)"
  have xT: "?x \<in> T" using F(6) p(2) hd_in_set by blast
  then have x0: "?x \<noteq> 0" using F(4) by (auto simp: apart_def)
  have head: "rd32 s (run_queue p) = ?x" "ram s (run_queue p)"
    using F(1) p(2) by (simp_all add: queue_ok_def dll_def first0_def)
  have st: "ram16 s (?x + kThreadStateOffset)"
    using F(5) xT unfolding threads_ram_def ram16_def by (metis offs_mem(8))
  have q: "kThreadQueueArrayAddr + word_of_nat p * 8 = run_queue p" by (simp add: run_queue_def)
  show "\<not> dead s ?x \<Longrightarrow> find_step w s = (Ok (Inr (Some (p, ?x, w))), s)"
    using head st x0
    by (simp add: find_step_def Let_def p_def [symmetric] q run_simps dead_def IsTerminated_def)
  show "dead s ?x \<Longrightarrow> RemoveThreadFromQueue ?x s = (Ok (), t) \<Longrightarrow> ram t Pending \<Longrightarrow>
      find_step w s = (if rd32 t Pending = 0
        then (Ok (Inr None), t\<lparr>Cpu := (Cpu t)\<lparr>gpr := (gpr (Cpu t))(3 := 0)\<rparr>\<rparr>)
        else (Ok (Inl (rd32 t Pending)), t))"
    using head st x0
    by (simp add: find_step_def Let_def p_def [symmetric] q run_simps dead_def IsTerminated_def
        give_up_def set_gpr_def)
qed

text \<open>What the search promises: the dead threads in front of the result are gone.\<close>

definition search_ok :: "os_state \<Rightarrow> u32 set \<Rightarrow> (nat \<Rightarrow> u32 list) \<Rightarrow>
    (nat \<times> u32 \<times> u32) option \<Rightarrow> os_state \<Rightarrow> (nat \<Rightarrow> u32 list) \<Rightarrow> bool" where
  "search_ok s T Q r t Q' \<longleftrightarrow> runq_ok t T Q' \<and>
     (\<forall>p<32. \<exists>ds. Q p = ds @ Q' p \<and> (\<forall>x\<in>set ds. dead s x)) \<and>
     (case r of
        None \<Rightarrow> (\<forall>p<32. Q' p = []) \<and> gpr (Cpu t) 3 = 0
      | Some (p, x, m) \<Rightarrow> p < 32 \<and> Q' p \<noteq> [] \<and> x = hd (Q' p) \<and> \<not> dead s x \<and>
          (\<forall>r<p. Q' r = []) \<and> m = rd32 t Pending)"

lemma search_okI:
  "runq_ok t T Q' \<Longrightarrow> (\<And>p. p < 32 \<Longrightarrow> \<exists>ds. Q p = ds @ Q' p \<and> (\<forall>x\<in>set ds. dead s x)) \<Longrightarrow>
   \<forall>p<32. Q' p = [] \<Longrightarrow> gpr (Cpu t) 3 = 0 \<Longrightarrow> search_ok s T Q None t Q'"
  by (simp add: search_ok_def)

lemma search_ok_chain:
  assumes S: "search_ok t T Q1 r u Q'" and inv: "runq_ok t T Q1"
    and rem: "\<And>p. \<exists>ds. Q p = ds @ Q1 p \<and> (\<forall>x\<in>set ds. dead s x)"
    and keep: "\<And>y. y \<in> T \<Longrightarrow> dead t y = dead s y"
  shows "search_ok s T Q r u Q'"
proof -
  have sub: "set (Q1 p) \<subseteq> T" if "p < 32" for p using runq_facts(6) [OF inv that] .
  have *: "\<exists>ds. Q p = ds @ Q' p \<and> (\<forall>x\<in>set ds. dead s x)" "set (Q' p) \<subseteq> T" if p: "p < 32" for p
  proof -
    obtain ds where ds: "Q p = ds @ Q1 p" "\<forall>x\<in>set ds. dead s x" using rem by blast
    obtain es where es: "Q1 p = es @ Q' p" "\<forall>x\<in>set es. dead t x"
      using S p by (auto simp: search_ok_def)
    have "\<forall>x\<in>set es. dead s x" using es sub [OF p] keep by (metis Un_iff set_append subsetD)
    then show "\<exists>ds. Q p = ds @ Q' p \<and> (\<forall>x\<in>set ds. dead s x)"
      using ds es by (intro exI [of _ "ds @ es"]) auto
    show "set (Q' p) \<subseteq> T" using es sub [OF p] by auto
  qed
  have "\<not> dead s (hd (Q' p))" if "p < 32" "Q' p \<noteq> []" "\<not> dead t (hd (Q' p))" for p
    using *(2) [OF that(1)] that(2,3) keep hd_in_set by blast
  then show ?thesis
    using S *(1) by (auto simp: search_ok_def split: option.splits)
qed

lemma runq_card_drop:
  assumes "runq_ok s T Q" and "p < 32" and "Q p = x # xs"
  shows "card (\<Union>r<32. set ((Q(p := xs)) r)) < card (\<Union>r<32. set (Q r))"
proof (rule psubset_card_mono)
  note F = runq_facts [OF assms(1)]
  have x: "x \<in> set (Q p)" "x \<notin> set xs" using assms(3) F(7) [OF assms(2)] by auto
  have "x \<notin> set (Q r)" if "r < 32" "r \<noteq> p" for r
    using F(10) [OF assms(2) x(1) that] .
  then have "x \<notin> (\<Union>r<32. set ((Q(p := xs)) r))" using x(2) by (auto split: if_splits)
  moreover have "x \<in> (\<Union>r<32. set (Q r))" using x(1) assms(2) by auto
  moreover have "(\<Union>r<32. set ((Q(p := xs)) r)) \<subseteq> (\<Union>r<32. set (Q r))"
    using assms(2,3) by (force split: if_splits)
  ultimately show "(\<Union>r<32. set ((Q(p := xs)) r)) \<subset> (\<Union>r<32. set (Q r))" by blast
qed simp

lemma find_loop:
  assumes "runq_ok s T Q" and "w = rd32 s Pending" and "w \<noteq> 0"
    and "card (\<Union>r<32. set (Q r)) \<le> n" and "0 < n"
  shows "\<exists>r t Q'. loopP n find_step w s = (Ok r, t) \<and> search_ok s T Q r t Q'"
  using assms
proof (induction n arbitrary: s Q w)
  case (Suc n)
  let ?p = "PPC_Cntlzw w"
  have bits: "\<forall>p<32. bit w (31 - p) \<longleftrightarrow> Q p \<noteq> []"
    using Suc.prems(1,2) by (simp add: runq_ok_def)
  note P = Cntlzw_pending(2) [OF bits Suc.prems(3)]
  note S = find_step_run [OF Suc.prems(1-3)]
  obtain x xs where Qp: "Q ?p = x # xs" using P by (cases "Q ?p") auto
  have p: "?p < 32" and before: "\<forall>r<?p. Q r = []" using P by auto
  note F = runq_facts [OF Suc.prems(1) p]
  show ?case
  proof (cases "dead s x")
    case False
    then have "loopP (Suc n) find_step w s = (Ok (Some (?p, x, w)), s)"
      using S(1) Qp by (simp add: run_simps)
    moreover have "search_ok s T Q (Some (?p, x, w)) s Q"
      using Suc.prems(1,2) p before Qp False by (simp add: search_ok_def)
    ultimately show ?thesis by blast
  next
    case True
    let ?Q = "Q(?p := xs)"
    obtain t where t: "RemoveThreadFromQueue x s = (Ok (), t)" "runq_ok t T ?Q" "links_only s T t"
      using Remove_runq [OF Suc.prems(1) p, of x] Qp by auto
    have rt: "ram t Pending" using runq_facts(2) [OF t(2), of 0] by simp
    have step: "find_step w s = (if rd32 t Pending = 0
        then (Ok (Inr None), t\<lparr>Cpu := (Cpu t)\<lparr>gpr := (gpr (Cpu t))(3 := 0)\<rparr>\<rparr>)
        else (Ok (Inl (rd32 t Pending)), t))"
      using S(2) [of t] True t(1) rt Qp by simp
    have keep: "\<And>y. y \<in> T \<Longrightarrow> dead t y = dead s y" using dead_keep [OF Suc.prems(1) t(3)] .
    have removed: "\<exists>ds. Q q = ds @ ?Q q \<and> (\<forall>y\<in>set ds. dead s y)" for q
      using Qp True by (cases "q = ?p") (auto intro: exI [of _ "[x]"])
    have tbits: "\<forall>p<32. bit (rd32 t Pending) (31 - p) \<longleftrightarrow> ?Q p \<noteq> []"
      using t(2) by (simp add: runq_ok_def)
    show ?thesis
    proof (cases "rd32 t Pending = 0")
      case True
      then have "\<forall>p<32. ?Q p = []" using Cntlzw_pending(1) [OF tbits] by blast
      then have "search_ok s T Q None (t\<lparr>Cpu := (Cpu t)\<lparr>gpr := (gpr (Cpu t))(3 := 0)\<rparr>\<rparr>) ?Q"
        using t(2) by (intro search_okI removed) simp_all
      then show ?thesis using step True by (auto simp: run_simps)
    next
      case False
      have "card (\<Union>r<32. set (?Q r)) \<le> n"
        using runq_card_drop [OF Suc.prems(1) p Qp] Suc.prems(4) by simp
      moreover have "0 < card (\<Union>r<32. set (?Q r))"
        using Cntlzw_pending(2) [OF tbits False] by (auto simp: card_gt_0_iff simp del: fun_upd_apply)
      ultimately have "0 < n" "card (\<Union>r<32. set (?Q r)) \<le> n" by simp_all
      from Suc.IH [OF t(2) refl False this(2,1)]
      obtain r u Q' where IH: "loopP n find_step (rd32 t Pending) t = (Ok r, u)" "search_ok t T ?Q r u Q'" by blast
      have "search_ok s T Q r u Q'"
        by (rule search_ok_chain [OF IH(2) t(2) removed keep])
      then show ?thesis using IH(1) step False by (auto simp: run_simps)
    qed
  qed
qed simp

text \<open>C8: \<open>SelectThread\<close> picks the first live thread of the highest non-empty run queue.  On
  well-formed run queues the search returns, removes from the queues only threads that are
  dead (state 0 or moribund, or a terminated fiber), keeps the queues and the pending word in
  step, and answers with the head of the first queue that is left non-empty, or with nothing
  when every queue is empty.\<close>

theorem find_runnable_highest:
  assumes "runq_ok s T Q"
  shows "\<exists>r t Q'. find_runnable s = (Ok r, t) \<and> search_ok s T Q r t Q'"
proof -
  have r: "ram s Pending" using runq_facts(2) [OF assms, of 0] by simp
  have bits: "\<forall>p<32. bit (rd32 s Pending) (31 - p) \<longleftrightarrow> Q p \<noteq> []"
    using assms by (simp add: runq_ok_def)
  show ?thesis
  proof (cases "rd32 s Pending = 0")
    case True
    then have "find_runnable s = (Ok None, s\<lparr>Cpu := (Cpu s)\<lparr>gpr := (gpr (Cpu s))(3 := 0)\<rparr>\<rparr>)"
      using r by (simp add: find_runnable_def run_simps give_up_def set_gpr_def)
    moreover have "\<forall>p<32. Q p = []" using Cntlzw_pending(1) [OF bits] True by blast
    ultimately show ?thesis
      using search_okI [of "s\<lparr>Cpu := (Cpu s)\<lparr>gpr := (gpr (Cpu s))(3 := 0)\<rparr>\<rparr>" T Q Q s] assms by auto
  next
    case False
    have "0 \<notin> (\<Union>r<32. set (Q r))"
      using runq_facts(4) [OF assms, of 0] runq_facts(6) [OF assms] by (fastforce simp: apart_def)
    then have "card (\<Union>r<32. set (Q r)) \<le> card (UNIV - {0 :: u32})"
      by (intro card_mono) auto
    also have "\<dots> \<le> kWalkFuel" by (simp add: card_word kWalkFuel_def)
    finally have "card (\<Union>r<32. set (Q r)) \<le> kWalkFuel" .
    from find_loop [OF assms refl False this] show ?thesis
      using r False by (simp add: find_runnable_def run_simps kWalkFuel_def)
  qed
qed

lemma sample_dead: "dead sample_run 0x80400000" "\<not> dead sample_run 0x80401000"
proof -
  have "s_fibers sample_run = (\<lambda>_. None)" by (simp add: sample_run_def)
  moreover have "ram sample_run c = ram boot_os c" for c by (simp add: sample_run_def)
  then have "rd16 sample_run (0x80400000 + kThreadStateOffset) = 8" "rd16 sample_run (0x80401000 + kThreadStateOffset) = 1"
    by (simp_all add: rd16_high os_offsets sample_run_rd ram_eval sample_run_cells_def)
  ultimately show "dead sample_run 0x80400000" "\<not> dead sample_run 0x80401000"
    by (simp_all add: dead_def ThreadStateIsTerminated_def kThreadStateMoribund_def)
qed

theorem find_runnable_highest_witness:
  "\<exists>m t. find_runnable sample_run = (Ok (Some (5, 0x80401000, m)), t)"
proof -
  obtain r t Q' where f: "find_runnable sample_run = (Ok r, t)"
    and S: "search_ok sample_run sample_threads sample_queues r t Q'"
    using find_runnable_highest [OF sample_run_ok] by blast
  have Q: "\<exists>ds. sample_queues p = ds @ Q' p \<and> (\<forall>x\<in>set ds. dead sample_run x)" if "p < 32" for p
    using S that by (simp add: search_ok_def)
  have e: "Q' p = []" if "p < 32" "p \<noteq> 5" for p using Q [OF that(1)] that(2) by (simp add: sample_queues_def)
  have "Q' 5 = [0x80400000, 0x80401000] \<or> Q' 5 = [0x80401000]"
    using Q [of 5] sample_dead by (auto simp: sample_queues_def Cons_eq_append_conv)
  then have h: "hd (Q' 5) = 0x80401000 \<or> dead sample_run (hd (Q' 5))" "Q' 5 \<noteq> []"
    using sample_dead by auto
  show ?thesis
  proof (cases r)
    case None
    then show ?thesis using S h(2) by (simp add: search_ok_def)
  next
    case (Some a)
    obtain p x m where a: "a = (p, x, m)" by (cases a)
    have "p < 32" "Q' p \<noteq> []" "x = hd (Q' p)" "\<not> dead sample_run x"
      using S unfolding search_ok_def Some a by auto
    moreover from this have "p = 5" using e by blast
    ultimately show ?thesis using f h(1) by (auto simp: Some a)
  qed
qed

end
