(* ===== verification/Os_Invariants.thy ===== *)
theory Os_Invariants
  imports Timer_Laws
begin

text \<open>
  An invariant of the host side of the thread system that every handler keeps: the fiber
  table never names a host context that was destroyed, no two threads share one (but for the
  scheduler's), what waits for deletion is alive and in no table entry, and the sleep-timer
  table has at most one entry per thread.  \<open>keeps\<close> and its rules carry the invariant through
  the bodies; the code outside the model is assumed to keep it (\<open>env_ok\<close>).
\<close>

definition entry_ok :: "os_state \<Rightarrow> u32 \<Rightarrow> guest_fiber \<Rightarrow> bool" where
  "entry_ok s a gf \<longleftrightarrow> (case gf_fiber gf of
     None \<Rightarrow> True
   | Some f \<Rightarrow> f \<in> LiveFibers s \<and> f \<notin> set (s_fibersPendingDelete s) \<and>
       (gf_isSchedulerFiber gf \<longleftrightarrow> f = s_schedulerFiber s) \<and>
       (\<forall>b gf'. s_fibers s b = Some gf' \<and> gf_fiber gf' = Some f \<and> b \<noteq> a \<longrightarrow> f = s_schedulerFiber s))"

definition fibers_ok :: "os_state \<Rightarrow> bool" where
  "fibers_ok s \<longleftrightarrow> (\<forall>a gf. s_fibers s a = Some gf \<longrightarrow> entry_ok s a gf) \<and>
     s_schedulerFiber s \<in> LiveFibers s \<and> s_schedulerFiber s \<notin> set (s_fibersPendingDelete s) \<and>
     set (s_fibersPendingDelete s) \<subseteq> LiveFibers s \<and> distinct (s_fibersPendingDelete s)"

definition os_inv :: "os_state \<Rightarrow> bool" where
  "os_inv s \<longleftrightarrow> fibers_ok s \<and> distinct (map st_threadPtr (gSleepTimers s))"

text \<open>What the code outside the model is assumed to respect.\<close>

definition env_ok :: "env \<Rightarrow> bool" where
  "env_ok env \<longleftrightarrow> (\<forall>a. keeps os_inv (env_call env a)) \<and> (\<forall>f. keeps os_inv (env_switch env f)) \<and>
     keeps os_inv (env_audio_poll env) \<and> keeps os_inv (env_idle_poll env) \<and> keeps os_inv (env_idle_wait env) \<and>
     keeps os_inv (env_completions env) \<and> (\<forall>n. keeps os_inv (env_nand_callbacks env n)) \<and>
     (\<forall>s f. env_new_fiber env s = Some f \<longrightarrow> f \<notin> LiveFibers s)"

section \<open>Routines that leave the host side alone\<close>

definition os_view :: "os_state \<Rightarrow> (u32 \<Rightarrow> guest_fiber option) \<times> host_fiber list \<times> host_fiber \<times> host_fiber set \<times> sleep_timer list" where
  "os_view s = (s_fibers s, s_fibersPendingDelete s, s_schedulerFiber s, LiveFibers s, gSleepTimers s)"

lemma os_view_inv: "os_view t = os_view s \<Longrightarrow> os_inv t = os_inv s"
proof -
  assume "os_view t = os_view s"
  then have e: "s_fibers t = s_fibers s" "s_fibersPendingDelete t = s_fibersPendingDelete s"
      "s_schedulerFiber t = s_schedulerFiber s" "LiveFibers t = LiveFibers s" "gSleepTimers t = gSleepTimers s"
    by (simp_all add: os_view_def)
  show ?thesis unfolding os_inv_def fibers_ok_def entry_ok_def e by (rule refl)
qed

definition guest_only :: "(os_state, 'a) prog \<Rightarrow> bool" where
  "guest_only m \<longleftrightarrow> (\<forall>s. os_view (snd (m s)) = os_view s)"

named_theorems guest_intros "routines that touch guest state only"

lemma guest_keeps: "guest_only m \<Longrightarrow> keeps os_inv m"
  unfolding guest_only_def keeps_def using os_view_inv by blast

lemma guest_basic [guest_intros]: "guest_only (returnP x)" "guest_only (throwP e)" "guest_only (getsP g)"
  by (simp_all add: guest_only_def run_simps)

lemma guest_modify: "(\<And>s. os_view (f s) = os_view s) \<Longrightarrow> guest_only (modifyP f)"
  by (simp add: guest_only_def run_simps)

lemma guest_bind [guest_intros]:
  assumes "guest_only m" and "\<And>x. guest_only (f x)"
  shows "guest_only (bindP m f)"
  unfolding guest_only_def
proof
  fix s
  obtain r t where m: "m s = (r, t)" by (cases "m s")
  have "os_view t = os_view s" using assms(1) m unfolding guest_only_def by (metis snd_conv)
  then show "os_view (snd (bindP m f s)) = os_view s"
    using m assms(2) by (cases r) (simp_all add: bindP_def guest_only_def)
qed

lemma guest_then [guest_intros]: "guest_only m \<Longrightarrow> guest_only n \<Longrightarrow> guest_only (thenP m n)"
  unfolding thenP_def by (rule guest_bind)

lemma guest_if [guest_intros]: "(b \<Longrightarrow> guest_only m) \<Longrightarrow> (\<not> b \<Longrightarrow> guest_only n) \<Longrightarrow> guest_only (if b then m else n)"
  by simp

lemma guest_materialize: "guest_only (materialize a n ds)"
  unfolding guest_only_def
proof
  fix s show "os_view (snd (materialize a n ds s)) = os_view s"
    by (induction ds arbitrary: s) (simp_all add: Let_def os_view_def split: prod.split)
qed

lemma guest_Resolve [guest_intros]: "guest_only (ResolveDeferredReads a n)"
proof -
  have "os_view (snd (materialize a n ds (s\<lparr>DeferredReads := d, DeferredReadCoveredPages := c\<rparr>))) = os_view s" for ds s d c
    using guest_materialize [of a n ds] by (simp add: guest_only_def os_view_def)
  then show ?thesis by (simp add: guest_only_def ResolveDeferredReads_def Let_def)
qed

lemma guest_pointer [guest_intros]: "guest_only (GetPointer a n)"
  by (simp add: guest_only_def GetPointer_def split: option.split)

lemma guest_ReadChecked [guest_intros]: "guest_only (ReadChecked a n)"
  unfolding ReadChecked_def ReadScalar_def by (intro guest_intros)

lemma guest_put: "os_view (put_bytes p bs s) = os_view s"
  by (simp add: os_view_def put_bytes_def)

lemma guest_Handle [guest_intros]: "guest_only (HandleExecutableWrite a n)"
  by (simp add: guest_only_def HandleExecutableWrite_def split: option.split)

lemma guest_WriteScalar [guest_intros]: "guest_only (WriteScalar a bs)"
  unfolding WriteScalar_def by (intro guest_intros guest_modify guest_put)

lemma guest_fifo [guest_intros]: "guest_only (GX_HLE_FIFO_Write n v)"
  unfolding GX_HLE_FIFO_Write_def by (intro guest_modify) (simp add: os_view_def)

lemma guest_WriteChecked [guest_intros]: "guest_only fifo \<Longrightarrow> guest_only (WriteChecked a fifo bs)"
  unfolding WriteChecked_def by (intro guest_intros)

lemma guest_memory [guest_intros]:
  "guest_only (Read16 a)" "guest_only (Read32 a)" "guest_only (Write16 a h)" "guest_only (Write32 a v)"
  unfolding Read16_def Read32_def Write16_def Write32_def by (intro guest_intros)+

lemma guest_cpu [guest_intros]: "guest_only (get_gpr i)" "guest_only (set_gpr i v)" "guest_only (upd_cpu f)"
  unfolding get_gpr_def set_gpr_def upd_cpu_def
  by (intro guest_intros guest_modify; simp add: os_view_def)+

lemma guest_flag [guest_intros]: "guest_only (UpdateCurrentContextInterruptFlag b)"
proof -
  have "os_view (snd (TryWriteGuestScalar a bs s)) = os_view s" for a bs s
    by (simp add: TryWriteGuestScalar_def Let_def guest_put split: option.split)
  then have "os_view (snd (bindP (TryWriteGuestScalar a bs) (\<lambda>_. returnP ()) s)) = os_view s" for a bs s
    using guest_bind [of "TryWriteGuestScalar a bs" "\<lambda>_. returnP ()"] by (simp add: guest_only_def guest_basic run_simps)
  then show ?thesis
    by (simp add: guest_only_def UpdateCurrentContextInterruptFlag_def Let_def split: option.split)
qed

lemma guest_interrupts [guest_intros]:
  "guest_only OS__DisableInterrupts" "guest_only (OS__RestoreInterrupts l)" "guest_only OS__EnableInterrupts"
proof -
  have "guest_only (exchange_interrupts b)" for b
    by (simp add: guest_only_def exchange_interrupts_def os_view_def)
  then show "guest_only OS__DisableInterrupts" "guest_only (OS__RestoreInterrupts l)" "guest_only OS__EnableInterrupts"
    unfolding OS__DisableInterrupts_def OS__RestoreInterrupts_def OS__EnableInterrupts_def
    by (intro guest_intros; simp)+
qed

section \<open>The fiber table\<close>

definition holds :: "os_state \<Rightarrow> u32 \<Rightarrow> host_fiber \<Rightarrow> bool" where
  "holds s a f \<longleftrightarrow> (\<exists>gf. s_fibers s a = Some gf \<and> gf_fiber gf = Some f)"

lemma fibers_ok_alt:
  "fibers_ok s \<longleftrightarrow>
     (\<forall>a f. holds s a f \<longrightarrow> f \<in> LiveFibers s \<and> f \<notin> set (s_fibersPendingDelete s)) \<and>
     (\<forall>a gf f. s_fibers s a = Some gf \<and> gf_fiber gf = Some f \<longrightarrow> gf_isSchedulerFiber gf = (f = s_schedulerFiber s)) \<and>
     (\<forall>a b f. holds s a f \<and> holds s b f \<and> f \<noteq> s_schedulerFiber s \<longrightarrow> a = b) \<and>
     s_schedulerFiber s \<in> LiveFibers s \<and> s_schedulerFiber s \<notin> set (s_fibersPendingDelete s) \<and>
     set (s_fibersPendingDelete s) \<subseteq> LiveFibers s \<and> distinct (s_fibersPendingDelete s)"
proof -
  have e: "(\<forall>gf. s_fibers s a = Some gf \<longrightarrow> entry_ok s a gf) \<longleftrightarrow>
      (\<forall>f. holds s a f \<longrightarrow> f \<in> LiveFibers s \<and> f \<notin> set (s_fibersPendingDelete s)) \<and>
      (\<forall>gf f. s_fibers s a = Some gf \<and> gf_fiber gf = Some f \<longrightarrow> gf_isSchedulerFiber gf = (f = s_schedulerFiber s)) \<and>
      (\<forall>b f. holds s a f \<and> holds s b f \<and> f \<noteq> s_schedulerFiber s \<longrightarrow> a = b)" for a
  proof (cases "s_fibers s a")
    case (Some gf)
    then show ?thesis by (cases "gf_fiber gf") (auto simp: entry_ok_def holds_def)
  qed (simp add: holds_def)
  show ?thesis unfolding fibers_ok_def e by blast
qed

lemma fibers_okD:
  assumes "fibers_ok s"
  shows "holds s a f \<Longrightarrow> f \<in> LiveFibers s" "holds s a f \<Longrightarrow> f \<notin> set (s_fibersPendingDelete s)"
    and "s_fibers s a = Some gf \<Longrightarrow> gf_fiber gf = Some f \<Longrightarrow> gf_isSchedulerFiber gf = (f = s_schedulerFiber s)"
    and "holds s a f \<Longrightarrow> holds s b f \<Longrightarrow> f \<noteq> s_schedulerFiber s \<Longrightarrow> a = b"
    and "s_schedulerFiber s \<in> LiveFibers s \<and> s_schedulerFiber s \<notin> set (s_fibersPendingDelete s) \<and>
     set (s_fibersPendingDelete s) \<subseteq> LiveFibers s \<and> distinct (s_fibersPendingDelete s)"
  using assms unfolding fibers_ok_alt by blast+

lemma holds_put: "holds (put_fiber a gf s) b f \<longleftrightarrow> (if b = a then gf_fiber gf = Some f else holds s b f)"
  by (simp add: holds_def put_fiber_def)

lemma put_sel [simp]: "s_fibers (put_fiber a gf s) = (s_fibers s)(a := Some gf)"
  "s_fibersPendingDelete (put_fiber a gf s) = s_fibersPendingDelete s"
  "s_schedulerFiber (put_fiber a gf s) = s_schedulerFiber s" "LiveFibers (put_fiber a gf s) = LiveFibers s"
  "gSleepTimers (put_fiber a gf s) = gSleepTimers s"
  by (simp_all add: put_fiber_def)

text \<open>An entry is replaced; its new handle is alive, not waiting for deletion and nobody else's.\<close>

lemma fibers_put:
  assumes "fibers_ok s"
    and "\<And>f. gf_fiber gf = Some f \<Longrightarrow> f \<in> LiveFibers s \<and> f \<notin> set (s_fibersPendingDelete s) \<and>
      gf_isSchedulerFiber gf = (f = s_schedulerFiber s) \<and> (f \<noteq> s_schedulerFiber s \<longrightarrow> (\<forall>b. holds s b f \<longrightarrow> b = a))"
  shows "fibers_ok (put_fiber a gf s)"
proof -
  note D = fibers_okD [OF assms(1)]
  have 1: "\<forall>b f. holds (put_fiber a gf s) b f \<longrightarrow> f \<in> LiveFibers s \<and> f \<notin> set (s_fibersPendingDelete s)"
    unfolding holds_put using D(1,2) assms(2) by metis
  have 2: "\<forall>b g f. s_fibers (put_fiber a gf s) b = Some g \<and> gf_fiber g = Some f \<longrightarrow>
      gf_isSchedulerFiber g = (f = s_schedulerFiber s)"
  proof (intro allI impI, elim conjE)
    fix b g f assume h: "s_fibers (put_fiber a gf s) b = Some g" "gf_fiber g = Some f"
    show "gf_isSchedulerFiber g = (f = s_schedulerFiber s)"
    proof (cases "b = a")
      case True
      then have "g = gf" using h by (simp only: put_sel fun_upd_same option.inject)
      then show ?thesis using assms(2) h(2) by blast
    next
      case False
      then have "s_fibers s b = Some g" using h by simp
      then show ?thesis using D(3) h(2) by blast
    qed
  qed
  have 3: "\<forall>b c f. holds (put_fiber a gf s) b f \<and> holds (put_fiber a gf s) c f \<and> f \<noteq> s_schedulerFiber s \<longrightarrow> b = c"
  proof (intro allI impI, elim conjE)
    fix b c f assume h: "holds (put_fiber a gf s) b f" "holds (put_fiber a gf s) c f" "f \<noteq> s_schedulerFiber s"
    show "b = c"
      using h assms(2) [of f] D(4) [of b f c] unfolding holds_put by metis
  qed
  show ?thesis unfolding fibers_ok_alt put_sel(2-4) using D(5) 1 2 3 by blast
qed

lemma fibers_cong:
  assumes "s_fibers t = s_fibers s" and "s_fibersPendingDelete t = s_fibersPendingDelete s"
    and "s_schedulerFiber t = s_schedulerFiber s" and "LiveFibers t = LiveFibers s"
  shows "fibers_ok t = fibers_ok s"
  unfolding fibers_ok_def entry_ok_def assms by (rule refl)

lemma fibers_view: "os_view t = os_view s \<Longrightarrow> fibers_ok s \<Longrightarrow> fibers_ok t"
  using fibers_cong [of t s] by (simp add: os_view_def)

lemma fibers_del: "fibers_ok s \<Longrightarrow> fibers_ok (s\<lparr>s_fibers := (s_fibers s)(a := None)\<rparr>)"
  unfolding fibers_ok_alt holds_def by simp blast

lemma fibers_destroy:
  assumes "fibers_ok s" and "\<And>a. \<not> holds s a f" and "f \<noteq> s_schedulerFiber s"
    and "f \<notin> set (s_fibersPendingDelete s)"
  shows "fibers_ok (HostContext_Destroy f s)"
  using assms unfolding fibers_ok_alt holds_def HostContext_Destroy_def by simp blast

lemma fibers_alloc:
  "fibers_ok s \<Longrightarrow> fibers_ok (s\<lparr>LiveFibers := insert f (LiveFibers s)\<rparr>)"
  unfolding fibers_ok_alt holds_def by simp blast

lemma fibers_pend:
  assumes "fibers_ok s" and "\<And>a. \<not> holds s a f" and "f \<noteq> s_schedulerFiber s"
    and "f \<in> LiveFibers s" and "f \<notin> set (s_fibersPendingDelete s)"
  shows "fibers_ok (s\<lparr>s_fibersPendingDelete := s_fibersPendingDelete s @ [f]\<rparr>)"
  using assms unfolding fibers_ok_alt holds_def by simp blast

text \<open>An entry changes, its handle does not.\<close>

lemma put_same:
  assumes "os_inv s" and "s_fibers s a = Some gf" and "gf_fiber gf' = gf_fiber gf"
    and "gf_isSchedulerFiber gf' = gf_isSchedulerFiber gf"
  shows "os_inv (put_fiber a gf' s)"
proof -
  have i: "fibers_ok s" using assms(1) by (simp add: os_inv_def)
  note A = i [unfolded fibers_ok_alt]
  have h: "holds s a f" if "gf_fiber gf = Some f" for f using that assms(2) by (simp add: holds_def)
  have "fibers_ok (put_fiber a gf' s)"
  proof (rule fibers_put [OF i])
    fix f assume "gf_fiber gf' = Some f"
    then have g: "gf_fiber gf = Some f" using assms(3) by simp
    note hf = h [OF g]
    have "f \<in> LiveFibers s \<and> f \<notin> set (s_fibersPendingDelete s)" using A hf by blast
    moreover have "gf_isSchedulerFiber gf' = (f = s_schedulerFiber s)" unfolding assms(4) using A assms(2) g by blast
    moreover have "f \<noteq> s_schedulerFiber s \<longrightarrow> (\<forall>b. holds s b f \<longrightarrow> b = a)" using A hf by blast
    ultimately show "f \<in> LiveFibers s \<and> f \<notin> set (s_fibersPendingDelete s) \<and>
      gf_isSchedulerFiber gf' = (f = s_schedulerFiber s) \<and> (f \<noteq> s_schedulerFiber s \<longrightarrow> (\<forall>b. holds s b f \<longrightarrow> b = a))"
      by blast
  qed
  then show ?thesis using assms(1) by (simp add: os_inv_def)
qed

lemma current_inv [simp]: "os_inv (s\<lparr>s_currentGuestThread := c\<rparr>) = os_inv s"
  "os_inv (s\<lparr>Cpu := d\<rparr>) = os_inv s"
  by (rule os_view_inv; simp add: os_view_def)+

lemma keeps_Resume [keeps_intros]: "keeps os_inv (ResumeGuestThread a)"
  by (auto simp: keeps_def ResumeGuestThread_def intro: put_same split: option.split)

lemma keeps_Suspend [keeps_intros]: "keeps os_inv (SuspendGuestThread a)"
  by (auto simp: keeps_def SuspendGuestThread_def intro: put_same split: option.split)

lemma keeps_Register [keeps_intros]: "keeps os_inv (RegisterMainThreadAsFiber a)"
  unfolding keeps_def
proof (intro allI impI)
  fix s assume inv: "os_inv s"
  let ?t = "s\<lparr>s_currentGuestThread := a\<rparr>"
  have i: "fibers_ok ?t" by (rule fibers_view [of ?t s]) (use inv in \<open>simp_all add: os_view_def os_inv_def\<close>)
  have "fibers_ok (put_fiber a
      \<lparr>gf_fiber = Some (s_schedulerFiber s), gf_entryPoint = 0, gf_entryArg = 0, gf_cpuContext = Cpu s,
       gf_state = RUNNING, gf_isSchedulerFiber = True, gf_terminated = False\<rparr> ?t)"
    using i [unfolded fibers_ok_alt] by (intro fibers_put [OF i]) simp
  then show "os_inv (snd (RegisterMainThreadAsFiber a s))"
    using inv by (simp add: RegisterMainThreadAsFiber_def os_inv_def)
qed


lemma keeps_Exit [keeps_intros]: "keeps os_inv (ExitGuestThread a st)"
  unfolding keeps_def
proof (intro allI impI)
  fix s assume inv: "os_inv s"
  show "os_inv (snd (ExitGuestThread a st s))"
  proof (cases "s_fibers s a")
    case (Some gf)
    define s1 where "s1 = (if s_currentGuestThread s = a then s\<lparr>s_currentGuestThread := 0\<rparr> else s)"
    let ?g = "gf\<lparr>gf_state := st, gf_terminated := True\<rparr>"
    have inv1: "os_inv s1" and s1: "s_fibers s1 a = Some gf" using inv Some by (simp_all add: s1_def)
    show ?thesis
    proof (cases "gf_fiber gf = None \<or> gf_isSchedulerFiber gf")
      case True
      then have "snd (ExitGuestThread a st s) = put_fiber a ?g s1"
        using Some by (auto simp: ExitGuestThread_def Let_def s1_def split: option.split)
      then show ?thesis using put_same [OF inv1 s1, of ?g] by simp
    next
      case False
      then obtain f where f: "gf_fiber gf = Some f" "\<not> gf_isSchedulerFiber gf" by (cases "gf_fiber gf") simp_all
      let ?u = "put_fiber a (?g\<lparr>gf_fiber := None\<rparr>) s1"
      have i: "fibers_ok s1" using inv1 by (simp add: os_inv_def)
      note D = fibers_okD [OF i]
      have h: "holds s1 a f" using s1 f(1) unfolding holds_def by blast
      have ns: "f \<noteq> s_schedulerFiber s1" using D(3) [OF s1 f(1)] f(2) by simp
      have live: "f \<in> LiveFibers s1" "f \<notin> set (s_fibersPendingDelete s1)" using D(1,2) [OF h] .
      have u: "fibers_ok ?u" by (rule fibers_put [OF i]) simp
      have no: "\<not> holds ?u b f" for b
        using fibers_okD(4) [OF i h, of b] ns by (cases "b = a") (simp add: holds_put, unfold holds_put, simp only: if_False, blast)
      have "snd (ExitGuestThread a st s) =
          (if HostContext_IsCurrent s1 f then ?u\<lparr>s_fibersPendingDelete := s_fibersPendingDelete ?u @ [f]\<rparr>
           else HostContext_Destroy f ?u)"
        using Some f by (simp add: ExitGuestThread_def Let_def put_fiber_def HostContext_Destroy_def s1_def)
      moreover have "fibers_ok (HostContext_Destroy f ?u)"
        by (rule fibers_destroy [OF u no]) (simp_all only: put_sel ns live not_False_eq_True)
      moreover have "fibers_ok (?u\<lparr>s_fibersPendingDelete := s_fibersPendingDelete ?u @ [f]\<rparr>)"
        by (rule fibers_pend [OF u no]) (simp_all only: put_sel ns live not_False_eq_True)
      ultimately show ?thesis using inv1 by (simp add: os_inv_def HostContext_Destroy_def)
    qed
  qed (simp add: ExitGuestThread_def inv)
qed


lemma purge_inv:
  assumes "fibers_ok s" "s_fibersPendingDelete s = []" "distinct fs" "s_schedulerFiber s \<notin> set fs"
    and "\<And>a f. holds s a f \<Longrightarrow> f \<notin> set fs"
  shows "fibers_ok (fold (\<lambda>f t. if \<not> HostContext_IsCurrent t f then HostContext_Destroy f t else t) fs s) \<and>
    gSleepTimers (fold (\<lambda>f t. if \<not> HostContext_IsCurrent t f then HostContext_Destroy f t else t) fs s) = gSleepTimers s"
  using assms
proof (induction fs arbitrary: s)
  case (Cons f fs)
  let ?t = "if \<not> HostContext_IsCurrent s f then HostContext_Destroy f s else s"
  have h: "holds ?t a g = holds s a g" for a g by (simp add: holds_def HostContext_Destroy_def)
  have "fibers_ok (HostContext_Destroy f s)"
    by (rule fibers_destroy) (use Cons.prems in \<open>auto simp del: fold.simps\<close>)
  then have "fibers_ok ?t" using Cons.prems(1) by simp
  moreover have "s_fibersPendingDelete ?t = []" "s_schedulerFiber ?t \<notin> set fs" "gSleepTimers ?t = gSleepTimers s"
    using Cons.prems(2,4) by (simp_all add: HostContext_Destroy_def)
  moreover have "holds ?t a g \<Longrightarrow> g \<notin> set fs" for a g using Cons.prems(5) [of a g] by (simp add: h)
  ultimately show ?case using Cons.IH [of ?t] Cons.prems(3) by simp
qed simp

lemma keeps_Purge [keeps_intros]: "keeps os_inv PurgePendingFibers"
  unfolding PurgePendingFibers_def
proof (rule keeps_modify)
  fix s assume inv: "os_inv s"
  then have i: "fibers_ok s" by (simp add: os_inv_def)
  note D = fibers_okD [OF i]
  let ?t = "s\<lparr>s_fibersPendingDelete := []\<rparr>"
  have h: "holds ?t a f = holds s a f" for a f by (simp add: holds_def)
  have "fibers_ok ?t" using i unfolding fibers_ok_alt h by simp blast
  then show "os_inv (fold (\<lambda>f t. if \<not> HostContext_IsCurrent t f then HostContext_Destroy f t else t)
      (s_fibersPendingDelete s) ?t)"
    using purge_inv [of ?t "s_fibersPendingDelete s"] D(2,5) h inv by (simp add: os_inv_def)
qed

lemma keeps_Create:
  assumes "env_ok env"
  shows "keeps os_inv (CreateGuestFiber env a e r b)"
  unfolding keeps_def
proof (intro allI impI)
  fix s assume inv: "os_inv s"
  then have i: "fibers_ok s" by (simp add: os_inv_def)
  note D = fibers_okD [OF i]
  define s1 where "s1 = (case s_fibers s a of
       None \<Rightarrow> s
     | Some old \<Rightarrow>
         (case gf_fiber old of
            Some f \<Rightarrow> if \<not> gf_isSchedulerFiber old then HostContext_Destroy f s else s
          | None \<Rightarrow> s)\<lparr>s_fibers := (s_fibers s)(a := None)\<rparr>)"
  let ?d = "s\<lparr>s_fibers := (s_fibers s)(a := None)\<rparr>"
  have d: "fibers_ok ?d" by (rule fibers_del [OF i])
  have i1: "fibers_ok s1"
  proof (cases "\<exists>old f. s_fibers s a = Some old \<and> gf_fiber old = Some f \<and> \<not> gf_isSchedulerFiber old")
    case True
    then obtain old f where o: "s_fibers s a = Some old" "gf_fiber old = Some f" "\<not> gf_isSchedulerFiber old" by blast
    then have h: "holds s a f" by (simp add: holds_def)
    have ns: "f \<noteq> s_schedulerFiber s" using D(3) [OF o(1,2)] o(3) by simp
    have "\<not> holds ?d c f" for c using D(4) [OF h, of c] ns by (auto simp: holds_def)
    then have "fibers_ok (HostContext_Destroy f ?d)"
      by (rule fibers_destroy [OF d]) (use ns D(2) [OF h] in simp_all)
    moreover have "os_view s1 = os_view (HostContext_Destroy f ?d)"
      using o by (simp add: s1_def HostContext_Destroy_def os_view_def)
    ultimately show ?thesis by (metis fibers_view)
  next
    case False
    then have "s1 = ?d \<or> s1 = s" by (auto simp: s1_def split: option.split)
    then show ?thesis using i d by auto
  qed
  have t1: "gSleepTimers s1 = gSleepTimers s" by (simp add: s1_def HostContext_Destroy_def split: option.split)
  show "os_inv (snd (CreateGuestFiber env a e r b s))"
  proof (cases "s_initialized s \<and> env_new_fiber env s1 \<noteq> None")
    case True
    then obtain f where f: "env_new_fiber env s1 = Some f" by auto
    then have new: "f \<notin> LiveFibers s1" using assms unfolding env_ok_def by blast
    let ?u = "s1\<lparr>LiveFibers := insert f (LiveFibers s1)\<rparr>"
    note D1 = fibers_okD [OF i1]
    have u: "fibers_ok ?u" by (rule fibers_alloc [OF i1])
    have nh: "\<not> holds ?u c f" for c using D1(1) [of c f] new by (auto simp: holds_def)
    have "fibers_ok (put_fiber a \<lparr>gf_fiber = Some f, gf_entryPoint = e, gf_entryArg = r,
        gf_cpuContext = initial_context e r b, gf_state = WAITING, gf_isSchedulerFiber = False,
        gf_terminated = False\<rparr> ?u)"
      by (rule fibers_put [OF u]) (use nh new D1(5) in auto)
    moreover have "snd (CreateGuestFiber env a e r b s) = put_fiber a \<lparr>gf_fiber = Some f, gf_entryPoint = e,
        gf_entryArg = r, gf_cpuContext = initial_context e r b, gf_state = WAITING, gf_isSchedulerFiber = False,
        gf_terminated = False\<rparr> ?u"
      using True f unfolding CreateGuestFiber_def Let_def s1_def [symmetric] by simp
    ultimately show ?thesis using inv t1 by (simp add: os_inv_def)
  next
    case False
    then have "snd (CreateGuestFiber env a e r b s) = s \<or> snd (CreateGuestFiber env a e r b s) = s1"
      unfolding CreateGuestFiber_def Let_def s1_def [symmetric] by auto
    then show ?thesis using inv i1 t1 by (auto simp: os_inv_def)
  qed
qed

lemma switch_out_inv:
  assumes "os_inv s" and "switch_out a s = Some (f, t)"
  shows "os_inv t"
proof -
  obtain gf where gf: "s_fibers s a = Some gf" using assms(2) by (auto simp: switch_out_def split: option.splits)
  define s1 where "s1 = (case (if s_currentGuestThread s \<noteq> 0 then s_fibers s (s_currentGuestThread s) else None) of
      None \<Rightarrow> s
    | Some cur \<Rightarrow> put_fiber (s_currentGuestThread s) (cur\<lparr>gf_cpuContext := Cpu s\<rparr>) s)"
  have i1: "os_inv s1"
    unfolding s1_def using assms(1) put_same [OF assms(1)] by (auto split: option.split)
  obtain g1 where "s_fibers s1 a = Some g1"
      "t = (put_fiber a (g1\<lparr>gf_state := RUNNING\<rparr>) s1)\<lparr>s_currentGuestThread := a\<rparr>"
    using assms(2) unfolding switch_out_def Let_def s1_def [symmetric] by (auto split: option.splits if_splits)
  then show ?thesis using put_same [OF i1] by simp
qed


section \<open>Every routine keeps the invariant\<close>

lemma keeps_ignore [keeps_intros]: "keeps P m \<Longrightarrow> keeps P (ignoreP m)"
  unfolding ignoreP_def by (intro keeps_intros)

lemma keeps_rethrow [keeps_intros]:
  assumes "keeps P m" and "keeps P h"
  shows "keeps P (rethrowP m h)"
proof -
  have t: "keeps P (thenP h (throwP e))" for e :: fault using assms(2) by (intro keeps_intros)
  show ?thesis unfolding keeps_def
  proof (intro allI impI)
    fix s assume "P s"
    obtain r u where m: "m s = (r, u)" by (cases "m s")
    have "P u" by (rule keepsD [OF assms(1) \<open>P s\<close> m])
    then show "P (snd (rethrowP m h s))"
      using m t unfolding rethrowP_def keeps_def by (cases r) (auto split: fault.split)
  qed
qed

lemmas keeps_guest [keeps_intros] =
  guest_memory [THEN guest_keeps] guest_cpu [THEN guest_keeps] guest_interrupts [THEN guest_keeps]
  guest_flag [THEN guest_keeps] guest_pointer [THEN guest_keeps]

lemma keeps_guest_update: "(\<And>s. os_view (f s) = os_view s) \<Longrightarrow> keeps os_inv (modifyP f)"
  by (rule guest_keeps, rule guest_modify)

lemma keeps_find [keeps_intros]: "keeps P (IsInitialized)" "keeps P (HasFiber a)" "keeps P (IsTerminated a)"
  "keeps P GetCurrentGuestThread"
  unfolding IsInitialized_def HasFiber_def IsTerminated_def GetCurrentGuestThread_def by (intro keeps_intros)+

lemma keeps_switch_back [keeps_intros]: "keeps os_inv (switch_back p c)"
  unfolding switch_back_def
proof (intro keeps_intros keeps_modify)
  fix x r c' s assume i: "os_inv s"
  show "os_inv (if p \<noteq> 0 \<and> r = p \<and> c' = p
      then (case s_fibers s p of
              None \<Rightarrow> s
            | Some gf \<Rightarrow> put_fiber p (gf\<lparr>gf_state := RUNNING\<rparr>) (s\<lparr>Cpu := gf_cpuContext gf\<rparr>))
           \<lparr>s_currentGuestThread := p\<rparr>
      else s\<lparr>Cpu := c, s_currentGuestThread := 0\<rparr>)"
    using i put_same [of "s\<lparr>Cpu := d\<rparr>" p for d] by (auto split: option.split)
qed

lemma keeps_SwitchToThread [keeps_intros]:
  assumes "env_ok env"
  shows "keeps os_inv (SwitchToThread env a)"
  unfolding SwitchToThread_def
proof (intro keeps_intros)
  have sw: "keeps os_inv (env_switch env f)" for f using assms by (simp add: env_ok_def)
  have k: "keeps os_inv (thenP (modifyP (\<lambda>s. s\<lparr>Cpu := c\<rparr>)) (thenP (env_switch env f) (switch_back p d)))" for c f p d
    by (intro keeps_intros sw keeps_modify) simp
  let ?m = "\<lambda>s. if \<not> s_initialized s then (Ok (), s)
     else case switch_out a s of
            None \<Rightarrow> (Ok (), s)
          | Some (fiberHandle, s1) \<Rightarrow>
              if HostContext_IsCurrent s1 fiberHandle then (Ok (), s1)
              else case s_fibers s1 a of
                     None \<Rightarrow> (Ok (), s1)
                   | Some target \<Rightarrow>
                       thenP (modifyP (\<lambda>s. s\<lparr>Cpu := gf_cpuContext target\<rparr>))
                       (thenP (env_switch env fiberHandle)
                       (switch_back (s_currentGuestThread s) (Cpu s))) s1"
  show "keeps os_inv ?m"
    unfolding keeps_def
  proof (intro allI impI)
    fix s assume i: "os_inv s"
    show "os_inv (snd (?m s))"
    proof (cases "switch_out a s")
      case (Some p)
      obtain f t where p: "p = (f, t)" by (cases p)
      have "os_inv t" using switch_out_inv i Some p by blast
      moreover have "os_inv (snd (thenP (modifyP (\<lambda>s. s\<lparr>Cpu := c\<rparr>)) (thenP (env_switch env f) (switch_back q d)) t))"
        for c q d using k \<open>os_inv t\<close> unfolding keeps_def by blast
      ultimately show ?thesis using Some p i by (simp split: option.split)
    qed (use i in simp)
  qed
qed

end
