(* ===== verification/Os_Handlers_Inv.thy ===== *)
theory Os_Handlers_Inv
  imports Os_Invariants
begin

text \<open>
  The handlers of \<open>runtime/src/hle/os\<close> keep the invariant of the host side, one lemma per
  routine in the order they call each other, the scheduler's by induction on its nesting depth.
\<close>

lemma keeps_list [keeps_intros]:
  "list_all (keeps P) []" "keeps P m \<Longrightarrow> list_all (keeps P) xs \<Longrightarrow> list_all (keeps P) (m # xs)"
  by simp_all

lemma keeps_list_append [keeps_intros]:
  "list_all (keeps P) xs \<Longrightarrow> list_all (keeps P) ns \<Longrightarrow> list_all (keeps P) (xs @ ns)"
  by simp

lemma keeps_concat_map [keeps_intros]:
  "(\<And>x. list_all (keeps P) (f x)) \<Longrightarrow> list_all (keeps P) (concat (map f xs))"
  by (induction xs) auto

lemma keeps_map [keeps_intros]: "(\<And>x. keeps P (f x)) \<Longrightarrow> list_all (keeps P) (map f xs)"
  by (simp add: list_all_iff)

lemma keeps_sum [keeps_intros]:
  "(\<And>x. keeps P (f x)) \<Longrightarrow> (\<And>y. keeps P (g y)) \<Longrightarrow> keeps P (case z of Inl x \<Rightarrow> f x | Inr y \<Rightarrow> g y)"
  by (cases z) simp_all

section \<open>Lists, queues and priorities\<close>

lemma keeps_queue [keeps_intros]:
  "keeps os_inv (UnlinkGuestListNode a b c d e)" "keeps os_inv (RemoveThreadFromList t)"
  "keeps os_inv (UpdatePendingMaskForQueue q)" "keeps os_inv (RemoveThreadFromQueue t)"
  "keeps os_inv (ComputeThreadEffectivePriority t)" "keeps os_inv (find_insert_before f p)"
  "keeps os_inv (link_at_tail q t)" "keeps os_inv (link_before q t i)"
  unfolding UnlinkGuestListNode_def RemoveThreadFromList_def UpdatePendingMaskForQueue_def RemoveThreadFromQueue_def
    ComputeThreadEffectivePriority_def find_insert_before_def link_at_tail_def link_before_def
  by (intro keeps_intros)+

lemma keeps_insert [keeps_intros]:
  "keeps os_inv (InsertThreadIntoQueueByPriority q t p)" "keeps os_inv (LinkMutexToThread t m)"
  "keeps os_inv (UnlinkMutexFromThread t m)" "keeps os_inv (LinkThreadOnRunQueue t p)"
  "keeps os_inv (MarkRunQueuePending p)" "keeps os_inv (PopThreadQueueHead q h)"
  unfolding InsertThreadIntoQueueByPriority_def LinkMutexToThread_def UnlinkMutexFromThread_def
    LinkThreadOnRunQueue_def MarkRunQueuePending_def PopThreadQueueHead_def
  by (intro keeps_intros)+

lemma keeps_priority [keeps_intros]: "keeps os_inv (SetThreadEffectivePriority t p)"
  unfolding SetThreadEffectivePriority_def by (intro keeps_intros)

lemma keeps_propagate [keeps_intros]:
  "keeps os_inv (PropagateMutexOwnerPriority m)" "keeps os_inv (PromoteThreadPriority t p)"
  unfolding PropagateMutexOwnerPriority_def PromoteThreadPriority_def by (intro keeps_intros)+

lemma keeps_context [keeps_intros]: "keeps os_inv (OS__ClearContext a)" "keeps os_inv (OS__SetCurrentContext a)"
  unfolding OS__ClearContext_def OS__SetCurrentContext_def by (intro keeps_intros)+

lemma keeps_load_words [keeps_intros]: "keeps os_inv (load_words ps r)"
  by (induction ps r rule: load_words.induct) (simp_all only: load_words.simps, (intro keeps_intros; assumption?)+)

lemma keeps_restore [keeps_intros]: "keeps os_inv (restore_and_return i)"
  unfolding restore_and_return_def by (intro keeps_intros)

lemma keeps_frame [keeps_intros]:
  "(\<And>i. keeps os_inv (body i)) \<Longrightarrow> keeps os_inv e \<Longrightarrow> keeps os_inv fin \<Longrightarrow> keeps os_inv (handler_frame body e fin)"
  unfolding handler_frame_def by (intro keeps_intros)

section \<open>The sleep-timer table\<close>

lemma take_due_subset:
  "take_due now es = Some (d, rest) \<Longrightarrow> distinct (map st_threadPtr es) \<Longrightarrow> distinct (map st_threadPtr rest)"
  using take_due_spec [of es now] by (auto simp del: take_due.simps)

lemma timers_inv:
  "os_inv (s\<lparr>gSleepTimers := ts\<rparr>) \<longleftrightarrow> fibers_ok s \<and> distinct (map st_threadPtr ts)"
  using fibers_cong [of "s\<lparr>gSleepTimers := ts\<rparr>" s] by (simp add: os_inv_def)

lemma os_invD: "os_inv s \<Longrightarrow> fibers_ok s" "os_inv s \<Longrightarrow> distinct (map st_threadPtr (gSleepTimers s))"
  by (simp_all add: os_inv_def)

lemma distinct_filter_timers: "distinct (map f xs) \<Longrightarrow> distinct (map f (filter P xs))"
  by (induction xs) auto

lemma keeps_timers [keeps_intros]:
  "keeps os_inv (CancelSleepTimer t)" "keeps os_inv (ScheduleSleepTimer env t n)" "keeps os_inv (pop_due now)"
  unfolding CancelSleepTimer_def ScheduleSleepTimer_def
  by (auto intro!: keeps_modify simp: timers_inv intro: os_invD distinct_filter_timers [OF os_invD(2)])
    (auto simp: keeps_def pop_due_def timers_inv dest: os_invD take_due_subset split: option.split)

lemma keeps_parks [keeps_intros]: "keeps os_inv (MarkParkOutstanding t)" "keeps os_inv (ClearOutstandingPark t)"
  unfolding MarkParkOutstanding_def ClearOutstandingPark_def
  by (rule keeps_guest_update, simp add: os_view_def)+

lemma keeps_fire_timer [keeps_intros]:
  "keeps os_inv resume \<Longrightarrow> keeps os_inv (fire_timer resume now t)"
  unfolding fire_timer_def
  by (intro keeps_intros keeps_modify)
    (auto simp: timers_inv SleepTimerIsPending_def list_ex_iff dest: os_invD)

lemma keeps_seen: "keeps os_inv (modifyP (\<lambda>s. s\<lparr>strandFirstSeen := f s\<rparr>))"
    "keeps os_inv (modifyP (\<lambda>s. s\<lparr>strandScanDueAt := g s\<rparr>))"
    "keeps os_inv (modifyP (\<lambda>s. s\<lparr>g_alarmProcessDepth := h s\<rparr>))"
  by (rule keeps_guest_update, simp add: os_view_def)+

lemma keeps_reconcile_one [keeps_intros]: "keeps os_inv (reconcile_one now t)"
  unfolding reconcile_one_def Let_def by (intro keeps_intros keeps_seen)

lemma keeps_reconcile_all [keeps_intros]: "keeps os_inv (reconcile_all now ts)"
  by (induction ts) (simp_all, (intro keeps_intros; simp)+)

lemma keeps_process_timers [keeps_intros]:
  "keeps os_inv resume \<Longrightarrow> keeps os_inv (ProcessSleepTimers_body env resume)"
  unfolding ProcessSleepTimers_body_def run_strand_reconciler_def fire_timers_def
  by (intro keeps_intros keeps_seen; assumption)


section \<open>Thread life cycle\<close>

lemma env_okD:
  assumes "env_ok env"
  shows "keeps os_inv (env_call env a)" "keeps os_inv (env_switch env f)" "keeps os_inv (env_audio_poll env)"
    "keeps os_inv (env_idle_poll env)" "keeps os_inv (env_idle_wait env)" "keeps os_inv (env_completions env)"
    "keeps os_inv (env_nand_callbacks env n)"
  using assms by (simp_all add: env_ok_def)

lemma keeps_LoadContext:
  assumes "env_ok env"
  shows "keeps os_inv (OS__LoadContext env)"
  unfolding OS__LoadContext_def by (intro keeps_intros env_okD assms)

lemma keeps_create_fiber:
  assumes "env_ok env"
  shows "keeps os_inv (create_fiber env t e a st)"
proof -
  have "keeps os_inv (modifyP (\<lambda>s. case s_fibers s t of None \<Rightarrow> s
      | Some gf \<Rightarrow> put_fiber t (gf\<lparr>gf_cpuContext := f s gf\<rparr>) s))" for f
    by (rule keeps_modify) (auto intro: put_same split: option.split)
  then show ?thesis unfolding create_fiber_def by (intro keeps_intros keeps_Create assms)
qed

lemma keeps_thread:
  assumes "env_ok env" and "keeps os_inv wake"
  shows "keeps os_inv (TerminateThreadCommon env wake t p e)"
  unfolding TerminateThreadCommon_def MarkFiberThreadTerminated_def UnlockAllThreadMutexes_def WakeThreadJoiners_def
  by (intro keeps_intros env_okD assms)

lemma keeps_init_thread:
  assumes "env_ok env"
  shows "keeps os_inv (init_thread_struct env a b c d e f g)" "keeps os_inv (init_thread_slow_path a)"
    "keeps os_inv (append_to_thread_list a)"
  unfolding init_thread_struct_def init_thread_slow_path_def append_to_thread_list_def
  by (intro keeps_intros env_okD assms)+

lemma keeps_OSCreateThread:
  assumes "env_ok env"
  shows "keeps os_inv (OSCreateThread env)"
  unfolding OSCreateThread_def
  by (intro keeps_intros keeps_create_fiber [OF assms] keeps_init_thread [OF assms])

lemma keeps_exit:
  assumes "env_ok env" and "keeps os_inv wake" and "keeps os_inv sel"
  shows "keeps os_inv (OSExitThread_body env sel wake)" "keeps os_inv (OSCancelThread_body env sel wake)"
    "keeps os_inv (OSDetachThread_body wake)" "keeps os_inv (OSJoinThread_body sel)"
  unfolding OSExitThread_body_def OSCancelThread_body_def OSDetachThread_body_def OSJoinThread_body_def
    MarkFiberThreadTerminated_def
    found_in_list_def reschedule_if_pending_def WakeThreadJoiners_def
  by (intro keeps_intros keeps_thread [OF assms(1,2)] assms)+

lemma keeps_suspend:
  assumes "keeps os_inv sel"
  shows "keeps os_inv (OSSuspendThread_body sel)" "keeps os_inv (OSResumeThread_body sel)"
  unfolding OSSuspendThread_body_def OSResumeThread_body_def reschedule_if_pending_def make_ready_def
  by (intro keeps_intros assms)+

lemma keeps_sleep:
  assumes "keeps os_inv sel"
  shows "keeps os_inv (OSSleepThread_body sel)" "keeps os_inv (OSSleepTicks_body env sel)"
  unfolding OSSleepThread_body_def OSSleepTicks_body_def
  by (intro keeps_intros assms)+

section \<open>Alarms\<close>

lemma keeps_alarm_queue [keeps_intros]:
  "keeps os_inv (EnsureSda1Base env)" "keeps os_inv SanitizeAlarmQueue" "keeps os_inv alarm_queue_base"
  "keeps os_inv IncrementSchedulerDisableCount" "keeps os_inv DecrementSchedulerDisableCount"
  "keeps os_inv (unlink_head_alarm q a)" "keeps os_inv (due_alarm env q)" "keeps os_inv (ReadSystemTime env)"
  "keeps os_inv (insert_alarm q a f)" "keeps os_inv (init_alarm a h f)"
  unfolding EnsureSda1Base_def SanitizeAlarmQueue_def alarm_queue_base_def IncrementSchedulerDisableCount_def
    DecrementSchedulerDisableCount_def unlink_head_alarm_def due_alarm_def ReadSystemTime_def insert_alarm_def
    init_alarm_def find_alarm_slot_def
  by (intro keeps_intros)+

lemma keeps_alarms:
  assumes "env_ok env" and "keeps os_inv sel"
  shows "keeps os_inv (ProcessAlarmQueue_body env sel n)" "keeps os_inv (OSSetAlarm env)"
    "keeps os_inv (OS__SetPeriodicAlarm env)"
  unfolding ProcessAlarmQueue_body_def dispatch_alarms_def fire_alarm_def call_alarm_handler_def
    RunDeferredReschedule_def OSSetAlarm_def OS__SetPeriodicAlarm_def
  by (intro keeps_intros keeps_seen env_okD assms)+

section \<open>The scheduler\<close>

lemma keeps_select_parts [keeps_intros]:
  "keeps os_inv give_up" "keeps os_inv (find_step m)" "keeps os_inv find_runnable"
  unfolding find_runnable_def find_step_def give_up_def Let_def by (intro keeps_intros)+

lemma keeps_select_env:
  assumes "env_ok env"
  shows "keeps os_inv (TryInvokeSwitchCallback env a b)" "keeps os_inv (leave_running env f)"
    "keeps os_inv (dispatch_thread env r p n m)" "keeps os_inv (switch_fibers env r n)"
  unfolding TryInvokeSwitchCallback_def leave_running_def dispatch_thread_def switch_fibers_def
  by (intro keeps_intros keeps_LoadContext env_okD assms)+

lemma keeps_idle:
  assumes "env_ok env" and "keeps os_inv timers" and "keeps os_inv alarms"
  shows "keeps os_inv (idle_until_pending env timers alarms n r)"
  unfolding idle_until_pending_def idle_inner_def
  by (intro keeps_intros keeps_select_env env_okD assms)

lemma keeps_SelectThread_body:
  assumes "env_ok env" and "keeps os_inv timers" and "keeps os_inv alarms"
  shows "keeps os_inv (SelectThread_body env timers alarms n)"
  unfolding SelectThread_body_def
  by (intro keeps_intros keeps_select_env keeps_idle assms)

lemma keeps_SelectThread:
  assumes "env_ok env"
  shows "keeps os_inv (SelectThread env n)"
proof (induction n)
  case (Suc n)
  show ?case
    unfolding SelectThread.simps
    by (intro keeps_SelectThread_body keeps_intros keeps_suspend keeps_alarms assms Suc.IH)
qed (simp add: keeps_throw)

lemma keeps_wake [keeps_intros]:
  assumes "keeps os_inv sel"
  shows "keeps os_inv (WakeupThreadQueue env sel b)"
  unfolding WakeupThreadQueue_def drain_queue_def wake_one_def by (intro keeps_intros assms)

lemma keeps_mutex:
  assumes "keeps os_inv sel"
  shows "keeps os_inv (OSLockMutex_body n sel)" "keeps os_inv (OSUnlockMutex_body sel)"
  unfolding OSLockMutex_body_def OSUnlockMutex_body_def by (intro keeps_intros assms)+

end
