(* ===== verification/Interrupt_Laws.thy ===== *)
theory Interrupt_Laws
  imports Os_Scheduler Sample_State
begin

text \<open>
  The interrupt level across the handlers of \<open>runtime/src/hle/os\<close>.  Every handler turns
  interrupts off on entry and must leave the level as it found it on each of its exits: the
  early returns, the normal end and the \<open>AccessViolation\<close> handler.
\<close>

section \<open>The flag\<close>

lemma put_bytes_irq [simp]: "g_interrupts_enabled (put_bytes p bs s) = g_interrupts_enabled s"
  by (simp add: put_bytes_def)

lemma TryWrite_irq:
  "TryWriteGuestScalar a bs s = (r, t) \<Longrightarrow> g_interrupts_enabled t = g_interrupts_enabled s \<and> (\<exists>b. r = Ok b)"
  by (auto simp: TryWriteGuestScalar_def Let_def split: if_splits option.splits)

lemma flag_irq:
  "\<exists>t. UpdateCurrentContextInterruptFlag b s = (Ok (), t) \<and> g_interrupts_enabled t = g_interrupts_enabled s"
proof -
  have "\<exists>t. bindP (TryWriteGuestScalar a bs) (\<lambda>_. returnP ()) s = (Ok (), t) \<and>
      g_interrupts_enabled t = g_interrupts_enabled s" for a bs
  proof -
    obtain r t where "TryWriteGuestScalar a bs s = (r, t)" by (cases "TryWriteGuestScalar a bs s")
    with TryWrite_irq [OF this] show ?thesis by (auto simp: run_simps)
  qed
  then show ?thesis
    by (auto simp: UpdateCurrentContextInterruptFlag_def Let_def split: option.splits)
qed

lemma Disable_irq:
  "\<exists>t. OS__DisableInterrupts s = (Ok (if g_interrupts_enabled s then 1 else 0), t) \<and> \<not> g_interrupts_enabled t"
proof -
  obtain t where "UpdateCurrentContextInterruptFlag False (s\<lparr>g_interrupts_enabled := False\<rparr>) = (Ok (), t)"
      "g_interrupts_enabled t = False"
    using flag_irq [of False "s\<lparr>g_interrupts_enabled := False\<rparr>"] by auto
  then show ?thesis
    by (auto simp: OS__DisableInterrupts_def exchange_interrupts_def run_simps)
qed

lemma Restore_irq:
  "\<exists>t r. OS__RestoreInterrupts level s = (Ok r, t) \<and> g_interrupts_enabled t = (level \<noteq> 0)"
proof -
  obtain t where "UpdateCurrentContextInterruptFlag (level \<noteq> 0) (s\<lparr>g_interrupts_enabled := level \<noteq> 0\<rparr>) = (Ok (), t)"
      "g_interrupts_enabled t = (level \<noteq> 0)"
    using flag_irq [of "level \<noteq> 0" "s\<lparr>g_interrupts_enabled := level \<noteq> 0\<rparr>"] by auto
  then show ?thesis
    by (auto simp: OS__RestoreInterrupts_def exchange_interrupts_def run_simps)
qed

section \<open>Early returns\<close>

text \<open>A block that returns from its handler has restored the level before.\<close>

named_theorems early_intros "blocks that restore interrupts before they return early"

definition early :: "int \<Rightarrow> (os_state, bool) prog \<Rightarrow> bool" where
  "early irq m \<longleftrightarrow> (\<forall>s t. m s = (Ok True, t) \<longrightarrow> g_interrupts_enabled t = (irq \<noteq> 0))"

lemma early_bind [early_intros]: "(\<And>x. early irq (f x)) \<Longrightarrow> early irq (bindP m f)"
  unfolding early_def bindP_def by (auto split: prod.splits res.splits)

lemma early_then [early_intros]: "early irq n \<Longrightarrow> early irq (thenP m n)"
  unfolding thenP_def by (rule early_bind)

lemma early_False [early_intros]: "early irq (returnP False)"
  by (simp add: early_def run_simps)

lemma early_restore [early_intros]: "early irq (restore_and_return irq)"
  unfolding early_def
proof (intro allI impI)
  fix s t assume run: "restore_and_return irq s = (Ok True, t)"
  obtain u r where "OS__RestoreInterrupts irq s = (Ok r, u)" "g_interrupts_enabled u = (irq \<noteq> 0)"
    using Restore_irq [of irq s] by blast
  then show "g_interrupts_enabled t = (irq \<noteq> 0)"
    using run by (simp add: restore_and_return_def ignoreP_def run_simps)
qed

lemma early_catch [early_intros]:
  assumes "early irq m" and "\<And>a. early irq (h a)"
  shows "early irq (catchP m h)"
  unfolding early_def
proof (intro allI impI)
  fix s t assume run: "catchP m h s = (Ok True, t)"
  obtain r u where m: "m s = (r, u)" by (cases "m s")
  consider "r = Ok True" "u = t" | a where "h a u = (Ok True, t)"
    using run m unfolding catchP_def by (cases r) (auto split: fault.splits)
  then show "g_interrupts_enabled t = (irq \<noteq> 0)"
    using assms m unfolding early_def by cases auto
qed

lemma early_if [early_intros]: "(b \<Longrightarrow> early irq m) \<Longrightarrow> (\<not> b \<Longrightarrow> early irq n) \<Longrightarrow> early irq (if b then m else n)"
  by simp

lemma early_let [early_intros]: "early irq (f x) \<Longrightarrow> early irq (let y = x in f y)"
  by simp

section \<open>The handler frame\<close>

lemma frame_irq:
  assumes run: "handler_frame body on_error finish s = (Ok (), t)"
    and body: "\<And>irq. early irq (body irq)"
    and fin: "\<And>u v. finish u = (Ok (), v) \<Longrightarrow> g_interrupts_enabled v = g_interrupts_enabled u"
  shows "g_interrupts_enabled t = g_interrupts_enabled s"
proof -
  obtain irq s1 where s1: "OS__DisableInterrupts s = (Ok irq, s1)" and irq: "(irq \<noteq> 0) = g_interrupts_enabled s"
    using Disable_irq [of s] by (auto split: if_splits)
  let ?m = "catchP (body irq) (\<lambda>_. thenP on_error (returnP False))"
  have e: "early irq ?m" by (intro early_intros body)
  obtain r s2 where s2: "?m s1 = (r, s2)" by (cases "?m s1")
  have run': "bindP ?m (\<lambda>returned. if returned then returnP ()
      else thenP (ignoreP (OS__RestoreInterrupts irq)) finish) s1 = (Ok (), t)"
    using run unfolding handler_frame_def bindP_Ok [of OS__DisableInterrupts, OF s1] .
  then obtain b where r: "r = Ok b"
    using s2 by (cases r) (simp_all add: bindP_def)
  show ?thesis
  proof (cases b)
    case True
    then have "t = s2" using run' s2 r by (simp add: bindP_def returnP_def)
    then show ?thesis using e s2 r True irq by (auto simp: early_def)
  next
    case False
    obtain s3 p where s3: "OS__RestoreInterrupts irq s2 = (Ok p, s3)" "g_interrupts_enabled s3 = (irq \<noteq> 0)"
      using Restore_irq [of irq s2] by blast
    then have "finish s3 = (Ok (), t)"
      using run' s2 r False by (simp add: bindP_def thenP_def ignoreP_def returnP_def)
    then show ?thesis using fin s3(2) irq by auto
  qed
qed

lemma bind_gpr: "bindP (get_gpr i) f s = f (gpr (Cpu s) i) s"
  by (simp add: get_gpr_def run_simps)

text \<open>Every handler built on the frame, whatever scheduler and callbacks it is given.\<close>

lemma body_irq:
  "OSExitThread_body env sel wake s = (Ok (), t) \<Longrightarrow> g_interrupts_enabled t = g_interrupts_enabled s"
  "OSCancelThread_body env sel wake s = (Ok (), t) \<Longrightarrow> g_interrupts_enabled t = g_interrupts_enabled s"
  "OSDetachThread_body wake s = (Ok (), t) \<Longrightarrow> g_interrupts_enabled t = g_interrupts_enabled s"
  "OSSuspendThread_body sel s = (Ok (), t) \<Longrightarrow> g_interrupts_enabled t = g_interrupts_enabled s"
  "OSResumeThread_body sel s = (Ok (), t) \<Longrightarrow> g_interrupts_enabled t = g_interrupts_enabled s"
  "OSSleepThread_body sel s = (Ok (), t) \<Longrightarrow> g_interrupts_enabled t = g_interrupts_enabled s"
  "OSSleepTicks_body env suspend s = (Ok (), t) \<Longrightarrow> g_interrupts_enabled t = g_interrupts_enabled s"
  "OSLockMutex_body n sleep s = (Ok (), t) \<Longrightarrow> g_interrupts_enabled t = g_interrupts_enabled s"
  "OSUnlockMutex_body wake s = (Ok (), t) \<Longrightarrow> g_interrupts_enabled t = g_interrupts_enabled s"
  unfolding OSExitThread_body_def OSCancelThread_body_def OSDetachThread_body_def
    OSSuspendThread_body_def OSResumeThread_body_def OSSleepThread_body_def OSSleepTicks_body_def
    OSLockMutex_body_def OSUnlockMutex_body_def bind_gpr Let_def
  by (auto split: if_splits simp: set_gpr_def run_simps elim!: frame_irq intro!: early_intros)

definition framed_handlers :: "env \<Rightarrow> nat \<Rightarrow> (os_state, unit) prog set" where
  "framed_handlers env n =
     {OSExitThread env n, OSCancelThread env n, OSDetachThread env n, OSSuspendThread env n,
      OSResumeThread env n, OSSleepThread env n, OSSleepTicks env n, OSLockMutex env n, OSUnlockMutex env n}"


text \<open>A call of \<open>OSUnlockMutex\<close> before any thread runs.\<close>

definition early_unlock :: os_state where
  "early_unlock = boot_os\<lparr>Cpu := boot_cpu\<lparr>gpr := (\<lambda>_. 0)(3 := 0x80400000)\<rparr>\<rparr>"

lemma boot_read_zero:
  "Storage s = (\<lambda>_ _. 0) \<Longrightarrow> TryReadGuestScalar s a 4 = Some cs \<Longrightarrow> BigEndian_Read32 cs = 0"
  by (auto simp: TryReadGuestScalar_def bytes_at_def upt_rec BigEndian_Read32_def split: option.splits)

lemma boot_flag:
  "Storage s = (\<lambda>_ _. 0) \<Longrightarrow> UpdateCurrentContextInterruptFlag b s = (Ok (), s)"
  by (auto simp: UpdateCurrentContextInterruptFlag_def Let_def boot_read_zero split: option.splits)


section \<open>The exception: a fault inside \<open>OSCreateThread\<close>\<close>

text \<open>
  The thread list tail holds an address that is not mapped; the fiber manager is not
  initialised, so the handler only works on guest memory.
\<close>

definition quiet_env :: env where
  "quiet_env = \<lparr>env_call = (\<lambda>_. returnP ()), env_registered = (\<lambda>_. False), env_new_fiber = (\<lambda>_. None),
     env_switch = (\<lambda>_. returnP ()), env_is_advancing = (\<lambda>_. False), env_audio_poll = returnP (),
     env_idle_poll = returnP (), env_idle_wait = returnP (), env_now = (\<lambda>_. 0), env_timebase = (\<lambda>_. 0),
     env_completions = returnP False, env_SDA1_BASE = 0x8038CC00, env_set_order = (\<lambda>_. []),
     env_nand_callbacks = (\<lambda>_. returnP False)\<rparr>"

definition bad_tail :: os_state where
  "bad_tail = wr32 (boot_os\<lparr>s_initialized := False, Cpu := boot_cpu\<lparr>gpr := (\<lambda>_. 0)
     (3 := 0x80400000, 4 := 0x80004000, 6 := 0x80500000, 7 := 0x1000, 8 := 16)\<rparr>\<rparr>)
     kThreadListTailAddr 0x40000000"

lemma Write32_unmapped:
  "Regions s = wii_region_list \<Longrightarrow> ExecutableRanges s = [] \<Longrightarrow>
   Write32 0x400002FC v s = (Throw (AccessViolation 0x400002FC 4), s)"
  by (simp add: Write32_def WriteChecked_def WriteScalar_def GetPointer_def TryResolveRegion_def
      wii_region_list_def WiiDefaults_def HandleExecutableWrite_def FindExecutableRange_def
      IsMmioAddress_def IsGpuFifoAddress_def bindP_def kMem1Size_def kMem2Size_def BigEndian_Write32_def)

text \<open>What the stores of the handler keep until it reaches the thread list.\<close>

definition before_list :: "os_state \<Rightarrow> bool" where
  "before_list s \<longleftrightarrow> Regions s = wii_region_list \<and> DeferredReads s = [] \<and> ExecutableRanges s = [] \<and>
     rd32 s kThreadListTailAddr = 0x40000000 \<and> rd32 s 0x80347130 = 0 \<and>
     rd32 s kOSCurrentContextAddr = 0 \<and> g_interrupts_enabled s"

lemma before_list_ram: "before_list s \<Longrightarrow> ram s a \<longleftrightarrow> 4 dvd unat a \<and> ram_window a 4"
  by (simp add: before_list_def ram_def wii_memory_def wii_regions FindExecutableRange_def)

lemma before_list_step:
  assumes "before_list s" and "4 dvd unat c" and "ram_window c 4"
    and "c \<notin> {kThreadListTailAddr, 0x80347130, kOSCurrentContextAddr}"
  shows "\<exists>t. Write32 c v s = (Ok (), t) \<and> before_list t"
    and "\<exists>t. Write16 c h s = (Ok (), t) \<and> before_list t"
    and "\<exists>t. Write16 (c + 2) h s = (Ok (), t) \<and> before_list t"
proof -
  have r: "ram s c" using before_list_ram [OF assms(1)] assms(2,3) by blast
  then have h: "ram16 s c" "ram16 s (c + 2)" by (auto simp: ram16_def)
  have g: "ram s kThreadListTailAddr" "ram s 0x80347130" "ram s kOSCurrentContextAddr"
    using before_list_ram [OF assms(1)] by (simp_all add: os_addrs ram_window_def kMem1Size_def)
  have keep: "Regions (wr32 s c v) = Regions s" "Regions (wr16 s a h) = Regions s" "DeferredReads (wr32 s c v) = DeferredReads s"
    "DeferredReads (wr16 s a h) = DeferredReads s" "ExecutableRanges (wr32 s c v) = ExecutableRanges s"
    "ExecutableRanges (wr16 s a h) = ExecutableRanges s" for a
    by (simp_all add: wr32_def wr16_def)
  have ne: "c \<noteq> d" "c + 2 \<noteq> d" "c \<noteq> d + 2" "c + 2 \<noteq> d + 2"
    if "d = kThreadListTailAddr \<or> d = 0x80347130 \<or> d = kOSCurrentContextAddr" for d
  proof -
    have u: "unat (c + 2) = unat c + 2" using r by (intro ram_window_half) (auto simp: ram_def)
    have d: "4 dvd unat d" "unat (d + 2) = unat d + 2" using that by (auto simp: os_addrs)
    show "c \<noteq> d" "c + 2 \<noteq> d + 2" using assms(4) that by auto
    have "unat c + 2 \<noteq> unat d" "unat c \<noteq> unat d + 2" using d(1) assms(2) by presburger+
    then show "c + 2 \<noteq> d" "c \<noteq> d + 2" using u d(2) by metis+
  qed
  note N = ne [of kThreadListTailAddr] ne [of "0x80347130"] ne [of kOSCurrentContextAddr]
  show "\<exists>t. Write32 c v s = (Ok (), t) \<and> before_list t"
    using r g N assms(1) keep by (simp add: run_simps before_list_def rd32_wr32_other)
  show "\<exists>t. Write16 c h s = (Ok (), t) \<and> before_list t"
    using h g N assms(1) keep by (simp add: run_simps before_list_def rd32_wr16_other)
  show "\<exists>t. Write16 (c + 2) h s = (Ok (), t) \<and> before_list t"
    using h g N assms(1) keep by (simp add: run_simps before_list_def rd32_wr16_other)
qed

lemma stmts_keep:
  "(\<And>m u. m \<in> set xs \<Longrightarrow> P u \<Longrightarrow> \<exists>t. m u = (Ok (), t) \<and> P t) \<Longrightarrow> P s \<Longrightarrow> \<exists>t. stmts xs s = (Ok (), t) \<and> P t"
proof (induction xs arbitrary: s)
  case (Cons m xs)
  obtain t where t: "m s = (Ok (), t)" "P t" using Cons.prems by (meson list.set_intros(1))
  then have "\<exists>u. stmts xs t = (Ok (), u) \<and> P u"
    using Cons.IH [OF _ t(2)] Cons.prems(1) by auto
  then show ?case using t(1) by (simp add: run_simps)
qed (simp add: run_simps)

lemma before_list_gpr: "before_list s \<Longrightarrow> \<exists>t. set_gpr i v s = (Ok (), t) \<and> before_list t"
  by (simp add: set_gpr_def run_simps before_list_def rd32_def bytes_at_def)

lemma init_before_list:
  assumes "before_list s"
  shows "\<exists>t. init_thread_struct quiet_env 0x80400000 0x80004000 0 0x80500000 0x1000 16 0 s = (Ok (), t) \<and> before_list t"
  unfolding init_thread_struct_def Let_def
proof (rule stmts_keep [of _ before_list, OF _ assms], goal_cases)
  case (1 m u)
  have e: "env_call quiet_env a = returnP ()" for a by (simp add: quiet_env_def)
  have k: "\<not> IsThpVideoDecoderEntry 0x80004000" by (simp add: IsThpVideoDecoderEntry_def)
  note W = before_list_step [OF 1(2)] before_list_gpr [OF 1(2)]
  have half: "\<exists>t. Write16 0x804002CA h u = (Ok (), t) \<and> before_list t" for h
    using W(3) [of "0x804002C8" h] by (simp add: ram_window_def kMem1Size_def os_addrs)
  show ?case
    using 1 by (auto simp: W half e k run_simps ram_window_def kMem1Size_def os_addrs)
qed

lemma current_context_read:
  assumes "Regions s = wii_region_list" and "TryReadGuestScalar s kOSCurrentContextAddr 4 = Some cs"
  shows "BigEndian_Read32 cs = rd32 s kOSCurrentContextAddr"
proof -
  have "BuildPageTable wii_region_list 0x800 = Some ((SecMem1, 0), 0x100000)"
    by (simp add: wii_region_list_def WiiDefaults_def page_entry_def Let_def ptr_add_def
        kMem1Size_def kMem2Size_def kPageSize_def kPageShift_def)
  then show ?thesis
    using assms by (auto simp: TryReadGuestScalar_def FullReadablePageBias_def FullPageBias_def os_addrs
        kPageSize_def kPageShift_def kPageCount_def ptr_add_def rd32_def ram_loc_def
        split: if_splits option.splits)
qed

lemma no_context_flag:
  "Regions s = wii_region_list \<Longrightarrow> rd32 s kOSCurrentContextAddr = 0 \<Longrightarrow>
   UpdateCurrentContextInterruptFlag b s = (Ok (), s)"
  by (auto simp: UpdateCurrentContextInterruptFlag_def Let_def current_context_read split: option.splits)

lemma bad_tail_before: "before_list bad_tail"
proof -
  let ?s = "boot_os\<lparr>s_initialized := False, Cpu := boot_cpu\<lparr>gpr := (\<lambda>_. 0)
     (3 := 0x80400000, 4 := 0x80004000, 6 := 0x80500000, 7 := 0x1000, 8 := 16)\<rparr>\<rparr>"
  have r: "ram ?s a \<longleftrightarrow> 4 dvd unat a \<and> ram_window a 4" for a
    by (simp add: ram_def wii_memory_def wii_regions FindExecutableRange_def)
  have z: "rd32 ?s a = 0" for a by (simp add: rd32_def bytes_at_def upt_rec BigEndian_Read32_def)
  show ?thesis
    by (simp add: before_list_def bad_tail_def rd32_wr32_other r z os_addrs ram_window_def kMem1Size_def)
      (simp add: wr32_def)
qed


end
