(* ===== verification/Fiber_Laws.thy ===== *)
theory Fiber_Laws
  imports Os_Handlers_Inv Interrupt_Laws
begin

text \<open>
  What the fiber table guarantees: every handler keeps its invariant, a switch only ever enters
  a host context that exists and is not the one already executing, and a thread that exits on
  its own context leaves that context behind.
\<close>

definition os_handlers :: "env \<Rightarrow> nat \<Rightarrow> (os_state, unit) prog set" where
  "os_handlers env n = framed_handlers env n \<union>
     {SelectThread env n, OSWakeupThread env n, OSCreateThread env, OSJoinThread env n, OSSetAlarm env,
      OS__SetPeriodicAlarm env, ignoreP (ProcessSleepTimers env n), ignoreP (ProcessAlarmQueue env n 8)}"


lemma quiet_env_ok: "env_ok quiet_env"
  by (simp add: env_ok_def quiet_env_def keeps_return)

lemma boot_os_inv: "os_inv boot_os"
  by (simp add: os_inv_def fibers_ok_def)


section \<open>The target of a switch\<close>

text \<open>A host that stops the program when a context is entered that is gone or already runs.\<close>

definition guarded_switch :: "env \<Rightarrow> env" where
  "guarded_switch env = env\<lparr>env_switch := (\<lambda>f s.
     if f \<in> LiveFibers s \<and> f \<notin> set (s_fibersPendingDelete s) \<and> f \<noteq> CurrentFiber s
     then env_switch env f s else (Throw Fatal, s))\<rparr>"

lemma put_current [simp]: "CurrentFiber (put_fiber a gf s) = CurrentFiber s"
  by (simp add: put_fiber_def)

lemma switch_out_handle:
  assumes "switch_out a s = Some (f, t)"
  shows "holds s a f" and "LiveFibers t = LiveFibers s" and "s_fibersPendingDelete t = s_fibersPendingDelete s"
    and "CurrentFiber t = CurrentFiber s"
  using assms by (auto simp: switch_out_def holds_def Let_def split: option.splits if_splits)

text \<open>C10: whenever \<open>SwitchToThread\<close> hands the host over to another context, that context exists, is
  not waiting for deletion and is not the one executing: running it on a host that stops on any
  other switch makes no difference.\<close>

theorem switch_target_alive:
  assumes "os_inv s"
  shows "SwitchToThread (guarded_switch env) a s = SwitchToThread env a s"
proof -
  obtain t where t: "PurgePendingFibers s = (Ok (), t)" by (simp add: PurgePendingFibers_def run_simps)
  have "os_inv t" by (rule keepsD [OF keeps_Purge assms t])
  then have i: "fibers_ok t" by (simp add: os_inv_def)
  have same: "thenP (env_switch (guarded_switch env) f) m u = thenP (env_switch env f) m u"
    if "f \<in> LiveFibers u" "f \<notin> set (s_fibersPendingDelete u)" "f \<noteq> CurrentFiber u" for f m u
    using that by (simp add: thenP_def bindP_def guarded_switch_def)
  have enter: "thenP (modifyP (\<lambda>s. s\<lparr>Cpu := c\<rparr>)) (thenP (env_switch (guarded_switch env) f) m) u =
      thenP (modifyP (\<lambda>s. s\<lparr>Cpu := c\<rparr>)) (thenP (env_switch env f) m) u"
    if "switch_out a t = Some (f, u)" "\<not> HostContext_IsCurrent u f" for f u c m
    using same [of f "u\<lparr>Cpu := c\<rparr>" m] switch_out_handle [OF that(1)] fibers_okD(1,2) [OF i, of a f] that(2)
    by (simp add: HostContext_IsCurrent_def run_simps)
  show ?thesis
    unfolding SwitchToThread_def thenP_Ok [of PurgePendingFibers, OF t]
    by (auto simp: enter split: option.split prod.split)
qed

text \<open>Two threads; the first runs on context 1, the second waits on context 2.\<close>

definition waiting_fiber :: "host_fiber \<Rightarrow> bool \<Rightarrow> guest_fiber" where
  "waiting_fiber f scheduler = \<lparr>gf_fiber = Some f, gf_entryPoint = 0, gf_entryArg = 0, gf_cpuContext = boot_cpu,
     gf_state = WAITING, gf_isSchedulerFiber = scheduler, gf_terminated = False\<rparr>"

definition two_fibers :: os_state where
  "two_fibers = boot_os\<lparr>s_fibers := (\<lambda>_. None)(0x80400000 := Some (waiting_fiber 1 True),
     0x80401000 := Some (waiting_fiber 2 False)), LiveFibers := {1, 2}\<rparr>"

lemma two_fibers_inv: "os_inv two_fibers" "os_inv (two_fibers\<lparr>CurrentFiber := 2\<rparr>)"
  by (auto simp: os_inv_def fibers_ok_def entry_ok_def two_fibers_def waiting_fiber_def)

theorem switch_target_alive_witness:
  "SwitchToThread (guarded_switch quiet_env) 0x80401000 two_fibers = SwitchToThread quiet_env 0x80401000 two_fibers"
  by (rule switch_target_alive [OF two_fibers_inv(1)])

section \<open>A thread that exits\<close>

lemma purge_current:
  assumes "f \<in> LiveFibers s" and "CurrentFiber s = f"
  shows "f \<in> LiveFibers (fold (\<lambda>f t. if \<not> HostContext_IsCurrent t f then HostContext_Destroy f t else t) fs s)"
  using assms
  by (induction fs arbitrary: s) (auto simp: HostContext_IsCurrent_def HostContext_Destroy_def)

lemma purge_frame:
  "s_fibers (fold (\<lambda>f t. if \<not> HostContext_IsCurrent t f then HostContext_Destroy f t else t) fs s) = s_fibers s \<and>
   s_fibersPendingDelete (fold (\<lambda>f t. if \<not> HostContext_IsCurrent t f then HostContext_Destroy f t else t) fs s) =
     s_fibersPendingDelete s"
  by (induction fs arbitrary: s) (auto simp: HostContext_Destroy_def)

text \<open>C11: a thread that exits while its own host context executes leaks that context: the exit queues
  it for deletion, the purge that starts the switch away from it skips it because it is still
  executing, and takes it off the queue all the same, so it stays allocated with no table entry
  and no queue entry left to destroy it.\<close>

theorem exit_leaks_own_context:
  assumes "os_inv s" and "s_fibers s a = Some gf" and "gf_fiber gf = Some (CurrentFiber s)"
    and "\<not> gf_isSchedulerFiber gf"
  shows "let t = snd (PurgePendingFibers (snd (ExitGuestThread a st s))) in
    CurrentFiber s \<in> LiveFibers t \<and> s_fibersPendingDelete t = [] \<and> (\<forall>b. \<not> holds t b (CurrentFiber s))"
proof -
  let ?f = "CurrentFiber s"
  let ?s1 = "if s_currentGuestThread s = a then s\<lparr>s_currentGuestThread := 0\<rparr> else s"
  let ?e = "snd (ExitGuestThread a st s)"
  have i: "fibers_ok s" using assms(1) by (simp add: os_inv_def)
  have h: "holds s a ?f" using assms(2,3) by (simp add: holds_def)
  have ns: "?f \<noteq> s_schedulerFiber s" using fibers_okD(3) [OF i assms(2,3)] assms(4) by simp
  have e: "?e = put_fiber a (gf\<lparr>gf_state := st, gf_terminated := True, gf_fiber := None\<rparr>)
      (?s1\<lparr>s_fibersPendingDelete := s_fibersPendingDelete ?s1 @ [?f]\<rparr>)"
    using assms(2-4) by (simp add: ExitGuestThread_def Let_def HostContext_IsCurrent_def)
  have live: "?f \<in> LiveFibers ?e" "CurrentFiber ?e = ?f"
    using fibers_okD(1) [OF i h] unfolding e by simp_all
  have no: "\<not> holds ?e b ?f" for b
  proof (cases "b = a")
    case False
    then have "\<not> holds s b ?f" using fibers_okD(4) [OF i h, of b] ns by blast
    then show ?thesis using False unfolding e holds_put by (simp add: holds_def)
  qed (simp add: e holds_put)
  let ?p = "?e\<lparr>s_fibersPendingDelete := []\<rparr>"
  have "?f \<in> LiveFibers (fold (\<lambda>f t. if \<not> HostContext_IsCurrent t f then HostContext_Destroy f t else t)
      (s_fibersPendingDelete ?e) ?p)"
    using live by (intro purge_current) simp_all
  then show ?thesis
    using no purge_frame [of "s_fibersPendingDelete ?e" ?p]
    by (simp add: PurgePendingFibers_def run_simps holds_def)
qed

theorem exit_leaks_own_context_witness:
  "let t = snd (PurgePendingFibers (snd (ExitGuestThread 0x80401000 MORIBUND (two_fibers\<lparr>CurrentFiber := 2\<rparr>)))) in
    2 \<in> LiveFibers t \<and> s_fibersPendingDelete t = [] \<and> (\<forall>b. \<not> holds t b 2)"
  using exit_leaks_own_context [where s = "two_fibers\<lparr>CurrentFiber := 2\<rparr>" and a = "0x80401000" and
    gf = "waiting_fiber 2 False" and st = MORIBUND, OF two_fibers_inv(2)]
  by (simp add: two_fibers_def waiting_fiber_def)

end
