(* ===== verification/Os_Message.thy ===== *)
theory Os_Message
  imports Os_Scheduler
begin

text \<open>
  Message queues: \<open>runtime/src/hle/os/os_message.cpp\<close>.  A queue is a ring of words in guest
  memory with an \<open>OSMessageQueue\<close> header; senders and receivers block on its two thread
  queues.  \<open>n\<close> is the nesting bound handed to the scheduler and bounds the retry loop.
\<close>

definition OS__InitMessageQueue :: "(os_state, unit) prog" where
  "OS__InitMessageQueue =
     bindP (get_gpr 3) (\<lambda>queuePtr. bindP (get_gpr 4) (\<lambda>msgArrayPtr. bindP (get_gpr 5) (\<lambda>msgCount.
     if queuePtr = 0 then returnP ()
     else catchP (stmts
       [Write32 (queuePtr + kMsgQueueSendOffset) 0,
        Write32 (queuePtr + kMsgQueueSendOffset + 4) 0,
        Write32 (queuePtr + kMsgQueueRecvOffset) 0,
        Write32 (queuePtr + kMsgQueueRecvOffset + 4) 0,
        Write32 (queuePtr + kMsgQueueArrayOffset) msgArrayPtr,
        Write32 (queuePtr + kMsgQueueCountOffset) msgCount,
        Write32 (queuePtr + kMsgQueueFirstOffset) 0,
        Write32 (queuePtr + kMsgQueueUsedOffset) 0])
       (\<lambda>_. returnP ()))))"

definition MsgQueueIsFull :: "u32 \<Rightarrow> ('a memory_scheme, bool) prog" where
  "MsgQueueIsFull queuePtr =
     bindP (Read32 (queuePtr + kMsgQueueUsedOffset)) (\<lambda>used.
     bindP (Read32 (queuePtr + kMsgQueueCountOffset)) (\<lambda>count.
     returnP (count \<noteq> 0 \<and> used \<ge> count)))"

definition MsgQueueIsEmpty :: "u32 \<Rightarrow> ('a memory_scheme, bool) prog" where
  "MsgQueueIsEmpty queuePtr =
     bindP (Read32 (queuePtr + kMsgQueueUsedOffset)) (\<lambda>used. returnP (used = 0))"

definition MsgQueueEnqueue :: "u32 \<Rightarrow> u32 \<Rightarrow> ('a memory_scheme, unit) prog" where
  "MsgQueueEnqueue queuePtr msg =
     bindP (Read32 (queuePtr + kMsgQueueArrayOffset)) (\<lambda>arrayPtr.
     bindP (Read32 (queuePtr + kMsgQueueCountOffset)) (\<lambda>count.
     bindP (Read32 (queuePtr + kMsgQueueFirstOffset)) (\<lambda>first.
     bindP (Read32 (queuePtr + kMsgQueueUsedOffset)) (\<lambda>used.
     if count = 0 then returnP ()
     else let index = (first + used) mod count
          in stmts
            [Write32 (arrayPtr + index * 4) msg,
             Write32 (queuePtr + kMsgQueueUsedOffset) (used + 1)]))))"

definition MsgQueueJam :: "u32 \<Rightarrow> u32 \<Rightarrow> ('a memory_scheme, unit) prog" where
  "MsgQueueJam queuePtr msg =
     bindP (Read32 (queuePtr + kMsgQueueArrayOffset)) (\<lambda>arrayPtr.
     bindP (Read32 (queuePtr + kMsgQueueCountOffset)) (\<lambda>count.
     bindP (Read32 (queuePtr + kMsgQueueFirstOffset)) (\<lambda>first0.
     bindP (Read32 (queuePtr + kMsgQueueUsedOffset)) (\<lambda>used.
     if count = 0 then returnP ()
     else let first = (if first0 = 0 then count - 1 else first0 - 1)
          in stmts
            [Write32 (arrayPtr + first * 4) msg,
             Write32 (queuePtr + kMsgQueueFirstOffset) first,
             Write32 (queuePtr + kMsgQueueUsedOffset) (used + 1)]))))"

definition MsgQueueDequeue :: "u32 \<Rightarrow> ('a memory_scheme, u32) prog" where
  "MsgQueueDequeue queuePtr =
     bindP (Read32 (queuePtr + kMsgQueueArrayOffset)) (\<lambda>arrayPtr.
     bindP (Read32 (queuePtr + kMsgQueueCountOffset)) (\<lambda>count.
     bindP (Read32 (queuePtr + kMsgQueueFirstOffset)) (\<lambda>first.
     bindP (Read32 (queuePtr + kMsgQueueUsedOffset)) (\<lambda>used.
     if count = 0 \<or> used = 0 then returnP 0
     else bindP (Read32 (arrayPtr + first * 4)) (\<lambda>msg.
       thenP (Write32 (queuePtr + kMsgQueueFirstOffset) ((first + 1) mod count))
       (thenP (Write32 (queuePtr + kMsgQueueUsedOffset) (used - 1)) (returnP msg)))))))"

text \<open>
  The blocking loop the three operations share.  A round either ends the call with its
  result or parks the thread and tries again.
\<close>

definition MsgQueueOp ::
  "env \<Rightarrow> nat \<Rightarrow> u32 \<Rightarrow> bool \<Rightarrow> (u32 \<Rightarrow> (os_state, bool) prog) \<Rightarrow> (u32 \<Rightarrow> (os_state, unit) prog) \<Rightarrow>
   u32 \<Rightarrow> u32 \<Rightarrow> (os_state, int) prog" where
  "MsgQueueOp env n queuePtr block ready apply wakeOffset blockOffset =
     bindP OS__DisableInterrupts (\<lambda>irqState.
     loopP n (\<lambda>_.
       bindP (catchP
         (bindP (ready queuePtr) (\<lambda>r.
          if r then thenP (stmts
              [apply queuePtr,
               set_gpr 3 (queuePtr + wakeOffset),
               OSWakeupThread env n,
               set_gpr 3 1,
               ignoreP (OS__RestoreInterrupts irqState)]) (returnP (Some 1))
          else returnP None))
         (\<lambda>_. thenP (stmts [set_gpr 3 0, ignoreP (OS__RestoreInterrupts irqState)]) (returnP (Some 0))))
       (\<lambda>outcome.
        case outcome of
          Some r \<Rightarrow> returnP (Inr r)
        | None \<Rightarrow>
            if \<not> block
            then thenP (stmts [set_gpr 3 0, ignoreP (OS__RestoreInterrupts irqState)]) (returnP (Inr 0))
            else thenP (stmts [set_gpr 3 (queuePtr + blockOffset), OSSleepThread env n])
                   (returnP (Inl ())))) ())"

definition OS__SendMessage :: "env \<Rightarrow> nat \<Rightarrow> (os_state, int) prog" where
  "OS__SendMessage env n =
     bindP (get_gpr 3) (\<lambda>queuePtr. bindP (get_gpr 4) (\<lambda>msg. bindP (get_gpr 5) (\<lambda>flags.
     let block = (flags AND 1 \<noteq> 0)
     in if queuePtr = 0 then thenP (set_gpr 3 0) (returnP 0)
        else MsgQueueOp env n queuePtr block
               (\<lambda>q. bindP (MsgQueueIsFull q) (\<lambda>full. returnP (\<not> full)))
               (\<lambda>q. MsgQueueEnqueue q msg) kMsgQueueRecvOffset kMsgQueueSendOffset)))"

definition OS__ReceiveMessage :: "env \<Rightarrow> nat \<Rightarrow> (os_state, int) prog" where
  "OS__ReceiveMessage env n =
     bindP (get_gpr 3) (\<lambda>queuePtr. bindP (get_gpr 4) (\<lambda>outMsgPtr. bindP (get_gpr 5) (\<lambda>flags.
     let block = (flags AND 1 \<noteq> 0)
     in if queuePtr = 0 then thenP (set_gpr 3 0) (returnP 0)
        else MsgQueueOp env n queuePtr block
               (\<lambda>q. bindP (MsgQueueIsEmpty q) (\<lambda>empty. returnP (\<not> empty)))
               (\<lambda>q. bindP (MsgQueueDequeue q) (\<lambda>msg. whenP (outMsgPtr \<noteq> 0) (Write32 outMsgPtr msg)))
               kMsgQueueSendOffset kMsgQueueRecvOffset)))"

definition OS__JamMessage :: "env \<Rightarrow> nat \<Rightarrow> (os_state, int) prog" where
  "OS__JamMessage env n =
     bindP (get_gpr 3) (\<lambda>queuePtr. bindP (get_gpr 4) (\<lambda>msg. bindP (get_gpr 5) (\<lambda>flags.
     let block = (flags AND 1 \<noteq> 0)
     in if queuePtr = 0 then thenP (set_gpr 3 0) (returnP 0)
        else MsgQueueOp env n queuePtr block
               (\<lambda>q. bindP (MsgQueueIsFull q) (\<lambda>full. returnP (\<not> full)))
               (\<lambda>q. MsgQueueJam q msg) kMsgQueueRecvOffset kMsgQueueSendOffset)))"

end
