(* ===== verification/Interrupt_Frame.thy ===== *)
theory Interrupt_Frame
  imports Interrupt_Laws
begin

text \<open>
  What turning interrupts off and back on does to guest memory: at most the mode-flags word of
  the current context changes.
\<close>

definition flag_cell :: "'a memory_scheme \<Rightarrow> u32" where
  "flag_cell s = rd32 s kOSCurrentContextAddr + 0x1A0"

definition flag_ok :: "'a memory_scheme \<Rightarrow> bool" where
  "flag_ok s \<longleftrightarrow> ram s kOSCurrentContextAddr \<and> flag_cell s \<noteq> kOSCurrentContextAddr \<and>
     (rd32 s kOSCurrentContextAddr = 0 \<or> ram s (flag_cell s))"

definition same_but_flag :: "os_state \<Rightarrow> os_state \<Rightarrow> bool" where
  "same_but_flag s t \<longleftrightarrow> (\<forall>c. ram t c = ram s c) \<and>
     (\<forall>c. ram s c \<longrightarrow> c \<noteq> flag_cell s \<longrightarrow> rd32 t c = rd32 s c) \<and> flag_ok t \<and> flag_cell t = flag_cell s"

lemma same_but_flag_trans: "same_but_flag s t \<Longrightarrow> same_but_flag t u \<Longrightarrow> same_but_flag s u"
  unfolding same_but_flag_def by simp

lemma wr16_other_fields [simp]: "Cpu (wr16 s a v) = Cpu s" "g_interrupts_enabled (wr16 s a v) = g_interrupts_enabled s"
  by (simp_all add: wr16_def put_bytes_def)

lemma TryWrite16_ram:
  assumes "ram16 s a" and "TryWriteGuestScalar a (BigEndian_Write16 v) s = (Ok True, t)"
  shows "t = wr16 s a v"
proof -
  have "Regions s = wii_region_list" using assms(1) by (auto simp: ram16_def ram_def wii_memory_def wii_regions)
  then have "WriteChecked a (GX_HLE_FIFO_Write 2 (ucast v)) (BigEndian_Write16 v) s = (Ok (), t)"
    using fast_write_slow [OF _ _ _ assms(2), of "GX_HLE_FIFO_Write 2 (ucast v)"] by (simp add: BigEndian_Write16_def)
  moreover have "Write16 a v s = (Ok (), wr16 s a v)" by (rule Write16_ram [OF assms(1)])
  ultimately show ?thesis by (simp add: Write16_def)
qed

lemma TryWrite16_cpu: "TryWriteGuestScalar a bs s = (Ok b, t) \<Longrightarrow> Cpu t = Cpu s"
  by (auto simp: TryWriteGuestScalar_def Let_def put_bytes_def split: if_splits option.splits)

lemma flag_effect:
  assumes "flag_ok s"
  shows "\<exists>t. UpdateCurrentContextInterruptFlag b s = (Ok (), t) \<and> same_but_flag s t \<and>
    g_interrupts_enabled t = g_interrupts_enabled s \<and> Cpu t = Cpu s"
proof -
  let ?c = "rd32 s kOSCurrentContextAddr" and ?a = "rd32 s kOSCurrentContextAddr + 0x1A2"
  have k: "ram s kOSCurrentContextAddr" "flag_cell s \<noteq> kOSCurrentContextAddr" using assms by (simp_all add: flag_ok_def)
  have regs: "Regions s = wii_region_list" using k(1) by (simp add: ram_def wii_memory_def wii_regions)
  have refl: "same_but_flag s s" using assms by (simp add: same_but_flag_def)
  obtain t where t: "UpdateCurrentContextInterruptFlag b s = (Ok (), t)" "g_interrupts_enabled t = g_interrupts_enabled s"
    using flag_irq by blast
  have "t = s \<or> (?c \<noteq> 0 \<and> (\<exists>v. TryWriteGuestScalar ?a (BigEndian_Write16 v) s = (Ok True, t)))"
  proof -
    have e: "bindP (TryWriteGuestScalar ?a bs) (\<lambda>_. returnP ()) s = (Ok (), t) \<Longrightarrow>
        t = s \<or> TryWriteGuestScalar ?a bs s = (Ok True, t)" for bs
      using TryWrite_result [of ?a bs s] by (auto simp: run_simps)
    show ?thesis
      using t(1) e current_context_read [OF regs]
      by (auto simp: UpdateCurrentContextInterruptFlag_def Let_def split: option.splits if_splits)
  qed
  moreover have "same_but_flag s t" if "?c \<noteq> 0" "TryWriteGuestScalar ?a (BigEndian_Write16 v) s = (Ok True, t)" for v
  proof -
    have r: "ram s (flag_cell s)" using assms that(1) by (simp add: flag_ok_def)
    have a: "?a = flag_cell s + 2" by (simp add: flag_cell_def)
    have h: "ram16 s ?a" using r a by (auto simp: ram16_def)
    have tw: "t = wr16 s ?a v" by (rule TryWrite16_ram [OF h that(2)])
    have o: "rd32 t c = rd32 s c" if "ram s c" "c \<noteq> flag_cell s" for c
    proof -
      have "unat (flag_cell s + 2) = unat (flag_cell s) + 2" using r by (intro ram_window_half) (auto simp: ram_def)
      moreover have "4 dvd unat c" "4 dvd unat (flag_cell s)" using r that(1) by (simp_all add: ram_def)
      ultimately have "unat c \<noteq> unat ?a" unfolding a by presburger
      then have "?a \<noteq> c" by blast
      moreover have "?a \<noteq> c + 2" using that(2) unfolding a by simp
      ultimately show ?thesis unfolding tw by (rule rd32_wr16_other [OF h that(1)])
    qed
    have "rd32 t kOSCurrentContextAddr = ?c" using o k by simp
    then show ?thesis using o assms unfolding same_but_flag_def flag_ok_def flag_cell_def tw by simp
  qed
  moreover have "Cpu t = Cpu s"
    using calculation(1) TryWrite16_cpu by auto
  ultimately show ?thesis using t refl by blast
qed


lemma same_flag_irq: "same_but_flag (s\<lparr>g_interrupts_enabled := b\<rparr>) t = same_but_flag s t"
  by (simp add: same_but_flag_def flag_cell_def rd32_def bytes_at_def ram_def wii_memory_def FindExecutableRange_def)

lemma flag_ok_irq [simp]: "flag_ok (s\<lparr>g_interrupts_enabled := b\<rparr>) = flag_ok s"
  by (simp add: flag_ok_def flag_cell_def rd32_def bytes_at_def ram_def wii_memory_def FindExecutableRange_def)

lemma Disable_frame:
  assumes "flag_ok s"
  shows "\<exists>t. OS__DisableInterrupts s = (Ok (if g_interrupts_enabled s then 1 else 0), t) \<and> same_but_flag s t \<and>
    \<not> g_interrupts_enabled t \<and> Cpu t = Cpu s"
proof -
  have "flag_ok (s\<lparr>g_interrupts_enabled := False\<rparr>)" using assms by simp
  from flag_effect [OF this, of False] show ?thesis
    by (auto simp: OS__DisableInterrupts_def exchange_interrupts_def run_simps same_flag_irq)
qed

lemma Restore_frame:
  assumes "flag_ok s"
  shows "\<exists>t. ignoreP (OS__RestoreInterrupts level) s = (Ok (), t) \<and> same_but_flag s t \<and>
    g_interrupts_enabled t = (level \<noteq> 0) \<and> Cpu t = Cpu s"
proof -
  have "flag_ok (s\<lparr>g_interrupts_enabled := level \<noteq> 0\<rparr>)" using assms by simp
  from flag_effect [OF this, of "level \<noteq> 0"] show ?thesis
    by (auto simp: OS__RestoreInterrupts_def exchange_interrupts_def run_simps same_flag_irq ignoreP_def)
qed


lemma same_but_flag_refl: "flag_ok s \<Longrightarrow> same_but_flag s s"
  by (simp add: same_but_flag_def)

lemma same_but_flagD:
  assumes "same_but_flag s t"
  shows "flag_ok t" "ram t c = ram s c" "ram s c \<Longrightarrow> c \<noteq> flag_cell s \<Longrightarrow> rd32 t c = rd32 s c" "flag_cell t = flag_cell s"
  using assms by (simp_all add: same_but_flag_def)

lemma rd32_cpu [simp]: "rd32 (s\<lparr>Cpu := c\<rparr>) a = rd32 s a" "ram (s\<lparr>Cpu := c\<rparr>) a = ram s a"
  by (simp_all add: rd32_def bytes_at_def ram_def wii_memory_def FindExecutableRange_def)

lemma set_gpr_frame:
  assumes "flag_ok s"
  shows "\<exists>t. set_gpr i v s = (Ok (), t) \<and> same_but_flag s t \<and> g_interrupts_enabled t = g_interrupts_enabled s \<and>
    Cpu t = (Cpu s)\<lparr>gpr := (gpr (Cpu s))(i := v)\<rparr>"
  using assms by (simp add: set_gpr_def run_simps same_but_flag_def flag_ok_def flag_cell_def)

text \<open>A wake-up of a queue on which nobody waits.\<close>

lemma wake_empty:
  assumes "flag_ok s" and "ram s q" and "rd32 s q = 0" and "q \<noteq> flag_cell s" and "q \<noteq> 0" and "gpr (Cpu s) 3 = q"
  shows "\<exists>t. OSWakeupThread env n s = (Ok (), t) \<and> same_but_flag s t \<and>
    g_interrupts_enabled t = g_interrupts_enabled s \<and> Cpu t = Cpu s"
proof -
  obtain irq s1 where s1: "OS__DisableInterrupts s = (Ok irq, s1)" "same_but_flag s s1" "Cpu s1 = Cpu s"
    and irq: "(irq \<noteq> 0) = g_interrupts_enabled s"
    using Disable_frame [OF assms(1)] by (auto split: if_splits)
  note D = same_but_flagD [OF s1(2)]
  obtain t where t: "ignoreP (OS__RestoreInterrupts irq) s1 = (Ok (), t)" "same_but_flag s1 t"
      "g_interrupts_enabled t = (irq \<noteq> 0)" "Cpu t = Cpu s1"
    using Restore_frame [OF D(1)] by blast
  have "Read32 q s1 = (Ok 0, s1)" using D(2,3) assms(2-4) by (simp add: run_simps)
  then have "drain_queue q s1 = (Ok False, s1)"
    unfolding drain_queue_def Suc_eq_plus1 [symmetric]
    by (intro loopP_done) (simp add: run_simps kMaxWake_def)
  then have "OSWakeupThread env n s = (Ok (), t)"
    using assms(5,6) s1(1) t(1) by (simp add: OSWakeupThread_def WakeupThreadQueue_def get_gpr_def run_simps)
  then show ?thesis using same_but_flag_trans [OF s1(2) t(2)] t(3,4) s1(3) irq by auto
qed

end
