(* ===== verification/Message_Laws.thy ===== *)
theory Message_Laws
  imports Os_Message Sample_State Interrupt_Frame
begin

text \<open>
  A message queue is a bounded double-ended queue.  \<open>bounded_deque\<close> is the contract its
  clients rely on, the lists of sent and received messages follow from it, and the ring
  buffer in guest memory is shown to meet it: \<open>items\<close> reads the ring from \<open>first\<close> on.
\<close>

section \<open>The contract\<close>

fun repeatP :: "nat \<Rightarrow> ('s, 'a) prog \<Rightarrow> ('s, 'a list) prog" where
  "repeatP 0 m = returnP []"
| "repeatP (Suc k) m = bindP m (\<lambda>x. bindP (repeatP k m) (\<lambda>xs. returnP (x # xs)))"

locale bounded_deque =
  fixes ok :: "'s \<Rightarrow> bool"
    and items :: "'s \<Rightarrow> 'a list"
    and room :: "'s \<Rightarrow> nat"
    and send :: "'a \<Rightarrow> ('s, unit) prog"
    and jam :: "'a \<Rightarrow> ('s, unit) prog"
    and receive :: "('s, 'a) prog"
  assumes send_run: "ok s \<Longrightarrow> length (items s) < room s \<Longrightarrow>
      \<exists>t. send m s = (Ok (), t) \<and> ok t \<and> items t = items s @ [m] \<and> room t = room s"
    and jam_run: "ok s \<Longrightarrow> length (items s) < room s \<Longrightarrow>
      \<exists>t. jam m s = (Ok (), t) \<and> ok t \<and> items t = m # items s \<and> room t = room s"
    and receive_run: "ok s \<Longrightarrow> items s = m # ns \<Longrightarrow>
      \<exists>t. receive s = (Ok m, t) \<and> ok t \<and> items t = ns \<and> room t = room s"
begin

lemma send_all:
  "ok s \<Longrightarrow> length (items s) + length xs \<le> room s \<Longrightarrow>
   \<exists>t. stmts (map send xs) s = (Ok (), t) \<and> ok t \<and> items t = items s @ xs \<and> room t = room s"
proof (induction xs arbitrary: s)
  case (Cons x xs)
  obtain t where t: "send x s = (Ok (), t)" "ok t" "items t = items s @ [x]" "room t = room s"
    using send_run [of s x] Cons.prems by auto
  then obtain u where "stmts (map send xs) t = (Ok (), u)" "ok u" "items u = items t @ xs" "room u = room t"
    using Cons.IH [of t] Cons.prems(2) by auto
  then show ?case using t by (simp add: run_simps)
qed (simp add: run_simps)

lemma jam_all:
  "ok s \<Longrightarrow> length (items s) + length xs \<le> room s \<Longrightarrow>
   \<exists>t. stmts (map jam xs) s = (Ok (), t) \<and> ok t \<and> items t = rev xs @ items s \<and> room t = room s"
proof (induction xs arbitrary: s)
  case (Cons x xs)
  obtain t where t: "jam x s = (Ok (), t)" "ok t" "items t = x # items s" "room t = room s"
    using jam_run [of s x] Cons.prems by auto
  then obtain u where "stmts (map jam xs) t = (Ok (), u)" "ok u" "items u = rev xs @ items t" "room u = room t"
    using Cons.IH [of t] Cons.prems(2) by auto
  then show ?case using t by (simp add: run_simps)
qed (simp add: run_simps)

lemma receive_all:
  "ok s \<Longrightarrow> items s = xs \<Longrightarrow>
   \<exists>t. repeatP (length xs) receive s = (Ok xs, t) \<and> ok t \<and> items t = [] \<and> room t = room s"
proof (induction xs arbitrary: s)
  case (Cons x xs)
  obtain t where t: "receive s = (Ok x, t)" "ok t" "items t = xs" "room t = room s"
    using receive_run [OF Cons.prems] by blast
  then obtain u where "repeatP (length xs) receive t = (Ok xs, u)" "ok u" "items u = []" "room u = room t"
    using Cons.IH [OF t(2,3)] by auto
  then show ?case using t by (simp add: run_simps)
qed (simp add: run_simps)

lemma fifo:
  assumes "ok s" and "length (items s) + length xs \<le> room s"
  shows "\<exists>t. thenP (stmts (map send xs)) (repeatP (length (items s) + length xs) receive) s =
      (Ok (items s @ xs), t) \<and> ok t \<and> items t = []"
proof -
  obtain u where "stmts (map send xs) s = (Ok (), u)" "ok u" "items u = items s @ xs"
    using send_all [OF assms] by blast
  then show ?thesis using receive_all [of u "items s @ xs"] by (auto simp: run_simps)
qed

lemma lifo:
  assumes "ok s" and "length (items s) + length xs \<le> room s"
  shows "\<exists>t. thenP (stmts (map jam xs)) (repeatP (length xs + length (items s)) receive) s =
      (Ok (rev xs @ items s), t) \<and> ok t \<and> items t = []"
proof -
  obtain u where "stmts (map jam xs) s = (Ok (), u)" "ok u" "items u = rev xs @ items s"
    using jam_all [OF assms] by blast
  then show ?thesis using receive_all [of u "rev xs @ items s"] by (auto simp: run_simps)
qed

end

section \<open>The ring buffer\<close>

definition msgq_header :: "u32 \<Rightarrow> u32 set" where
  "msgq_header q = {q + kMsgQueueArrayOffset, q + kMsgQueueCountOffset, q + kMsgQueueFirstOffset, q + kMsgQueueUsedOffset}"

definition msgq_cap :: "u32 \<Rightarrow> 'a memory_scheme \<Rightarrow> nat" where
  "msgq_cap q s = unat (rd32 s (q + kMsgQueueCountOffset))"

definition msgq_used :: "u32 \<Rightarrow> 'a memory_scheme \<Rightarrow> nat" where
  "msgq_used q s = unat (rd32 s (q + kMsgQueueUsedOffset))"

definition msgq_first :: "u32 \<Rightarrow> 'a memory_scheme \<Rightarrow> nat" where
  "msgq_first q s = unat (rd32 s (q + kMsgQueueFirstOffset))"

definition msgq_slot :: "u32 \<Rightarrow> 'a memory_scheme \<Rightarrow> nat \<Rightarrow> u32" where
  "msgq_slot q s i = rd32 s (q + kMsgQueueArrayOffset) + of_nat i * 4"

definition msgq_items :: "u32 \<Rightarrow> 'a memory_scheme \<Rightarrow> u32 list" where
  "msgq_items q s = map (\<lambda>i. rd32 s (msgq_slot q s ((msgq_first q s + i) mod msgq_cap q s))) [0..<msgq_used q s]"

definition msgq_ok :: "u32 \<Rightarrow> 'a memory_scheme \<Rightarrow> bool" where
  "msgq_ok q s \<longleftrightarrow> (\<forall>c \<in> msgq_header q. ram s c) \<and> 0 < msgq_cap q s \<and> msgq_cap q s \<le> 2 ^ 30 \<and>
     msgq_used q s \<le> msgq_cap q s \<and> msgq_first q s < msgq_cap q s \<and>
     (\<forall>i < msgq_cap q s. ram s (msgq_slot q s i) \<and> msgq_slot q s i \<notin> msgq_header q)"

lemmas msgq_offsets = kMsgQueueArrayOffset_def kMsgQueueCountOffset_def kMsgQueueFirstOffset_def kMsgQueueUsedOffset_def

lemma header_distinct [simp]:
  "q + kMsgQueueArrayOffset \<noteq> q + kMsgQueueCountOffset" "q + kMsgQueueArrayOffset \<noteq> q + kMsgQueueFirstOffset"
  "q + kMsgQueueArrayOffset \<noteq> q + kMsgQueueUsedOffset" "q + kMsgQueueCountOffset \<noteq> q + kMsgQueueFirstOffset"
  "q + kMsgQueueCountOffset \<noteq> q + kMsgQueueUsedOffset" "q + kMsgQueueFirstOffset \<noteq> q + kMsgQueueUsedOffset"
  by (simp_all add: msgq_offsets)

lemma msgq_items_length [simp]: "length (msgq_items q s) = msgq_used q s"
  by (simp add: msgq_items_def)

lemma slot_inj:
  assumes "i < c" "j < c" "c \<le> 2 ^ 30" "(a :: u32) + of_nat i * 4 = a + of_nat j * 4"
  shows "i = j"
proof -
  have "unat (of_nat i * 4 :: u32) = i * 4" "unat (of_nat j * 4 :: u32) = j * 4"
    using assms(1-3) by (simp_all add: unat_word_ariths unat_of_nat)
  then show ?thesis using assms(4) by (metis add_left_imp_eq mult_right_cancel zero_neq_numeral)
qed

lemma word_index:
  fixes f u c :: u32
  assumes "unat f < unat c" "unat u \<le> unat c" "unat c \<le> 2 ^ 30"
  shows "(f + u) mod c = of_nat ((unat f + unat u) mod unat c)" "unat ((f + u) mod c) = (unat f + unat u) mod unat c"
proof -
  have "unat (f + u) = unat f + unat u"
    using assms by (simp add: unat_word_ariths)
  then show u: "unat ((f + u) mod c) = (unat f + unat u) mod unat c" by (simp add: unat_mod_distrib)
  show "(f + u) mod c = of_nat ((unat f + unat u) mod unat c)"
    unfolding u [symmetric] by simp
qed


text \<open>Cells outside the header and the ring.\<close>

definition off_msgq :: "u32 \<Rightarrow> 'a memory_scheme \<Rightarrow> u32 \<Rightarrow> bool" where
  "off_msgq q s c \<longleftrightarrow> ram s c \<and> c \<notin> msgq_header q \<and> (\<forall>i < msgq_cap q s. c \<noteq> msgq_slot q s i)"

lemma msgq_okD:
  assumes "msgq_ok q s"
  shows "ram s (q + kMsgQueueArrayOffset)" "ram s (q + kMsgQueueCountOffset)" "ram s (q + kMsgQueueFirstOffset)"
    "ram s (q + kMsgQueueUsedOffset)" "0 < msgq_cap q s" "msgq_cap q s \<le> 2 ^ 30"
    "msgq_used q s \<le> msgq_cap q s" "msgq_first q s < msgq_cap q s"
    "i < msgq_cap q s \<Longrightarrow> ram s (msgq_slot q s i)"
    "i < msgq_cap q s \<Longrightarrow> msgq_slot q s i \<noteq> q + kMsgQueueArrayOffset \<and> msgq_slot q s i \<noteq> q + kMsgQueueCountOffset \<and>
      msgq_slot q s i \<noteq> q + kMsgQueueFirstOffset \<and> msgq_slot q s i \<noteq> q + kMsgQueueUsedOffset"
  using assms by (auto simp: msgq_ok_def msgq_header_def)

lemma msgq_reads:
  assumes "msgq_ok q s"
  shows "Read32 (q + kMsgQueueArrayOffset) s = (Ok (rd32 s (q + kMsgQueueArrayOffset)), s)"
    "Read32 (q + kMsgQueueCountOffset) s = (Ok (rd32 s (q + kMsgQueueCountOffset)), s)"
    "Read32 (q + kMsgQueueFirstOffset) s = (Ok (rd32 s (q + kMsgQueueFirstOffset)), s)"
    "Read32 (q + kMsgQueueUsedOffset) s = (Ok (rd32 s (q + kMsgQueueUsedOffset)), s)"
  using msgq_okD(1-4) [OF assms] by (simp_all add: run_simps)

text \<open>
  The state after a store to the slot with index \<open>k\<close>, if any, and new values of the two counters.
\<close>

definition msgq_store :: "u32 \<Rightarrow> nat \<Rightarrow> u32 option \<Rightarrow> u32 option \<Rightarrow> u32 \<Rightarrow> 'a memory_scheme \<Rightarrow> 'a memory_scheme" where
  "msgq_store q k m f u s =
     (let s1 = (case m of None \<Rightarrow> s | Some v \<Rightarrow> wr32 s (msgq_slot q s k) v);
          s2 = (case f of None \<Rightarrow> s1 | Some v \<Rightarrow> wr32 s1 (q + kMsgQueueFirstOffset) v)
      in wr32 s2 (q + kMsgQueueUsedOffset) u)"

lemma msgq_store_fields:
  assumes "msgq_ok q s" and "k < msgq_cap q s"
  shows "msgq_cap q (msgq_store q k m f u s) = msgq_cap q s" "msgq_used q (msgq_store q k m f u s) = unat u"
    "msgq_first q (msgq_store q k m f u s) = (case f of None \<Rightarrow> msgq_first q s | Some v \<Rightarrow> unat v)" "msgq_slot q (msgq_store q k m f u s) = msgq_slot q s"
    and "i < msgq_cap q s \<Longrightarrow> rd32 (msgq_store q k m f u s) (msgq_slot q s i) =
      (case m of None \<Rightarrow> rd32 s (msgq_slot q s i) | Some v \<Rightarrow> if i = k then v else rd32 s (msgq_slot q s i))"
    and "off_msgq q s c \<Longrightarrow> rd32 (msgq_store q k m f u s) c = rd32 s c"
    and "ram (msgq_store q k m f u s) c = ram s c"
proof -
  note D = msgq_okD [OF assms(1)]
  note N = D(10) [OF assms(2)] D(9) [OF assms(2)]
  note S = msgq_store_def Let_def rd32_wr32_other D(1-4) N
  show "msgq_cap q (msgq_store q k m f u s) = msgq_cap q s" "msgq_used q (msgq_store q k m f u s) = unat u"
      "msgq_first q (msgq_store q k m f u s) = (case f of None \<Rightarrow> msgq_first q s | Some v \<Rightarrow> unat v)"
    using header_distinct [of q, symmetric] header_distinct [of q]
    by (cases m; cases f; simp add: msgq_cap_def msgq_used_def msgq_first_def S)+
  have "rd32 (msgq_store q k m f u s) (q + kMsgQueueArrayOffset) = rd32 s (q + kMsgQueueArrayOffset)"
    using header_distinct [of q, symmetric] header_distinct [of q] by (cases m; cases f) (simp_all add: S)
  then show "msgq_slot q (msgq_store q k m f u s) = msgq_slot q s"
    by (intro ext) (simp add: msgq_slot_def)
  show "ram (msgq_store q k m f u s) c = ram s c" by (cases m; cases f) (simp_all add: msgq_store_def Let_def)
  show "rd32 (msgq_store q k m f u s) (msgq_slot q s i) = (case m of None \<Rightarrow> rd32 s (msgq_slot q s i) | Some v \<Rightarrow> if i = k then v else rd32 s (msgq_slot q s i))"
    if i: "i < msgq_cap q s"
  proof -
    note I = D(10) [OF i] D(9) [OF i]
    have "msgq_slot q s i = msgq_slot q s k \<longleftrightarrow> i = k"
      using slot_inj [OF i assms(2) D(6)] by (auto simp: msgq_slot_def)
    moreover have "q + kMsgQueueUsedOffset \<noteq> msgq_slot q s i" "q + kMsgQueueFirstOffset \<noteq> msgq_slot q s i" using I by auto
    ultimately show ?thesis using I N D(3,4) by (cases m; cases f) (auto simp: msgq_store_def Let_def rd32_wr32_other)
  qed
  show "rd32 (msgq_store q k m f u s) c = rd32 s c" if "off_msgq q s c"
    using that assms(2) N D(3,4)
    by (cases m; cases f) (auto simp: msgq_store_def Let_def rd32_wr32_other off_msgq_def msgq_header_def)
qed

lemma msgq_store_ok:
  assumes "msgq_ok q s" and "k < msgq_cap q s" and "case f of None \<Rightarrow> True | Some v \<Rightarrow> unat v < msgq_cap q s" and "unat u \<le> msgq_cap q s"
  shows "msgq_ok q (msgq_store q k m f u s)"
  using assms(1,3,4) unfolding msgq_ok_def msgq_store_fields [OF assms(1,2)] by (cases f) simp_all

text \<open>
  What one operation leaves: the invariant, the new contents, the capacity and every cell
  outside the queue.
\<close>

definition msgq_step :: "u32 \<Rightarrow> u32 list \<Rightarrow> 'a memory_scheme \<Rightarrow> 'a memory_scheme \<Rightarrow> bool" where
  "msgq_step q xs s t \<longleftrightarrow> msgq_ok q t \<and> msgq_items q t = xs \<and> msgq_cap q t = msgq_cap q s \<and>
     (\<forall>c. off_msgq q s c \<longrightarrow> rd32 t c = rd32 s c) \<and> msgq_slot q t = msgq_slot q s \<and> (\<forall>c. ram t c = ram s c)"

lemma ring_index:
  fixes i j c f :: nat
  assumes "i < c" "j < c" "(f + i) mod c = (f + j) mod c"
  shows "i = j"
proof -
  have "(int f + int i) mod int c = (int f + int j) mod int c"
    using assms(3) by (metis of_nat_add of_nat_mod)
  then have "(int f + int i - int f) mod int c = (int f + int j - int f) mod int c"
    by (rule mod_diff_cong) simp
  then show ?thesis using assms(1,2) by simp
qed

lemma enqueue_items:
  assumes "msgq_ok q s" and "msgq_used q s < msgq_cap q s"
    and "k = (msgq_first q s + msgq_used q s) mod msgq_cap q s"
    and "unat u = msgq_used q s + 1"
  shows "msgq_step q (msgq_items q s @ [m]) s (msgq_store q k (Some m) None u s)"
proof -
  let ?c = "msgq_cap q s" and ?f = "msgq_first q s" and ?u = "msgq_used q s"
  note D = msgq_okD [OF assms(1)]
  have k: "k < ?c" using assms(3) D(5) by simp
  note F = msgq_store_fields [OF assms(1) k, where m = "Some m" and f = None and u = u]
  have idx: "(?f + i) mod ?c \<noteq> k" if "i < ?u" for i
    using ring_index [of i ?c ?u ?f] that assms(2) unfolding assms(3) by auto
  have "msgq_items q (msgq_store q k (Some m) None u s) = msgq_items q s @ [m]"
    using idx D(5) k unfolding msgq_items_def F(1-4) assms(4) option.case
    by (auto simp: F(5) assms(3) [symmetric])
  then show ?thesis
    using msgq_store_ok [OF assms(1) k, of None u "Some m"] F assms D(7,8)
    by (simp add: msgq_step_def)
qed


lemma jam_items:
  assumes "msgq_ok q s" and "msgq_used q s < msgq_cap q s"
    and "k = (if msgq_first q s = 0 then msgq_cap q s - 1 else msgq_first q s - 1)"
    and "unat f = k" and "unat u = msgq_used q s + 1"
  shows "msgq_step q (m # msgq_items q s) s (msgq_store q k (Some m) (Some f) u s)"
proof -
  let ?c = "msgq_cap q s" and ?f = "msgq_first q s" and ?u = "msgq_used q s"
  note D = msgq_okD [OF assms(1)]
  have k: "k < ?c" using assms(3) D(5,8) by (auto split: if_splits)
  note F = msgq_store_fields [OF assms(1) k, where m = "Some m" and f = "Some f" and u = u]
  have suc: "(k + Suc i) mod ?c = (?f + i) mod ?c" for i
    using assms(3) D(5) by (cases "?f = 0") simp_all
  have idx: "(k + Suc i) mod ?c \<noteq> k" if "i < ?u" for i
    using ring_index [of "Suc i" ?c 0 k] that assms(2) k by auto
  have nth: "rd32 (msgq_store q k (Some m) (Some f) u s) (msgq_slot q s ((k + i) mod ?c)) = (m # msgq_items q s) ! i"
    if "i < Suc ?u" for i
  proof (cases i)
    case 0
    then show ?thesis using F(5) [OF k] k by simp
  next
    case (Suc j)
    then have "(k + Suc j) mod ?c \<noteq> k" using idx [of j] that by simp
    then show ?thesis using F(5) [of "(k + Suc j) mod ?c"] D(5) Suc suc that by (simp add: msgq_items_def)
  qed
  have "msgq_items q (msgq_store q k (Some m) (Some f) u s) = m # msgq_items q s"
    by (rule nth_equalityI) (simp_all only: msgq_items_def [of q "msgq_store q k (Some m) (Some f) u s"] F(1-4) assms(4,5)
      option.case length_map length_upt nth_map nth_upt list.size msgq_items_length diff_zero add_0 Suc_eq_plus1 [symmetric] add_Suc_right nth)
  then show ?thesis
    using msgq_store_ok [OF assms(1) k, of "Some f" u "Some m"] F assms k D(7,8)
    by (simp add: msgq_step_def)
qed

lemma dequeue_items:
  assumes "msgq_ok q s" and "msgq_items q s = m # ns"
    and "unat f = (msgq_first q s + 1) mod msgq_cap q s" and "unat u = msgq_used q s - 1"
  shows "msgq_step q ns s (msgq_store q k None (Some f) u s)" and "rd32 s (msgq_slot q s (msgq_first q s)) = m"
proof -
  let ?c = "msgq_cap q s" and ?f = "msgq_first q s" and ?u = "msgq_used q s"
  note D = msgq_okD [OF assms(1)]
  have u: "?u = Suc (length ns)" using arg_cong [OF assms(2), of length] by simp
  have n: "ns ! i = rd32 s (msgq_slot q s ((?f + Suc i) mod ?c))" if "i < length ns" for i
    using arg_cong [OF assms(2), of "\<lambda>xs. xs ! Suc i"] that u by (simp add: msgq_items_def del: upt_Suc)
  show "rd32 s (msgq_slot q s ?f) = m"
    using arg_cong [OF assms(2), of "\<lambda>xs. xs ! 0"] u D(8) by (simp add: msgq_items_def del: upt_Suc)
  note F = msgq_store_fields [OF assms(1) D(8), where m = None and f = "Some f" and u = u]
  have k: "msgq_store q k None (Some f) u s = msgq_store q ?f None (Some f) u s" by (simp add: msgq_store_def)
  have "msgq_items q (msgq_store q ?f None (Some f) u s) = ns"
    unfolding msgq_items_def F(1-4) assms(3,4) option.case
    by (rule nth_equalityI) (use D(5) in \<open>simp_all add: F(5) n u mod_simps\<close>)
  then show "msgq_step q ns s (msgq_store q k None (Some f) u s)"
    using msgq_store_ok [OF assms(1) D(8), of "Some f" u None] F assms(3,4) D(5,7) k
    by (simp add: msgq_step_def)
qed


section \<open>The operations\<close>

lemma slot_of_index: "unat i = k \<Longrightarrow> rd32 s (q + kMsgQueueArrayOffset) + i * 4 = msgq_slot q s k"
  by (auto simp: msgq_slot_def)

lemma Full_run: "msgq_ok q s \<Longrightarrow> MsgQueueIsFull q s = (Ok (msgq_used q s = msgq_cap q s), s)"
  using msgq_okD(5,7) [of q s]
  by (auto simp: MsgQueueIsFull_def run_simps msgq_reads msgq_used_def msgq_cap_def word_le_nat_alt unat_eq_zero)

lemma Empty_run: "msgq_ok q s \<Longrightarrow> MsgQueueIsEmpty q s = (Ok (msgq_items q s = []), s)"
  by (simp add: MsgQueueIsEmpty_def run_simps msgq_reads msgq_items_def msgq_used_def unat_eq_zero)

lemma cap_ne: "msgq_ok q s \<Longrightarrow> rd32 s (q + kMsgQueueCountOffset) \<noteq> 0"
  using msgq_okD(5) [of q s] by (auto simp: msgq_cap_def)

lemma used_succ:
  assumes "msgq_ok q s" and "msgq_used q s < msgq_cap q s"
  shows "unat (rd32 s (q + kMsgQueueUsedOffset) + 1) = msgq_used q s + 1"
  using assms msgq_okD(6) [OF assms(1)] by (simp add: msgq_used_def unat_word_ariths)

lemma Enqueue_run:
  assumes "msgq_ok q s" and "msgq_used q s < msgq_cap q s"
  shows "\<exists>t. MsgQueueEnqueue q m s = (Ok (), t) \<and> msgq_step q (msgq_items q s @ [m]) s t"
proof -
  note D = msgq_okD [OF assms(1)]
  let ?k = "(msgq_first q s + msgq_used q s) mod msgq_cap q s"
  let ?i = "(rd32 s (q + kMsgQueueFirstOffset) + rd32 s (q + kMsgQueueUsedOffset)) mod rd32 s (q + kMsgQueueCountOffset)"
  let ?u = "rd32 s (q + kMsgQueueUsedOffset) + 1"
  have "unat ?i = ?k"
    using D(6-8) unfolding msgq_first_def msgq_used_def msgq_cap_def by (intro word_index)
  then have slot: "rd32 s (q + kMsgQueueArrayOffset) + ?i * 4 = msgq_slot q s ?k" by (rule slot_of_index)
  have r: "ram s (msgq_slot q s ?k)" using D(5,9) by simp
  have "MsgQueueEnqueue q m s = (Ok (), msgq_store q ?k (Some m) None ?u s)"
    using D(4) r cap_ne [OF assms(1)]
    by (simp add: MsgQueueEnqueue_def run_simps msgq_reads [OF assms(1)] Let_def slot msgq_store_def)
  moreover have "msgq_step q (msgq_items q s @ [m]) s (msgq_store q ?k (Some m) None ?u s)"
    by (rule enqueue_items [OF assms refl used_succ [OF assms]])
  ultimately show ?thesis by blast
qed

lemma Jam_run:
  assumes "msgq_ok q s" and "msgq_used q s < msgq_cap q s"
  shows "\<exists>t. MsgQueueJam q m s = (Ok (), t) \<and> msgq_step q (m # msgq_items q s) s t"
proof -
  note D = msgq_okD [OF assms(1)]
  let ?f = "rd32 s (q + kMsgQueueFirstOffset)" and ?c = "rd32 s (q + kMsgQueueCountOffset)"
  let ?i = "if ?f = 0 then ?c - 1 else ?f - 1"
  let ?k = "if msgq_first q s = 0 then msgq_cap q s - 1 else msgq_first q s - 1"
  let ?u = "rd32 s (q + kMsgQueueUsedOffset) + 1"
  have i: "unat ?i = ?k"
    using cap_ne [OF assms(1)] by (simp add: msgq_first_def msgq_cap_def unat_eq_zero unat_minus_one)
  then have slot: "rd32 s (q + kMsgQueueArrayOffset) + ?i * 4 = msgq_slot q s ?k" by (rule slot_of_index)
  have z: "msgq_first q s = 0 \<longleftrightarrow> ?f = 0" by (simp add: msgq_first_def unat_eq_zero)
  have "?k < msgq_cap q s" using D(5,8) by (auto split: if_splits)
  then have r: "ram s (msgq_slot q s ?k)" by (rule D(9))
  have "MsgQueueJam q m s = (Ok (), msgq_store q ?k (Some m) (Some ?i) ?u s)"
    by (cases "?f = 0")
      (use D(3,4) r cap_ne [OF assms(1)] slot z in
        \<open>simp_all add: MsgQueueJam_def run_simps msgq_reads [OF assms(1)] Let_def msgq_store_def\<close>)
  moreover have "msgq_step q (m # msgq_items q s) s (msgq_store q ?k (Some m) (Some ?i) ?u s)"
    by (rule jam_items [OF assms refl i used_succ [OF assms]])
  ultimately show ?thesis by blast
qed

lemma Dequeue_run:
  assumes "msgq_ok q s" and "msgq_items q s = m # ns"
  shows "\<exists>t. MsgQueueDequeue q s = (Ok m, t) \<and> msgq_step q ns s t"
proof -
  note D = msgq_okD [OF assms(1)]
  have used: "0 < msgq_used q s" using arg_cong [OF assms(2), of length] by simp
  then have u0: "rd32 s (q + kMsgQueueUsedOffset) \<noteq> 0" by (auto simp: msgq_used_def)
  let ?f = "(rd32 s (q + kMsgQueueFirstOffset) + 1) mod rd32 s (q + kMsgQueueCountOffset)"
  let ?u = "rd32 s (q + kMsgQueueUsedOffset) - 1"
  have f: "unat ?f = (msgq_first q s + 1) mod msgq_cap q s"
    using word_index(2) [of "rd32 s (q + kMsgQueueFirstOffset)" "rd32 s (q + kMsgQueueCountOffset)" 1] D(5,6,8)
    by (simp add: msgq_first_def msgq_cap_def)
  have u: "unat ?u = msgq_used q s - 1" using u0 by (simp add: msgq_used_def unat_minus_one)
  have slot: "rd32 s (q + kMsgQueueArrayOffset) + rd32 s (q + kMsgQueueFirstOffset) * 4 = msgq_slot q s (msgq_first q s)"
    by (rule slot_of_index) (simp add: msgq_first_def)
  note I = dequeue_items [OF assms f u]
  have "MsgQueueDequeue q s = (Ok m, msgq_store q 0 None (Some ?f) ?u s)"
    using D(3,4) D(9) [OF D(8)] cap_ne [OF assms(1)] u0 I(2)
    by (simp add: MsgQueueDequeue_def run_simps msgq_reads [OF assms(1)] Let_def slot msgq_store_def)
  then show ?thesis using I(1) by blast
qed

interpretation mq: bounded_deque "msgq_ok q" "msgq_items q" "msgq_cap q" "MsgQueueEnqueue q" "MsgQueueJam q" "MsgQueueDequeue q"
  for q
proof
  fix s :: "'a memory_scheme" and m
  assume s: "msgq_ok q s" "length (msgq_items q s) < msgq_cap q s"
  show "\<exists>t. MsgQueueEnqueue q m s = (Ok (), t) \<and> msgq_ok q t \<and> msgq_items q t = msgq_items q s @ [m] \<and> msgq_cap q t = msgq_cap q s"
    using Enqueue_run [OF s(1)] s(2) unfolding msgq_step_def by fastforce
  show "\<exists>t. MsgQueueJam q m s = (Ok (), t) \<and> msgq_ok q t \<and> msgq_items q t = m # msgq_items q s \<and> msgq_cap q t = msgq_cap q s"
    using Jam_run [OF s(1)] s(2) unfolding msgq_step_def by fastforce
next
  fix s :: "'a memory_scheme" and m ns
  assume "msgq_ok q s" "msgq_items q s = m # ns"
  from Dequeue_run [OF this]
  show "\<exists>t. MsgQueueDequeue q s = (Ok m, t) \<and> msgq_ok q t \<and> msgq_items q t = ns \<and> msgq_cap q t = msgq_cap q s"
    unfolding msgq_step_def by blast
qed


section \<open>The blocking loop\<close>

text \<open>The queue, its two waiting lists and the mode flags of the current context are apart.\<close>

definition msgq_apart :: "u32 \<Rightarrow> 'a memory_scheme \<Rightarrow> bool" where
  "msgq_apart q s \<longleftrightarrow> flag_ok s \<and> off_msgq q s kOSCurrentContextAddr \<and> off_msgq q s q \<and> off_msgq q s (q + 8) \<and>
     flag_cell s \<notin> msgq_header q \<union> {q, q + 8} \<and> (\<forall>i < msgq_cap q s. flag_cell s \<noteq> msgq_slot q s i)"

lemma msgq_transfer:
  assumes "msgq_ok q s" and "msgq_apart q s" and "same_but_flag s t"
  shows "msgq_ok q t" "msgq_items q t = msgq_items q s" "msgq_cap q t = msgq_cap q s" "msgq_apart q t"
    "off_msgq q t = off_msgq q s"
proof -
  note B = same_but_flagD [OF assms(3)]
  note D = msgq_okD [OF assms(1)]
  have h: "rd32 t c = rd32 s c" if "c \<in> msgq_header q" for c
    using that assms(1,2) B(3) by (auto simp: msgq_ok_def msgq_apart_def)
  then have f: "msgq_cap q t = msgq_cap q s" "msgq_used q t = msgq_used q s" "msgq_first q t = msgq_first q s"
      "msgq_slot q t = msgq_slot q s"
    by (simp_all add: msgq_cap_def msgq_used_def msgq_first_def msgq_slot_def msgq_header_def fun_eq_iff)
  have sl: "rd32 t (msgq_slot q s i) = rd32 s (msgq_slot q s i)" if "i < msgq_cap q s" for i
    using that assms(2) B(3) D(9) by (auto simp: msgq_apart_def)
  show "msgq_cap q t = msgq_cap q s" by (rule f)
  show "msgq_items q t = msgq_items q s" using D(5) by (simp add: msgq_items_def f sl)
  show "msgq_ok q t" using assms(1) by (simp add: msgq_ok_def f B(2))
  show o: "off_msgq q t = off_msgq q s" by (simp add: off_msgq_def f B(2) fun_eq_iff)
  show "msgq_apart q t" using assms(2) by (simp add: msgq_apart_def o f B(1,4))
qed

lemma msgq_step_apart:
  assumes "msgq_ok q s" "msgq_apart q s" "msgq_step q xs s t"
  shows "msgq_apart q t" "rd32 t q = rd32 s q" "rd32 t (q + 8) = rd32 s (q + 8)" "flag_cell t = flag_cell s"
proof -
  have keep: "rd32 t c = rd32 s c" if "off_msgq q s c" for c using assms(3) that by (simp add: msgq_step_def)
  have cap: "msgq_cap q t = msgq_cap q s" and slots: "msgq_slot q t = msgq_slot q s" and r: "\<And>c. ram t c = ram s c"
    using assms(3) by (simp_all add: msgq_step_def)
  have o: "off_msgq q t = off_msgq q s" by (simp add: off_msgq_def cap slots r fun_eq_iff)
  have ctx: "rd32 t kOSCurrentContextAddr = rd32 s kOSCurrentContextAddr" using assms(2) keep by (simp add: msgq_apart_def)
  show c: "flag_cell t = flag_cell s" by (simp add: flag_cell_def ctx)
  show "rd32 t q = rd32 s q" "rd32 t (q + 8) = rd32 s (q + 8)" using assms(2) keep by (simp_all add: msgq_apart_def)
  show "msgq_apart q t" using assms(2) by (simp add: msgq_apart_def o c cap slots flag_ok_def ctx r)
qed

lemma bindI_run: "m s = (Ok a, s') \<Longrightarrow> f a s' = r \<Longrightarrow> bindP m f s = r"
  by (simp add: bindP_Ok)

text \<open>One round that can proceed: the operation runs, nobody waits on the other side.\<close>

lemma MsgQueueOp_ready:
  assumes "flag_ok s" and "q + wake \<noteq> 0"
    and step: "\<And>s1. same_but_flag s s1 \<Longrightarrow> Cpu s1 = Cpu s \<Longrightarrow>
      \<exists>s2. ready q s1 = (Ok True, s1) \<and> apply q s1 = (Ok (), s2) \<and> R s2 \<and> flag_ok s2 \<and> ram s2 (q + wake) \<and>
        rd32 s2 (q + wake) = 0 \<and> q + wake \<noteq> flag_cell s2"
  shows "\<exists>s2 t. MsgQueueOp env (Suc n) q block ready apply wake blk s = (Ok 1, t) \<and> R s2 \<and> same_but_flag s2 t \<and>
    gpr (Cpu t) 3 = 1 \<and> g_interrupts_enabled t = g_interrupts_enabled s"
proof -
  obtain irq s1 where s1: "OS__DisableInterrupts s = (Ok irq, s1)" "same_but_flag s s1" "Cpu s1 = Cpu s"
    and irq: "(irq \<noteq> 0) = g_interrupts_enabled s"
    using Disable_frame [OF assms(1)] by (auto split: if_splits)
  obtain s2 where s2: "ready q s1 = (Ok True, s1)" "apply q s1 = (Ok (), s2)" "R s2" "flag_ok s2"
      "ram s2 (q + wake)" "rd32 s2 (q + wake) = 0" "q + wake \<noteq> flag_cell s2"
    using step [OF s1(2,3)] by blast
  obtain s3 where s3: "set_gpr 3 (q + wake) s2 = (Ok (), s3)" "same_but_flag s2 s3" "gpr (Cpu s3) 3 = q + wake"
    using set_gpr_frame [OF s2(4), of 3 "q + wake"] by auto
  note B = same_but_flagD [OF s3(2)]
  have "ram s3 (q + wake)" "rd32 s3 (q + wake) = 0" "q + wake \<noteq> flag_cell s3"
    using B s2(5-7) by auto
  from wake_empty [OF B(1) this assms(2) s3(3)]
  obtain s4 where s4: "OSWakeupThread env (Suc n) s3 = (Ok (), s4)" "same_but_flag s3 s4" by blast
  obtain s5 where s5: "set_gpr 3 1 s4 = (Ok (), s5)" "same_but_flag s4 s5" "gpr (Cpu s5) 3 = 1"
    using set_gpr_frame [OF same_but_flagD(1) [OF s4(2)], of 3 1] by auto
  obtain t where t: "ignoreP (OS__RestoreInterrupts irq) s5 = (Ok (), t)" "same_but_flag s5 t"
      "g_interrupts_enabled t = (irq \<noteq> 0)" "Cpu t = Cpu s5"
    using Restore_frame [OF same_but_flagD(1) [OF s5(2)]] by blast
  let ?done = "stmts [apply q, set_gpr 3 (q + wake), OSWakeupThread env (Suc n), set_gpr 3 1,
    ignoreP (OS__RestoreInterrupts irq)]"
  have "?done s1 = (Ok (), t)" by (simp add: run_simps s2(2) s3(1) s4(1) s5(1) t(1))
  then have ok: "thenP ?done (returnP (Some 1)) s1 = (Ok (Some 1), t)" by (simp add: thenP_def bindP_def returnP_def)
  have "MsgQueueOp env (Suc n) q block ready apply wake blk s = (Ok 1, t)"
    unfolding MsgQueueOp_def bindP_Ok [of OS__DisableInterrupts, OF s1(1)]
    by (rule loopP_done, rule bindI_run, rule catchP_Ok, rule bindI_run, rule s2(1), unfold if_True, rule ok)
      (simp add: returnP_run)
  moreover have "same_but_flag s2 t"
    using s3(2) s4(2) s5(2) t(2) by (blast intro: same_but_flag_trans)
  ultimately show ?thesis using s2(3) t(3,4) s5(3) irq by auto
qed

text \<open>A round that cannot proceed ends a call that must not block.\<close>

lemma MsgQueueOp_busy:
  assumes "flag_ok s" and step: "\<And>s1. same_but_flag s s1 \<Longrightarrow> ready q s1 = (Ok False, s1)"
  shows "\<exists>t. MsgQueueOp env (Suc n) q False ready apply wake blk s = (Ok 0, t) \<and> same_but_flag s t \<and>
    gpr (Cpu t) 3 = 0 \<and> g_interrupts_enabled t = g_interrupts_enabled s"
proof -
  obtain irq s1 where s1: "OS__DisableInterrupts s = (Ok irq, s1)" "same_but_flag s s1" "Cpu s1 = Cpu s"
    and irq: "(irq \<noteq> 0) = g_interrupts_enabled s"
    using Disable_frame [OF assms(1)] by (auto split: if_splits)
  obtain s5 where s5: "set_gpr 3 0 s1 = (Ok (), s5)" "same_but_flag s1 s5" "gpr (Cpu s5) 3 = 0"
    using set_gpr_frame [OF same_but_flagD(1) [OF s1(2)], of 3 0] by auto
  obtain t where t: "ignoreP (OS__RestoreInterrupts irq) s5 = (Ok (), t)" "same_but_flag s5 t"
      "g_interrupts_enabled t = (irq \<noteq> 0)" "Cpu t = Cpu s5"
    using Restore_frame [OF same_but_flagD(1) [OF s5(2)]] by blast
  have "MsgQueueOp env (Suc n) q False ready apply wake blk s = (Ok 0, t)"
    unfolding MsgQueueOp_def bindP_Ok [of OS__DisableInterrupts, OF s1(1)]
    by (rule loopP_done, rule bindI_run, rule catchP_Ok, rule bindI_run, rule step [OF s1(2)], unfold if_False,
      rule returnP_run) (simp add: run_simps s5(1) t(1))
  then show ?thesis
    using s1(2) s5(2,3) t irq by (auto intro: same_but_flag_trans)
qed


section \<open>Properties\<close>

text \<open>C15: the ring buffer of a message queue implements the list of its pending messages: enqueueing
  appends, jamming prepends, dequeueing takes the head, each within the capacity and without
  touching a word outside the queue, and the full and empty tests are those of the list.\<close>

theorem message_ring_refines_list:
  assumes "msgq_ok q s"
  shows "MsgQueueIsFull q s = (Ok (length (msgq_items q s) = msgq_cap q s), s) \<and>
    MsgQueueIsEmpty q s = (Ok (msgq_items q s = []), s) \<and>
    (if length (msgq_items q s) < msgq_cap q s
     then (\<exists>t. MsgQueueEnqueue q m s = (Ok (), t) \<and> msgq_step q (msgq_items q s @ [m]) s t) \<and>
          (\<exists>t. MsgQueueJam q m s = (Ok (), t) \<and> msgq_step q (m # msgq_items q s) s t)
     else True) \<and>
    (case msgq_items q s of [] \<Rightarrow> MsgQueueDequeue q s = (Ok 0, s)
     | x # xs \<Rightarrow> \<exists>t. MsgQueueDequeue q s = (Ok x, t) \<and> msgq_step q xs s t)"
proof -
  have "MsgQueueDequeue q s = (Ok 0, s)" if "msgq_items q s = []"
    using that by (simp add: MsgQueueDequeue_def run_simps msgq_reads [OF assms] msgq_items_def msgq_used_def unat_eq_zero)
  then show ?thesis
    using Full_run [OF assms] Empty_run [OF assms] Enqueue_run [OF assms, of m] Jam_run [OF assms, of m]
      Dequeue_run [OF assms]
    by (simp split: list.split)
qed

text \<open>A queue of capacity 2 at \<open>0x80500000\<close> with its ring at \<open>0x80500100\<close>, empty, \<open>first\<close> at its end.\<close>

definition sample_msgq :: os_state where
  "sample_msgq = writes wr32 (boot_os\<lparr>Cpu := boot_cpu\<lparr>gpr := (\<lambda>_. 0)(3 := 0x80500000, 4 := 7)\<rparr>\<rparr>)
     [(0x80500010, 0x80500100), (0x80500014, 2), (0x80500018, 1)]"

lemma sample_msgq_rd:
  "ram sample_msgq c \<longleftrightarrow> 4 dvd unat c \<and> ram_window c 4"
  "ram sample_msgq c \<Longrightarrow> rd32 sample_msgq c = upds (\<lambda>_. 0) [(0x80500010, 0x80500100), (0x80500014, 2), (0x80500018, 1)] c"
proof -
  let ?b = "boot_os\<lparr>Cpu := boot_cpu\<lparr>gpr := (\<lambda>_. 0)(3 := 0x80500000, 4 := 7)\<rparr>\<rparr>"
  show r: "ram sample_msgq c \<longleftrightarrow> 4 dvd unat c \<and> ram_window c 4" for c by (simp add: sample_msgq_def boot_ram)
  assume "ram sample_msgq c"
  then have "ram ?b c" by (simp add: sample_msgq_def)
  moreover have "\<forall>c \<in> {0x80500010, 0x80500014, 0x80500018}. ram ?b c" by (simp add: ram_eval)
  ultimately have "rd32 sample_msgq c = upds (rd32 ?b) [(0x80500010, 0x80500100), (0x80500014, 2), (0x80500018, 1)] c"
    unfolding sample_msgq_def by (intro gm.rd_writes) auto
  also have "\<dots> = upds (\<lambda>_. 0) [(0x80500010, 0x80500100), (0x80500014, 2), (0x80500018, 1)] c"
    by (rule upds_agree) (simp add: boot_rd)
  finally show "rd32 sample_msgq c = upds (\<lambda>_. 0) [(0x80500010, 0x80500100), (0x80500014, 2), (0x80500018, 1)] c" .
qed

lemma sample_msgq_ok: "msgq_ok 0x80500000 sample_msgq" "msgq_items 0x80500000 sample_msgq = []"
  "msgq_cap 0x80500000 sample_msgq = 2" "msgq_apart 0x80500000 sample_msgq"
proof -
  have f: "msgq_cap 0x80500000 sample_msgq = 2" "msgq_used 0x80500000 sample_msgq = 0"
      "msgq_first 0x80500000 sample_msgq = 1" "msgq_slot 0x80500000 sample_msgq i = 0x80500100 + of_nat i * 4"
      "flag_cell sample_msgq = 0x1A0" for i
    by (simp_all add: msgq_cap_def msgq_used_def msgq_first_def msgq_slot_def msgq_offsets sample_msgq_rd
        ram_window_def kMem1Size_def flag_cell_def os_addrs)
  have two: "(\<forall>i < (2 :: nat). P i) \<longleftrightarrow> P 0 \<and> P 1" for P by (metis One_nat_def less_2_cases_iff)
  show "msgq_cap 0x80500000 sample_msgq = 2" by (rule f)
  show "msgq_items 0x80500000 sample_msgq = []" by (simp add: msgq_items_def f)
  show "msgq_ok 0x80500000 sample_msgq"
    by (simp add: msgq_ok_def msgq_header_def msgq_offsets f two sample_msgq_rd(1) ram_window_def kMem1Size_def)
  show "msgq_apart 0x80500000 sample_msgq"
    by (simp add: msgq_apart_def off_msgq_def msgq_header_def msgq_offsets f two sample_msgq_rd ram_window_def kMem1Size_def
        flag_ok_def os_addrs)
qed

theorem message_ring_refines_list_witness:
  "\<exists>t. MsgQueueEnqueue 0x80500000 7 sample_msgq = (Ok (), t) \<and> msgq_items 0x80500000 t = [7]"
  using message_ring_refines_list [OF sample_msgq_ok(1), of 7] sample_msgq_ok
  by (auto simp: msgq_step_def)

text \<open>C16: messages are received in the order they were sent, behind those already pending, for as
  many as the queue has room for; jammed messages come out first, last jammed first.\<close>

theorem message_order:
  assumes "msgq_ok q s" and "length (msgq_items q s) + length xs \<le> msgq_cap q s"
  shows "(\<exists>t. thenP (stmts (map (MsgQueueEnqueue q) xs)) (repeatP (length (msgq_items q s) + length xs) (MsgQueueDequeue q)) s =
        (Ok (msgq_items q s @ xs), t) \<and> msgq_ok q t \<and> msgq_items q t = []) \<and>
    (\<exists>t. thenP (stmts (map (MsgQueueJam q) xs)) (repeatP (length xs + length (msgq_items q s)) (MsgQueueDequeue q)) s =
        (Ok (rev xs @ msgq_items q s), t) \<and> msgq_ok q t \<and> msgq_items q t = [])"
  using mq.fifo [OF assms] mq.lifo [OF assms] by (rule conjI)

theorem message_order_witness:
  "\<exists>t. thenP (stmts (map (MsgQueueEnqueue 0x80500000) [3, 4])) (repeatP 2 (MsgQueueDequeue 0x80500000)) sample_msgq =
    (Ok [3, 4], t)"
  using message_order [OF sample_msgq_ok(1), of "[3, 4]"] unfolding sample_msgq_ok by (auto simp: numeral_2_eq_2)


text \<open>What a caller of a message operation sees when nobody waits on the queue.\<close>

definition msg_call :: "u32 \<Rightarrow> os_state \<Rightarrow> (os_state, int) prog \<Rightarrow> int \<Rightarrow> u32 list \<Rightarrow> bool" where
  "msg_call q s m r xs \<longleftrightarrow> (\<exists>t. m s = (Ok r, t) \<and> msgq_ok q t \<and> msgq_items q t = xs \<and>
     to_i32 (gpr (Cpu t) 3) = r \<and> g_interrupts_enabled t = g_interrupts_enabled s)"

lemma msgq_apartD:
  assumes "msgq_apart q s"
  shows "flag_ok s" "ram s (q + 8)" "ram s q" "q + 8 \<noteq> flag_cell s" "q \<noteq> flag_cell s" "q \<noteq> 0" "q + 8 \<noteq> 0"
proof -
  have nz: "c \<noteq> 0" if "ram s c" for c using that by (auto simp: ram_def ram_window_def)
  show "ram s (q + 8)" "ram s q" using assms by (simp_all add: msgq_apart_def off_msgq_def)
  then show "q \<noteq> 0" "q + 8 \<noteq> 0" using nz by blast+
qed (use assms in \<open>auto simp: msgq_apart_def\<close>)

lemma call_ready:
  assumes "msgq_ok q s" "msgq_apart q s" and w: "wake = 0 \<or> wake = 8" "rd32 s (q + wake) = 0"
    and step: "\<And>s1. msgq_ok q s1 \<Longrightarrow> msgq_items q s1 = msgq_items q s \<Longrightarrow> msgq_cap q s1 = msgq_cap q s \<Longrightarrow>
      \<exists>s2. ready q s1 = (Ok True, s1) \<and> apply q s1 = (Ok (), s2) \<and> msgq_step q xs s1 s2"
  shows "msg_call q s (MsgQueueOp env (Suc n) q block ready apply wake blk) 1 xs"
proof -
  note A = msgq_apartD [OF assms(2)]
  have nz: "q + wake \<noteq> 0" using w A by auto
  let ?R = "\<lambda>u. msgq_ok q u \<and> msgq_items q u = xs \<and> msgq_apart q u"
  have "\<exists>s2 t. MsgQueueOp env (Suc n) q block ready apply wake blk s = (Ok 1, t) \<and> ?R s2 \<and> same_but_flag s2 t \<and>
    gpr (Cpu t) 3 = 1 \<and> g_interrupts_enabled t = g_interrupts_enabled s"
  proof (rule MsgQueueOp_ready [OF A(1) nz])
    fix s1 assume s1: "same_but_flag s s1"
    note T = msgq_transfer [OF assms(1,2) s1] and B = same_but_flagD [OF s1]
    obtain s2 where s2: "ready q s1 = (Ok True, s1)" "apply q s1 = (Ok (), s2)" "msgq_step q xs s1 s2"
      using step [OF T(1,2,3)] by blast
    note P = msgq_step_apart [OF T(1,4) s2(3)]
    have "rd32 s1 (q + wake) = 0" using w A B(3) by auto
    then have "rd32 s2 (q + wake) = 0" using w P by auto
    moreover have "ram s2 (q + wake)" "q + wake \<noteq> flag_cell s2" "flag_ok s2"
      using msgq_apartD [OF P(1)] w(1) by auto
    moreover have "?R s2" using s2(3) P(1) by (simp add: msgq_step_def)
    ultimately show "\<exists>s2. ready q s1 = (Ok True, s1) \<and> apply q s1 = (Ok (), s2) \<and> ?R s2 \<and> flag_ok s2 \<and>
        ram s2 (q + wake) \<and> rd32 s2 (q + wake) = 0 \<and> q + wake \<noteq> flag_cell s2"
      using s2(1,2) by blast
  qed
  then obtain s2 t where t: "MsgQueueOp env (Suc n) q block ready apply wake blk s = (Ok 1, t)" "?R s2"
      "same_but_flag s2 t" "gpr (Cpu t) 3 = 1" "g_interrupts_enabled t = g_interrupts_enabled s"
    by blast
  have "msgq_ok q t" "msgq_items q t = xs"
    using t(2) msgq_transfer(1,2) [OF _ _ t(3), of q] by simp_all
  then show ?thesis using t unfolding msg_call_def by (auto simp: to_i32_def)
qed

lemma call_busy:
  assumes "msgq_ok q s" "msgq_apart q s"
    and step: "\<And>s1. msgq_ok q s1 \<Longrightarrow> msgq_items q s1 = msgq_items q s \<Longrightarrow> msgq_cap q s1 = msgq_cap q s \<Longrightarrow>
      ready q s1 = (Ok False, s1)"
  shows "msg_call q s (MsgQueueOp env (Suc n) q False ready apply wake blk) 0 (msgq_items q s)"
proof -
  have "ready q s1 = (Ok False, s1)" if "same_but_flag s s1" for s1
    using msgq_transfer [OF assms(1,2) that] step by blast
  from MsgQueueOp_busy [where ready = ready and q = q, OF msgq_apartD(1) [OF assms(2)] this]
  obtain t where t: "MsgQueueOp env (Suc n) q False ready apply wake blk s = (Ok 0, t)" "same_but_flag s t"
      "gpr (Cpu t) 3 = 0" "g_interrupts_enabled t = g_interrupts_enabled s"
    by blast
  have "msgq_ok q t" "msgq_items q t = msgq_items q s"
    using msgq_transfer(1,2) [OF assms(1,2) t(2)] by simp_all
  then show ?thesis using t unfolding msg_call_def by (auto simp: to_i32_def)
qed

lemma not_full_run:
  "msgq_ok q s \<Longrightarrow> bindP (MsgQueueIsFull q) (\<lambda>full. returnP (\<not> full)) s = (Ok (length (msgq_items q s) \<noteq> msgq_cap q s), s)"
  by (simp add: bindP_Ok [OF Full_run] returnP_run)

lemma not_empty_run:
  "msgq_ok q s \<Longrightarrow> bindP (MsgQueueIsEmpty q) (\<lambda>empty. returnP (\<not> empty)) s = (Ok (msgq_items q s \<noteq> []), s)"
  by (simp add: bindP_Ok [OF Empty_run] returnP_run)

lemma getg_bind: "bindP (get_gpr i) f s = f (gpr (Cpu s) i) s"
  by (simp add: get_gpr_def run_simps)

lemma enqueue_next:
  "msgq_ok q s \<Longrightarrow> msgq_items q s = xs \<Longrightarrow> length xs < msgq_cap q s \<Longrightarrow>
   \<exists>t. MsgQueueEnqueue q m s = (Ok (), t) \<and> msgq_step q (xs @ [m]) s t"
  using Enqueue_run [of q s m] by auto

lemma jam_next:
  "msgq_ok q s \<Longrightarrow> msgq_items q s = xs \<Longrightarrow> length xs < msgq_cap q s \<Longrightarrow>
   \<exists>t. MsgQueueJam q m s = (Ok (), t) \<and> msgq_step q (m # xs) s t"
  using Jam_run [of q s m] by auto

text \<open>The conditions and the changes of the three calls.\<close>

abbreviation not_full :: "u32 \<Rightarrow> (os_state, bool) prog" where
  "not_full q \<equiv> bindP (MsgQueueIsFull q) (\<lambda>full. returnP (\<not> full))"

abbreviation not_empty :: "u32 \<Rightarrow> (os_state, bool) prog" where
  "not_empty q \<equiv> bindP (MsgQueueIsEmpty q) (\<lambda>empty. returnP (\<not> empty))"

abbreviation take_out :: "u32 \<Rightarrow> u32 \<Rightarrow> (os_state, unit) prog" where
  "take_out m q \<equiv> bindP (MsgQueueDequeue q) (\<lambda>msg. whenP (m \<noteq> 0) (Write32 m msg))"

lemma message_ops:
  assumes "gpr (Cpu s) 3 = q" "q \<noteq> 0"
  shows "OS__SendMessage env (Suc n) s =
      MsgQueueOp env (Suc n) q (gpr (Cpu s) 5 AND 1 \<noteq> 0) not_full (\<lambda>q. MsgQueueEnqueue q (gpr (Cpu s) 4)) 8 0 s"
    and "OS__JamMessage env (Suc n) s =
      MsgQueueOp env (Suc n) q (gpr (Cpu s) 5 AND 1 \<noteq> 0) not_full (\<lambda>q. MsgQueueJam q (gpr (Cpu s) 4)) 8 0 s"
    and "OS__ReceiveMessage env (Suc n) s =
      MsgQueueOp env (Suc n) q (gpr (Cpu s) 5 AND 1 \<noteq> 0) not_empty (take_out (gpr (Cpu s) 4)) 0 8 s"
  using assms
  by (simp_all add: OS__SendMessage_def OS__JamMessage_def OS__ReceiveMessage_def getg_bind Let_def
      kMsgQueueRecvOffset_def kMsgQueueSendOffset_def)

lemma put_calls:
  assumes "msgq_ok q s" "msgq_apart q s" "rd32 s (q + 8) = 0" "length (msgq_items q s) < msgq_cap q s"
  shows "msg_call q s (MsgQueueOp env (Suc n) q blk not_full (\<lambda>q. MsgQueueEnqueue q m) 8 w) 1 (msgq_items q s @ [m])"
    and "msg_call q s (MsgQueueOp env (Suc n) q blk not_full (\<lambda>q. MsgQueueJam q m) 8 w) 1 (m # msgq_items q s)"
proof -
  have "\<exists>s2. not_full q s1 = (Ok True, s1) \<and> MsgQueueEnqueue q m s1 = (Ok (), s2) \<and> msgq_step q (msgq_items q s @ [m]) s1 s2"
    "\<exists>s2. not_full q s1 = (Ok True, s1) \<and> MsgQueueJam q m s1 = (Ok (), s2) \<and> msgq_step q (m # msgq_items q s) s1 s2"
    if "msgq_ok q s1" "msgq_items q s1 = msgq_items q s" "msgq_cap q s1 = msgq_cap q s" for s1
    using enqueue_next [OF that(1,2), of m] jam_next [OF that(1,2), of m] that(2,3) not_full_run [OF that(1)] assms(4) by simp_all
  then show "msg_call q s (MsgQueueOp env (Suc n) q blk not_full (\<lambda>q. MsgQueueEnqueue q m) 8 w) 1 (msgq_items q s @ [m])"
    "msg_call q s (MsgQueueOp env (Suc n) q blk not_full (\<lambda>q. MsgQueueJam q m) 8 w) 1 (m # msgq_items q s)"
    using call_ready [OF assms(1,2), where wake = 8 and ready = not_full] assms(3) by simp_all
qed

lemma dequeue_next:
  assumes "msgq_ok q s" "msgq_items q s = x # xs"
  obtains t where "MsgQueueDequeue q s = (Ok x, t)" "msgq_step q xs s t" "not_empty q s = (Ok True, s)"
  using Dequeue_run [OF assms] not_empty_run [OF assms(1)] assms(2) by auto

lemma drop_call:
  assumes "msgq_ok q s" "msgq_apart q s" "rd32 s q = 0" "msgq_items q s = x # xs"
  shows "msg_call q s (MsgQueueOp env (Suc n) q blk not_empty (take_out 0) 0 w) 1 xs"
proof (rule call_ready [OF assms(1,2)])
  fix s1 :: os_state assume s1: "msgq_ok q s1" "msgq_items q s1 = msgq_items q s"
  from dequeue_next [OF s1(1) s1(2) [unfolded assms(4)]]
  obtain t where "MsgQueueDequeue q s1 = (Ok x, t)" "msgq_step q xs s1 t" "not_empty q s1 = (Ok True, s1)" .
  then show "\<exists>s2. not_empty q s1 = (Ok True, s1) \<and> take_out 0 q s1 = (Ok (), s2) \<and> msgq_step q xs s1 s2"
    by (simp add: run_simps)
qed (use assms(3) in simp_all)




text \<open>The store of the received message leaves the queue alone.\<close>

lemma store_received:
  assumes "msgq_ok q s" "msgq_apart q s" "off_msgq q s out" "out \<noteq> kOSCurrentContextAddr"
  shows "msgq_ok q (wr32 s out x)" "msgq_items q (wr32 s out x) = msgq_items q s" "msgq_apart q (wr32 s out x)"
    "flag_cell (wr32 s out x) = flag_cell s"
proof -
  let ?t = "wr32 s out x"
  have r: "ram s out" using assms(3) by (simp add: off_msgq_def)
  have keep: "rd32 ?t c = rd32 s c" if "ram s c" "c \<noteq> out" for c using that r by (simp add: rd32_wr32_other)
  note D = msgq_okD [OF assms(1)]
  have off: "c \<in> msgq_header q \<Longrightarrow> c \<noteq> out" "i < msgq_cap q s \<Longrightarrow> msgq_slot q s i \<noteq> out" for c i
    using assms(3) by (auto simp: off_msgq_def)
  have f: "msgq_cap q ?t = msgq_cap q s" "msgq_used q ?t = msgq_used q s" "msgq_first q ?t = msgq_first q s" "msgq_slot q ?t = msgq_slot q s"
    using keep D(1-4) off(1) by (simp_all add: msgq_cap_def msgq_used_def msgq_first_def msgq_slot_def msgq_header_def fun_eq_iff)
  have ctx: "rd32 ?t kOSCurrentContextAddr = rd32 s kOSCurrentContextAddr"
    using keep assms(2,4) by (auto simp: msgq_apart_def off_msgq_def)
  show "msgq_ok q ?t" using assms(1) by (simp add: msgq_ok_def f)
  show "msgq_items q ?t = msgq_items q s" using D(5,9) off(2) keep by (simp add: msgq_items_def f)
  show fc: "flag_cell ?t = flag_cell s" by (simp add: flag_cell_def ctx)
  have "off_msgq q ?t = off_msgq q s" by (simp add: off_msgq_def f fun_eq_iff)
  then show "msgq_apart q ?t" using assms(2) by (simp add: msgq_apart_def fc f flag_ok_def ctx)
qed

text \<open>C18: a receive on a queue where no thread waits stores the oldest message where r4 points and takes
  it off the queue.\<close>

theorem receive_delivers:
  assumes "msgq_ok q s" and "msgq_apart q s" and "gpr (Cpu s) 3 = q" and "rd32 s q = 0"
    and "msgq_items q s = x # xs" and "gpr (Cpu s) 4 = out" and "off_msgq q s out"
    and "out \<notin> {q, q + 8, kOSCurrentContextAddr, flag_cell s}"
  shows "\<exists>t. OS__ReceiveMessage env (Suc n) s = (Ok 1, t) \<and> rd32 t out = x \<and> msgq_ok q t \<and> msgq_items q t = xs \<and>
    g_interrupts_enabled t = g_interrupts_enabled s"
proof -
  note A = msgq_apartD [OF assms(2)]
  let ?R = "\<lambda>u. msgq_ok q u \<and> msgq_items q u = xs \<and> msgq_apart q u \<and> rd32 u out = x \<and> ram u out \<and> flag_cell u = flag_cell s"
  note run = message_ops(3) [OF assms(3) A(6), of env n, unfolded assms(6)]
  have nz: "q + 0 \<noteq> 0" using A(6) by simp
  have "\<exists>s2 t. MsgQueueOp env (Suc n) q (gpr (Cpu s) 5 AND 1 \<noteq> 0) not_empty (take_out out) 0 8 s = (Ok 1, t) \<and> ?R s2 \<and>
    same_but_flag s2 t \<and> gpr (Cpu t) 3 = 1 \<and> g_interrupts_enabled t = g_interrupts_enabled s"
  proof (rule MsgQueueOp_ready [OF A(1) nz])
    fix s1 assume s1: "same_but_flag s s1"
    note T = msgq_transfer [OF assms(1,2) s1] and B = same_but_flagD [OF s1]
    from dequeue_next [OF T(1) T(2) [unfolded assms(5)]]
    obtain s2 where s2: "MsgQueueDequeue q s1 = (Ok x, s2)" "msgq_step q xs s1 s2" "not_empty q s1 = (Ok True, s1)" .
    note P = msgq_step_apart [OF T(1,4) s2(2)]
    have ok2: "msgq_ok q s2" "msgq_items q s2 = xs" using s2(2) by (simp_all add: msgq_step_def)
    have "off_msgq q s1 out" using assms(7) T(5) by simp
    then have o2: "off_msgq q s2 out" using s2(2) by (simp add: off_msgq_def msgq_step_def)
    then have r: "ram s2 out" by (simp add: off_msgq_def)
    then have "out \<noteq> 0" by (auto simp: ram_def ram_window_def)
    then have rx: "take_out out q s1 = (Ok (), wr32 s2 out x)" using s2(1) r by (simp add: run_simps)
    have "out \<noteq> kOSCurrentContextAddr" using assms(8) by simp
    note W = store_received [OF ok2(1) P(1) o2 this, of x]
    have "rd32 s2 q = 0" using P(2) B(3) A assms(4) by simp
    then have "rd32 (wr32 s2 out x) q = 0" using rd32_wr32_other [of s2 out q x] r assms(8) msgq_apartD(3) [OF P(1)] by auto
    moreover have "?R (wr32 s2 out x)" using W ok2(2) r P(4) B(4) by simp
    ultimately show "\<exists>s2. not_empty q s1 = (Ok True, s1) \<and> take_out out q s1 = (Ok (), s2) \<and> ?R s2 \<and> flag_ok s2 \<and> ram s2 (q + 0) \<and>
        rd32 s2 (q + 0) = 0 \<and> q + 0 \<noteq> flag_cell s2"
      using s2(3) rx msgq_apartD [OF W(3)] by auto
  qed
  then obtain s2 t where t: "MsgQueueOp env (Suc n) q (gpr (Cpu s) 5 AND 1 \<noteq> 0) not_empty (take_out out) 0 8 s = (Ok 1, t)" "?R s2"
      "same_but_flag s2 t" "g_interrupts_enabled t = g_interrupts_enabled s"
    by blast
  have "rd32 t out = x" using same_but_flagD(3) [OF t(3), of out] t(2) assms(8) by auto
  then show ?thesis using run t msgq_transfer(1,2) [OF _ _ t(3), of q] by auto
qed

definition sample_receive :: os_state where
  "sample_receive = (snd (MsgQueueEnqueue 0x80500000 9 sample_msgq))
     \<lparr>Cpu := boot_cpu\<lparr>gpr := (\<lambda>_. 0)(3 := 0x80500000, 4 := 0x80500200)\<rparr>\<rparr>"

theorem receive_delivers_witness:
  "\<exists>t. OS__ReceiveMessage quiet_env 1 sample_receive = (Ok 1, t) \<and> rd32 t 0x80500200 = 9"
proof -
  let ?q = "0x80500000 :: u32"
  obtain t where t: "MsgQueueEnqueue ?q 9 sample_msgq = (Ok (), t)" "msgq_step ?q [9] sample_msgq t"
    using enqueue_next [OF sample_msgq_ok(1,2), of 9] sample_msgq_ok(3) by auto
  have s: "sample_receive = t\<lparr>Cpu := boot_cpu\<lparr>gpr := (\<lambda>_. 0)(3 := ?q, 4 := 0x80500200)\<rparr>\<rparr>"
    by (simp add: sample_receive_def t(1))
  note P = msgq_step_apart [OF sample_msgq_ok(1,4) t(2)]
  have cong: "msgq_ok ?q (u\<lparr>Cpu := c\<rparr>) = msgq_ok ?q u" "msgq_items ?q (u\<lparr>Cpu := c\<rparr>) = msgq_items ?q u"
      "off_msgq ?q (u\<lparr>Cpu := c\<rparr>) = off_msgq ?q u" "msgq_apart ?q (u\<lparr>Cpu := c\<rparr>) = msgq_apart ?q u"
      "flag_cell (u\<lparr>Cpu := c\<rparr>) = flag_cell u" for u c
    by (simp_all add: msgq_ok_def msgq_items_def off_msgq_def msgq_apart_def msgq_cap_def msgq_used_def
        msgq_first_def msgq_slot_def flag_cell_def flag_ok_def fun_eq_iff)
  have two: "(\<forall>i < (2 :: nat). P i) \<longleftrightarrow> P 0 \<and> P 1" for P by (metis One_nat_def less_2_cases_iff)
  have sl: "msgq_slot ?q sample_msgq i = 0x80500100 + of_nat i * 4" for i
    by (simp add: msgq_slot_def msgq_offsets sample_msgq_rd ram_window_def kMem1Size_def)
  have fl: "flag_cell sample_msgq = 0x1A0"
    by (simp add: flag_cell_def sample_msgq_rd ram_window_def kMem1Size_def os_addrs)
  have off: "off_msgq ?q t 0x80500200"
    using t(2) sample_msgq_ok(3)
    by (simp add: off_msgq_def msgq_step_def msgq_header_def msgq_offsets sl two sample_msgq_rd(1) ram_window_def kMem1Size_def)
  have "rd32 t ?q = 0" unfolding P(2) by (simp add: sample_msgq_rd ram_window_def kMem1Size_def)
  moreover have "flag_cell t = 0x1A0" using P(4) fl by simp
  ultimately have "\<exists>u. OS__ReceiveMessage quiet_env (Suc 0) sample_receive = (Ok 1, u) \<and> rd32 u 0x80500200 = 9 \<and>
      msgq_ok ?q u \<and> msgq_items ?q u = [] \<and> g_interrupts_enabled u = g_interrupts_enabled sample_receive"
    by (intro receive_delivers) (use t(2) P(1) off in \<open>simp_all add: s cong msgq_step_def os_addrs\<close>)
  then show ?thesis by auto
qed


end
