(* ===== verification/Ppc_Integer.thy ===== *)
theory Ppc_Integer
  imports Os_State "HOL-Library.Signed_Division"
begin

text \<open>
  The integer instructions that translated code calls out of line:
  \<open>runtime/include/isa/ppc_isa_int.h\<close>, \<open>isa/ppc_isa_cr.h\<close>, the condition register helpers of
  \<open>isa/ppc_isa_context.h\<close> and the integer part of \<open>runtime/src/ppc_helpers.cpp\<close>.  The CPU
  context may be absent (\<open>TryGetCpuContext\<close> returns null); the time base is an argument.
\<close>

section \<open>Arithmetic\<close>

definition PPC_Slw :: "u32 \<Rightarrow> u32 \<Rightarrow> u32" where
  "PPC_Slw v amount = (if amount AND 0x20 \<noteq> 0 then 0 else push_bit (unat (amount AND 0x1F)) v)"

definition PPC_Srw :: "u32 \<Rightarrow> u32 \<Rightarrow> u32" where
  "PPC_Srw v amount = (if amount AND 0x20 \<noteq> 0 then 0 else drop_bit (unat (amount AND 0x1F)) v)"

text \<open>\<open>>>\<close> on \<open>int32_t\<close> shifts copies of the sign in.\<close>

definition PPC_Sraw :: "u32 \<Rightarrow> u32 \<Rightarrow> u32" where
  "PPC_Sraw v amount =
     (if amount AND 0x20 \<noteq> 0 then (if v AND 0x80000000 \<noteq> 0 then 0xFFFFFFFF else 0)
      else signed_drop_bit (unat (amount AND 0x1F)) v)"

definition PPC_Divwu :: "u32 \<Rightarrow> u32 \<Rightarrow> u32" where
  "PPC_Divwu dividend divisor = (if divisor = 0 then 0 else dividend div divisor)"

text \<open>\<open>/\<close> on \<open>int32_t\<close> truncates.\<close>

definition PPC_Divw :: "int \<Rightarrow> int \<Rightarrow> int" where
  "PPC_Divw dividend divisor =
     (if divisor = 0 \<or> (dividend = - (2 ^ 31) \<and> divisor = - 1) then (if dividend < 0 then - 1 else 0)
      else dividend sdiv divisor)"

definition CompareUnsigned :: "u32 \<Rightarrow> u32 \<Rightarrow> int" where
  "CompareUnsigned ua ub = (if ua < ub then - 1 else if ua > ub then 1 else 0)"

definition PpcRotl32Inline :: "u32 \<Rightarrow> u32 \<Rightarrow> u32" where
  "PpcRotl32Inline v shift = word_rotl (unat shift) v"

definition trap_condition :: "u32 \<Rightarrow> u32 \<Rightarrow> u32 \<Rightarrow> bool" where
  "trap_condition trapOptions lhs rhs \<longleftrightarrow>
     (trapOptions AND 0x10 \<noteq> 0 \<and> to_i32 lhs < to_i32 rhs) \<or>
     (trapOptions AND 0x08 \<noteq> 0 \<and> to_i32 lhs > to_i32 rhs) \<or>
     (trapOptions AND 0x04 \<noteq> 0 \<and> lhs = rhs) \<or>
     (trapOptions AND 0x02 \<noteq> 0 \<and> lhs < rhs) \<or>
     (trapOptions AND 0x01 \<noteq> 0 \<and> lhs > rhs)"

section \<open>Condition register\<close>

definition cr_value :: "bool \<Rightarrow> bool \<Rightarrow> bool \<Rightarrow> u32 \<Rightarrow> u32" where
  "cr_value lt gt eq xerv =
     (if lt then 8 else 0) OR (if gt then 4 else 0) OR (if eq then 2 else 0) OR (drop_bit 31 xerv AND 1)"

text \<open>\<open>(cr & ~(0xF << shift)) | (value << shift)\<close> at the shift of field \<open>field\<close>.\<close>

definition put_cr_field :: "u32 \<Rightarrow> nat \<Rightarrow> u32 \<Rightarrow> u32" where
  "put_cr_field crv field value =
     (crv AND NOT (push_bit ((7 - field) * 4) 0xF)) OR push_bit ((7 - field) * 4) value"

definition SetCRResident :: "u32 \<Rightarrow> u32 \<Rightarrow> nat \<Rightarrow> int \<Rightarrow> int \<Rightarrow> u32" where
  "SetCRResident crv xerv field a b = put_cr_field crv field (cr_value (a < b) (a > b) (a = b) xerv)"

definition GetCRBitResident :: "u32 \<Rightarrow> nat \<Rightarrow> nat \<Rightarrow> bool" where
  "GetCRBitResident crv field b = (drop_bit ((7 - field) * 4 + (3 - b)) crv AND 1 \<noteq> 0)"

definition PpcCrSetBitResident :: "u32 \<Rightarrow> u32 \<Rightarrow> u32 \<Rightarrow> u32" where
  "PpcCrSetBitResident crv bitIndex value =
     (let m = push_bit (unat (31 - (bitIndex AND 31))) 1
      in if value AND 1 \<noteq> 0 then crv OR m else crv AND NOT m)"

definition cr_read_bit :: "u32 \<Rightarrow> u32 \<Rightarrow> u32" where
  "cr_read_bit crv index = drop_bit (unat (31 - (index AND 31))) crv AND 1"

definition PpcCrLogicalResident :: "u32 \<Rightarrow> u32 \<Rightarrow> u32 \<Rightarrow> u32 \<Rightarrow> u32 \<Rightarrow> u32" where
  "PpcCrLogicalResident crv opc bt ba bb =
     (let a = cr_read_bit crv ba; b = cr_read_bit crv bb; k = opc AND 7;
          result =
            (if k = 0 then NOT (a OR b) AND 1
             else if k = 1 then a AND (NOT b AND 1)
             else if k = 2 then a XOR b
             else if k = 3 then NOT (a AND b) AND 1
             else if k = 4 then a AND b
             else if k = 5 then NOT (a XOR b) AND 1
             else if k = 6 then (NOT a AND 1) OR b
             else a OR b)
      in PpcCrSetBitResident crv bt result)"

definition PpcMcrfResident :: "u32 \<Rightarrow> u32 \<Rightarrow> u32 \<Rightarrow> u32" where
  "PpcMcrfResident crv dstField srcField =
     (let dst = unat (dstField AND 7); src = unat (srcField AND 7);
          field = drop_bit ((7 - src) * 4) crv AND 0xF
      in put_cr_field crv dst field)"

section \<open>State\<close>

record ppc_state = memory +
  g_currentCpuContext :: "cpu_context option"
  g_sprShadow :: "nat \<Rightarrow> u32"
  g_reservationAddr :: u32
  g_hasReservation :: bool

definition TryGetCpuContext :: "(ppc_state, cpu_context option) prog" where
  "TryGetCpuContext = getsP g_currentCpuContext"

definition put_cpu :: "(cpu_context \<Rightarrow> cpu_context) \<Rightarrow> (ppc_state, unit) prog" where
  "put_cpu f = modifyP (\<lambda>s. s\<lparr>g_currentCpuContext := map_option f (g_currentCpuContext s)\<rparr>)"

text \<open>\<open>CpuContext* cpu = TryGetCpuContext(); if (!cpu) return d; ...\<close>\<close>

definition with_cpu :: "'a \<Rightarrow> (cpu_context \<Rightarrow> (ppc_state, 'a) prog) \<Rightarrow> (ppc_state, 'a) prog" where
  "with_cpu d f = bindP TryGetCpuContext (\<lambda>c. case c of None \<Rightarrow> returnP d | Some cpu \<Rightarrow> f cpu)"

definition PPC_TrapWord :: "u32 \<Rightarrow> u32 \<Rightarrow> u32 \<Rightarrow> (ppc_state, unit) prog" where
  "PPC_TrapWord trapOptions lhs rhs = (if trap_condition trapOptions lhs rhs then throwP Fatal else returnP ())"

section \<open>Carry and overflow\<close>

definition set_ca :: "u32 \<Rightarrow> u32 \<Rightarrow> u32" where
  "set_ca xerv carryOut = (xerv AND NOT 0x20000000) OR push_bit 29 carryOut"

definition store_carry :: "u32 \<Rightarrow> (ppc_state, u32) prog" where
  "store_carry carryOut = with_cpu (push_bit 29 carryOut) (\<lambda>cpu.
     thenP (put_cpu (\<lambda>c. c\<lparr>xer := set_ca (xer c) carryOut\<rparr>)) (returnP (set_ca (xer cpu) carryOut)))"

definition wide_sum :: "u32 \<Rightarrow> u32 \<Rightarrow> u32 \<Rightarrow> u64" where
  "wide_sum lhs rhs carryIn = ucast lhs + ucast rhs + ucast (carryIn AND 1)"

definition PPC_UpdateCarryAdd :: "u32 \<Rightarrow> u32 \<Rightarrow> u32 \<Rightarrow> (ppc_state, u32) prog" where
  "PPC_UpdateCarryAdd lhs rhs carryIn = store_carry (ucast (drop_bit 32 (wide_sum lhs rhs carryIn) AND 1))"

definition PPC_UpdateCarrySub :: "u32 \<Rightarrow> u32 \<Rightarrow> (ppc_state, u32) prog" where
  "PPC_UpdateCarrySub lhs rhs = store_carry (if lhs \<ge> rhs then 1 else 0)"

definition shift_carry :: "u32 \<Rightarrow> u32 \<Rightarrow> u32" where
  "shift_carry v shift =
     (let isNegative = (v AND 0x80000000 \<noteq> 0)
      in if shift AND 0x20 \<noteq> 0 then (if isNegative then 1 else 0)
         else let sh = unat (shift AND 31)
              in if sh \<noteq> 0 \<and> isNegative
                 then (if v AND (push_bit sh 1 - 1) \<noteq> 0 then 1 else 0)
                 else 0)"

definition PPC_UpdateCarryShiftRight :: "u32 \<Rightarrow> u32 \<Rightarrow> (ppc_state, u32) prog" where
  "PPC_UpdateCarryShiftRight v shift = store_carry (shift_carry v shift)"

definition PPC_GetCarry :: "(ppc_state, u32) prog" where
  "PPC_GetCarry = with_cpu 0 (\<lambda>cpu. returnP (drop_bit 29 (xer cpu) AND 1))"

definition set_ov :: "u32 \<Rightarrow> bool \<Rightarrow> u32" where
  "set_ov xerv overflow = (if overflow then xerv OR 0xC0000000 else xerv AND NOT 0x40000000)"

definition UpdateOverflow :: "bool \<Rightarrow> (ppc_state, unit) prog" where
  "UpdateOverflow overflow = with_cpu () (\<lambda>_. put_cpu (\<lambda>c. c\<lparr>xer := set_ov (xer c) overflow\<rparr>))"

definition AddWithXer :: "u32 \<Rightarrow> u32 \<Rightarrow> u32 \<Rightarrow> bool \<Rightarrow> (ppc_state, u32) prog" where
  "AddWithXer lhs rhs carryIn updateCarry =
     (let result = ucast (wide_sum lhs rhs carryIn) :: u32;
          overflow = ((NOT (lhs XOR rhs) AND (lhs XOR result)) AND 0x80000000 \<noteq> 0)
      in thenP (whenP updateCarry (ignoreP (PPC_UpdateCarryAdd lhs rhs carryIn)))
         (thenP (UpdateOverflow overflow) (returnP result)))"

definition SubfWithXer :: "u32 \<Rightarrow> u32 \<Rightarrow> u32 \<Rightarrow> bool \<Rightarrow> bool \<Rightarrow> (ppc_state, u32) prog" where
  "SubfWithXer subtrahend minuend carryIn extended updateCarry =
     (let rhs = NOT subtrahend;
          wide = ucast rhs + ucast minuend + ucast (if extended then carryIn AND 1 else 1 :: u32) :: u64;
          result = ucast wide :: u32;
          overflow = (((minuend XOR subtrahend) AND (minuend XOR result)) AND 0x80000000 \<noteq> 0)
      in thenP (whenP updateCarry (ignoreP (store_carry (ucast (drop_bit 32 wide AND 1)))))
         (thenP (UpdateOverflow overflow) (returnP result)))"

definition PPC_Addo :: "u32 \<Rightarrow> u32 \<Rightarrow> (ppc_state, u32) prog" where
  "PPC_Addo lhs rhs = AddWithXer lhs rhs 0 False"

definition PPC_Addco :: "u32 \<Rightarrow> u32 \<Rightarrow> (ppc_state, u32) prog" where
  "PPC_Addco lhs rhs = AddWithXer lhs rhs 0 True"

definition PPC_Addeo :: "u32 \<Rightarrow> u32 \<Rightarrow> (ppc_state, u32) prog" where
  "PPC_Addeo lhs rhs = bindP PPC_GetCarry (\<lambda>ca. AddWithXer lhs rhs ca True)"

definition PPC_Addmeo :: "u32 \<Rightarrow> (ppc_state, u32) prog" where
  "PPC_Addmeo v = bindP PPC_GetCarry (\<lambda>ca. AddWithXer v 0xFFFFFFFF ca True)"

definition PPC_Addzeo :: "u32 \<Rightarrow> (ppc_state, u32) prog" where
  "PPC_Addzeo v = bindP PPC_GetCarry (\<lambda>ca. AddWithXer v 0 ca True)"

definition PPC_Subfo :: "u32 \<Rightarrow> u32 \<Rightarrow> (ppc_state, u32) prog" where
  "PPC_Subfo subtrahend minuend = SubfWithXer subtrahend minuend 0 False False"

definition PPC_Subfco :: "u32 \<Rightarrow> u32 \<Rightarrow> (ppc_state, u32) prog" where
  "PPC_Subfco subtrahend minuend = SubfWithXer subtrahend minuend 0 False True"

definition PPC_Subfeo :: "u32 \<Rightarrow> u32 \<Rightarrow> (ppc_state, u32) prog" where
  "PPC_Subfeo subtrahend minuend = bindP PPC_GetCarry (\<lambda>ca. SubfWithXer subtrahend minuend ca True True)"

definition PPC_Subfmeo :: "u32 \<Rightarrow> (ppc_state, u32) prog" where
  "PPC_Subfmeo v = bindP PPC_GetCarry (\<lambda>ca. SubfWithXer v 0xFFFFFFFF ca True True)"

definition PPC_Subfzeo :: "u32 \<Rightarrow> (ppc_state, u32) prog" where
  "PPC_Subfzeo v = bindP PPC_GetCarry (\<lambda>ca. SubfWithXer v 0 ca True True)"

definition PPC_Nego :: "u32 \<Rightarrow> (ppc_state, u32) prog" where
  "PPC_Nego v = SubfWithXer v 0 0 False False"

definition PPC_Mullwo :: "u32 \<Rightarrow> u32 \<Rightarrow> (ppc_state, u32) prog" where
  "PPC_Mullwo lhs rhs =
     (let product = word_of_int (to_i32 lhs) * word_of_int (to_i32 rhs) :: u64
      in thenP (UpdateOverflow (sint product < - (2 ^ 31) \<or> sint product > 2 ^ 31 - 1)) (returnP (ucast product)))"

definition PPC_Divwo :: "u32 \<Rightarrow> u32 \<Rightarrow> (ppc_state, u32) prog" where
  "PPC_Divwo lhs rhs =
     (let dividend = to_i32 lhs; divisor = to_i32 rhs
      in if divisor = 0 \<or> (dividend = - (2 ^ 31) \<and> divisor = - 1)
         then thenP (UpdateOverflow True) (returnP (if dividend < 0 then 0xFFFFFFFF else 0))
         else thenP (UpdateOverflow False) (returnP (of_i32 (dividend sdiv divisor))))"

definition PPC_Divwuo :: "u32 \<Rightarrow> u32 \<Rightarrow> (ppc_state, u32) prog" where
  "PPC_Divwuo lhs rhs =
     (if rhs = 0 then thenP (UpdateOverflow True) (returnP 0)
      else thenP (UpdateOverflow False) (returnP (lhs div rhs)))"

end
