(* ===== verification/Ppc_Helpers.thy ===== *)
theory Ppc_Helpers
  imports Ppc_Integer
begin

text \<open>
  The helpers of \<open>runtime/src/ppc_helpers.cpp\<close> with an effect on registers or memory: string and
  byte-reversed accesses, reservations, status and special purpose registers, \<open>dcbz\<close>.
\<close>

section \<open>String accesses\<close>

fun load_string_loop :: "u32 \<Rightarrow> nat list \<Rightarrow> nat \<Rightarrow> u32 \<Rightarrow> (ppc_state, nat \<times> u32) prog" where
  "load_string_loop addr [] reg current = returnP (reg, current)"
| "load_string_loop addr (i # is) reg current =
     bindP (Read8 (addr + of_nat i)) (\<lambda>b.
     let current' = push_bit 8 current OR ucast b
     in if i mod 4 = 3
        then thenP (put_cpu (\<lambda>c. c\<lparr>gpr := (gpr c)(reg := current')\<rparr>))
               (load_string_loop addr is ((reg + 1) mod 32) 0)
        else load_string_loop addr is reg current')"

definition LoadString :: "u32 \<Rightarrow> u32 \<Rightarrow> u32 \<Rightarrow> (ppc_state, unit) prog" where
  "LoadString rD addr byteCount = with_cpu () (\<lambda>_.
     bindP (load_string_loop addr [0..<unat byteCount] (unat (rD AND 31)) 0) (\<lambda>(reg, current).
     let partial = unat (byteCount AND 3)
     in whenP (partial \<noteq> 0)
          (put_cpu (\<lambda>c. c\<lparr>gpr := (gpr c)(reg := push_bit ((4 - partial) * 8) current)\<rparr>))))"

fun store_string_loop :: "u32 \<Rightarrow> nat list \<Rightarrow> nat \<Rightarrow> (ppc_state, unit) prog" where
  "store_string_loop addr [] reg = returnP ()"
| "store_string_loop addr (i # is) reg =
     with_cpu () (\<lambda>cpu.
     thenP (Write8 (addr + of_nat i) (ucast (drop_bit (24 - (i mod 4) * 8) (gpr cpu reg))))
       (store_string_loop addr is (if i mod 4 = 3 then (reg + 1) mod 32 else reg)))"

definition StoreString :: "u32 \<Rightarrow> u32 \<Rightarrow> u32 \<Rightarrow> (ppc_state, unit) prog" where
  "StoreString rS addr byteCount = with_cpu () (\<lambda>_.
     store_string_loop addr [0..<unat byteCount] (unat (rS AND 31)))"

definition PPC_Lswi :: "u32 \<Rightarrow> u32 \<Rightarrow> u32 \<Rightarrow> (ppc_state, unit) prog" where
  "PPC_Lswi rD addr byteCount = LoadString rD addr (if byteCount = 0 then 32 else byteCount)"

definition PPC_Lswx :: "u32 \<Rightarrow> u32 \<Rightarrow> (ppc_state, unit) prog" where
  "PPC_Lswx rD addr = bindP TryGetCpuContext (\<lambda>cpu.
     LoadString rD addr (case cpu of Some c \<Rightarrow> xer c AND 0x7F | None \<Rightarrow> 0))"

definition PPC_Stswi :: "u32 \<Rightarrow> u32 \<Rightarrow> u32 \<Rightarrow> (ppc_state, unit) prog" where
  "PPC_Stswi rS addr byteCount = StoreString rS addr (if byteCount = 0 then 32 else byteCount)"

definition PPC_Stswx :: "u32 \<Rightarrow> u32 \<Rightarrow> (ppc_state, unit) prog" where
  "PPC_Stswx rS addr = bindP TryGetCpuContext (\<lambda>cpu.
     StoreString rS addr (case cpu of Some c \<Rightarrow> xer c AND 0x7F | None \<Rightarrow> 0))"

section \<open>Reservations\<close>

definition PPC_Lwarx :: "u32 \<Rightarrow> (ppc_state, u32) prog" where
  "PPC_Lwarx addr =
     thenP (modifyP (\<lambda>s. s\<lparr>g_reservationAddr := addr, g_hasReservation := True\<rparr>)) (Read32 addr)"

definition PPC_Stwcx :: "u32 \<Rightarrow> u32 \<Rightarrow> (ppc_state, u32) prog" where
  "PPC_Stwcx addr v =
     bindP (getsP (\<lambda>s. g_hasReservation s \<and> g_reservationAddr s = addr)) (\<lambda>success.
     thenP (modifyP (\<lambda>s. s\<lparr>g_hasReservation := False\<rparr>))
     (thenP (whenP success (Write32 addr v))
     (thenP (put_cpu (\<lambda>c.
        let so = drop_bit 31 (xer c) AND 1; cr0 = (if success then 2 else 0) OR so
        in c\<lparr>cr := (cr c AND 0x0FFFFFFF) OR push_bit 28 cr0\<rparr>))
     (returnP (if success then 1 else 0)))))"

section \<open>Status registers\<close>

definition kFpscrFx :: u32 where "kFpscrFx = push_bit 31 1"
definition kFpscrFex :: u32 where "kFpscrFex = push_bit 30 1"
definition kFpscrVx :: u32 where "kFpscrVx = push_bit 29 1"

definition fpscr_bits :: "nat list \<Rightarrow> u32" where
  "fpscr_bits ns = foldr (\<lambda>n m. push_bit n 1 OR m) ns 0"

text \<open>VXSNAN, VXISI, VXIDI, VXZDZ, VXIMZ, VXVC, VXSOFT, VXSQRT, VXCVI.\<close>

definition kFpscrVxAny :: u32 where
  "kFpscrVxAny = fpscr_bits [24, 23, 22, 21, 20, 19, 10, 9, 8]"

text \<open>OX, UX, ZX, XX and the above.\<close>

definition kFpscrAnyX :: u32 where
  "kFpscrAnyX = fpscr_bits [28, 27, 26, 25] OR kFpscrVxAny"

text \<open>VE, OE, UE, ZE, XE.\<close>

definition kFpscrAnyE :: u32 where
  "kFpscrAnyE = fpscr_bits [7, 6, 5, 4, 3]"

definition UpdateFpscrSummary :: "u32 \<Rightarrow> u32" where
  "UpdateFpscrSummary f =
     (let f1 = (if f AND kFpscrVxAny \<noteq> 0 then f OR kFpscrVx else f AND NOT kFpscrVx)
      in if drop_bit 22 f1 AND (f1 AND kFpscrAnyE) \<noteq> 0 then f1 OR kFpscrFex else f1 AND NOT kFpscrFex)"

definition PPC_Mcrfs :: "u32 \<Rightarrow> u32 \<Rightarrow> (ppc_state, u32) prog" where
  "PPC_Mcrfs dstField srcField = with_cpu 0 (\<lambda>cpu.
     let dst = unat (dstField AND 7); src = unat (srcField AND 7);
         v = drop_bit ((7 - src) * 4) (fpscr cpu) AND 0xF;
         cr' = put_cr_field (cr cpu) dst v;
         f' = fpscr cpu AND NOT (push_bit ((7 - src) * 4) 0xF AND (kFpscrFx OR kFpscrAnyX))
     in thenP (put_cpu (\<lambda>c. c\<lparr>cr := cr', fpscr := UpdateFpscrSummary f'\<rparr>)) (returnP cr'))"

definition PPC_Mcrxr :: "u32 \<Rightarrow> (ppc_state, u32) prog" where
  "PPC_Mcrxr crField = with_cpu 0 (\<lambda>cpu.
     let cr' = put_cr_field (cr cpu) (unat (crField AND 7)) (drop_bit 28 (xer cpu) AND 0xF)
     in thenP (put_cpu (\<lambda>c. c\<lparr>cr := cr', xer := xer c AND NOT 0xF0000000\<rparr>)) (returnP cr'))"

definition PPC_CrSetBit :: "u32 \<Rightarrow> u32 \<Rightarrow> (ppc_state, u32) prog" where
  "PPC_CrSetBit bitIndex v = with_cpu 0 (\<lambda>cpu.
     let cr' = PpcCrSetBitResident (cr cpu) bitIndex v
     in thenP (put_cpu (\<lambda>c. c\<lparr>cr := cr'\<rparr>)) (returnP cr'))"

definition PPC_CrLogical :: "u32 \<Rightarrow> u32 \<Rightarrow> u32 \<Rightarrow> u32 \<Rightarrow> (ppc_state, u32) prog" where
  "PPC_CrLogical opc bt ba bb = with_cpu 0 (\<lambda>cpu.
     let cr' = PpcCrLogicalResident (cr cpu) opc bt ba bb
     in thenP (put_cpu (\<lambda>c. c\<lparr>cr := cr'\<rparr>)) (returnP cr'))"

definition PPC_Mcrf :: "u32 \<Rightarrow> u32 \<Rightarrow> (ppc_state, u32) prog" where
  "PPC_Mcrf dstField srcField = with_cpu 0 (\<lambda>cpu.
     let cr' = PpcMcrfResident (cr cpu) dstField srcField
     in thenP (put_cpu (\<lambda>c. c\<lparr>cr := cr'\<rparr>)) (returnP cr'))"

definition PPC_Eciwx :: "u32 \<Rightarrow> (ppc_state, u32) prog" where
  "PPC_Eciwx addr = throwP Fatal"

definition PPC_Ecowx :: "u32 \<Rightarrow> u32 \<Rightarrow> (ppc_state, unit) prog" where
  "PPC_Ecowx addr v = throwP Fatal"

section \<open>Special purpose registers\<close>

definition PPC_Mftb :: "u64 \<Rightarrow> u32" where
  "PPC_Mftb timeBase = ucast timeBase"

definition PPC_Mftbu :: "u64 \<Rightarrow> u32" where
  "PPC_Mftbu timeBase = ucast (drop_bit 32 timeBase)"

definition kBroadwayPvr :: u32 where "kBroadwayPvr = 0x00087200"

text \<open>The registers with a field of their own, by number.\<close>

definition spr_field :: "u32 \<Rightarrow> (cpu_context \<Rightarrow> u32) option" where
  "spr_field spr =
     (if 912 \<le> spr \<and> spr \<le> 919 then Some (\<lambda>c. gqr c (unat (spr - 912)))
      else if spr = 8 then Some lr else if spr = 9 then Some ctr else if spr = 1 then Some xer
      else if spr = 26 then Some srr0 else if spr = 27 then Some srr1 else if spr = 920 then Some hid2
      else if spr = 1008 then Some hid0 else if spr = 1009 then Some hid1 else None)"

definition PPC_ReadSpr :: "u64 \<Rightarrow> u32 \<Rightarrow> (ppc_state, u32) prog" where
  "PPC_ReadSpr timeBase spr s =
     (case spr_field spr of
        Some field \<Rightarrow> (Ok (case g_currentCpuContext s of Some c \<Rightarrow> field c | None \<Rightarrow> 0), s)
      | None \<Rightarrow>
          (Ok (if spr = 268 then PPC_Mftb timeBase
               else if spr = 269 then PPC_Mftbu timeBase
               else if spr = 287 then kBroadwayPvr
               else if spr < 2048 then g_sprShadow s (unat spr) else 0), s))"

definition spr_put :: "u32 \<Rightarrow> u32 \<Rightarrow> cpu_context \<Rightarrow> cpu_context" where
  "spr_put spr v c =
     (if 912 \<le> spr \<and> spr \<le> 919 then c\<lparr>gqr := (gqr c)(unat (spr - 912) := v)\<rparr>
      else if spr = 8 then c\<lparr>lr := v\<rparr> else if spr = 9 then c\<lparr>ctr := v\<rparr> else if spr = 1 then c\<lparr>xer := v\<rparr>
      else if spr = 26 then c\<lparr>srr0 := v\<rparr> else if spr = 27 then c\<lparr>srr1 := v\<rparr> else if spr = 920 then c\<lparr>hid2 := v\<rparr>
      else if spr = 1008 then c\<lparr>hid0 := v\<rparr> else if spr = 1009 then c\<lparr>hid1 := v\<rparr> else c)"

definition PPC_WriteSpr :: "u32 \<Rightarrow> u32 \<Rightarrow> (ppc_state, unit) prog" where
  "PPC_WriteSpr spr v =
     (case spr_field spr of
        Some _ \<Rightarrow> put_cpu (spr_put spr v)
      | None \<Rightarrow> whenP (spr < 2048)
          (modifyP (\<lambda>s. s\<lparr>g_sprShadow := (g_sprShadow s)(unat spr := v)\<rparr>)))"

section \<open>Byte-reversed accesses and \<open>dcbz\<close>\<close>

definition byte_swap32 :: "u32 \<Rightarrow> u32" where
  "byte_swap32 v =
     (drop_bit 24 v AND 0x000000FF) OR (drop_bit 8 v AND 0x0000FF00) OR
     (push_bit 8 v AND 0x00FF0000) OR (push_bit 24 v AND 0xFF000000)"

definition byte_swap16 :: "u16 \<Rightarrow> u16" where
  "byte_swap16 v = (drop_bit 8 v AND 0x00FF) OR (push_bit 8 v AND 0xFF00)"

definition PPC_LoadWordByteReverse :: "u32 \<Rightarrow> ('a memory_scheme, u32) prog" where
  "PPC_LoadWordByteReverse addr = bindP (Read32 addr) (\<lambda>v. returnP (byte_swap32 v))"

definition PPC_StoreWordByteReverse :: "u32 \<Rightarrow> u32 \<Rightarrow> ('a memory_scheme, unit) prog" where
  "PPC_StoreWordByteReverse addr v = Write32 addr (byte_swap32 v)"

definition PPC_LoadHalfwordByteReverse :: "u32 \<Rightarrow> ('a memory_scheme, u32) prog" where
  "PPC_LoadHalfwordByteReverse addr = bindP (Read16 addr) (\<lambda>v. returnP (ucast (byte_swap16 v)))"

definition PPC_StoreHalfwordByteReverse :: "u32 \<Rightarrow> u32 \<Rightarrow> ('a memory_scheme, unit) prog" where
  "PPC_StoreHalfwordByteReverse addr v = Write16 addr (byte_swap16 (ucast (v AND 0xFFFF)))"

text \<open>The address has been aligned by the caller.\<close>

definition memset_zero_32 :: "u32 \<Rightarrow> ('a memory_scheme, unit) prog" where
  "memset_zero_32 address =
     catchP (bindP (GetPointer address 32) (\<lambda>p. modifyP (put_bytes p (replicate 32 0))))
       (\<lambda>_. stmts (map (\<lambda>i. Write32 (address + of_nat i * 4) 0) [0..<8]))"

end
