(* ===== verification/Ppc_Laws.thy ===== *)
theory Ppc_Laws
  imports Ppc_Helpers Memory_Laws
begin

text \<open>
  The out-of-line integer instructions against the arithmetic they stand for: sums, differences
  and shifts on integers, condition register fields as four bits, reservations as a state machine.
\<close>

section \<open>Words\<close>

lemma msb_mask: "(w :: u32) AND 0x80000000 \<noteq> 0 \<longleftrightarrow> bit w 31"
proof -
  have e: "(0x80000000 :: u32) = push_bit 31 1" by simp
  have "bit (w AND 0x80000000) n \<longleftrightarrow> n = 31 \<and> bit w 31" for n
  proof -
    have "31 \<le> n \<and> n < 32 \<longleftrightarrow> n = 31" by arith
    then show ?thesis unfolding e bit_and_iff bit_push_bit_iff bit_1_iff by auto
  qed
  then show ?thesis by (metis bit_0_eq bot_apply bot_bool_def bit_eq_iff)
qed

lemma uint_low_bit: "uint (c AND 1 :: u32) \<in> {0, 1}"
proof -
  have "uint (c AND 1) = uint c mod 2" by (simp add: and_one_eq uint_mod)
  then show ?thesis by auto
qed

lemma uint_wide: "uint (ucast (a :: u32) + ucast (b :: u32) + ucast (k :: u32) :: u64) = uint a + uint b + uint k"
proof -
  have "uint a < 2 ^ 32" "uint b < 2 ^ 32" "uint k < 2 ^ 32"
    using uint_lt2p [of a] uint_lt2p [of b] uint_lt2p [of k] by simp_all
  then show ?thesis by (simp add: uint_word_ariths unsigned_ucast_eq take_bit_int_eq_self)
qed

text \<open>Overflow of a sum with carry, on the sign bits and on the signed values.\<close>

lemma sum_overflow:
  fixes a b r :: u32
  assumes "uint r = (uint a + uint b + k) mod 2 ^ 32" and "k \<in> {0, 1}"
  shows "(bit a 31 = bit b 31 \<and> bit a 31 \<noteq> bit r 31) \<longleftrightarrow>
    (sint a + sint b + k < - (2 ^ 31) \<or> sint a + sint b + k \<ge> 2 ^ 31)"
    and "sint a + sint b + k \<ge> - (2 ^ 31) \<Longrightarrow> sint a + sint b + k < 2 ^ 31 \<Longrightarrow> sint r = sint a + sint b + k"
proof -
  define A B R where d: "A = uint a" "B = uint b" "R = uint r"
  have l: "0 \<le> A" "A < 2 ^ 32" "0 \<le> B" "B < 2 ^ 32" "0 \<le> R" "R < 2 ^ 32"
    using uint_lt2p [of a] uint_lt2p [of b] uint_lt2p [of r] by (simp_all add: d)
  have r: "R = A + B + k \<or> R = A + B + k - 2 ^ 32"
  proof (cases "A + B + k < 2 ^ 32")
    case False
    have "R = (A + B + k - 2 ^ 32) mod 2 ^ 32" using assms(1) by (simp add: d)
    also have "\<dots> = A + B + k - 2 ^ 32" using False l assms(2) by (intro mod_pos_pos_trivial) auto
    finally show ?thesis by simp
  qed (use assms l in \<open>auto simp: d mod_pos_pos_trivial\<close>)
  show "(bit a 31 = bit b 31 \<and> bit a 31 \<noteq> bit r 31) \<longleftrightarrow>
    (sint a + sint b + k < - (2 ^ 31) \<or> sint a + sint b + k \<ge> 2 ^ 31)"
    using assms(2) l r unfolding sint_cases msb_uint d [symmetric] by auto
  show "sint r = sint a + sint b + k" if "sint a + sint b + k \<ge> - (2 ^ 31)" "sint a + sint b + k < 2 ^ 31"
    using that assms(2) l r unfolding sint_cases msb_uint d [symmetric] by (auto split: if_splits)
qed


section \<open>Runs\<close>

lemma with_cpu_run: "g_currentCpuContext s = Some c \<Longrightarrow> with_cpu d f s = f c s"
  by (simp add: with_cpu_def TryGetCpuContext_def run_simps)

lemma put_cpu_run:
  "g_currentCpuContext s = Some c \<Longrightarrow> put_cpu f s = (Ok (), s\<lparr>g_currentCpuContext := Some (f c)\<rparr>)"
  by (simp add: put_cpu_def run_simps)

lemma UpdateOverflow_run:
  "g_currentCpuContext s = Some c \<Longrightarrow>
   UpdateOverflow b s = (Ok (), s\<lparr>g_currentCpuContext := Some (c\<lparr>xer := set_ov (xer c) b\<rparr>)\<rparr>)"
  by (simp add: UpdateOverflow_def with_cpu_run put_cpu_run)

lemma store_carry_run:
  "g_currentCpuContext s = Some c \<Longrightarrow>
   store_carry k s = (Ok (set_ca (xer c) k), s\<lparr>g_currentCpuContext := Some (c\<lparr>xer := set_ca (xer c) k\<rparr>)\<rparr>)"
  by (simp add: store_carry_def with_cpu_run thenP_Ok [OF put_cpu_run] returnP_run)

text \<open>Bits 29 (CA), 30 (OV) and 31 (SO) of XER.\<close>

lemma bit_masks:
  "bit (0x20000000 :: u32) n \<longleftrightarrow> n = 29" "bit (0x40000000 :: u32) n \<longleftrightarrow> n = 30" "bit (0xC0000000 :: u32) n \<longleftrightarrow> n = 30 \<or> n = 31"
proof -
  have p: "bit (push_bit k 1 :: u32) n \<longleftrightarrow> n = k" if "k < 32" for k
    using that unfolding bit_push_bit_iff bit_1_iff by auto
  show "bit (0x20000000 :: u32) n \<longleftrightarrow> n = 29" using p [of 29] by simp
  show "bit (0x40000000 :: u32) n \<longleftrightarrow> n = 30" using p [of 30] by simp
  have "(0xC0000000 :: u32) = push_bit 30 1 OR push_bit 31 1" by simp
  then show "bit (0xC0000000 :: u32) n \<longleftrightarrow> n = 30 \<or> n = 31"
    using p [of 30] p [of 31] by (simp only: bit_or_iff)
qed

lemma set_ca_bits:
  assumes "k = 0 \<or> k = 1"
  shows "bit (set_ca x k) n \<longleftrightarrow> (if n = 29 then k = 1 else bit x n)"
proof (cases "n < 32")
  case True
  show ?thesis
    using assms True
    unfolding set_ca_def bit_or_iff bit_and_iff bit_not_iff bit_masks bit_push_bit_iff bit_1_iff
    by (auto simp: bit_1_iff)
next
  case False
  then show ?thesis using bit_imp_le_length [of "set_ca x k" n] bit_imp_le_length [of x n] by auto
qed

lemma set_ov_bits:
  "bit (set_ov x b) n \<longleftrightarrow> (if n = 30 then b else if n = 31 then bit x 31 \<or> b else bit x n)"
proof (cases "n < 32")
  case True
  then show ?thesis
    unfolding set_ov_def if_distrib [of "\<lambda>w. bit w n"] bit_or_iff bit_and_iff bit_not_iff bit_masks by auto
next
  case False
  then show ?thesis using bit_imp_le_length [of "set_ov x b" n] bit_imp_le_length [of x n] by auto
qed

text \<open>What an instruction that records carry and overflow leaves of the CPU context.\<close>

definition xer_flags :: "cpu_context \<Rightarrow> bool option \<Rightarrow> bool \<Rightarrow> cpu_context \<Rightarrow> bool" where
  "xer_flags c ca ov c' \<longleftrightarrow> c' = c\<lparr>xer := xer c'\<rparr> \<and>
     (bit (xer c') 29 \<longleftrightarrow> (case ca of None \<Rightarrow> bit (xer c) 29 | Some b \<Rightarrow> b)) \<and>
     (bit (xer c') 30 \<longleftrightarrow> ov) \<and> (bit (xer c') 31 \<longleftrightarrow> bit (xer c) 31 \<or> ov) \<and>
     take_bit 29 (xer c') = take_bit 29 (xer c)"

lemma xer_flags_sets:
  assumes "k = 0 \<or> k = 1"
  shows "xer_flags c (if upd then Some (k = 1) else None) ov
    (c\<lparr>xer := set_ov (if upd then set_ca (xer c) k else xer c) ov\<rparr>)"
proof -
  have "take_bit 29 (set_ov (if upd then set_ca (xer c) k else xer c) ov) = take_bit 29 (xer c)"
    by (rule bit_eqI) (simp add: bit_take_bit_iff set_ov_bits set_ca_bits [OF assms])
  then show ?thesis
    by (cases upd) (simp_all add: xer_flags_def set_ov_bits set_ca_bits [OF assms])
qed

lemma carry_bit: "ucast (drop_bit 32 (w :: u64) AND 1) = (if 2 ^ 32 \<le> uint w mod 2 ^ 33 then 1 else (0 :: u32))"
proof -
  have e: "uint w mod 2 ^ 33 = uint w mod 2 ^ 32 + 2 ^ 32 * (uint w div 2 ^ 32 mod 2)"
    using mod_mult2_eq' [of "uint w" "2 ^ 32" 2] by (simp add: zmod_zmult2_eq)
  have "bit w 32 \<longleftrightarrow> odd (uint w div 2 ^ 32)" using bit_uint_iff [of w 32] by (simp add: bit_iff_odd [of "uint w"])
  moreover have "drop_bit 32 w AND 1 = of_bool (bit w 32)" by (simp add: and_one_eq bit_iff_odd_drop_bit mod2_eq_if)
  moreover have "2 ^ 32 \<le> uint w mod 2 ^ 33 \<longleftrightarrow> odd (uint w div 2 ^ 32)"
    unfolding e using pos_mod_bound [of "2 ^ 32" "uint w"] by (cases "odd (uint w div 2 ^ 32)") (auto simp: odd_iff_mod_2_eq_one)
  ultimately show ?thesis by simp
qed


definition signed_fits :: "int \<Rightarrow> bool" where
  "signed_fits i \<longleftrightarrow> - (2 ^ 31) \<le> i \<and> i < 2 ^ 31"

lemma carry_of_wide: "(k :: u32) = 0 \<or> k = 1 \<Longrightarrow>
  ucast (drop_bit 32 (ucast (a :: u32) + ucast (b :: u32) + ucast k :: u64) AND 1) =
    (if 2 ^ 32 \<le> uint a + uint b + uint k then 1 else (0 :: u32))"
proof -
  assume k: "k = 0 \<or> k = 1"
  have "uint a + uint b + uint k < 2 ^ 33" using uint_lt2p [of a] uint_lt2p [of b] k by auto
  moreover have "0 \<le> uint a + uint b + uint k" by simp
  ultimately show ?thesis unfolding carry_bit uint_wide by (simp only: mod_pos_pos_trivial)
qed

lemma uint_sum3: "uint (a + b + k :: u32) = (uint a + uint b + uint k) mod 2 ^ 32"
  by (simp add: uint_word_ariths mod_simps)

lemma low_of_wide: "ucast (ucast (a :: u32) + ucast (b :: u32) + ucast (k :: u32) :: u64) = a + b + k"
  by (rule word_uint_eqI) (simp only: uint_sum3 unsigned_ucast_eq uint_wide take_bit_eq_mod len_of_numeral_defs, simp)

lemma sum_sign_bit:
  assumes "(k :: u32) = 0 \<or> k = 1"
  shows "(NOT (a XOR b) AND (a XOR (a + b + k))) AND 0x80000000 \<noteq> 0 \<longleftrightarrow>
    \<not> signed_fits (sint a + sint b + uint k)"
proof -
  have "uint k \<in> {0, 1}" using assms by auto
  note S = sum_overflow(1) [OF uint_sum3 this]
  show ?thesis
    unfolding msb_mask bit_and_iff bit_not_iff bit_xor_iff signed_fits_def using S by auto
qed

lemma AddWithXer_run:
  assumes "g_currentCpuContext s = Some c"
  shows "\<exists>c'. AddWithXer a b ci upd s = (Ok (a + b + (ci AND 1)), s\<lparr>g_currentCpuContext := Some c'\<rparr>) \<and>
    xer_flags c (if upd then Some (2 ^ 32 \<le> uint a + uint b + uint (ci AND 1)) else None)
      (\<not> signed_fits (sint a + sint b + uint (ci AND 1))) c'"
proof -
  let ?k = "ci AND 1"
  have k: "?k = 0 \<or> ?k = 1" using uint_low_bit [of ci] word_uint_eq_iff [of ?k 0] word_uint_eq_iff [of ?k 1] by auto
  define co where "co = (if 2 ^ 32 \<le> uint a + uint b + uint ?k then 1 else (0 :: u32))"
  define ov where "ov \<longleftrightarrow> \<not> signed_fits (sint a + sint b + uint ?k)"
  let ?c = "c\<lparr>xer := set_ov (if upd then set_ca (xer c) co else xer c) ov\<rparr>"
  have co01: "co = 0 \<or> co = 1" "co = 1 \<longleftrightarrow> 2 ^ 32 \<le> uint a + uint b + uint ?k" by (simp_all add: co_def)
  have carry: "PPC_UpdateCarryAdd a b ci = store_carry co"
    by (simp only: PPC_UpdateCarryAdd_def wide_sum_def carry_of_wide [OF k] co_def)
  have "AddWithXer a b ci upd s = (Ok (a + b + ?k), s\<lparr>g_currentCpuContext := Some ?c\<rparr>)"
  proof (cases upd)
    case True
    let ?s1 = "s\<lparr>g_currentCpuContext := Some (c\<lparr>xer := set_ca (xer c) co\<rparr>)\<rparr>"
    have "ignoreP (store_carry co) s = (Ok (), ?s1)"
      by (simp add: ignoreP_def bindP_Ok [of "store_carry co", OF store_carry_run [OF assms]] returnP_run)
    then show ?thesis
      using True by (simp add: AddWithXer_def Let_def carry wide_sum_def low_of_wide sum_sign_bit [OF k] ov_def [symmetric]
          thenP_Ok whenP_True UpdateOverflow_run returnP_run)
  next
    case False
    then show ?thesis
      by (simp add: AddWithXer_def Let_def wide_sum_def low_of_wide sum_sign_bit [OF k] ov_def [symmetric]
          thenP_Ok whenP_False UpdateOverflow_run [OF assms] returnP_run)
  qed
  moreover have "xer_flags c (if upd then Some (co = 1) else None) ov ?c" by (rule xer_flags_sets [OF co01(1)])
  ultimately show ?thesis unfolding ov_def co01(2) by blast
qed


lemma uint_not: "uint (NOT (w :: u32)) = 2 ^ 32 - 1 - uint w"
proof -
  have l: "uint w < 2 ^ 32" "0 \<le> uint w" using uint_lt2p [of w] by simp_all
  have e: "- uint w - 1 = - 1 - uint w" by simp
  have "uint (NOT w) = (- uint w - 1) mod 2 ^ 32"
    by (simp add: unsigned_not_eq take_bit_eq_mod not_int_def)
  also note e
  also have "(- 1 - uint w) mod 2 ^ 32 = (2 ^ 32 - 1 - uint w) mod 2 ^ 32"
    using mod_add_self1 [of "2 ^ 32" "- 1 - uint w"] by (simp add: algebra_simps)
  also have "\<dots> = 2 ^ 32 - 1 - uint w"
    by (intro mod_pos_pos_trivial) (use l in linarith)+
  finally show ?thesis .
qed

lemma sint_not: "sint (NOT (w :: u32)) = - 1 - sint w"
  using uint_lt2p [of w] by (simp add: sint_cases msb_uint uint_not)

lemma SubfWithXer_run:
  assumes "g_currentCpuContext s = Some c" and k: "k = (if ext then ci AND 1 else 1)"
  shows "\<exists>c'. SubfWithXer a b ci ext upd s = (Ok (b - a - 1 + k), s\<lparr>g_currentCpuContext := Some c'\<rparr>) \<and>
    xer_flags c (if upd then Some (uint a < uint b + uint k) else None)
      (\<not> signed_fits (sint b - sint a - 1 + uint k)) c'"
proof -
  have k01: "k = 0 \<or> k = 1"
    using k uint_low_bit [of ci] word_uint_eq_iff [of "ci AND 1" 0] word_uint_eq_iff [of "ci AND 1" 1] by auto
  have r: "NOT a + b + k = b - a - 1 + k" by (simp add: not_eq_complement)
  define co where "co = (if 2 ^ 32 \<le> uint (NOT a) + uint b + uint k then 1 else (0 :: u32))"
  define ov where "ov \<longleftrightarrow> \<not> signed_fits (sint (NOT a) + sint b + uint k)"
  let ?c = "c\<lparr>xer := set_ov (if upd then set_ca (xer c) co else xer c) ov\<rparr>"
  have co01: "co = 0 \<or> co = 1" "co = 1 \<longleftrightarrow> uint a < uint b + uint k" by (auto simp: co_def uint_not)
  have carry: "ucast (drop_bit 32 (ucast (NOT a) + ucast b + ucast k :: u64) AND 1) = co"
    by (simp only: carry_of_wide [OF k01] co_def)
  have ovf: "((b XOR a) AND (b XOR (NOT a + b + k))) AND 0x80000000 \<noteq> 0 \<longleftrightarrow> ov"
    using sum_overflow(1) [OF uint_sum3 [of "NOT a" b k]] k01
    unfolding msb_mask bit_and_iff bit_not_iff bit_xor_iff ov_def signed_fits_def by (auto simp: bit_not_iff)
  have "SubfWithXer a b ci ext upd s = (Ok (b - a - 1 + k), s\<lparr>g_currentCpuContext := Some ?c\<rparr>)"
  proof (cases upd)
    case True
    let ?s1 = "s\<lparr>g_currentCpuContext := Some (c\<lparr>xer := set_ca (xer c) co\<rparr>)\<rparr>"
    have "ignoreP (store_carry co) s = (Ok (), ?s1)"
      by (simp add: ignoreP_def bindP_Ok [of "store_carry co", OF store_carry_run [OF assms(1)]] returnP_run)
    then show ?thesis
      using True unfolding SubfWithXer_def Let_def k [symmetric] carry low_of_wide r ovf [unfolded r]
      by (simp add: thenP_Ok whenP_True UpdateOverflow_run returnP_run)
  next
    case False
    then show ?thesis
      unfolding SubfWithXer_def Let_def k [symmetric] carry low_of_wide r ovf [unfolded r]
      by (simp add: thenP_Ok whenP_False UpdateOverflow_run [OF assms(1)] returnP_run)
  qed
  moreover have "xer_flags c (if upd then Some (co = 1) else None) ov ?c" by (rule xer_flags_sets [OF co01(1)])
  ultimately show ?thesis unfolding ov_def co01(2) sint_not
    by (auto simp: algebra_simps)
qed

lemma GetCarry_run:
  "g_currentCpuContext s = Some c \<Longrightarrow> PPC_GetCarry s = (Ok (of_bool (bit (xer c) 29)), s)"
  by (simp add: PPC_GetCarry_def with_cpu_run returnP_run and_one_eq bit_iff_odd_drop_bit mod2_eq_if)


section \<open>Properties\<close>

text \<open>An instruction's result, its new flags, and nothing else.\<close>

definition records :: "ppc_state \<Rightarrow> cpu_context \<Rightarrow> (ppc_state, u32) prog \<Rightarrow> u32 \<Rightarrow> bool option \<Rightarrow> int \<Rightarrow> bool" where
  "records s c m r ca exact \<longleftrightarrow>
     (\<exists>c'. m s = (Ok r, s\<lparr>g_currentCpuContext := Some c'\<rparr>) \<and> xer_flags c ca (\<not> signed_fits exact) c')"

lemma uint_of_bool: "uint (of_bool k :: u32) = of_bool k" "of_bool k AND 1 = (of_bool k :: u32)"
  by (cases k; simp)+

lemma records_add:
  assumes "g_currentCpuContext s = Some c" and "r = a + b + of_bool k" and "ci = of_bool k"
    and "ca = (if upd then Some (2 ^ 32 \<le> uint a + uint b + of_bool k) else None)"
    and "e = sint a + sint b + of_bool k"
  shows "records s c (AddWithXer a b ci upd) r ca e"
  using AddWithXer_run [OF assms(1), where a = a and b = b and ci = ci and upd = upd]
  unfolding records_def assms(2-5) uint_of_bool .

lemma records_sub:
  assumes "g_currentCpuContext s = Some c" and "r = b - a - 1 + of_bool k" and "of_bool k = (if ext then ci else 1)"
    and "ca = (if upd then Some (uint a < uint b + of_bool k) else None)" and "e = sint b - sint a - 1 + of_bool k"
  shows "records s c (SubfWithXer a b ci ext upd) r ca e"
proof -
  have "of_bool k = (if ext then ci AND 1 else 1)" using assms(3) uint_of_bool(2) [of k] by (cases ext) auto
  from SubfWithXer_run [OF assms(1) this, where a = a and b = b and upd = upd]
  show ?thesis unfolding records_def assms(2,4,5) uint_of_bool .
qed

lemma records_carry:
  "g_currentCpuContext s = Some c \<Longrightarrow> records s c (f (of_bool (bit (xer c) 29))) r ca e \<Longrightarrow>
   records s c (bindP PPC_GetCarry f) r ca e"
  by (simp add: records_def bindP_Ok [of PPC_GetCarry, OF GetCarry_run])

text \<open>The adding and subtracting instructions.\<close>

lemma add_records:
  assumes "g_currentCpuContext s = Some c"
  shows "records s c (PPC_Addo a b) (a + b) None (sint a + sint b) \<and>
    records s c (PPC_Addco a b) (a + b) (Some (2 ^ 32 \<le> uint a + uint b)) (sint a + sint b) \<and>
    (let k = of_bool (bit (xer c) 29) in
      records s c (PPC_Addeo a b) (a + b + of_bool (bit (xer c) 29)) (Some (2 ^ 32 \<le> uint a + uint b + k)) (sint a + sint b + k) \<and>
      records s c (PPC_Addmeo a) (a - 1 + of_bool (bit (xer c) 29)) (Some (1 \<le> uint a + k)) (sint a - 1 + k) \<and>
      records s c (PPC_Addzeo a) (a + of_bool (bit (xer c) 29)) (Some (2 ^ 32 \<le> uint a + k)) (sint a + k))"
proof -
  define k where "k \<longleftrightarrow> bit (xer c) 29"
  have m: "uint (0xFFFFFFFF :: u32) = 2 ^ 32 - 1" "sint (0xFFFFFFFF :: u32) = - 1" by simp_all
  show ?thesis
    unfolding Let_def PPC_Addo_def PPC_Addco_def PPC_Addeo_def PPC_Addmeo_def PPC_Addzeo_def k_def [symmetric]
    by (intro conjI records_carry [OF assms])
      (rule records_add [OF assms, where k = False] records_add [OF assms, where k = k];
        simp add: k_def m)+
qed

lemma sub_records:
  assumes "g_currentCpuContext s = Some c"
  shows "records s c (PPC_Subfo a b) (b - a) None (sint b - sint a) \<and>
    records s c (PPC_Subfco a b) (b - a) (Some (uint a \<le> uint b)) (sint b - sint a) \<and>
    records s c (PPC_Nego a) (- a) None (- sint a) \<and>
    (let k = of_bool (bit (xer c) 29) in
      records s c (PPC_Subfeo a b) (b - a - 1 + of_bool (bit (xer c) 29)) (Some (uint a < uint b + k)) (sint b - sint a - 1 + k) \<and>
      records s c (PPC_Subfzeo a) (- a - 1 + of_bool (bit (xer c) 29)) (Some (uint a < k)) (- sint a - 1 + k) \<and>
      records s c (PPC_Subfmeo a) (- a - 2 + of_bool (bit (xer c) 29)) (Some (uint a < 2 ^ 32 - 1 + k)) (- sint a - 2 + k))"
proof -
  define k where "k \<longleftrightarrow> bit (xer c) 29"
  have m: "uint (0xFFFFFFFF :: u32) = 2 ^ 32 - 1" "sint (0xFFFFFFFF :: u32) = - 1" by simp_all
  show ?thesis
    unfolding Let_def PPC_Subfo_def PPC_Subfco_def PPC_Nego_def PPC_Subfeo_def PPC_Subfzeo_def PPC_Subfmeo_def k_def [symmetric]
    by (intro conjI records_carry [OF assms])
      (rule records_sub [OF assms, where k = True] records_sub [OF assms, where k = k];
        force simp add: k_def m)+
qed

text \<open>C20: the adding and subtracting instructions compute the sum or the difference modulo \<open>2 ^ 32\<close>, the extended ones
  with the carry or less the borrow \<open>1 - CA\<close>; they set CA exactly when the unsigned sum does not fit or there is no
  borrow (the forms without carry leave it alone), OV exactly when the signed result does not fit, keep SO once it is
  set, and touch nothing else of the machine.\<close>

theorem sum_flags:
  assumes "g_currentCpuContext s = Some c"
  shows "(records s c (PPC_Addo a b) (a + b) None (sint a + sint b) \<and>
    records s c (PPC_Addco a b) (a + b) (Some (2 ^ 32 \<le> uint a + uint b)) (sint a + sint b) \<and>
    (let k = of_bool (bit (xer c) 29) in
      records s c (PPC_Addeo a b) (a + b + of_bool (bit (xer c) 29)) (Some (2 ^ 32 \<le> uint a + uint b + k)) (sint a + sint b + k) \<and>
      records s c (PPC_Addmeo a) (a - 1 + of_bool (bit (xer c) 29)) (Some (1 \<le> uint a + k)) (sint a - 1 + k) \<and>
      records s c (PPC_Addzeo a) (a + of_bool (bit (xer c) 29)) (Some (2 ^ 32 \<le> uint a + k)) (sint a + k))) \<and>
   (records s c (PPC_Subfo a b) (b - a) None (sint b - sint a) \<and>
    records s c (PPC_Subfco a b) (b - a) (Some (uint a \<le> uint b)) (sint b - sint a) \<and>
    records s c (PPC_Nego a) (- a) None (- sint a) \<and>
    (let k = of_bool (bit (xer c) 29) in
      records s c (PPC_Subfeo a b) (b - a - 1 + of_bool (bit (xer c) 29)) (Some (uint a < uint b + k)) (sint b - sint a - 1 + k) \<and>
      records s c (PPC_Subfzeo a) (- a - 1 + of_bool (bit (xer c) 29)) (Some (uint a < k)) (- sint a - 1 + k) \<and>
      records s c (PPC_Subfmeo a) (- a - 2 + of_bool (bit (xer c) 29)) (Some (uint a < 2 ^ 32 - 1 + k)) (- sint a - 2 + k)))"
  by (rule conjI [OF add_records [OF assms] sub_records [OF assms]])

text \<open>A CPU context with CA set.\<close>

definition sample_cpu :: cpu_context where
  "sample_cpu = \<lparr>gpr = (\<lambda>_. 0), cr = 0, lr = 0, ctr = 0, xer = 0x20000000, fpscr = 0, pc = 0, gqr = (\<lambda>_. 0),
     hid0 = 0, hid1 = 0, hid2 = 0, srr0 = 0, srr1 = 0, msr = 0\<rparr>"

definition sample_ppc :: ppc_state where
  "sample_ppc = memory.extend empty_memory (ppc_state.fields (Some sample_cpu) (\<lambda>_. 0) 0 False)"

lemma sample_ppc_cpu: "g_currentCpuContext sample_ppc = Some sample_cpu"
  by (simp add: sample_ppc_def ppc_state.defs memory.defs)

theorem sum_flags_witness:
  "records sample_ppc sample_cpu (PPC_Addo 0x7FFFFFFF 1) 0x80000000 None (2 ^ 31) \<and>
   records sample_ppc sample_cpu (PPC_Subfco 1 3) 2 (Some True) 2"
  using sum_flags [OF sample_ppc_cpu, of "0x7FFFFFFF" 1] sum_flags [OF sample_ppc_cpu, of 1 3] by simp

section \<open>Two-word arithmetic\<close>

definition add64 :: "u32 \<Rightarrow> u32 \<Rightarrow> u32 \<Rightarrow> u32 \<Rightarrow> (ppc_state, u32 \<times> u32) prog" where
  "add64 ah al bh bl = bindP (PPC_Addco al bl) (\<lambda>l. bindP (PPC_Addeo ah bh) (\<lambda>h. returnP (h, l)))"

definition sub64 :: "u32 \<Rightarrow> u32 \<Rightarrow> u32 \<Rightarrow> u32 \<Rightarrow> (ppc_state, u32 \<times> u32) prog" where
  "sub64 ah al bh bl = bindP (PPC_Subfco bl al) (\<lambda>l. bindP (PPC_Subfeo bh ah) (\<lambda>h. returnP (h, l)))"

definition wide :: "u32 \<Rightarrow> u32 \<Rightarrow> int" where
  "wide h l = uint h * 2 ^ 32 + uint l"

lemma wide_sum_split:
  fixes A B C D :: int
  assumes "0 \<le> B + D" "B + D < 2 * 2 ^ 32"
  shows "(A + C + (if 2 ^ 32 \<le> B + D then 1 else 0)) mod 2 ^ 32 * 2 ^ 32 + (B + D) mod 2 ^ 32 =
    (A * 2 ^ 32 + B + (C * 2 ^ 32 + D)) mod 2 ^ 64"
proof -
  let ?k = "if 2 ^ 32 \<le> B + D then 1 else 0 :: int" and ?m = "2 ^ 32 :: int"
  have l: "(B + D) mod ?m = B + D - ?k * ?m"
  proof (cases "?m \<le> B + D")
    case True
    have "(B + D) mod ?m = (B + D - ?m) mod ?m" by simp
    also have "\<dots> = B + D - ?m" using True assms by (intro mod_pos_pos_trivial) simp_all
    finally show ?thesis using True by simp
  qed (use assms in simp)
  define X where "X = A + C + ?k"
  have "(A * ?m + B + (C * ?m + D)) mod (?m * ?m) = (X * ?m + (B + D) mod ?m) mod (?m * ?m)"
    unfolding l X_def by (simp add: algebra_simps)
  also have "\<dots> = ?m * ((X * ?m + (B + D) mod ?m) div ?m mod ?m) + (X * ?m + (B + D) mod ?m) mod ?m"
    by (rule zmod_zmult2_eq) simp
  also have "(X * ?m + (B + D) mod ?m) div ?m = X" by simp
  also have "(X * ?m + (B + D) mod ?m) mod ?m = (B + D) mod ?m" by simp
  finally show ?thesis unfolding X_def [symmetric] by (simp add: mult.commute)
qed

text \<open>C21: translated two-word arithmetic is exact: adding low words with carry out and high words with
  carry in gives the 64-bit sum, and likewise for differences.\<close>

theorem two_word_arithmetic:
  assumes "g_currentCpuContext s = Some c"
  shows "(\<exists>h l t. add64 ah al bh bl s = (Ok (h, l), t) \<and> wide h l = (wide ah al + wide bh bl) mod 2 ^ 64) \<and>
    (\<exists>h l t. sub64 ah al bh bl s = (Ok (h, l), t) \<and> wide h l = (wide ah al - wide bh bl) mod 2 ^ 64)"
proof (intro conjI)
  have b: "0 \<le> uint x" "uint x < 2 ^ 32" for x :: u32 using uint_lt2p [of x] by simp_all
  have "records s c (PPC_Addco al bl) (al + bl) (Some (2 ^ 32 \<le> uint al + uint bl)) (sint al + sint bl)"
    using add_records [OF assms] by blast
  then obtain c1 where c1: "PPC_Addco al bl s = (Ok (al + bl), s\<lparr>g_currentCpuContext := Some c1\<rparr>)"
      "bit (xer c1) 29 \<longleftrightarrow> 2 ^ 32 \<le> uint al + uint bl"
    by (auto simp: records_def xer_flags_def)
  let ?s1 = "s\<lparr>g_currentCpuContext := Some c1\<rparr>"
  have "g_currentCpuContext ?s1 = Some c1" by simp
  from add_records [OF this, of ah bh]
  obtain t where "PPC_Addeo ah bh ?s1 = (Ok (ah + bh + of_bool (bit (xer c1) 29)), t)"
    by (auto simp: records_def Let_def)
  then have run: "add64 ah al bh bl s = (Ok (ah + bh + of_bool (bit (xer c1) 29), al + bl), t)"
    using c1(1) by (simp add: add64_def bindP_def returnP_def)
  have "wide (ah + bh + of_bool (bit (xer c1) 29)) (al + bl) = (wide ah al + wide bh bl) mod 2 ^ 64"
    unfolding wide_def uint_sum3 uint_of_bool c1(2)
    using wide_sum_split [of "uint al" "uint bl" "uint ah" "uint bh"] b [of al] b [of bl]
    by (simp add: uint_word_ariths algebra_simps of_bool_def)
  then show "\<exists>h l t. add64 ah al bh bl s = (Ok (h, l), t) \<and> wide h l = (wide ah al + wide bh bl) mod 2 ^ 64"
    using run by blast
next
  have b: "0 \<le> uint x" "uint x < 2 ^ 32" for x :: u32 using uint_lt2p [of x] by simp_all
  have "records s c (PPC_Subfco bl al) (al - bl) (Some (uint bl \<le> uint al)) (sint al - sint bl)"
    using sub_records [OF assms] by blast
  then obtain c1 where c1: "PPC_Subfco bl al s = (Ok (al - bl), s\<lparr>g_currentCpuContext := Some c1\<rparr>)"
      "bit (xer c1) 29 \<longleftrightarrow> uint bl \<le> uint al"
    by (auto simp: records_def xer_flags_def)
  let ?s1 = "s\<lparr>g_currentCpuContext := Some c1\<rparr>"
  have "g_currentCpuContext ?s1 = Some c1" by simp
  from sub_records [OF this, of bh ah]
  obtain t where "PPC_Subfeo bh ah ?s1 = (Ok (ah - bh - 1 + of_bool (bit (xer c1) 29)), t)"
    by (auto simp: records_def Let_def)
  then have run: "sub64 ah al bh bl s = (Ok (ah - bh - 1 + of_bool (bit (xer c1) 29), al - bl), t)"
    using c1(1) by (simp add: sub64_def bindP_def returnP_def)
  have e: "al - bl = al + NOT bl + of_bool True" "ah - bh - 1 = ah + NOT bh" by (simp_all add: not_eq_complement)
  have k: "uint bl \<le> uint al \<longleftrightarrow> 2 ^ 32 \<le> uint al + (uint (NOT bl) + 1)" by (simp add: uint_not)
  have "wide (ah - bh - 1 + of_bool (bit (xer c1) 29)) (al - bl) =
      (uint ah * 2 ^ 32 + uint al + (uint (NOT bh) * 2 ^ 32 + (uint (NOT bl) + 1))) mod 2 ^ 64"
    unfolding wide_def e uint_sum3 uint_of_bool c1(2) k
    using wide_sum_split [of "uint al" "uint (NOT bl) + 1" "uint ah" "uint (NOT bh)"] b [of al] b [of "NOT bl"]
    by (simp add: algebra_simps of_bool_def del: bit_not_iff)
  also have "\<dots> = (wide ah al - wide bh bl + 2 ^ 64) mod 2 ^ 64"
    unfolding wide_def uint_not by (simp add: algebra_simps)
  finally show "\<exists>h l t. sub64 ah al bh bl s = (Ok (h, l), t) \<and> wide h l = (wide ah al - wide bh bl) mod 2 ^ 64"
    using run by auto
qed


theorem two_word_arithmetic_witness:
  "\<exists>h l t. add64 1 0xFFFFFFFF 2 1 sample_ppc = (Ok (h, l), t) \<and> wide h l = 4 * 2 ^ 32"
  using two_word_arithmetic [OF sample_ppc_cpu, of 1 "0xFFFFFFFF" 2 1] by (simp add: wide_def)

section \<open>Shifts\<close>

text \<open>The shift amount is the low six bits.\<close>

definition shift_amount :: "u32 \<Rightarrow> nat" where
  "shift_amount sh = unat (sh AND 0x3F)"

lemma shift_amount_split:
  "shift_amount sh = (if sh AND 0x20 \<noteq> 0 then 32 else 0) + unat (sh AND 0x1F)" "unat (sh AND 0x1F) < 32"
proof -
  have m: "sh AND 0x3F = take_bit 6 sh" "sh AND 0x1F = take_bit 5 sh"
    by (simp_all add: take_bit_eq_mask mask_eq_exp_minus_1)
  have u: "unat (take_bit k sh) = take_bit k (unat sh)" for k by (simp add: unsigned_take_bit_eq)
  have b: "sh AND 0x20 \<noteq> 0 \<longleftrightarrow> bit (unat sh) 5"
  proof -
    have "sh AND 0x20 = sh AND push_bit 5 1" by simp
    then have "sh AND 0x20 \<noteq> 0 \<longleftrightarrow> bit sh 5" by (simp only: and_exp_eq_0_iff_not_bit push_bit_of_1) simp
    then show ?thesis by (simp add: bit_unsigned_iff)
  qed
  show "shift_amount sh = (if sh AND 0x20 \<noteq> 0 then 32 else 0) + unat (sh AND 0x1F)"
    unfolding shift_amount_def m u b using take_bit_Suc_from_most [of 5 "unat sh"] by simp
  show "unat (sh AND 0x1F) < 32"
    unfolding m u by (simp add: take_bit_eq_mod)
qed

lemma sdiv_pow2:
  fixes x :: int
  shows "x sdiv 2 ^ n = x div 2 ^ n + (if x < 0 \<and> x mod 2 ^ n \<noteq> 0 then 1 else 0)"
  using zdiv_zminus1_eq_if [of "2 ^ n" "x"] by (simp add: signed_divide_int_def sgn_if)

lemma sint_mod: "n \<le> 32 \<Longrightarrow> sint (v :: u32) mod 2 ^ n = uint v mod 2 ^ n"
proof -
  assume n: "n \<le> 32"
  then have "(2 :: int) ^ n dvd 2 ^ 32" by (rule le_imp_power_dvd)
  then have "(uint v - 2 ^ 32) mod 2 ^ n = uint v mod 2 ^ n" by (metis dvd_imp_mod_0 diff_zero mod_diff_right_eq)
  then show ?thesis by (simp add: sint_cases)
qed

lemma sint_neg: "sint (v :: u32) < 0 \<longleftrightarrow> bit v 31"
  using uint_lt2p [of v] by (simp add: sint_cases)

lemma low_bits_zero: "n < 32 \<Longrightarrow> (v :: u32) AND (push_bit n 1 - 1) = 0 \<longleftrightarrow> uint v mod 2 ^ n = 0"
proof -
  assume "n < 32"
  have "v AND (push_bit n 1 - 1) = take_bit n v"
    by (simp add: take_bit_eq_mask mask_eq_exp_minus_1 push_bit_of_1)
  then show ?thesis
    by (metis take_bit_eq_mod uint_0_iff unsigned_take_bit_eq)
qed

lemma sint_bound: "- (2 ^ 31) \<le> sint (v :: u32)" "sint (v :: u32) < 2 ^ 31"
  using sint_ge [of v] sint_lt [of v] by simp_all

lemma shift_split: obtains n where "n = unat (sh AND 0x1F)" "n < 32"
    "shift_amount sh = (if sh AND 0x20 \<noteq> 0 then 32 else 0) + n"
  using shift_amount_split by blast

lemma sint_div_wide: "sint (v :: u32) div 2 ^ (32 + n) = (if bit v 31 then - 1 else 0)"
proof (cases "bit v 31")
  case True
  have "(2 :: int) ^ 31 \<le> 2 ^ (32 + n)" by (rule power_increasing) simp_all
  moreover have "sint v < 0" using True by (simp add: sint_neg)
  ultimately show ?thesis using True sint_bound [of v]
    by (intro trans [OF int_div_pos_eq [where r = "sint v + 2 ^ (32 + n)" and q = "- 1"]]) simp_all
next
  case False
  have "(2 :: int) ^ 31 \<le> 2 ^ (32 + n)" by (rule power_increasing) simp_all
  moreover have "\<not> sint v < 0" using False by (simp add: sint_neg)
  ultimately show ?thesis using False sint_bound [of v] by (simp add: div_pos_pos_trivial)
qed

lemma slw_exact: "uint (PPC_Slw v sh) = uint v * 2 ^ shift_amount sh mod 2 ^ 32"
proof -
  obtain n where n: "n = unat (sh AND 0x1F)" "n < 32" "shift_amount sh = (if sh AND 0x20 \<noteq> 0 then 32 else 0) + n"
    by (rule shift_split)
  have "uint (push_bit n v) = uint v * 2 ^ n mod 2 ^ 32"
    unfolding unsigned_push_bit_eq by (simp add: push_bit_eq_mult take_bit_eq_mod)
  moreover have "uint v * 2 ^ (32 + n) mod 2 ^ 32 = 0" by (simp add: power_add mult.left_commute)
  ultimately show ?thesis unfolding PPC_Slw_def n(3) n(1) [symmetric] by simp
qed

lemma srw_exact: "uint (PPC_Srw v sh) = uint v div 2 ^ shift_amount sh"
proof -
  obtain n where n: "n = unat (sh AND 0x1F)" "n < 32" "shift_amount sh = (if sh AND 0x20 \<noteq> 0 then 32 else 0) + n"
    by (rule shift_split)
  have b: "0 \<le> uint v" "uint v < 2 ^ 32" using uint_lt2p [of v] by simp_all
  have "(2::int) ^ 32 \<le> 2 ^ (32 + n)" by (rule power_increasing) simp_all
  then have "uint v div 2 ^ (32 + n) = 0" using b by (simp add: div_pos_pos_trivial)
  moreover have "uint (drop_bit n v) = uint v div 2 ^ n"
    unfolding unsigned_drop_bit_eq using n(2) b by (simp add: drop_bit_eq_div take_bit_eq_mod mod_pos_pos_trivial)
  ultimately show ?thesis unfolding PPC_Srw_def n(3) n(1) [symmetric] by simp
qed

lemma sraw_exact: "sint (PPC_Sraw v sh) = sint v div 2 ^ shift_amount sh"
proof -
  obtain n where n: "n = unat (sh AND 0x1F)" "shift_amount sh = (if sh AND 0x20 \<noteq> 0 then 32 else 0) + n"
    by (rule shift_split)
  show ?thesis unfolding PPC_Sraw_def n(2) n(1) [symmetric]
    by (auto simp: sint_div_wide sint_signed_drop_bit_eq drop_bit_eq_div msb_mask)
qed

lemma shift_carry_exact:
  "uint (shift_carry v sh) = of_bool (sint v < 0 \<and> sint v mod 2 ^ shift_amount sh \<noteq> 0)"
proof (cases "bit v 31")
  case True
  obtain n where n: "n = unat (sh AND 0x1F)" "n < 32" "shift_amount sh = (if sh AND 0x20 \<noteq> 0 then 32 else 0) + n"
    by (rule shift_split)
  have "sint v mod 2 ^ (32 + n) \<noteq> 0"
  proof
    assume "sint v mod 2 ^ (32 + n) = 0"
    then have "sint v = sint v div 2 ^ (32 + n) * 2 ^ (32 + n)" by (metis add.right_neutral div_mult_mod_eq)
    also have "\<dots> = - (2 ^ (32 + n))" using sint_div_wide True by simp
    finally show False using sint_bound [of v] power_increasing [of 32 "32 + n" "2 :: int"] by simp
  qed
  then show ?thesis unfolding shift_carry_def n(3) Let_def using True n(2)
    by (simp add: msb_mask n(1) [symmetric] low_bits_zero sint_mod sint_neg del: push_bit_of_1)
qed (simp add: shift_carry_def msb_mask sint_neg)

text \<open>\<open>srawi\<close> followed by \<open>addze\<close>: how a compiler divides by a power of two.\<close>

definition divide_pow2 :: "u32 \<Rightarrow> u32 \<Rightarrow> (ppc_state, u32) prog" where
  "divide_pow2 v sh = thenP (ignoreP (PPC_UpdateCarryShiftRight v sh)) (PPC_Addzeo (PPC_Sraw v sh))"


lemma sint_add_fits: "- (2 ^ 31) \<le> sint (a :: u32) + sint b \<Longrightarrow> sint a + sint b < 2 ^ 31 \<Longrightarrow> sint (a + b) = sint a + sint b"
  by (simp add: sint_word_ariths signed_take_bit_int_eq_self)

lemma divide_pow2_exact:
  assumes cpu: "g_currentCpuContext s = Some c"
  shows "\<exists>q t. divide_pow2 v sh s = (Ok q, t) \<and> sint q = sint v sdiv 2 ^ shift_amount sh"
proof -
  let ?k = "sint v < 0 \<and> sint v mod 2 ^ shift_amount sh \<noteq> 0"
  have k: "shift_carry v sh = of_bool ?k"
    using shift_carry_exact [of v sh] by (metis uint_of_bool(1) word_uint_eqI)
  let ?c = "c\<lparr>xer := set_ca (xer c) (of_bool ?k)\<rparr>"
  let ?t = "s\<lparr>g_currentCpuContext := Some ?c\<rparr>"
  have run: "PPC_UpdateCarryShiftRight v sh s = (Ok (xer ?c), ?t)"
    unfolding PPC_UpdateCarryShiftRight_def k using store_carry_run [OF cpu] by simp
  have ca: "bit (xer ?c) 29 \<longleftrightarrow> ?k" by (simp add: set_ca_bits)
  have "g_currentCpuContext ?t = Some ?c" by simp
  from add_records [OF this, of "PPC_Sraw v sh" 0]
  obtain t where t: "PPC_Addzeo (PPC_Sraw v sh) ?t = (Ok (PPC_Sraw v sh + of_bool ?k), t)"
    unfolding ca by (auto simp: records_def Let_def)
  have "sint (PPC_Sraw v sh + of_bool ?k) = sint v div 2 ^ shift_amount sh + of_bool ?k"
  proof (cases ?k)
    case True
    then have "sint v div 2 ^ shift_amount sh < 0" by (simp add: pos_imp_zdiv_neg_iff)
    then show ?thesis using sint_add_fits [of "PPC_Sraw v sh" "of_bool ?k"] sint_bound [of "PPC_Sraw v sh"] True
      by (simp add: sraw_exact)
  qed (auto simp: sraw_exact)
  then show ?thesis using run t
    by (simp add: divide_pow2_def thenP_def bindP_def ignoreP_def returnP_def sdiv_pow2)
qed

text \<open>C22: the shifts are exact for every amount (the low six bits, so up to 63): left shift is multiplication
  modulo \<open>2\<^sup>3\<^sup>2\<close>, logical right shift is floor division of the unsigned value, arithmetic right shift of the
  signed one, and the carry it leaves is what turns the floor into truncation: \<open>srawi\<close> followed by \<open>addze\<close>
  is signed division by a power of two.\<close>

theorem shifts_exact:
  assumes cpu: "g_currentCpuContext s = Some c"
  shows "uint (PPC_Slw v sh) = uint v * 2 ^ shift_amount sh mod 2 ^ 32 \<and>
    uint (PPC_Srw v sh) = uint v div 2 ^ shift_amount sh \<and>
    sint (PPC_Sraw v sh) = sint v div 2 ^ shift_amount sh \<and>
    (\<exists>q t. divide_pow2 v sh s = (Ok q, t) \<and> sint q = sint v sdiv 2 ^ shift_amount sh)"
proof (intro conjI slw_exact srw_exact sraw_exact)
  show "\<exists>q t. divide_pow2 v sh s = (Ok q, t) \<and> sint q = sint v sdiv 2 ^ shift_amount sh"
    by (rule divide_pow2_exact [OF cpu])
qed

theorem shifts_exact_witness:
  "\<exists>q t. divide_pow2 (- 7) 1 sample_ppc = (Ok q, t) \<and> sint q = - 3"
  using shifts_exact [OF sample_ppc_cpu, of "- 7" 1]
  by (simp add: shift_amount_def signed_divide_int_def)

section \<open>Multiplication and division\<close>

lemma xer_flags_overflow: "xer_flags c None ov (c\<lparr>xer := set_ov (xer c) ov\<rparr>)"
  using xer_flags_sets [where k = 0 and upd = False] by simp

lemma overflow_run:
  assumes "g_currentCpuContext s = Some c"
  shows "\<exists>c'. thenP (UpdateOverflow ov) (returnP r) s = (Ok r, s\<lparr>g_currentCpuContext := Some c'\<rparr>) \<and> xer_flags c None ov c'"
  using xer_flags_overflow by (auto simp: thenP_Ok [of "UpdateOverflow ov", OF UpdateOverflow_run [OF assms]] returnP_run)

lemma overflow_result:
  assumes "g_currentCpuContext s = Some c" and "m = thenP (UpdateOverflow ov) (returnP r)" and "ov = ov'" and "P r"
  shows "\<exists>q c'. m s = (Ok q, s\<lparr>g_currentCpuContext := Some c'\<rparr>) \<and> xer_flags c None ov' c' \<and> P q"
  using overflow_run [OF assms(1), of ov r] assms(2-4) by auto

lemma product_fits:
  fixes x y :: int
  assumes "- (2 ^ 31) \<le> x" "x < 2 ^ 31" "- (2 ^ 31) \<le> y" "y < 2 ^ 31"
  shows "- (2 ^ 63) \<le> x * y \<and> x * y < 2 ^ 63"
proof -
  have "\<bar>x\<bar> \<le> 2 ^ 31" "\<bar>y\<bar> \<le> 2 ^ 31" using assms by linarith+
  then have "\<bar>x * y\<bar> \<le> 2 ^ 31 * 2 ^ 31" unfolding abs_mult by (intro mult_mono) simp_all
  then show ?thesis by (simp add: abs_le_iff)
qed

lemma wide_product: "sint (word_of_int (sint (a :: u32)) * word_of_int (sint (b :: u32)) :: u64) = sint a * sint b"
  using product_fits [OF sint_bound [of a] sint_bound [of b]]
  unfolding wi_hom_mult sint_sbintrunc' by (simp add: signed_take_bit_int_eq_self)

lemma low_product: "ucast (word_of_int (sint (a :: u32)) * word_of_int (sint (b :: u32)) :: u64) = a * b"
proof -
  have "ucast (word_of_int x :: u64) = (word_of_int x :: u32)" for x
    by (rule bit_word_eqI) (simp add: bit_simps)
  then have "ucast (word_of_int (sint a * sint b) :: u64) = (word_of_int (sint a * sint b) :: u32)" .
  also have "\<dots> = word_of_int (sint a) * word_of_int (sint b)" by (simp only: wi_hom_mult)
  finally show ?thesis by (simp only: wi_hom_mult) simp
qed

lemma quotient_fits:
  fixes x y :: int
  assumes x: "- (2 ^ 31) \<le> x" "x < 2 ^ 31" and y: "y \<noteq> 0"
  shows "signed_fits (x sdiv y) \<longleftrightarrow> \<not> (x = - (2 ^ 31) \<and> y = - 1)"
proof (cases "\<bar>y\<bar> = 1")
  case True
  then have "y = 1 \<or> y = - 1" by linarith
  then show ?thesis using x by (auto simp: signed_fits_def)
next
  case False
  have "\<bar>x\<bar> div \<bar>y\<bar> \<le> \<bar>x\<bar> div 2" using False y by (intro zdiv_mono2) linarith+
  then have "\<bar>x\<bar> div \<bar>y\<bar> < 2 ^ 31" "0 \<le> \<bar>x\<bar> div \<bar>y\<bar>" using x by (auto simp: pos_imp_zdiv_nonneg_iff y)
  then have "signed_fits (x sdiv y)" by (auto simp: signed_divide_int_def signed_fits_def sgn_if)
  then show ?thesis using False by auto
qed

lemma divide_signed_run:
  assumes cpu: "g_currentCpuContext s = Some c"
  shows "\<exists>q c'. PPC_Divwo a b s = (Ok q, s\<lparr>g_currentCpuContext := Some c'\<rparr>) \<and>
      xer_flags c None (b = 0 \<or> \<not> signed_fits (sint a sdiv sint b)) c' \<and> sint q = PPC_Divw (sint a) (sint b) \<and>
      (b \<noteq> 0 \<and> signed_fits (sint a sdiv sint b) \<longrightarrow> sint q = sint a sdiv sint b)"
proof -
  have z: "sint b = 0 \<longleftrightarrow> b = 0" using signed_word_eqI [of b 0] by auto
  show ?thesis
  proof (cases "b = 0 \<or> \<not> signed_fits (sint a sdiv sint b)")
    case True
    then have c: "sint b = 0 \<or> (sint a = - (2 ^ 31) \<and> sint b = - 1)"
      using quotient_fits [OF sint_bound [of a], of "sint b"] z by auto
    let ?q = "if sint a < 0 then 0xFFFFFFFF else 0 :: u32"
    have q: "sint ?q = (if sint a < 0 then - 1 else 0)" by simp
    have "PPC_Divwo a b = thenP (UpdateOverflow True) (returnP ?q)"
      unfolding PPC_Divwo_def Let_def to_i32_def by (rule if_P) (rule c)
    moreover have "PPC_Divw (sint a) (sint b) = (if sint a < 0 then - 1 else 0)"
      unfolding PPC_Divw_def by (rule if_P) (rule c)
    ultimately show ?thesis using q True by (intro overflow_result [OF cpu, of _ True ?q]) auto
  next
    case False
    then have c: "\<not> (sint b = 0 \<or> (sint a = - (2 ^ 31) \<and> sint b = - 1))"
      using quotient_fits [OF sint_bound [of a], of "sint b"] z by auto
    have "sint (of_i32 (sint a sdiv sint b)) = sint a sdiv sint b"
      using False by (simp add: of_i32_def signed_fits_def sint_sbintrunc' signed_take_bit_int_eq_self)
    moreover have "PPC_Divwo a b = thenP (UpdateOverflow False) (returnP (of_i32 (sint a sdiv sint b)))"
      unfolding PPC_Divwo_def Let_def to_i32_def by (rule if_not_P) (rule c)
    moreover have "PPC_Divw (sint a) (sint b) = sint a sdiv sint b"
      unfolding PPC_Divw_def by (rule if_not_P) (rule c)
    ultimately show ?thesis using False by (intro overflow_result [OF cpu, of _ False "of_i32 (sint a sdiv sint b)"]) simp_all
  qed
qed

text \<open>C23: multiplication with overflow recording returns the low word of the exact signed product and sets OV
  exactly when the product does not fit; the two divisions set OV exactly when the divisor is 0 or the signed
  quotient does not fit, and otherwise return the truncated quotient, the one the form without flags returns.
  CA and everything else is left alone.\<close>

theorem multiply_divide:
  assumes cpu: "g_currentCpuContext s = Some c"
  shows "records s c (PPC_Mullwo a b) (a * b) None (sint a * sint b) \<and>
    (\<exists>q c'. PPC_Divwo a b s = (Ok q, s\<lparr>g_currentCpuContext := Some c'\<rparr>) \<and>
      xer_flags c None (b = 0 \<or> \<not> signed_fits (sint a sdiv sint b)) c' \<and> sint q = PPC_Divw (sint a) (sint b) \<and>
      (b \<noteq> 0 \<and> signed_fits (sint a sdiv sint b) \<longrightarrow> sint q = sint a sdiv sint b)) \<and>
    (\<exists>q c'. PPC_Divwuo a b s = (Ok q, s\<lparr>g_currentCpuContext := Some c'\<rparr>) \<and> xer_flags c None (b = 0) c' \<and>
      q = PPC_Divwu a b \<and> (b \<noteq> 0 \<longrightarrow> uint q = uint a div uint b))"
proof (intro conjI)
  have e: "sint a * sint b < - (2 ^ 31) \<or> sint a * sint b > 2 ^ 31 - 1 \<longleftrightarrow> \<not> signed_fits (sint a * sint b)"
    unfolding signed_fits_def by linarith
  show "records s c (PPC_Mullwo a b) (a * b) None (sint a * sint b)"
    unfolding PPC_Mullwo_def Let_def to_i32_def wide_product low_product records_def e
    by (rule overflow_run [OF cpu])
  show "\<exists>q c'. PPC_Divwuo a b s = (Ok q, s\<lparr>g_currentCpuContext := Some c'\<rparr>) \<and> xer_flags c None (b = 0) c' \<and>
      q = PPC_Divwu a b \<and> (b \<noteq> 0 \<longrightarrow> uint q = uint a div uint b)"
    using overflow_run [OF cpu, of "b = 0" "PPC_Divwu a b"]
    by (cases "b = 0") (auto simp: PPC_Divwuo_def PPC_Divwu_def uint_div)
  show "\<exists>q c'. PPC_Divwo a b s = (Ok q, s\<lparr>g_currentCpuContext := Some c'\<rparr>) \<and>
      xer_flags c None (b = 0 \<or> \<not> signed_fits (sint a sdiv sint b)) c' \<and> sint q = PPC_Divw (sint a) (sint b) \<and>
      (b \<noteq> 0 \<and> signed_fits (sint a sdiv sint b) \<longrightarrow> sint q = sint a sdiv sint b)"
    by (rule divide_signed_run [OF cpu])
qed

theorem multiply_divide_witness:
  "(\<exists>q t. PPC_Divwo (- 7) 2 sample_ppc = (Ok q, t) \<and> sint q = - 3) \<and>
   (\<exists>c'. PPC_Mullwo 0x10000 0x8000 sample_ppc = (Ok 0x80000000, sample_ppc\<lparr>g_currentCpuContext := Some c'\<rparr>) \<and> bit (xer c') 30)"
proof -
  have "sint (- 7 :: u32) = - 7" "sint (2 :: u32) = 2" by simp_all
  then show ?thesis
  using multiply_divide [OF sample_ppc_cpu, of "- 7" 2] multiply_divide [OF sample_ppc_cpu, of "0x10000" "0x8000"]
  by (auto simp: signed_divide_int_def signed_fits_def records_def xer_flags_def)
qed

end
