(* ===== verification/Ppc_Register_Laws.thy ===== *)
theory Ppc_Register_Laws
  imports Ppc_Laws
begin

text \<open>
  The condition register, the reservation of \<open>lwarx\<close> and \<open>stwcx.\<close>, the clearing of a cache line and the
  special purpose registers: what each operation changes, stated over the bits, words and registers a
  program sees.
\<close>

section \<open>Condition register\<close>

text \<open>Bit \<open>i\<close> of the condition register, counted from the most significant.\<close>

definition cr_bit :: "u32 \<Rightarrow> nat \<Rightarrow> bool" where
  "cr_bit w i = bit w (31 - i)"

lemma and_low: "unat ((w :: u32) AND 7) = unat w mod 8" "unat (w AND 31) = unat w mod 32"
proof -
  have "w AND 7 = take_bit 3 w" "w AND 31 = take_bit 5 w" by (simp_all add: take_bit_eq_mask mask_eq_exp_minus_1)
  then have "unat (w AND 7) = take_bit 3 (unat w)" "unat (w AND 31) = take_bit 5 (unat w)"
    by (simp_all only: unsigned_take_bit_eq)
  then show "unat (w AND 7) = unat w mod 8" "unat (w AND 31) = unat w mod 32"
    by (simp_all add: take_bit_eq_mod)
qed

lemma of_nat_low: "n < 32 \<Longrightarrow> unat (of_nat n :: u32) = n"
  by (simp add: unat_of_nat)

lemma bit_15: "bit (0xF :: u32) n \<longleftrightarrow> n < 4"
proof -
  have "(0xF :: u32) = mask 4" by (simp add: mask_eq_exp_minus_1)
  then show ?thesis by (simp only: bit_mask_iff) auto
qed

lemma put_cr_field_bit:
  assumes "f \<le> 7" "i < 32" "\<And>n. bit v n \<Longrightarrow> n < 4"
  shows "cr_bit (put_cr_field w f v) i \<longleftrightarrow> (if i div 4 = f then bit v (3 - i mod 4) else cr_bit w i)"
proof -
  have i: "i = 4 * (i div 4) + i mod 4" "i mod 4 < 4" by simp_all
  have "31 - i - (7 - f) * 4 = 3 - i mod 4" if "i div 4 = f"
    using that i assms(1,2) by linarith
  moreover have "(7 - f) * 4 \<le> 31 - i \<and> 31 - i - (7 - f) * 4 < 4 \<longleftrightarrow> i div 4 = f"
    using i assms(1,2) by linarith
  moreover have "31 - i < 32" by simp
  ultimately show ?thesis using assms(3) [of "31 - i - (7 - f) * 4"]
    unfolding cr_bit_def put_cr_field_def bit_or_iff bit_and_iff bit_not_iff bit_push_bit_iff bit_15
    by (cases "i div 4 = f") auto
qed

lemma GetCRBit_bit: "f \<le> 7 \<Longrightarrow> b \<le> 3 \<Longrightarrow> GetCRBitResident w f b \<longleftrightarrow> cr_bit w (4 * f + b)"
proof -
  assume "f \<le> 7" "b \<le> 3"
  then have e: "(7 - f) * 4 + (3 - b) = 31 - (4 * f + b)" by linarith
  show ?thesis unfolding GetCRBitResident_def cr_bit_def e by (simp add: and_one_eq bit_iff_odd_drop_bit mod2_eq_if)
qed

lemma cr_value_bit:
  "bit (cr_value l g e x) n \<longleftrightarrow> (n = 3 \<and> l) \<or> (n = 2 \<and> g) \<or> (n = 1 \<and> e) \<or> (n = 0 \<and> bit x 31)"
proof -
  have p: "bit (push_bit k 1 :: u32) n \<longleftrightarrow> n = k" if "k < 32" for k
    using that unfolding bit_push_bit_iff bit_1_iff by auto
  have m: "bit (8 :: u32) n \<longleftrightarrow> n = 3" "bit (4 :: u32) n \<longleftrightarrow> n = 2" "bit (2 :: u32) n \<longleftrightarrow> n = 1"
    using p [of 3] p [of 2] p [of 1] by simp_all
  show ?thesis unfolding cr_value_def bit_or_iff if_distrib [of "\<lambda>w. bit w n"] m bit_and_iff bit_1_iff bit_drop_bit_eq
    by auto
qed

lemma cr_field_bit: "f \<le> 7 \<Longrightarrow> b \<le> 3 \<Longrightarrow> bit (drop_bit ((7 - f) * 4) w) (3 - b) \<longleftrightarrow> cr_bit w (4 * f + b)"
proof -
  assume "f \<le> 7" "b \<le> 3"
  then have e: "(7 - f) * 4 + (3 - b) = 31 - (4 * f + b)" by linarith
  show ?thesis unfolding cr_bit_def bit_drop_bit_eq comp_def e ..
qed

text \<open>C24: a comparison writes its four-bit field (less, greater, equal and a copy of the summary overflow bit) and
  no other: reading any bit of any field afterwards gives the comparison for that field and the old bit for
  the others.  Copying a field (\<open>mcrf\<close>) gives the source's bits in the destination and keeps the rest.\<close>

theorem compare_fields:
  assumes "f \<le> 7" "g \<le> 7" "b \<le> 3"
  shows "(GetCRBitResident (SetCRResident w x f p q) g b \<longleftrightarrow>
      (if g = f then [p < q, p > q, p = q, bit x 31] ! b else GetCRBitResident w g b)) \<and>
    (GetCRBitResident (PpcMcrfResident w (of_nat f) src) g b \<longleftrightarrow>
      GetCRBitResident w (if g = f then unat (src AND 7) else g) b)"
proof -
  have gb: "4 * g + b < 32" "(4 * g + b) div 4 = g" "(4 * g + b) mod 4 = b" using assms by auto
  have s7: "unat (src AND 7) \<le> 7" using and_low(1) [of src] by simp
  have f7: "unat (of_nat f AND (7 :: u32)) = f" using assms(1) unfolding and_low(1) by (simp add: of_nat_low)
  have b: "b = 0 \<or> b = 1 \<or> b = 2 \<or> b = 3" using assms(3) by auto
  have "GetCRBitResident (SetCRResident w x f p q) g b \<longleftrightarrow>
      (if g = f then [p < q, p > q, p = q, bit x 31] ! b else GetCRBitResident w g b)"
    using b unfolding SetCRResident_def GetCRBit_bit [OF assms(2,3)]
    by (subst put_cr_field_bit [OF assms(1) gb(1)]) (auto simp: gb cr_value_bit)
  moreover have "GetCRBitResident (PpcMcrfResident w (of_nat f) src) g b \<longleftrightarrow>
      GetCRBitResident w (if g = f then unat (src AND 7) else g) b"
    unfolding PpcMcrfResident_def Let_def f7 GetCRBit_bit [OF assms(2,3)] GetCRBit_bit [OF s7 assms(3)] if_distrib [of "\<lambda>k. GetCRBitResident w k b"]
    using assms(3)
    by (subst put_cr_field_bit [OF assms(1) gb(1)]; unfold bit_and_iff bit_15)
      (auto simp: gb cr_field_bit [OF s7 assms(3)])
  ultimately show ?thesis by blast
qed

theorem compare_fields_witness:
  "GetCRBitResident (SetCRResident 0 0 2 1 5) 2 0 \<and> \<not> GetCRBitResident (SetCRResident 0 0 2 1 5) 2 1"
  using compare_fields [of 2 2 0 0 0 1 5 0, THEN conjunct1] compare_fields [of 2 2 1 0 0 1 5 0, THEN conjunct1] by simp

text \<open>The functions of the condition register instructions, by the number the translator gives them.\<close>

definition cr_function :: "nat \<Rightarrow> bool \<Rightarrow> bool \<Rightarrow> bool" where
  "cr_function k a b =
     [\<not> (a \<or> b), a \<and> \<not> b, a \<noteq> b, \<not> (a \<and> b), a \<and> b, a = b, \<not> a \<or> b, a \<or> b] ! k"

lemma cr_read_bit_of: "i < 32 \<Longrightarrow> cr_read_bit w (of_nat i) = of_bool (cr_bit w i)"
proof -
  assume i: "i < 32"
  then have "unat (31 - (of_nat i AND (31 :: u32))) = 31 - i"
    by (subst unat_sub) (simp_all add: and_low of_nat_low word_le_nat_alt)
  then show ?thesis unfolding cr_read_bit_def cr_bit_def by (simp add: and_one_eq bit_iff_odd_drop_bit mod2_eq_if)
qed

lemma PpcCrSetBit_bit: "t < 32 \<Longrightarrow> i < 32 \<Longrightarrow>
  cr_bit (PpcCrSetBitResident w (of_nat t) v) i \<longleftrightarrow> (if i = t then bit v 0 else cr_bit w i)"
proof -
  assume a: "t < 32" "i < 32"
  then have u: "unat (31 - (of_nat t AND (31 :: u32))) = 31 - t"
    by (subst unat_sub) (simp_all add: and_low of_nat_low word_le_nat_alt)
  have "31 - i = 31 - t \<longleftrightarrow> i = t" "31 - i < 32" using a by auto
  then show ?thesis unfolding PpcCrSetBitResident_def u Let_def cr_bit_def
    unfolding and_one_eq by (cases "even v") (auto simp: bit_simps bit_0 even_iff_mod_2_eq_zero)
qed

lemma cr_logical_bits:
  assumes "k < 8" "t < 32" "i < 32" "j < 32" "n < 32"
  shows "cr_bit (PpcCrLogicalResident w (of_nat k) (of_nat t) (of_nat i) (of_nat j)) n \<longleftrightarrow>
    (if n = t then cr_function k (cr_bit w i) (cr_bit w j) else cr_bit w n)"
proof -
  have k: "of_nat k AND (7 :: u32) = of_nat k"
    using and_low(1) [of "of_nat k"] assms(1) by (simp add: of_nat_low word_unat_eq_iff)
  consider "k = 0" | "k = 1" | "k = 2" | "k = 3" | "k = 4" | "k = 5" | "k = 6" | "k = 7" using assms(1) by linarith
  then show ?thesis
    unfolding PpcCrLogicalResident_def Let_def k cr_read_bit_of [OF assms(3)] cr_read_bit_of [OF assms(4)]
      PpcCrSetBit_bit [OF assms(2,5)] cr_function_def
    by cases (simp_all add: bit_simps)
qed

text \<open>C25: the condition register instructions set the target bit to the function of the two source bits that
  their number selects, and keep the other 31 bits.  Number 6 is what the translator emits for \<open>crorc\<close>, the first
  operand or the complement of the second; the helper complements the first instead, so the bit it sets is wrong exactly
  when the operands differ.\<close>

theorem cr_logical:
  assumes "k < 8" "t < 32" "i < 32" "j < 32" "n < 32"
  shows "(cr_bit (PpcCrLogicalResident w (of_nat k) (of_nat t) (of_nat i) (of_nat j)) n \<longleftrightarrow>
      (if n = t then cr_function k (cr_bit w i) (cr_bit w j) else cr_bit w n)) \<and>
    (cr_bit (PpcCrLogicalResident w 6 (of_nat t) (of_nat i) (of_nat j)) t \<noteq> (cr_bit w i \<or> \<not> cr_bit w j) \<longleftrightarrow>
      cr_bit w i \<noteq> cr_bit w j)"
  using cr_logical_bits [OF assms] cr_logical_bits [of 6 t i j t w] assms by (auto simp: cr_function_def)

theorem cr_logical_witness:
  "cr_bit (PpcCrLogicalResident 0x80000000 1 31 0 5) 31 \<and> cr_bit (PpcCrLogicalResident 0x80000000 1 31 0 5) 0 \<and>
   \<not> cr_bit (PpcCrLogicalResident 0x80000000 6 31 0 1) 31"
  using cr_logical [of 1 31 0 5 31 "0x80000000"] cr_logical [of 1 31 0 5 0 "0x80000000"] cr_logical [of 6 31 0 1 31 "0x80000000"]
  by (simp add: cr_function_def cr_bit_def bit_iff_odd)

section \<open>Memory and the CPU context\<close>

lemma rd32_storage: "Storage s = Storage t \<Longrightarrow> rd32 s a = rd32 t a"
  by (simp add: rd32_def bytes_at_def)

lemma ppc_frames [simp]:
  "rd32 (s\<lparr>g_currentCpuContext := c\<rparr>) a = rd32 s a" "ram (s\<lparr>g_currentCpuContext := c\<rparr>) a = ram s a"
  "rd32 (s\<lparr>g_reservationAddr := x\<rparr>) a = rd32 s a" "ram (s\<lparr>g_reservationAddr := x\<rparr>) a = ram s a"
  "rd32 (s\<lparr>g_hasReservation := h\<rparr>) a = rd32 s a" "ram (s\<lparr>g_hasReservation := h\<rparr>) a = ram s a"
  by ((rule rd32_storage | rule ram_congI); simp)+

lemma put_bytes_ppc [simp]:
  "g_currentCpuContext (put_bytes p bs s) = g_currentCpuContext s"
  "g_hasReservation (put_bytes p bs s) = g_hasReservation s"
  "g_reservationAddr (put_bytes p bs s) = g_reservationAddr s"
  "g_sprShadow (put_bytes p bs s) = g_sprShadow s"
  by (simp_all add: put_bytes_def)

lemma wr32_ppc [simp]:
  "g_currentCpuContext (wr32 s a v) = g_currentCpuContext s"
  "g_hasReservation (wr32 s a v) = g_hasReservation s"
  "g_reservationAddr (wr32 s a v) = g_reservationAddr s"
  by (simp_all add: wr32_def)

section \<open>Reservations\<close>

text \<open>The result of \<open>stwcx.\<close> is \<open>EQ\<close> of field 0; \<open>LT\<close> and \<open>GT\<close> are cleared and \<open>SO\<close> copied.\<close>

definition cr0_after_store :: "bool \<Rightarrow> cpu_context \<Rightarrow> cpu_context \<Rightarrow> bool" where
  "cr0_after_store ok c c' \<longleftrightarrow>
     c' = c\<lparr>cr := cr c'\<rparr> \<and> take_bit 28 (cr c') = take_bit 28 (cr c) \<and>
     (\<forall>b \<le> 3. GetCRBitResident (cr c') 0 b \<longleftrightarrow> [False, False, ok, bit (xer c) 31] ! b)"


lemma put_field_0: "put_cr_field w 0 v = (w AND 0x0FFFFFFF) OR push_bit 28 v"
proof -
  have "NOT (push_bit ((7 - 0) * 4) 0xF) = (0x0FFFFFFF :: u32)" "(7 - 0) * 4 = (28 :: nat)" by simp_all
  then show ?thesis unfolding put_cr_field_def by (simp only:)
qed

lemma cr0_word:
  "take_bit 28 (put_cr_field w 0 v) = take_bit 28 w"
proof -
  have "take_bit 28 (push_bit 28 v) = 0" by (rule bit_word_eqI) (auto simp: bit_simps)
  moreover have "take_bit 28 (w AND 0x0FFFFFFF) = take_bit 28 w"
  proof -
    have m: "(0x0FFFFFFF :: u32) = mask 28" by (simp add: mask_eq_exp_minus_1)
    show ?thesis unfolding m by (simp add: take_bit_eq_mask and.assoc)
  qed
  ultimately show ?thesis unfolding put_field_0 take_bit_or by simp
qed

lemma Stwcx_run:
  assumes "g_currentCpuContext s = Some c" and "ram s b"
  shows "\<exists>c'. PPC_Stwcx b v s =
      (Ok (if g_hasReservation s \<and> g_reservationAddr s = b then 1 else 0),
       (if g_hasReservation s \<and> g_reservationAddr s = b then wr32 s b v else s)
         \<lparr>g_hasReservation := False, g_currentCpuContext := Some c'\<rparr>) \<and>
    cr0_after_store (g_hasReservation s \<and> g_reservationAddr s = b) c c'"
proof -
  let ?ok = "g_hasReservation s \<and> g_reservationAddr s = b"
  let ?v = "(if ?ok then 2 else 0) OR (drop_bit 31 (xer c) AND 1) :: u32"
  let ?c = "c\<lparr>cr := put_cr_field (cr c) 0 ?v\<rparr>"
  have v: "?v = cr_value False False ?ok (xer c)" by (simp add: cr_value_def)
  have "cr0_after_store ?ok c ?c"
    unfolding cr0_after_store_def v
  proof (intro conjI allI impI)
    show "take_bit 28 (cr (c\<lparr>cr := put_cr_field (cr c) 0 (cr_value False False ?ok (xer c))\<rparr>)) = take_bit 28 (cr c)"
      by (simp add: cr0_word)
    fix b :: nat assume b: "b \<le> 3"
    then have "b = 0 \<or> b = 1 \<or> b = 2 \<or> b = 3" by auto
    then show "GetCRBitResident (cr (c\<lparr>cr := put_cr_field (cr c) 0 (cr_value False False ?ok (xer c))\<rparr>)) 0 b \<longleftrightarrow>
        [False, False, ?ok, bit (xer c) 31] ! b"
      unfolding GetCRBit_bit [OF le0 b] using b
      by simp (subst put_cr_field_bit; auto simp: cr_value_bit)
  qed simp
  moreover have "PPC_Stwcx b v s = (Ok (if ?ok then 1 else 0),
      (if ?ok then wr32 s b v else s)\<lparr>g_hasReservation := False, g_currentCpuContext := Some ?c\<rparr>)"
  proof -
    let ?s = "s\<lparr>g_hasReservation := False\<rparr>"
    have "whenP ?ok (Write32 b v) ?s = (Ok (), if ?ok then wr32 ?s b v else ?s)"
      using assms(2) by (simp add: whenP_def Write32_ram returnP_run)
    moreover have "(if ?ok then wr32 ?s b v else ?s) = (if ?ok then wr32 s b v else s)\<lparr>g_hasReservation := False\<rparr>"
      by (cases s) (simp add: wr32_def put_bytes_def cong: if_cong)
    ultimately show ?thesis using assms(1)
      by (simp add: PPC_Stwcx_def bindP_def getsP_run thenP_def modifyP_run put_cpu_def returnP_run put_field_0)
  qed
  ultimately show ?thesis by blast
qed
definition atomic_add :: "u32 \<Rightarrow> u32 \<Rightarrow> (ppc_state, u32) prog" where
  "atomic_add a n = bindP (PPC_Lwarx a) (\<lambda>v. PPC_Stwcx a (v + n))"

text \<open>C26: a conditional store succeeds exactly when the reservation stands at its address: then it writes the
  word and reports 1, otherwise it writes nothing and reports 0; either way the reservation is gone and
  field 0 of the condition register tells the outcome.  Between a reserving load and its store the
  sequence load, add, store is an atomic addition, and a second store without a new load fails.\<close>

theorem reservation:
  assumes "g_currentCpuContext s = Some c" and "ram s b"
  shows "(\<exists>c' t. PPC_Stwcx b v s = (Ok (of_bool (g_hasReservation s \<and> g_reservationAddr s = b)), t) \<and>
      (\<forall>a. rd32 t a = rd32 (if g_hasReservation s \<and> g_reservationAddr s = b then wr32 s b v else s) a) \<and>
      \<not> g_hasReservation t \<and> g_currentCpuContext t = Some c' \<and>
      cr0_after_store (g_hasReservation s \<and> g_reservationAddr s = b) c c') \<and>
    (\<exists>t. atomic_add b n s = (Ok 1, t) \<and> rd32 t b = rd32 s b + n \<and> (\<forall>a. ram s a \<and> a \<noteq> b \<longrightarrow> rd32 t a = rd32 s a) \<and>
      fst (PPC_Stwcx b v t) = Ok 0)"
proof (rule conjI)
  show "\<exists>c' t. PPC_Stwcx b v s = (Ok (of_bool (g_hasReservation s \<and> g_reservationAddr s = b)), t) \<and>
      (\<forall>a. rd32 t a = rd32 (if g_hasReservation s \<and> g_reservationAddr s = b then wr32 s b v else s) a) \<and>
      \<not> g_hasReservation t \<and> g_currentCpuContext t = Some c' \<and>
      cr0_after_store (g_hasReservation s \<and> g_reservationAddr s = b) c c'"
    using Stwcx_run [OF assms, of v] by (auto simp: of_bool_def)
  let ?s = "s\<lparr>g_reservationAddr := b, g_hasReservation := True\<rparr>"
  have "g_currentCpuContext ?s = Some c" "ram ?s b" using assms by simp_all
  from Stwcx_run [OF this, of "rd32 s b + n"]
  obtain c' where c': "PPC_Stwcx b (rd32 s b + n) ?s =
      (Ok 1, (wr32 ?s b (rd32 s b + n))\<lparr>g_hasReservation := False, g_currentCpuContext := Some c'\<rparr>)"
    by auto
  let ?t = "(wr32 ?s b (rd32 s b + n))\<lparr>g_hasReservation := False, g_currentCpuContext := Some c'\<rparr>"
  have "PPC_Lwarx b s = (Ok (rd32 s b), ?s)"
    using assms(2) by (simp add: PPC_Lwarx_def thenP_def bindP_def modifyP_run Read32_ram)
  then have "atomic_add b n s = (Ok 1, ?t)" using c' by (simp add: atomic_add_def bindP_def)
  moreover have "g_currentCpuContext ?t = Some c'" "ram ?t b" "\<not> g_hasReservation ?t" using assms by simp_all
  then have "fst (PPC_Stwcx b v ?t) = Ok 0" using Stwcx_run [of ?t c' b v] by auto
  moreover have "\<forall>a. ram s a \<and> a \<noteq> b \<longrightarrow> rd32 ?t a = rd32 s a"
    using assms(2) by (auto simp: rd32_wr32_other)
  moreover have "rd32 ?t b = rd32 s b + n" by simp
  ultimately show "\<exists>t. atomic_add b n s = (Ok 1, t) \<and> rd32 t b = rd32 s b + n \<and>
      (\<forall>a. ram s a \<and> a \<noteq> b \<longrightarrow> rd32 t a = rd32 s a) \<and> fst (PPC_Stwcx b v t) = Ok 0" by blast
qed


lemma sample_ppc_ram: "ram sample_ppc 0x80001000" "ram sample_ppc 0x80001004"
  by (simp_all add: ram_def wii_memory_def ram_window_def kMem1Size_def FindExecutableRange_def sample_ppc_def
      memory.defs ppc_state.defs empty_memory_def wii_regions)

theorem reservation_witness:
  "\<exists>t. atomic_add 0x80001000 5 sample_ppc = (Ok 1, t) \<and> rd32 t 0x80001000 = rd32 sample_ppc 0x80001000 + 5 \<and>
    rd32 t 0x80001004 = rd32 sample_ppc 0x80001004"
  using reservation [OF sample_ppc_cpu sample_ppc_ram(1), of 0 5] sample_ppc_ram(2) by auto

section \<open>Clearing a cache line\<close>

lemma rd32_zeros:
  assumes "ram_window a 32" and "i < 8"
  shows "rd32 (put_bytes (ram_loc a) (replicate 32 0) s) (a + of_nat i * 4) = 0"
proof -
  have w: "of_nat i * 4 = (of_nat (i * 4) :: u32)" by simp
  have u: "unat (a + of_nat i * 4) = unat a + i * 4"
    unfolding w using assms by (subst unat_add_small) (auto simp: unat_of_nat ram_window_def kMem1Size_def kMem2Size_def)
  then have "ram_loc (a + of_nat i * 4) = (fst (ram_loc a), snd (ram_loc a) + i * 4)"
    using assms by (auto simp: ram_loc_def ram_window_def kMem1Size_def kMem2Size_def)
  then have "bytes_at (put_bytes (ram_loc a) (replicate 32 0) s) (ram_loc (a + of_nat i * 4)) 4 = replicate 4 0"
    using assms(2) by (intro nth_equalityI) (auto simp: bytes_at_def put_bytes_def)
  then show ?thesis by (simp add: rd32_def BigEndian_Read32_def numeral_eq_Suc)
qed

text \<open>C27: clearing a line of cached RAM always succeeds: its eight words read 0, every word outside keeps its
  value, and this holds for a line of registered code as well, where the scalar store stops the program.\<close>

theorem dcbz_clears_line:
  assumes "wii_memory s" and "ram_window a 32" and "guard_inv s"
  shows "\<exists>t. memset_zero_32 a s = (Ok (), t) \<and> (\<forall>i < 8. rd32 t (a + of_nat i * 4) = 0) \<and>
      (\<forall>b. ram_window b 4 \<and> (unat b + 4 \<le> unat a \<or> unat a + 32 \<le> unat b) \<longrightarrow> rd32 t b = rd32 s b) \<and>
      (FindExecutableRange s a 4 = Some r \<and> \<not> IsKnownBaseRelLoaderWrite s r \<longrightarrow>
        Write32 a 0 s = (Throw Fatal, s))"
proof (intro exI conjI)
  let ?t = "put_bytes (ram_loc a) (replicate 32 0) s"
  obtain rg where "TryResolveRegion s a 32 = Some rg" "region_pointer rg a = ram_loc a"
    using resolve_window [OF assms(1,2)] by auto
  then show "memset_zero_32 a s = (Ok (), ?t)"
    by (simp add: memset_zero_32_def catchP_def bindP_def GetPointer_def modifyP_run)
  show "\<forall>i < 8. rd32 ?t (a + of_nat i * 4) = 0" using rd32_zeros [OF assms(2)] by blast
  show "\<forall>b. ram_window b 4 \<and> (unat b + 4 \<le> unat a \<or> unat a + 32 \<le> unat b) \<longrightarrow> rd32 ?t b = rd32 s b"
    using locs_disjoint [OF assms(2), where k = 4] by (auto simp: rd32_def bytes_at_put_other)
  show "FindExecutableRange s a 4 = Some r \<and> \<not> IsKnownBaseRelLoaderWrite s r \<longrightarrow>
      Write32 a 0 s = (Throw Fatal, s)"
    using window_not_mmio [OF assms(2)] HandleExecutableWrite_guarded [OF assms(3), of 4 a]
    by (simp add: Write32_def WriteChecked_def WriteScalar_def bindP_def)
qed

definition code_memory :: memory where
  "code_memory = RegisterExecutableRange 0x80004000 0x80005000 ''main.dol'' empty_memory"

lemma code_memory_ok: "wii_memory code_memory" "guard_inv code_memory"
  "FindExecutableRange code_memory 0x80004000 4 =
    Some \<lparr>er_start = 0x80004000, er_end = 0x80005000, er_name = ''main.dol''\<rparr>"
proof -
  show "guard_inv code_memory"
    unfolding code_memory_def by (intro guard_inv_Register guard_inv_empty empty_memory_ok)
qed (simp_all add: code_memory_def RegisterExecutableRange_def AddExecutableRangeLocked_def AddMem1AliasesLocked_def
      AddMem2AliasesLocked_def add_aliases_def MarkExecutableGuardPages_def empty_memory_def wii_memory_def wii_regions
      FindExecutableRange_def Intersects_def Let_def)

theorem dcbz_clears_line_witness:
  "Write32 0x80004000 0 code_memory = (Throw Fatal, code_memory) \<and>
   (\<exists>t. memset_zero_32 0x80004000 code_memory = (Ok (), t) \<and> rd32 t 0x80004000 = 0)"
proof -
  have "ram_window 0x80004000 32" by (simp add: ram_window_def kMem1Size_def)
  from dcbz_clears_line [OF code_memory_ok(1) this code_memory_ok(2), of "\<lparr>er_start = 0x80004000, er_end = 0x80005000, er_name = ''main.dol''\<rparr>"]
  show ?thesis using code_memory_ok(3) by (force simp: IsKnownBaseRelLoaderWrite_def contains_substring_def)
qed

section \<open>Special purpose registers\<close>

lemma spr_put_field:
  assumes "spr_field a = Some f" "spr_field b = Some g"
  shows "g (spr_put a v c) = (if a = b then v else g c)"
proof -
  have inj: "unat (x - 912 :: u32) = unat (y - 912) \<longleftrightarrow> x = y" for x y by (metis diff_add_cancel word_unat_eq_iff)
  show ?thesis using assms unfolding spr_field_def spr_put_def
    by (auto split: if_splits simp: inj word_le_nat_alt [of 912 1])
qed

lemma WriteSpr_run:
  assumes "g_currentCpuContext s = Some c"
  shows "PPC_WriteSpr a v s = (Ok (),
    if spr_field a \<noteq> None then s\<lparr>g_currentCpuContext := Some (spr_put a v c)\<rparr>
    else if a < 2048 then s\<lparr>g_sprShadow := (g_sprShadow s)(unat a := v)\<rparr> else s)"
  using assms by (auto simp: PPC_WriteSpr_def put_cpu_def whenP_def modifyP_run returnP_run split: option.splits)

text \<open>C28: the special purpose registers are a register file: a write is read back, and read by no other number,
  whether the register is a field of the CPU context or a shadow cell; the time base and the version register
  cannot be written, and numbers of 2048 and above hold nothing.\<close>

theorem special_registers:
  assumes "g_currentCpuContext s = Some c"
  shows "fst (thenP (PPC_WriteSpr a v) (PPC_ReadSpr tb b) s) =
    (if b = a \<and> a \<notin> {268, 269, 287} \<and> a < 2048 then Ok v else fst (PPC_ReadSpr tb b s))"
proof -
  have field: "a \<notin> {268, 269, 287} \<and> a < 2048" if "spr_field a \<noteq> None"
    using that by (auto simp: spr_field_def word_less_nat_alt word_le_nat_alt split: if_splits)
  have u: "unat a = unat b \<longleftrightarrow> a = b" "unat b = unat a \<longleftrightarrow> b = a" by (simp_all add: word_unat_eq_iff)
  have n: "spr_field 268 = None" "spr_field 269 = None" "spr_field 287 = None" by (simp_all add: spr_field_def)
  show ?thesis
  proof (cases "spr_field b")
    case None
    then show ?thesis unfolding thenP_Ok [of "PPC_WriteSpr a v", OF WriteSpr_run [OF assms]] using assms
      by (auto simp: PPC_ReadSpr_def u n)
  next
    case (Some g)
    then show ?thesis unfolding thenP_Ok [of "PPC_WriteSpr a v", OF WriteSpr_run [OF assms]] using assms field
        spr_put_field [OF _ Some]
      by (cases "spr_field a") (auto simp: PPC_ReadSpr_def)
  qed
qed

theorem special_registers_witness:
  "fst (thenP (PPC_WriteSpr 1009 7) (PPC_ReadSpr 0 1009) sample_ppc) = Ok 7 \<and>
   fst (thenP (PPC_WriteSpr 287 7) (PPC_ReadSpr 0 287) sample_ppc) = Ok 0x00087200"
  using special_registers [OF sample_ppc_cpu, of 1009 7 0 1009] special_registers [OF sample_ppc_cpu, of 287 7 0 287]
  by (simp add: PPC_ReadSpr_def spr_field_def kBroadwayPvr_def)


end
