(* ===== verification/Byte_Memory.thy ===== *)
theory Byte_Memory
  imports Word_Memory
begin

text \<open>
  Byte ranges of cached RAM: single-byte stores and loads inside a range are updates and lookups of an
  array, and a growing array is written by appending to it.
\<close>

text \<open>A byte range of cached RAM without code, and the addresses within it.\<close>

definition ram_bytes :: "'a memory_scheme \<Rightarrow> u32 \<Rightarrow> nat \<Rightarrow> bool" where
  "ram_bytes s a n \<longleftrightarrow> wii_memory s \<and> ram_window a n \<and> FindExecutableRange s a n = None"

lemma ram_bytes_at:
  assumes "ram_bytes s a n" "i < n"
  shows "ram_window (a + of_nat i) 1" "ram_loc (a + of_nat i) = (fst (ram_loc a), snd (ram_loc a) + i)"
    "FindExecutableRange s (a + of_nat i) 1 = None"
proof -
  have "i < 2 ^ 32" "unat a + i < 2 ^ 32" using assms by (auto simp: ram_bytes_def ram_window_def kMem1Size_def kMem2Size_def)
  then have u: "unat (a + of_nat i) = unat a + i" by (subst unat_add_small) (auto simp: unat_of_nat)
  show "ram_window (a + of_nat i) 1" "ram_loc (a + of_nat i) = (fst (ram_loc a), snd (ram_loc a) + i)"
    using assms u by (auto simp: ram_bytes_def ram_window_def ram_loc_def kMem1Size_def kMem2Size_def)
  show "FindExecutableRange s (a + of_nat i) 1 = None"
    by (rule find_exec_sub [of s a n]) (use assms u in \<open>auto simp: ram_bytes_def\<close>)
qed

lemma ram_bytes_put [simp]: "ram_bytes (put_bytes p bs s) a n = ram_bytes s a n"
  by (simp add: ram_bytes_def wii_memory_def FindExecutableRange_def)

definition splice :: "section_key \<times> nat \<Rightarrow> u8 list \<Rightarrow> store \<Rightarrow> store" where
  "splice p bs st = (\<lambda>k j. if k = fst p \<and> snd p \<le> j \<and> j < snd p + length bs then bs ! (j - snd p) else st k j)"

lemma put_bytes_splice: "put_bytes p bs s = s\<lparr>Storage := splice p bs (Storage s)\<rparr>"
  by (simp add: put_bytes_def splice_def)

lemma splice_join: "splice (k, j + 1) bs (splice (k, j) [b] st) = splice (k, j) (b # bs) st"
  by (auto simp: splice_def fun_eq_iff nth_Cons')

lemma put_bytes_join: "put_bytes (k, j + 1) bs (put_bytes (k, j) [b] s) = put_bytes (k, j) (b # bs) s"
  by (simp add: put_bytes_splice splice_join [simplified])

lemma put_bytes_Nil [simp]: "put_bytes p [] s = s"
proof -
  have "splice p [] st = st" for st by (auto simp: splice_def fun_eq_iff)
  then show ?thesis by (simp add: put_bytes_splice)
qed

lemma Write8_ram: "ram_bytes s a n \<Longrightarrow> i < n \<Longrightarrow>
    Write8 (a + of_nat i) b s = (Ok (), put_bytes (fst (ram_loc a), snd (ram_loc a) + i) [b] s)"
  using WriteChecked_ram [of s "a + of_nat i" "[b]"] ram_bytes_at [of s a n i]
  by (simp add: Write8_def ram_bytes_def)

lemma Read8_ram: "ram_bytes s a n \<Longrightarrow> i < n \<Longrightarrow>
    Read8 (a + of_nat i) s = (Ok (Storage s (fst (ram_loc a)) (snd (ram_loc a) + i)), s)"
  using ReadChecked_ram [of s "a + of_nat i" 1] ram_bytes_at [of s a n i]
  by (simp add: Read8_def ram_bytes_def bindP_def returnP_run bytes_at_def)

definition mem_byte :: "'a memory_scheme \<Rightarrow> u32 \<Rightarrow> nat \<Rightarrow> u8" where
  "mem_byte s a i = Storage s (fst (ram_loc a)) (snd (ram_loc a) + i)"

text \<open>Loads need only the window, whatever is registered there.\<close>

lemma window_at:
  assumes "ram_window a n" "i < n"
  shows "ram_window (a + of_nat i) 1" "ram_loc (a + of_nat i) = (fst (ram_loc a), snd (ram_loc a) + i)"
proof -
  have "i < 2 ^ 32" "unat a + i < 2 ^ 32" using assms by (auto simp: ram_window_def kMem1Size_def kMem2Size_def)
  then have u: "unat (a + of_nat i) = unat a + i" by (subst unat_add_small) (auto simp: unat_of_nat)
  show "ram_window (a + of_nat i) 1" "ram_loc (a + of_nat i) = (fst (ram_loc a), snd (ram_loc a) + i)"
    using assms u by (auto simp: ram_window_def ram_loc_def kMem1Size_def kMem2Size_def)
qed

lemma Read8_window: "wii_memory s \<Longrightarrow> ram_window a n \<Longrightarrow> i < n \<Longrightarrow> Read8 (a + of_nat i) s = (Ok (mem_byte s a i), s)"
  using ReadChecked_ram [of s "a + of_nat i" 1] window_at [of a n i]
  by (simp add: Read8_def bindP_def returnP_run bytes_at_def mem_byte_def)

lemma wii_memory_put [simp]: "wii_memory (put_bytes p bs s) = wii_memory s"
  by (simp add: wii_memory_def)

lemma splice_append: "splice (k, j + length bs) [b] (splice (k, j) bs st) = splice (k, j) (bs @ [b]) st"
  by (auto simp: splice_def fun_eq_iff nth_append)

lemma put_bytes_append: "put_bytes (fst p, snd p + length bs) [b] (put_bytes p bs s) = put_bytes p (bs @ [b]) s"
  using splice_append [of "fst p" "snd p" bs b] by (simp add: put_bytes_splice)

lemma mem_byte_put: "mem_byte (put_bytes (ram_loc a) bs s) a i = (if i < length bs then bs ! i else mem_byte s a i)"
  by (simp add: mem_byte_def put_bytes_def)

lemma mem_byte_put_other:
  assumes "ram_window a n" "ram_window b m" "unat a + n \<le> unat b \<or> unat b + m \<le> unat a" "i < n" "length bs \<le> m"
  shows "mem_byte (put_bytes (ram_loc b) bs s) a i = mem_byte s a i"
proof -
  have "fst (ram_loc a) \<noteq> fst (ram_loc b) \<or> snd (ram_loc a) + n \<le> snd (ram_loc b) \<or> snd (ram_loc b) + m \<le> snd (ram_loc a)" if "0 < m"
    using locs_disjoint [OF assms(1,2) _ that assms(3)] assms(4) by simp
  then show ?thesis using assms(4,5) by (cases "m = 0") (auto simp: mem_byte_def put_bytes_def)
qed

end
