(* ===== verification/Ppc_String_Laws.thy ===== *)
theory Ppc_String_Laws
  imports Ppc_Register_Laws Byte_Memory
begin

text \<open>
  String stores and loads (\<open>stswi\<close>, \<open>lswi\<close>): their byte loops in terms of whole words, and the round trip
  through memory with the wrap from r31 to r0.
\<close>

section \<open>String accesses\<close>

lemma ram_bytes_cpu [simp]: "ram_bytes (s\<lparr>g_currentCpuContext := c\<rparr>) a n = ram_bytes s a n"
  by (simp add: ram_bytes_def wii_memory_def FindExecutableRange_def)

text \<open>Byte \<open>i\<close> of the registers from \<open>r\<close> on.\<close>

definition str_byte :: "(nat \<Rightarrow> u32) \<Rightarrow> nat \<Rightarrow> nat \<Rightarrow> u8" where
  "str_byte g r i = ucast (drop_bit (24 - (i mod 4) * 8) (g ((r + i div 4) mod 32)))"

lemma next_reg: "(if i mod 4 = 3 then ((r + i div 4) mod 32 + 1) mod 32 else (r + i div 4) mod 32) = (r + Suc i div 4) mod (32 :: nat)"
proof -
  have "Suc i div 4 = (if i mod 4 = 3 then i div 4 + 1 else i div 4)" by presburger
  then show ?thesis by (simp add: mod_simps)
qed

lemma store_loop:
  assumes "i \<le> n" "ram_bytes s a n" "g_currentCpuContext s = Some c"
  shows "store_string_loop a [i..<n] ((r + i div 4) mod 32) s =
    (Ok (), put_bytes (fst (ram_loc a), snd (ram_loc a) + i) (map (str_byte (gpr c) r) [i..<n]) s)"
  using assms
proof (induction "n - i" arbitrary: i s)
  case 0
  then show ?case by (simp add: returnP_run)
next
  case (Suc d)
  then have i: "i < n" "d = n - Suc i" "Suc i \<le> n" by auto
  let ?t = "put_bytes (fst (ram_loc a), snd (ram_loc a) + i) [str_byte (gpr c) r i] s"
  have "store_string_loop a [Suc i..<n] ((r + Suc i div 4) mod 32) ?t =
      (Ok (), put_bytes (fst (ram_loc a), snd (ram_loc a) + Suc i) (map (str_byte (gpr c) r) [Suc i..<n]) ?t)"
    using Suc.prems by (intro Suc.hyps(1) i) simp_all
  moreover have "put_bytes (fst (ram_loc a), snd (ram_loc a) + Suc i) (map (str_byte (gpr c) r) [Suc i..<n]) ?t =
      put_bytes (fst (ram_loc a), snd (ram_loc a) + i) (map (str_byte (gpr c) r) [i..<n]) s"
    using put_bytes_join i(1) by (simp add: upt_conv_Cons)
  ultimately show ?case
    using Suc.prems i(1) Write8_ram [OF Suc.prems(2) i(1), of "str_byte (gpr c) r i"]
    by (simp add: upt_conv_Cons with_cpu_run thenP_def bindP_def next_reg [simplified] flip: str_byte_def)
qed


text \<open>The words a load makes of memory, and the loop by whole words.\<close>

definition set_reg :: "nat \<Rightarrow> u32 \<Rightarrow> ppc_state \<Rightarrow> ppc_state" where
  "set_reg r v s = s\<lparr>g_currentCpuContext := map_option (\<lambda>c. c\<lparr>gpr := (gpr c)(r := v)\<rparr>) (g_currentCpuContext s)\<rparr>"

fun join_bytes :: "u8 list \<Rightarrow> u32 \<Rightarrow> u32" where
  "join_bytes [] w = w"
| "join_bytes (b # bs) w = join_bytes bs (push_bit 8 w OR ucast b)"

lemma set_reg_frame [simp]: "ram_bytes (set_reg r v s) a n = ram_bytes s a n" "mem_byte (set_reg r v s) a i = mem_byte s a i"
  by (simp_all add: set_reg_def mem_byte_def)

lemma load_byte:
  assumes "ram_bytes s a n" "i < n"
  shows "load_string_loop a (i # is) r w s =
    (let w' = push_bit 8 w OR ucast (mem_byte s a i)
     in if i mod 4 = 3 then load_string_loop a is ((r + 1) mod 32) 0 (set_reg r w' s) else load_string_loop a is r w' s)"
  using Read8_ram [OF assms]
  by (simp add: bindP_def thenP_def put_cpu_def modifyP_run set_reg_def mem_byte_def Let_def)

lemma load_word:
  assumes "ram_bytes s a n" "4 * k + 4 \<le> n"
  shows "load_string_loop a [4 * k..<n] r 0 s =
    load_string_loop a [4 * Suc k..<n] ((r + 1) mod 32) 0 (set_reg r (join_bytes (map (mem_byte s a) [4 * k..<4 * k + 4]) 0) s)"
proof -
  have "4 * Suc k = Suc (Suc (Suc (Suc (4 * k))))" by simp
  then have e: "[4 * k..<n] = 4 * k # Suc (4 * k) # Suc (Suc (4 * k)) # Suc (Suc (Suc (4 * k))) # [4 * Suc k..<n]"
      "[4 * k..<4 * k + 4] = [4 * k, Suc (4 * k), Suc (Suc (4 * k)), Suc (Suc (Suc (4 * k)))]"
    using assms(2) by (simp_all add: upt_conv_Cons del: mult_Suc_right)
  have m: "4 * k mod 4 \<noteq> 3" "Suc (4 * k) mod 4 \<noteq> 3" "Suc (Suc (4 * k)) mod 4 \<noteq> 3" "Suc (Suc (Suc (4 * k))) mod 4 = 3"
    by presburger+
  have l: "4 * k < n" "Suc (4 * k) < n" "Suc (Suc (4 * k)) < n" "Suc (Suc (Suc (4 * k))) < n" using assms(2) by simp_all
  show ?thesis unfolding e
    by (simp only: load_byte [OF assms(1) l(1)] load_byte [OF assms(1) l(2)] load_byte [OF assms(1) l(3)]
        load_byte [OF assms(1) l(4)] m Let_def if_False if_True simp_thms list.map join_bytes.simps)
qed

lemma load_rest:
  assumes "ram_bytes s a n" "n < 4 * k + 4" "4 * k \<le> i" "i \<le> n"
  shows "load_string_loop a [i..<n] r w s = (Ok (r, join_bytes (map (mem_byte s a) [i..<n]) w), s)"
  using assms
proof (induction "n - i" arbitrary: i w)
  case (Suc d)
  then have i: "i < n" "d = n - Suc i" by auto
  have "i mod 4 \<noteq> 3"
    using Suc.prems(2,3) i(1) by presburger
  then show ?case using Suc i load_byte [OF Suc.prems(1) i(1)]
    by (simp add: upt_conv_Cons Let_def)
qed (simp add: returnP_run)

lemma load_words:
  assumes "ram_bytes s a n" "k \<le> n div 4"
  shows "load_string_loop a [4 * k..<n] ((r + k) mod 32) 0 s =
    (Ok ((r + n div 4) mod 32, join_bytes (map (mem_byte s a) [4 * (n div 4)..<n]) 0),
     fold (\<lambda>j. set_reg ((r + j) mod 32) (join_bytes (map (mem_byte s a) [4 * j..<4 * j + 4]) 0)) [k..<n div 4] s)"
  using assms
proof (induction "n div 4 - k" arbitrary: k s)
  case 0
  then have "k = n div 4" "n < 4 * k + 4" "4 * k \<le> n" by auto
  then show ?case using load_rest [OF 0(2), of k "4 * k"] by simp
next
  case (Suc d)
  let ?t = "set_reg ((r + k) mod 32) (join_bytes (map (mem_byte s a) [4 * k..<4 * k + 4]) 0) s"
  have k: "k < n div 4" "4 * k + 4 \<le> n" "d = n div 4 - Suc k" using Suc.hyps(2) by auto
  have mt: "mem_byte ?t a = mem_byte s a" by (simp add: fun_eq_iff)
  have "((r + k) mod 32 + 1) mod 32 = (r + Suc k) mod 32" by (simp add: mod_simps)
  then have "load_string_loop a [4 * k..<n] ((r + k) mod 32) 0 s =
      load_string_loop a [4 * Suc k..<n] ((r + Suc k) mod 32) 0 ?t"
    using load_word [OF Suc.prems(1) k(2), of "(r + k) mod 32"] by (simp only:)
  then show ?case using Suc.hyps(1) [of "Suc k" ?t] Suc.prems(1) k unfolding mt
    by (simp add: upt_conv_Cons [of k] del: upt_Suc)
qed


lemma fold_set_reg:
  "fold (\<lambda>j. set_reg (q j) (f j)) js s = s\<lparr>g_currentCpuContext :=
     map_option (\<lambda>c. c\<lparr>gpr := fold (\<lambda>j g. g(q j := f j)) js (gpr c)\<rparr>) (g_currentCpuContext s)\<rparr>"
  by (induction js arbitrary: s) (simp_all add: set_reg_def option.map_comp comp_def option.map_ident)

lemma reg_distinct: "k < m \<Longrightarrow> m < k + 32 \<Longrightarrow> (q + k) mod 32 \<noteq> (q + m) mod (32 :: nat)"
  using mod_eq_dvd_iff_nat [of "q + k" "q + m" 32] by (auto dest: dvd_imp_le)

lemma fold_regs:
  assumes "m \<le> 32"
  shows "k < m \<Longrightarrow> fold (\<lambda>j g. g((r + j) mod 32 := f j)) [0..<m] g ((r + k) mod 32) = f k"
    and "(\<And>k. k < m \<Longrightarrow> x \<noteq> (r + k) mod 32) \<Longrightarrow> fold (\<lambda>j g. g((r + j) mod 32 := f j)) [0..<m] g x = g x"
proof -
  have "m \<le> 32 \<Longrightarrow> k < m \<Longrightarrow> fold (\<lambda>j g. g((r + j) mod 32 := f j)) [0..<m] g ((r + k) mod 32) = f k"
    by (induction m) (auto simp: less_Suc_eq dest: reg_distinct [where q = r])
  then show "k < m \<Longrightarrow> fold (\<lambda>j g. g((r + j) mod 32 := f j)) [0..<m] g ((r + k) mod 32) = f k"
    using assms by blast
  show "(\<And>k. k < m \<Longrightarrow> x \<noteq> (r + k) mod 32) \<Longrightarrow> fold (\<lambda>j g. g((r + j) mod 32 := f j)) [0..<m] g x = g x"
    by (induction m) auto
qed

lemma join_full: "join_bytes (map (str_byte g r) [4 * k..<4 * k + 4]) 0 = g ((r + k) mod 32)"
proof -
  have e: "[4 * k..<4 * k + 4] = [4 * k, 4 * k + 1, 4 * k + 2, 4 * k + 3]" by (simp add: upt_conv_Cons)
  have m: "(4 * k) mod 4 = 0" "(4 * k + 1) mod 4 = 1" "(4 * k + 2) mod 4 = 2" "(4 * k + 3) mod 4 = 3"
    "(4 * k) div 4 = k" "(4 * k + 1) div 4 = k" "(4 * k + 2) div 4 = k" "(4 * k + 3) div 4 = k" by presburger+
  show ?thesis unfolding e list.map str_byte_def m
    using ucast_8_32_join [of "g ((r + k) mod 32)"] by (simp add: push_bit_or or.assoc)
qed

lemma join_three:
  "push_bit 8 (join_bytes [ucast (drop_bit 24 v), ucast (drop_bit 16 v), ucast (drop_bit 8 v)] 0) = v AND NOT (mask 8)"
  (is "?l = ?r")
proof (rule bit_word_eqI)
  fix n :: nat assume "n < LENGTH(32)"
  then consider "n < 8" | "8 \<le> n" "n < 16" | "16 \<le> n" "n < 24" | "24 \<le> n" "n < 32" by fastforce
  then show "bit ?l n = bit ?r n" by cases (auto simp: bit_simps)
qed

lemma join_partial:
  assumes "0 < p" "p < 4"
  shows "push_bit ((4 - p) * 8) (join_bytes (map (str_byte g r) [4 * k..<4 * k + p]) 0) =
    g ((r + k) mod 32) AND NOT (mask (32 - 8 * p))"
proof -
  have m: "(4 * k) mod 4 = 0" "(4 * k + 1) mod 4 = 1" "(4 * k + 2) mod 4 = 2" 
    "(4 * k) div 4 = k" "(4 * k + 1) div 4 = k" "(4 * k + 2) div 4 = k" by presburger+
  consider "p = 1" | "p = 2" | "p = 3" using assms by linarith
  then show ?thesis
  proof cases
    case 1
    then have e: "[4 * k..<4 * k + p] = [4 * k]" by (simp add: upt_conv_Cons)
    show ?thesis unfolding e list.map str_byte_def m using 1
      by simp (rule bit_word_eqI; auto simp: bit_simps)
  next
    case 2
    then have e: "[4 * k..<4 * k + p] = [4 * k, 4 * k + 1]" by (simp add: upt_conv_Cons)
    show ?thesis unfolding e list.map str_byte_def m using 2
      by simp (rule bit_word_eqI; auto simp: bit_simps)
  next
    case 3
    then have e: "[4 * k..<4 * k + p] = [4 * k, 4 * k + 1, 4 * k + 2]" by (simp add: upt_conv_Cons)
    show ?thesis using 3 unfolding e list.map str_byte_def m
      using join_three [of "g ((r + k) mod 32)"] by simp
  qed
qed


text \<open>What a string load makes of the registers.\<close>

definition load_regs :: "nat \<Rightarrow> nat \<Rightarrow> (nat \<Rightarrow> u8) \<Rightarrow> (nat \<Rightarrow> u32) \<Rightarrow> nat \<Rightarrow> u32" where
  "load_regs q n b g =
     (let m = n div 4; g' = fold (\<lambda>j g. g((q + j) mod 32 := join_bytes (map b [4 * j..<4 * j + 4]) 0)) [0..<m] g
      in if n mod 4 = 0 then g'
         else g'((q + m) mod 32 := push_bit ((4 - n mod 4) * 8) (join_bytes (map b [4 * m..<n]) 0)))"

lemma and_3: "unat ((w :: u32) AND 3) = unat w mod 4"
proof -
  have "w AND 3 = take_bit 2 w" by (simp add: take_bit_eq_mask mask_eq_exp_minus_1)
  then have "unat (w AND 3) = take_bit 2 (unat w)" by (simp only: unsigned_take_bit_eq)
  then show ?thesis by (simp add: take_bit_eq_mod)
qed

lemma LoadString_run:
  assumes "ram_bytes s a (unat w)" and cpu: "g_currentCpuContext s = Some c"
  shows "LoadString rD a w s =
    (Ok (), s\<lparr>g_currentCpuContext := Some (c\<lparr>gpr := load_regs (unat (rD AND 31)) (unat w) (mem_byte s a) (gpr c)\<rparr>)\<rparr>)"
proof -
  have "unat (rD AND 31) mod 32 = unat (rD AND 31)" by (simp add: and_low)
  then have "load_string_loop a [0..<unat w] (unat (rD AND 31)) 0 s =
      (Ok ((unat (rD AND 31) + unat w div 4) mod 32, join_bytes (map (mem_byte s a) [4 * (unat w div 4)..<unat w]) 0),
       fold (\<lambda>j. set_reg ((unat (rD AND 31) + j) mod 32) (join_bytes (map (mem_byte s a) [4 * j..<4 * j + 4]) 0)) [0..<unat w div 4] s)"
    using load_words [OF assms(1) le0, of "unat (rD AND 31)"] by simp
  then show ?thesis
    unfolding LoadString_def with_cpu_run [OF cpu] fold_set_reg and_3 cpu option.map bindP_def
    by (auto simp: Let_def load_regs_def whenP_def returnP_run put_cpu_def modifyP_run)
qed

lemma load_regs_str:
  assumes b: "\<And>i. i < n \<Longrightarrow> b i = str_byte h r i" and n: "n \<le> 128"
  shows "k < n div 4 \<Longrightarrow> load_regs q n b g ((q + k) mod 32) = h ((r + k) mod 32)"
    and "n mod 4 \<noteq> 0 \<Longrightarrow> load_regs q n b g ((q + n div 4) mod 32) = h ((r + n div 4) mod 32) AND NOT (mask (32 - 8 * (n mod 4)))"
    and "(\<And>k. 4 * k < n \<Longrightarrow> x \<noteq> (q + k) mod 32) \<Longrightarrow> load_regs q n b g x = g x"
proof -
  have m: "n div 4 \<le> 32" using n by simp
  have f: "join_bytes (map b [4 * j..<4 * j + 4]) 0 = h ((r + j) mod 32)" if "j < n div 4" for j
  proof -
    have "map b [4 * j..<4 * j + 4] = map (str_byte h r) [4 * j..<4 * j + 4]"
      using that b by (intro map_cong) auto
    then show ?thesis using join_full by metis
  qed
  { assume k: "k < n div 4"
    have "(q + k) mod 32 \<noteq> (q + n div 4) mod 32" if "n mod 4 \<noteq> 0"
    proof (rule reg_distinct [OF k])
      show "n div 4 < k + 32" using that n by presburger
    qed
    then show "load_regs q n b g ((q + k) mod 32) = h ((r + k) mod 32)"
      using fold_regs(1) [OF m k, where r = q and f = "\<lambda>j. join_bytes (map b [4 * j..<4 * j + 4]) 0"] f [OF k]
      by (simp add: load_regs_def Let_def) }
  { assume p: "n mod 4 \<noteq> 0"
    have e: "map b [4 * (n div 4)..<n] = map (str_byte h r) [4 * (n div 4)..<n]"
      using b by (intro map_cong) auto
    show "load_regs q n b g ((q + n div 4) mod 32) = h ((r + n div 4) mod 32) AND NOT (mask (32 - 8 * (n mod 4)))"
      unfolding load_regs_def Let_def e using join_partial [of "n mod 4" h r "n div 4"] p
      by (simp only: mult_div_mod_eq if_False fun_upd_same) }
  { assume x: "\<And>k. 4 * k < n \<Longrightarrow> x \<noteq> (q + k) mod 32"
    have d: "x \<noteq> (q + n div 4) mod 32" if "n mod 4 \<noteq> 0"
    proof (rule x)
      show "4 * (n div 4) < n" using that by presburger
    qed
    have "x \<noteq> (q + k) mod 32" if "k < n div 4" for k
    proof (rule x)
      show "4 * k < n" using that by simp
    qed
    from fold_regs(2) [where r = q and f = "\<lambda>j. join_bytes (map b [4 * j..<4 * j + 4]) 0", OF m this] d
    show "load_regs q n b g x = g x" by (simp add: load_regs_def Let_def) }
qed

text \<open>C29: storing registers as a string and loading it back, into any registers, restores them: every whole word
  exactly, a last partial word with its missing low bytes zero, modulo the wrap from r31 to r0; registers outside
  the target range keep their values.\<close>

theorem string_roundtrip:
  assumes ram: "ram_bytes s a n" and cpu: "g_currentCpuContext s = Some c" and n: "n = (if cnt = 0 then 32 else unat cnt)" "n \<le> 128"
    and regs: "r = unat (rS AND 31)" "q = unat (rD AND 31)"
  shows "\<exists>t g. thenP (PPC_Stswi rS a cnt) (PPC_Lswi rD a cnt) s = (Ok (), t) \<and> g_currentCpuContext t = Some (c\<lparr>gpr := g\<rparr>) \<and>
      (\<forall>k < n div 4. g ((q + k) mod 32) = gpr c ((r + k) mod 32)) \<and>
      (n mod 4 \<noteq> 0 \<longrightarrow> g ((q + n div 4) mod 32) = gpr c ((r + n div 4) mod 32) AND NOT (mask (32 - 8 * (n mod 4)))) \<and>
      (\<forall>x. (\<forall>k. 4 * k < n \<longrightarrow> x \<noteq> (q + k) mod 32) \<longrightarrow> g x = gpr c x)"
proof -
  let ?t = "put_bytes (ram_loc a) (map (str_byte (gpr c) r) [0..<n]) s"
  have w: "unat (if cnt = 0 then 32 else cnt) = n" using n(1) by simp
  have r: "r mod 32 = r" unfolding regs and_low by simp
  have st: "PPC_Stswi rS a cnt s = (Ok (), ?t)"
    using store_loop [OF le0 ram cpu, of r] by (simp add: PPC_Stswi_def StoreString_def with_cpu_run [OF cpu] w r flip: regs(1))
  have b: "mem_byte ?t a i = str_byte (gpr c) r i" if "i < n" for i
    using that by (simp add: mem_byte_def put_bytes_def)
  have "ram_bytes ?t a (unat (if cnt = 0 then 32 else cnt))" "g_currentCpuContext ?t = Some c" unfolding w using ram cpu by simp_all
  from LoadString_run [OF this, of rD]
  have "PPC_Lswi rD a cnt ?t = (Ok (), ?t\<lparr>g_currentCpuContext := Some (c\<lparr>gpr := load_regs q n (mem_byte ?t a) (gpr c)\<rparr>)\<rparr>)"
    unfolding PPC_Lswi_def w regs(2) .
  then show ?thesis
    using st load_regs_str [OF b n(2)] by (intro exI [of _ "load_regs q n (mem_byte ?t a) (gpr c)"] exI conjI) (auto simp: thenP_def bindP_def)
qed

theorem string_roundtrip_witness:
  "\<exists>t g. thenP (PPC_Stswi 31 0x80001000 7) (PPC_Lswi 4 0x80001000 7) sample_ppc = (Ok (), t) \<and>
    g_currentCpuContext t = Some (sample_cpu\<lparr>gpr := g\<rparr>) \<and> g 4 = gpr sample_cpu 31"
proof -
  have "ram_bytes sample_ppc 0x80001000 7"
    by (simp add: ram_bytes_def wii_memory_def ram_window_def kMem1Size_def FindExecutableRange_def sample_ppc_def
        memory.defs ppc_state.defs empty_memory_def wii_regions)
  moreover have "7 = (if (7 :: u32) = 0 then 32 else unat (7 :: u32))" "7 \<le> (128 :: nat)"
      "31 = unat (31 AND (31 :: u32))" "4 = unat (4 AND (31 :: u32))" by simp_all
  ultimately obtain t g where g: "thenP (PPC_Stswi 31 0x80001000 7) (PPC_Lswi 4 0x80001000 7) sample_ppc = (Ok (), t)"
      "g_currentCpuContext t = Some (sample_cpu\<lparr>gpr := g\<rparr>)" "\<forall>k < 7 div 4. g ((4 + k) mod 32) = gpr sample_cpu ((31 + k) mod 32)"
    using string_roundtrip [OF _ sample_ppc_cpu] by blast
  have "g 4 = gpr sample_cpu 31" using g(3) [rule_format, of 0] by simp
  then show ?thesis using g(1,2) by blast
qed

end
