(* ===== verification/Szs.thy ===== *)
theory Szs
  imports Byte_Memory
begin

text \<open>
  The Yaz0 decoder of \<open>runtime/src/hle/egg_decomp.cpp\<close>.  Memory goes through the checked accessors, the
  path that \<open>FlatRead8\<close> and \<open>FlatWrite8\<close> take when \<open>RequiresCheckedAccess()\<close>.  The loop ends after at
  most \<open>expandSize\<close> rounds, since every round writes or stops; the fuel is one more.
\<close>

definition FlatRead8 :: "u32 \<Rightarrow> ('a memory_scheme, u8) prog" where
  "FlatRead8 address = Read8 address"

definition FlatWrite8 :: "u32 \<Rightarrow> u8 \<Rightarrow> ('a memory_scheme, unit) prog" where
  "FlatWrite8 address v = Write8 address v"

text \<open>The copy of a back-reference: remaining count, \<open>dstIdx\<close>, \<open>copyIdx\<close>.\<close>

fun szs_copy :: "u32 \<Rightarrow> u32 \<Rightarrow> nat \<Rightarrow> u32 \<Rightarrow> u32 \<Rightarrow> ('a memory_scheme, u32) prog" where
  "szs_copy dst expandSize 0 dstIdx copyIdx = returnP dstIdx"
| "szs_copy dst expandSize (Suc k) dstIdx copyIdx =
     (if dstIdx \<ge> expandSize then throwP Fatal
      else bindP (FlatRead8 (dst + copyIdx)) (\<lambda>b.
           thenP (FlatWrite8 (dst + dstIdx) b) (szs_copy dst expandSize k (dstIdx + 1) (copyIdx + 1))))"

definition szs_literal :: "u32 \<Rightarrow> u32 \<Rightarrow> u32 \<Rightarrow> u32 \<Rightarrow> ('a memory_scheme, u32 \<times> u32) prog" where
  "szs_literal src dst srcIdx dstIdx =
     bindP (FlatRead8 (src + srcIdx)) (\<lambda>b.
     thenP (FlatWrite8 (dst + dstIdx) b) (returnP (srcIdx + 1, dstIdx + 1)))"

definition szs_run :: "u32 \<Rightarrow> u32 \<Rightarrow> u32 \<Rightarrow> u32 \<Rightarrow> u32 \<Rightarrow> ('a memory_scheme, u32 \<times> u32) prog" where
  "szs_run src dst expandSize srcIdx dstIdx =
     bindP (FlatRead8 (src + srcIdx)) (\<lambda>high.
     bindP (FlatRead8 (src + (srcIdx + 1))) (\<lambda>low.
     let rep = push_bit 8 (ucast high) OR ucast low :: u32;
         distance = (rep AND 0xFFF) + 1
     in if distance > dstIdx then throwP Fatal
        else bindP
          (if drop_bit 12 rep \<noteq> 0 then returnP (drop_bit 12 rep + 2, srcIdx + 2)
           else bindP (FlatRead8 (src + (srcIdx + 2))) (\<lambda>b. returnP (ucast b + 18, srcIdx + 3)))
          (\<lambda>(count, srcIdx'). bindP (szs_copy dst expandSize (unat count) dstIdx (dstIdx - distance))
            (\<lambda>dstIdx'. returnP (srcIdx', dstIdx')))))"

text \<open>One round: the end test, a new flag byte when the mask has run out, and one token.\<close>

definition szs_flags :: "u32 \<Rightarrow> u32 \<times> u32 \<times> u32 \<Rightarrow> ('a memory_scheme, u32 \<times> u32 \<times> u32) prog" where
  "szs_flags src = (\<lambda>(srcIdx, m, flags).
     if m = 0 then bindP (FlatRead8 (src + srcIdx)) (\<lambda>f. returnP (srcIdx + 1, 0x80, ucast f))
     else returnP (srcIdx, m, flags))"

definition szs_step ::
  "u32 \<Rightarrow> u32 \<Rightarrow> u32 \<Rightarrow> u32 \<times> u32 \<times> u32 \<times> u32 \<Rightarrow> ('a memory_scheme, u32 \<times> u32 \<times> u32 \<times> u32 + unit) prog" where
  "szs_step src dst expandSize = (\<lambda>(srcIdx0, dstIdx, mask0, flags0).
     if \<not> sint dstIdx < sint expandSize then returnP (Inr ())
     else bindP (szs_flags src (srcIdx0, mask0, flags0)) (\<lambda>(srcIdx, m, flags).
       bindP (if flags AND m \<noteq> 0 then szs_literal src dst srcIdx dstIdx
              else szs_run src dst expandSize srcIdx dstIdx)
         (\<lambda>(srcIdx', dstIdx'). returnP (Inl (srcIdx', dstIdx', drop_bit 1 m, flags)))))"

definition szs_expandSize :: "u32 \<Rightarrow> ('a memory_scheme, u32) prog" where
  "szs_expandSize src =
     bindP (FlatRead8 (src + 4)) (\<lambda>a. bindP (FlatRead8 (src + 5)) (\<lambda>b.
     bindP (FlatRead8 (src + 6)) (\<lambda>c. bindP (FlatRead8 (src + 7)) (\<lambda>d.
     returnP (push_bit 24 (ucast a) OR push_bit 16 (ucast b) OR push_bit 8 (ucast c) OR ucast d)))))"

definition decodeSZS :: "u32 \<Rightarrow> u32 \<Rightarrow> ('a memory_scheme, u32) prog" where
  "decodeSZS src dst =
     bindP (szs_expandSize src) (\<lambda>expandSize.
     thenP (loopP (Suc (unat expandSize)) (szs_step src dst expandSize) (16, 0, 0, 0)) (returnP expandSize))"

end
