(* ===== verification/Szs_Laws.thy ===== *)
theory Szs_Laws
  imports Szs Memory_Laws
begin

text \<open>
  The Yaz0 decoder against the compressed format: streams of literals and back-references, what they
  stand for, and the decoder's run on memory that holds one; and its run on arbitrary input.
\<close>


section \<open>Compressed streams\<close>

text \<open>A literal byte, or a copy of \<open>n\<close> bytes that starts \<open>d\<close> bytes back in the output.\<close>

datatype szs_token = Literal u8 | Back nat nat

fun token_ok :: "szs_token \<Rightarrow> bool" where
  "token_ok (Literal b) = True"
| "token_ok (Back d n) \<longleftrightarrow> 1 \<le> d \<and> d \<le> 4096 \<and> 3 \<le> n \<and> n \<le> 273"

fun is_literal :: "szs_token \<Rightarrow> bool" where
  "is_literal (Literal b) = True"
| "is_literal (Back d n) = False"

fun payload :: "szs_token \<Rightarrow> u8 list" where
  "payload (Literal b) = [b]"
| "payload (Back d n) =
     (if n \<ge> 18 then [of_nat ((d - 1) div 256), of_nat (d - 1), of_nat (n - 18)]
      else [of_nat ((n - 2) * 16 + (d - 1) div 256), of_nat (d - 1)])"

text \<open>The flag byte of the next eight tokens: the most significant bit belongs to the first.\<close>

fun flag_byte :: "nat \<Rightarrow> szs_token list \<Rightarrow> u8" where
  "flag_byte 0 ts = 0"
| "flag_byte (Suc k) [] = 0"
| "flag_byte (Suc k) (t # ts) = (if is_literal t then push_bit k 1 else 0) OR flag_byte k ts"

text \<open>The stream from phase \<open>p\<close> of a group of eight on.\<close>

fun szs_stream :: "nat \<Rightarrow> szs_token list \<Rightarrow> u8 list" where
  "szs_stream p [] = []"
| "szs_stream p (t # ts) =
     (if p = 0 then [flag_byte 8 (t # ts)] else []) @ payload t @ szs_stream ((p + 1) mod 8) ts"

text \<open>What a stream stands for.\<close>

fun expand_run :: "nat \<Rightarrow> nat \<Rightarrow> u8 list \<Rightarrow> u8 list" where
  "expand_run d 0 out = out"
| "expand_run d (Suc k) out = expand_run d k (out @ [out ! (length out - d)])"

datatype szs_result = Done "u8 list" | Corrupt | Short

fun unpack :: "nat \<Rightarrow> szs_token list \<Rightarrow> u8 list \<Rightarrow> szs_result" where
  "unpack n [] out = (if n \<le> length out then Done out else Short)"
| "unpack n (t # ts) out =
     (if n \<le> length out then Done out
      else case t of
             Literal b \<Rightarrow> unpack n ts (out @ [b])
           | Back d k \<Rightarrow> if d > length out \<or> length out + k > n then Corrupt else unpack n ts (expand_run d k out))"

lemma length_expand_run [simp]: "length (expand_run d k out) = length out + k"
  by (induction d k out rule: expand_run.induct) auto

section \<open>The decoder on a stream\<close>

lemma unat_of_nat8: "i < 256 \<Longrightarrow> unat (of_nat i :: u8) = i"
  by (simp add: unat_of_nat)

lemma flag_byte_low: "bit (flag_byte k ts) n \<Longrightarrow> n < k"
  by (induction k ts arbitrary: n rule: flag_byte.induct) (auto simp: bit_or_iff bit_exp_iff split: if_splits dest: less_SucI)

lemma flag_byte_bit:
  "k \<le> 8 \<Longrightarrow> j < k \<Longrightarrow> j < length ts \<Longrightarrow> bit (flag_byte k ts) (k - 1 - j) \<longleftrightarrow> is_literal (ts ! j)"
proof (induction k ts arbitrary: j rule: flag_byte.induct)
  case (3 k t ts)
  show ?case
  proof (cases j)
    case 0
    then show ?thesis using 3 flag_byte_low [of k ts k] by (auto simp: bit_or_iff bit_exp_iff possible_bit_def)
  next
    case (Suc i)
    then have "k - Suc i \<noteq> k" using 3 by auto
    then show ?thesis using 3 Suc by (auto simp: bit_or_iff bit_exp_iff possible_bit_def)
  qed
qed auto

text \<open>Source and destination ranges, and the memory while the output is \<open>out\<close>.\<close>

definition szs_frame :: "'a memory_scheme \<Rightarrow> u32 \<Rightarrow> nat \<Rightarrow> u32 \<Rightarrow> nat \<Rightarrow> bool" where
  "szs_frame s src m dst n \<longleftrightarrow> ram_bytes s dst n \<and> ram_window src m \<and>
     (unat src + m \<le> unat dst \<or> unat dst + n \<le> unat src)"

definition written :: "'a memory_scheme \<Rightarrow> u32 \<Rightarrow> u8 list \<Rightarrow> 'a memory_scheme" where
  "written s dst out = put_bytes (ram_loc dst) out s"

lemma written_Nil [simp]: "written s dst [] = s"
  by (simp add: written_def)

lemma read_src:
  "szs_frame s src m dst n \<Longrightarrow> length out \<le> n \<Longrightarrow> i < m \<Longrightarrow>
   FlatRead8 (src + of_nat i) (written s dst out) = (Ok (mem_byte s src i), written s dst out)"
  using Read8_window [of "written s dst out" src m i] mem_byte_put_other [of src m dst n i out s]
  by (simp add: FlatRead8_def written_def szs_frame_def ram_bytes_def)

lemma read_dst:
  "szs_frame s src m dst n \<Longrightarrow> length out \<le> n \<Longrightarrow> i < length out \<Longrightarrow>
   FlatRead8 (dst + of_nat i) (written s dst out) = (Ok (out ! i), written s dst out)"
  using Read8_window [of "written s dst out" dst n i]
  by (simp add: FlatRead8_def written_def szs_frame_def ram_bytes_def mem_byte_put)

lemma write_dst:
  "szs_frame s src m dst n \<Longrightarrow> length out < n \<Longrightarrow>
   FlatWrite8 (dst + of_nat (length out)) b (written s dst out) = (Ok (), written s dst (out @ [b]))"
  using Write8_ram [of "written s dst out" dst n "length out" b]
  by (simp add: FlatWrite8_def written_def szs_frame_def put_bytes_append)

lemma frame_small: "szs_frame s src m dst n \<Longrightarrow> n < 2 ^ 28 \<and> m < 2 ^ 28"
  by (auto simp: szs_frame_def ram_bytes_def ram_window_def kMem1Size_def kMem2Size_def)

lemma copy_run:
  assumes f: "szs_frame s src m dst n"
  shows "1 \<le> d \<Longrightarrow> d \<le> length out \<Longrightarrow> length out + k \<le> n \<Longrightarrow>
    szs_copy dst (of_nat n) k (of_nat (length out)) (of_nat (length out - d)) (written s dst out) =
      (Ok (of_nat (length out + k)), written s dst (expand_run d k out))"
proof (induction k arbitrary: out)
  case (Suc k)
  have u: "unat (of_nat i :: u32) = i" if "i \<le> n" for i using that frame_small [OF f] by (simp add: unat_of_nat)
  have lt: "\<not> (of_nat (length out) :: u32) \<ge> of_nat n" using Suc.prems u by (simp add: word_le_nat_alt)
  have "length (out @ [out ! (length out - d)]) - d = Suc (length out - d)" using Suc.prems by simp
  then show ?case using Suc.IH [of "out @ [out ! (length out - d)]"] Suc.prems lt
      read_dst [OF f, of out "length out - d"] write_dst [OF f, of out "out ! (length out - d)"]
    by (simp add: bindP_def thenP_def add_ac)
qed (simp add: returnP_run)

lemma copy_overrun:
  assumes f: "szs_frame s src m dst n"
  shows "1 \<le> d \<Longrightarrow> d \<le> length out \<Longrightarrow> length out \<le> n \<Longrightarrow> n < length out + k \<Longrightarrow>
    fst (szs_copy dst (of_nat n) k (of_nat (length out)) (of_nat (length out - d)) (written s dst out)) = Throw Fatal"
proof (induction k arbitrary: out)
  case (Suc k)
  have u: "unat (of_nat i :: u32) = i" if "i \<le> n" for i using that frame_small [OF f] by (simp add: unat_of_nat)
  show ?case
  proof (cases "length out = n")
    case False
    then have lt: "\<not> (of_nat (length out) :: u32) \<ge> of_nat n" using Suc.prems u by (simp add: word_le_nat_alt)
    have "length (out @ [out ! (length out - d)]) - d = Suc (length out - d)" using Suc.prems by simp
    then show ?thesis using Suc.IH [of "out @ [out ! (length out - d)]"] Suc.prems lt False
        read_dst [OF f, of out "length out - d"] write_dst [OF f, of out "out ! (length out - d)"]
      by (simp add: bindP_def thenP_def add_ac)
  qed (simp add: throwP_run)
qed simp

lemma rep_word:
  "push_bit 8 (ucast (of_nat h :: u8)) OR ucast (of_nat l :: u8) = (of_nat (h mod 256 * 256 + l mod 256) :: u32)"
proof -
  have u: "ucast (of_nat x :: u8) = (of_nat (x mod 256) :: u32)" for x
    by (simp add: word_unat_eq_iff unat_of_nat unsigned_ucast_eq take_bit_eq_mod)
  have "l mod 256 = take_bit 8 l" by (simp add: take_bit_eq_mod)
  then have low: "bit (of_nat (l mod 256) :: u32) i \<Longrightarrow> i < 8" for i by (simp add: bit_of_nat_iff bit_take_bit_iff)
  have "push_bit 8 (of_nat (h mod 256)) OR of_nat (l mod 256) = push_bit 8 (of_nat (h mod 256)) + (of_nat (l mod 256) :: u32)"
    by (rule disjunctive_add [symmetric]) (use low in \<open>force simp: bit_push_bit_iff\<close>)
  then show ?thesis unfolding u by (simp add: push_bit_eq_mult)
qed

lemma rep_fields:
  assumes "r < 65536"
  shows "(of_nat r AND 0xFFF :: u32) = of_nat (r mod 4096)" "drop_bit 12 (of_nat r :: u32) = of_nat (r div 4096)"
proof -
  have r: "unat (of_nat r :: u32) = r" using assms by (simp add: unat_of_nat)
  have "(of_nat r AND 0xFFF :: u32) = take_bit 12 (of_nat r)" by (simp add: take_bit_eq_mask mask_eq_exp_minus_1)
  then have "unat (of_nat r AND 0xFFF :: u32) = take_bit 12 (unat (of_nat r :: u32))" by (simp only: unsigned_take_bit_eq)
  then have "unat (of_nat r AND 0xFFF :: u32) = r mod 4096" by (simp add: r take_bit_eq_mod)
  then show "(of_nat r AND 0xFFF :: u32) = of_nat (r mod 4096)" by (metis of_nat_unat ucast_id)
  have "unat (drop_bit 12 (of_nat r :: u32)) = r div 4096" unfolding unat_drop_bit_eq r by (rule drop_bit_eq_div [of 12, simplified])
  then show "drop_bit 12 (of_nat r :: u32) = of_nat (r div 4096)" by (metis of_nat_unat ucast_id)
qed

lemma literal_run:
  assumes f: "szs_frame s src m dst n" and o: "length out < n" and x: "x < m" "mem_byte s src x = b"
  shows "szs_literal src dst (of_nat x) (of_nat (length out)) (written s dst out) =
    (Ok (of_nat (x + 1), of_nat (length out + 1)), written s dst (out @ [b]))"
  using read_src [OF f _ x(1), of out] write_dst [OF f o, of b] o x(2)
  by (simp add: szs_literal_def bindP_def thenP_def returnP_run add_ac)

text \<open>A back-reference of the stream.\<close>

definition rep_of :: "nat \<Rightarrow> nat \<Rightarrow> nat" where
  "rep_of d k = (if k \<ge> 18 then 0 else k - 2) * 4096 + (d - 1)"

lemma rep_of_fields:
  assumes "token_ok (Back d k)"
  shows "rep_of d k < 65536" "rep_of d k mod 4096 = d - 1" "rep_of d k div 4096 = (if k \<ge> 18 then 0 else k - 2)"
proof -
  define q e where "q = (if k \<ge> 18 then 0 else k - 2)" and "e = d - 1"
  have "q < 16" "e < 4096" "rep_of d k = q * 4096 + e" using assms by (auto simp: q_def e_def rep_of_def)
  then show "rep_of d k < 65536" "rep_of d k mod 4096 = d - 1" "rep_of d k div 4096 = (if k \<ge> 18 then 0 else k - 2)"
    unfolding q_def [symmetric] e_def [symmetric] by simp_all
qed

lemma rep_of_payload:
  assumes "token_ok (Back d k)"
  shows "push_bit 8 (ucast (payload (Back d k) ! 0)) OR ucast (payload (Back d k) ! 1) = (of_nat (rep_of d k) :: u32)"
proof -
  define q e where "q = (if k \<ge> 18 then 0 else k - 2)" and "e = d - 1"
  have q: "q < 16" "e < 4096" using assms by (auto simp: q_def e_def)
  have p: "payload (Back d k) ! 0 = of_nat (q * 16 + e div 256)" "payload (Back d k) ! 1 = of_nat e"
    by (simp_all add: q_def e_def)
  have "(q * 16 + e div 256) mod 256 * 256 + e mod 256 = q * 4096 + e" using q by simp
  then show ?thesis unfolding p rep_word rep_of_def q_def [symmetric] e_def [symmetric] by simp
qed

lemma run_prefix:
  assumes f: "szs_frame s src m dst n" and o: "length out \<le> n" and t: "token_ok (Back d k)"
    and p: "\<forall>i < length (payload (Back d k)). mem_byte s src (x + i) = payload (Back d k) ! i" "x + length (payload (Back d k)) \<le> m"
  shows "szs_run src dst (of_nat n) (of_nat x) (of_nat (length out)) (written s dst out) =
    (if d > length out then (Throw Fatal, written s dst out)
     else bindP (szs_copy dst (of_nat n) k (of_nat (length out)) (of_nat (length out - d)))
       (\<lambda>d'. returnP (of_nat (x + length (payload (Back d k))), d')) (written s dst out))"
proof -
  have l: "2 \<le> length (payload (Back d k))" "payload (Back d k) \<noteq> []" by simp_all
  have r0: "FlatRead8 (src + of_nat x) (written s dst out) = (Ok (payload (Back d k) ! 0), written s dst out)"
    using read_src [OF f o, of x] p(1) [rule_format, of 0] p(2) l by (auto simp del: payload.simps)
  have r1: "FlatRead8 (src + (of_nat x + 1)) (written s dst out) = (Ok (payload (Back d k) ! 1), written s dst out)"
    using read_src [OF f o, of "x + 1"] p(1) [rule_format, of 1] p(2) l by (auto simp: add_ac simp del: payload.simps)
  have r2: "FlatRead8 (src + (of_nat x + 2)) (written s dst out) = (Ok (of_nat (k - 18)), written s dst out)" if "k \<ge> 18"
    using read_src [OF f o, of "x + 2"] p(2) p(1) [rule_format, of 2] that by (simp add: add_ac)
  have d: "of_nat (rep_of d k mod 4096) + 1 = (of_nat d :: u32)" "length out < 2 ^ 32" "d < 2 ^ 32"
    using rep_of_fields [OF t] t frame_small [OF f] o by auto
  then have gt: "of_nat d > (of_nat (length out) :: u32) \<longleftrightarrow> d > length out" by (simp add: word_less_nat_alt unat_of_nat)
  have sub: "of_nat (length out) - of_nat d = (of_nat (length out - d) :: u32)" if "d \<le> length out" using that by simp
  have k: "3 \<le> k" "k \<le> 273" using t by auto
  have cnt: "of_nat (k - 2) + 2 = (of_nat k :: u32)" "unat (of_nat k :: u32) = k" using k by (simp_all add: unat_of_nat)
  have nz: "(of_nat (k - 2) :: u32) \<noteq> 0"
  proof -
    have "unat (of_nat (k - 2) :: u32) = k - 2" by (rule unat_of_nat32) (use k in simp)
    then show ?thesis using k by auto
  qed
  have cnt3: "ucast (of_nat (k - 18) :: u8) + 18 = (of_nat k :: u32)" if "k \<ge> 18"
  proof -
    have "unat (of_nat (k - 18) :: u8) = k - 18" by (rule unat_of_nat8) (use k that in simp)
    then have "ucast (of_nat (k - 18) :: u8) = (of_nat (k - 18) :: u32)" by (metis of_nat_unat)
    then show ?thesis using that by simp
  qed
  let ?count = "if k \<ge> 18 then bindP (FlatRead8 (src + (of_nat x + 2))) (\<lambda>b. returnP (ucast b + 18 :: u32, of_nat x + 3))
                 else returnP (of_nat (k - 2) + 2, of_nat x + 2)"
  have count: "?count (written s dst out) = (Ok (of_nat k, of_nat (x + length (payload (Back d k)))), written s dst out)"
    using r2 cnt(1) cnt3 by (auto simp: bindP_def returnP_run)
  have "szs_run src dst (of_nat n) (of_nat x) (of_nat (length out)) (written s dst out) =
    (if d > length out then (Throw Fatal, written s dst out)
     else bindP ?count (\<lambda>(count, srcIdx'). bindP (szs_copy dst (of_nat n) (unat count) (of_nat (length out)) (of_nat (length out) - of_nat d))
            (\<lambda>dstIdx'. returnP (srcIdx', dstIdx'))) (written s dst out))"
    unfolding szs_run_def bindP_Ok [of "FlatRead8 (src + of_nat x)", OF r0] bindP_Ok [of "FlatRead8 (src + (of_nat x + 1))", OF r1]
      rep_of_payload [OF t] Let_def rep_fields [OF rep_of_fields(1) [OF t]] d gt rep_of_fields(3) [OF t]
    using nz by (auto simp: throwP_run)
  then show ?thesis unfolding bindP_Ok [of ?count, OF count] using cnt(2) sub by simp
qed

text \<open>The bytes of a stream in memory, and the flags in use at phase \<open>p\<close>.\<close>

definition stream_at :: "'a memory_scheme \<Rightarrow> u32 \<Rightarrow> nat \<Rightarrow> nat \<Rightarrow> u8 list \<Rightarrow> bool" where
  "stream_at s src m x bs \<longleftrightarrow> x + length bs \<le> m \<and> (\<forall>i < length bs. mem_byte s src (x + i) = bs ! i)"

lemma stream_at_append:
  "stream_at s src m x (as @ bs) \<longleftrightarrow> stream_at s src m x as \<and> stream_at s src m (x + length as) bs"
proof -
  have "(\<forall>i < length as + length bs. P i) \<longleftrightarrow> (\<forall>i < length as. P i) \<and> (\<forall>i < length bs. P (length as + i))" for P
  proof (intro iffI conjI allI impI)
    fix i assume a: "(\<forall>i < length as. P i) \<and> (\<forall>i < length bs. P (length as + i))" "i < length as + length bs"
    show "P i"
    proof (cases "i < length as")
      case False
      then have "P (length as + (i - length as))" using a by (intro a(1) [THEN conjunct2, rule_format]) simp
      then show ?thesis using False by simp
    qed (use a in simp)
  qed auto
  then show ?thesis unfolding stream_at_def by (auto simp: nth_append add.assoc)
qed

definition flags_ok :: "nat \<Rightarrow> szs_token list \<Rightarrow> u32 \<Rightarrow> bool" where
  "flags_ok p ts flags \<longleftrightarrow> (\<forall>j < 8 - p. j < length ts \<longrightarrow> (bit flags (7 - p - j) \<longleftrightarrow> is_literal (ts ! j)))"

definition group_ok :: "nat \<Rightarrow> szs_token list \<Rightarrow> u32 \<Rightarrow> u32 \<Rightarrow> bool" where
  "group_ok p ts msk flags \<longleftrightarrow> (if p = 0 then msk = 0 else msk = push_bit (7 - p) 1 \<and> flags_ok p ts flags)"

lemma flags_run:
  assumes f: "szs_frame s src m dst n" and o: "length out \<le> n" and p: "p < 8" and g: "group_ok p (t # ts) msk flags"
    and at: "stream_at s src m x (if p = 0 then [flag_byte 8 (t # ts)] else [])"
  shows "\<exists>flags'. szs_flags src (of_nat x, msk, flags) (written s dst out) =
      (Ok (of_nat (x + (if p = 0 then 1 else 0)), push_bit (7 - p) 1, flags'), written s dst out) \<and> flags_ok p (t # ts) flags'"
proof (cases "p = 0")
  case True
  have "flags_ok 0 (t # ts) (ucast (flag_byte 8 (t # ts)))"
    using flag_byte_bit [of 8 _ "t # ts"] unfolding flags_ok_def by (auto simp: bit_simps)
  moreover have "FlatRead8 (src + of_nat x) (written s dst out) = (Ok (flag_byte 8 (t # ts)), written s dst out)"
    using read_src [OF f o, of x] at True by (simp add: stream_at_def)
  ultimately show ?thesis using g True by (auto simp: szs_flags_def group_ok_def bindP_def returnP_run add_ac)
next
  case False
  have "push_bit (7 - p) 1 \<noteq> (0 :: u32)" using p by (simp add: push_bit_eq_0_iff)
  then show ?thesis using g False by (auto simp: szs_flags_def group_ok_def returnP_run)
qed

lemma group_next:
  assumes "p < 8" and "flags_ok p (t # ts) flags"
  shows "group_ok ((p + 1) mod 8) ts (drop_bit 1 (push_bit (7 - p) 1)) flags"
    and "flags AND push_bit (7 - p) 1 \<noteq> 0 \<longleftrightarrow> is_literal t"
proof -
  show "flags AND push_bit (7 - p) 1 \<noteq> 0 \<longleftrightarrow> is_literal t"
    using assms(1) assms(2) [unfolded flags_ok_def, rule_format, of 0] by (simp add: and_exp_eq_0_iff_not_bit push_bit_of_1)
  have f: "bit flags (7 - (p + 1) - j) \<longleftrightarrow> is_literal (ts ! j)" if "j < 8 - (p + 1)" "j < length ts" for j
  proof -
    have "7 - p - Suc j = 7 - (p + 1) - j" by simp
    moreover have "bit flags (7 - p - Suc j) \<longleftrightarrow> is_literal ((t # ts) ! Suc j)"
      using that by (intro assms(2) [unfolded flags_ok_def, rule_format]) simp_all
    ultimately show ?thesis by simp
  qed
  show "group_ok ((p + 1) mod 8) ts (drop_bit 1 (push_bit (7 - p) 1)) flags"
  proof (cases "p = 7")
    case False
    then have "drop_bit 1 (push_bit (7 - p) 1) = (push_bit (7 - (p + 1)) 1 :: u32)" "(p + 1) mod 8 = p + 1"
    proof -
      have "p = 0 \<or> p = 1 \<or> p = 2 \<or> p = 3 \<or> p = 4 \<or> p = 5 \<or> p = 6" using assms(1) False by linarith
      then show "drop_bit 1 (push_bit (7 - p) 1) = (push_bit (7 - (p + 1)) 1 :: u32)" "(p + 1) mod 8 = p + 1" by auto
    qed
    then show ?thesis using f by (simp add: group_ok_def flags_ok_def)
  qed (simp add: group_ok_def)
qed

definition loop_result :: "unit res \<times> 'a memory_scheme \<Rightarrow> 'a memory_scheme \<Rightarrow> u32 \<Rightarrow> szs_result \<Rightarrow> bool" where
  "loop_result r s dst u \<longleftrightarrow>
     (case u of Done o' \<Rightarrow> r = (Ok (), written s dst o') | Corrupt \<Rightarrow> fst r = Throw Fatal | Short \<Rightarrow> True)"

lemma sint_of_nat32: "i < 2 ^ 31 \<Longrightarrow> sint (of_nat i :: u32) = int i"
  by (subst of_int_of_nat_eq [symmetric], subst sint_sbintrunc') (simp add: signed_take_bit_int_eq_self)

text \<open>One token.\<close>

lemma token_run:
  assumes f: "szs_frame s src m dst n" and o: "length out < n" and p: "p < 8" and g: "group_ok p (t # ts) msk flags"
    and t: "token_ok t" and at: "stream_at s src m x ((if p = 0 then [flag_byte 8 (t # ts)] else []) @ payload t)"
  shows "\<exists>flags'. group_ok ((p + 1) mod 8) ts (drop_bit 1 (push_bit (7 - p) 1)) flags' \<and>
    szs_step src dst (of_nat n) (of_nat x, of_nat (length out), msk, flags) (written s dst out) =
      bindP (case t of Literal b \<Rightarrow> szs_literal src dst (of_nat (x + (if p = 0 then 1 else 0))) (of_nat (length out))
         | Back d k \<Rightarrow> szs_run src dst (of_nat n) (of_nat (x + (if p = 0 then 1 else 0))) (of_nat (length out)))
        (\<lambda>(srcIdx', dstIdx'). returnP (Inl (srcIdx', dstIdx', drop_bit 1 (push_bit (7 - p) 1), flags'))) (written s dst out)"
proof -
  have "n < 2 ^ 31" using frame_small [OF f] by simp
  then have lt: "sint (of_nat (length out) :: u32) < sint (of_nat n :: u32)" using o
    using sint_of_nat32 [of "length out"] sint_of_nat32 [of n] by simp
  have "stream_at s src m x (if p = 0 then [flag_byte 8 (t # ts)] else [])" using at by (simp add: stream_at_append)
  from flags_run [OF f less_imp_le [OF o] p g this] obtain flags' where
    run: "szs_flags src (of_nat x, msk, flags) (written s dst out) =
      (Ok (of_nat (x + (if p = 0 then 1 else 0)), push_bit (7 - p) 1, flags'), written s dst out)"
    and fl: "flags_ok p (t # ts) flags'" by blast
  have "szs_step src dst (of_nat n) (of_nat x, of_nat (length out), msk, flags) (written s dst out) =
      bindP (if is_literal t then szs_literal src dst (of_nat (x + (if p = 0 then 1 else 0))) (of_nat (length out))
         else szs_run src dst (of_nat n) (of_nat (x + (if p = 0 then 1 else 0))) (of_nat (length out)))
        (\<lambda>(srcIdx', dstIdx'). returnP (Inl (srcIdx', dstIdx', drop_bit 1 (push_bit (7 - p) 1), flags'))) (written s dst out)"
    unfolding szs_step_def using lt group_next(2) [OF p fl]
    by (simp only: prod.case not_True_eq_False if_False simp_thms bindP_Ok [of "szs_flags src (of_nat x, msk, flags)", OF run])
  then show ?thesis using group_next(1) [OF p fl] by (cases t) auto
qed

lemma loopP_Throw: "body a s = (Throw e, s') \<Longrightarrow> loopP (Suc n) body a s = (Throw e, s')"
  by (simp add: loopP.simps bindP_def)

lemma loop_done: "loopP (Suc fuel) (szs_step src dst e) (x, e, msk, flags) t = (Ok (), t)"
  by (rule loopP_done) (simp add: szs_step_def returnP_run)

lemma loop_token:
  assumes f: "szs_frame s src m dst n" and o: "length out < n" and t: "token_ok t" and at: "stream_at s src m y (payload t)"
    and run: "szs_step src dst (of_nat n) a (written s dst out) =
      bindP (case t of Literal b \<Rightarrow> szs_literal src dst (of_nat y) (of_nat (length out))
         | Back d k \<Rightarrow> szs_run src dst (of_nat n) (of_nat y) (of_nat (length out)))
        (\<lambda>(srcIdx', dstIdx'). returnP (Inl (srcIdx', dstIdx', msk', flags'))) (written s dst out)"
    and IH: "\<And>out'. length out < length out' \<Longrightarrow> length out' \<le> n \<Longrightarrow>
      loop_result (loopP fuel (szs_step src dst (of_nat n)) (of_nat (y + length (payload t)), of_nat (length out'), msk', flags') (written s dst out'))
        s dst (unpack n ts out')"
  shows "loop_result (loopP (Suc fuel) (szs_step src dst (of_nat n)) a (written s dst out)) s dst (unpack n (t # ts) out)"
proof (cases t)
  case (Literal b)
  then have "szs_literal src dst (of_nat y) (of_nat (length out)) (written s dst out) =
      (Ok (of_nat (y + 1), of_nat (length out + 1)), written s dst (out @ [b]))"
    using at by (intro literal_run [OF f o]) (auto simp: stream_at_def)
  then show ?thesis using run IH [of "out @ [b]"] o Literal
    by (subst loopP_next [where s' = "written s dst (out @ [b])"]) (auto simp: bindP_def returnP_run)
next
  case (Back d k)
  have "szs_run src dst (of_nat n) (of_nat y) (of_nat (length out)) (written s dst out) =
    (if d > length out then (Throw Fatal, written s dst out)
     else bindP (szs_copy dst (of_nat n) k (of_nat (length out)) (of_nat (length out - d)))
       (\<lambda>d'. returnP (of_nat (y + length (payload (Back d k))), d')) (written s dst out))"
    using at t Back o by (intro run_prefix [OF f]) (auto simp: stream_at_def)
  note step = run [unfolded Back szs_token.case bindP_def this, folded bindP_def]
  have d: "1 \<le> d" using t Back by simp
  consider "d > length out" | "d \<le> length out" "n < length out + k" | "d \<le> length out" "length out + k \<le> n" by linarith
  then show ?thesis
  proof cases
    case 1
    then show ?thesis using step o Back by (auto simp: loop_result_def loopP_Throw)
  next
    case 2
    then have "fst (szs_copy dst (of_nat n) k (of_nat (length out)) (of_nat (length out - d)) (written s dst out)) = Throw Fatal"
      using copy_overrun [OF f d] o by simp
    then obtain t' where "szs_copy dst (of_nat n) k (of_nat (length out)) (of_nat (length out - d)) (written s dst out) = (Throw Fatal, t')"
      by (metis prod.collapse)
    then have "szs_step src dst (of_nat n) a (written s dst out) = (Throw Fatal, t')"
      unfolding step using 2 by (simp add: bindP_def)
    then show ?thesis using 2 o Back by (simp add: loop_result_def loopP_Throw)
  next
    case 3
    then have "szs_step src dst (of_nat n) a (written s dst out) =
        (Ok (Inl (of_nat (y + length (payload t)), of_nat (length out + k), msk', flags')), written s dst (expand_run d k out))"
      unfolding step using copy_run [OF f d] Back by (simp add: bindP_def returnP_run)
    from loopP_next [where body = "szs_step src dst (of_nat n)", OF this]
    show ?thesis using IH [of "expand_run d k out"] 3 o Back t by (simp del: payload.simps)
  qed
qed

lemma loop_unpack:
  assumes f: "szs_frame s src m dst n"
  shows "p < 8 \<Longrightarrow> group_ok p ts msk flags \<Longrightarrow> stream_at s src m x (szs_stream p ts) \<Longrightarrow> list_all token_ok ts \<Longrightarrow>
    length out \<le> n \<Longrightarrow> n - length out < fuel \<Longrightarrow>
    loop_result (loopP fuel (szs_step src dst (of_nat n)) (of_nat x, of_nat (length out), msk, flags) (written s dst out))
      s dst (unpack n ts out)"
proof (induction ts arbitrary: p msk flags x out fuel)
  case Nil
  then show ?case by (cases fuel) (auto simp: loop_result_def loop_done)
next
  case (Cons t ts)
  then obtain fuel' where fu: "fuel = Suc fuel'" by (cases fuel) auto
  let ?x = "x + (if p = 0 then 1 else 0)" and ?p = "(p + 1) mod 8"
  show ?case
  proof (cases "length out = n")
    case True
    then show ?thesis by (simp add: fu loop_result_def loop_done)
  next
    case False
    then have o: "length out < n" using Cons.prems by simp
    have at: "stream_at s src m x ((if p = 0 then [flag_byte 8 (t # ts)] else []) @ payload t)"
        "stream_at s src m ?x (payload t)" "stream_at s src m (?x + length (payload t)) (szs_stream ?p ts)"
      using Cons.prems(3) by (auto simp: stream_at_append split: if_splits)
    have t: "token_ok t" "list_all token_ok ts" using Cons.prems(4) by simp_all
    from token_run [OF f o Cons.prems(1,2) t(1) at(1)] obtain flags' where
      g: "group_ok ?p ts (drop_bit 1 (push_bit (7 - p) 1)) flags'" and
      run: "szs_step src dst (of_nat n) (of_nat x, of_nat (length out), msk, flags) (written s dst out) =
        bindP (case t of Literal b \<Rightarrow> szs_literal src dst (of_nat ?x) (of_nat (length out))
           | Back d k \<Rightarrow> szs_run src dst (of_nat n) (of_nat ?x) (of_nat (length out)))
          (\<lambda>(srcIdx', dstIdx'). returnP (Inl (srcIdx', dstIdx', drop_bit 1 (push_bit (7 - p) 1), flags'))) (written s dst out)"
      by blast
    show ?thesis unfolding fu using Cons.prems(6) fu
      by (intro loop_token [OF f o t(1) at(2) run] Cons.IH [of ?p] g at(3) t(2)) simp_all
  qed
qed

section \<open>The decoder on any input\<close>

text \<open>\<open>t\<close> differs from \<open>s\<close> in the \<open>n\<close> bytes from \<open>dst\<close> on at most.\<close>

definition confined :: "'a memory_scheme \<Rightarrow> u32 \<Rightarrow> nat \<Rightarrow> 'a memory_scheme \<Rightarrow> bool" where
  "confined s dst n t \<longleftrightarrow> ram_bytes t dst n \<and>
     (\<forall>k j. \<not> (k = fst (ram_loc dst) \<and> snd (ram_loc dst) \<le> j \<and> j < snd (ram_loc dst) + n) \<longrightarrow> Storage t k j = Storage s k j)"

lemma confined_wii: "confined s dst n t \<Longrightarrow> wii_memory t"
  by (simp add: confined_def ram_bytes_def)

lemma FlatRead8_any:
  "wii_memory t \<Longrightarrow> \<exists>b. FlatRead8 a t = (Ok b, t) \<or> FlatRead8 a t = (Throw (AccessViolation a 1), t)"
  by (auto simp: FlatRead8_def Read8_def ReadChecked_def ReadScalar_def GetPointer_def bindP_def thenP_def throwP_run getsP_run
      returnP_run wii_memory_def deferred_none split: option.splits)

lemma FlatRead8_cases:
  assumes "wii_memory t"
  obtains b where "FlatRead8 a t = (Ok b, t)" | "FlatRead8 a t = (Throw (AccessViolation a 1), t)"
  using FlatRead8_any [OF assms] by blast

lemma FlatWrite8_confined:
  assumes "confined s dst n t" "unat d < n"
  shows "\<exists>t'. FlatWrite8 (dst + d) b t = (Ok (), t') \<and> confined s dst n t'"
proof -
  have r: "ram_bytes t dst n" using assms by (simp add: confined_def)
  have "FlatWrite8 (dst + of_nat (unat d)) b t = (Ok (), put_bytes (fst (ram_loc dst), snd (ram_loc dst) + unat d) [b] t)"
    unfolding FlatWrite8_def by (rule Write8_ram [OF r assms(2)])
  moreover have "confined s dst n (put_bytes (fst (ram_loc dst), snd (ram_loc dst) + unat d) [b] t)"
    using assms unfolding confined_def ram_bytes_put by (simp add: put_bytes_def)
  ultimately show ?thesis by simp
qed

text \<open>How a step may end: \<open>P\<close> of the value it returns, in a confined memory, or a fault of the program.\<close>

definition ends :: "'a memory_scheme \<Rightarrow> u32 \<Rightarrow> nat \<Rightarrow> ('b \<Rightarrow> bool) \<Rightarrow> 'b res \<times> 'a memory_scheme \<Rightarrow> bool" where
  "ends s dst n P x \<longleftrightarrow> confined s dst n (snd x) \<and> (case fst x of Ok v \<Rightarrow> P v | Throw e \<Rightarrow> e \<noteq> OutOfFuel)"

lemma ends_bind:
  assumes "ends s dst n P (m t)" and f: "\<And>v t'. P v \<Longrightarrow> confined s dst n t' \<Longrightarrow> ends s dst n Q (f v t')"
  shows "ends s dst n Q (bindP m f t)"
proof (cases "m t")
  case (Pair r t')
  then show ?thesis using assms(1) f [of _ t'] by (cases r) (simp_all add: ends_def bindP_def)
qed

lemma ends_then:
  "ends s dst n P (m t) \<Longrightarrow> (\<And>t'. confined s dst n t' \<Longrightarrow> ends s dst n Q (f t')) \<Longrightarrow> ends s dst n Q (thenP m f t)"
  unfolding thenP_def by (rule ends_bind) auto

lemma ends_return: "confined s dst n t \<Longrightarrow> P v \<Longrightarrow> ends s dst n P (returnP v t)"
  by (simp add: ends_def returnP_run)

lemma ends_Fatal: "confined s dst n t \<Longrightarrow> ends s dst n P (throwP Fatal t)"
  by (simp add: ends_def throwP_run)

lemma ends_read: "confined s dst n t \<Longrightarrow> ends s dst n (\<lambda>_. True) (FlatRead8 a t)"
  using FlatRead8_any [of t a] confined_wii [of s dst n t] by (auto simp: ends_def)

lemma ends_write: "confined s dst n t \<Longrightarrow> unat d < n \<Longrightarrow> ends s dst n (\<lambda>_. True) (FlatWrite8 (dst + d) b t)"
  using FlatWrite8_confined [of s dst n t d b] by (auto simp: ends_def)

lemma word_Suc: "(d :: u32) < e \<Longrightarrow> unat (d + 1) = unat d + 1"
  using unat_add_small [of d 1] uint_lt2p [of e] unat_bnd [of e] by (simp add: word_less_nat_alt)

lemma ends_copy:
  "confined s dst (unat e) t \<Longrightarrow> unat d \<le> unat e \<Longrightarrow>
   ends s dst (unat e) (\<lambda>d'. unat d' = unat d + k \<and> unat d' \<le> unat e) (szs_copy dst e k d c t)"
proof (induction k arbitrary: d c t)
  case (Suc k)
  show ?case
  proof (cases "d \<ge> e")
    case False
    then have d: "unat d < unat e" "unat (d + 1) = unat d + 1" using word_Suc [of d e] by (simp_all add: word_less_nat_alt not_le)
    have "ends s dst (unat e) (\<lambda>d'. unat d' = unat d + Suc k \<and> unat d' \<le> unat e) (szs_copy dst e k (d + 1) (c + 1) t')"
      if "confined s dst (unat e) t'" for t' using Suc.IH [OF that, of "d + 1" "c + 1"] d by simp
    then show ?thesis using False d Suc.prems
      by (auto intro!: ends_bind ends_then ends_read ends_write)
  qed (simp add: ends_Fatal Suc.prems)
qed (simp add: ends_return)

lemma run_count:
  fixes h l :: u8
  assumes "drop_bit 12 (push_bit 8 (ucast h) OR ucast l :: u32) \<noteq> 0"
  shows "0 < unat (drop_bit 12 (push_bit 8 (ucast h) OR ucast l :: u32) + 2)"
proof -
  define r where "r = unat h mod 256 * 256 + unat l mod 256"
  have "unat h mod 256 < 256" "unat l mod 256 < 256" by simp_all
  then have r: "r < 65536" unfolding r_def by linarith
  have e: "push_bit 8 (ucast h) OR ucast l = (of_nat r :: u32)"
    using rep_word [of "unat h" "unat l"] by (simp add: r_def)
  have "drop_bit 12 (of_nat r :: u32) + 2 = of_nat (r div 4096 + 2)" unfolding rep_fields(2) [OF r] by simp
  moreover have "r div 4096 < 16" using r by (simp add: less_mult_imp_div_less)
  ultimately have "unat (drop_bit 12 (of_nat r :: u32) + 2) = r div 4096 + 2" using unat_of_nat32 [of "r div 4096 + 2"] by (simp add: add.commute)
  then show ?thesis unfolding e by simp
qed

lemma unat_lt8: "unat (b :: u8) < 2 ^ 32"
  using unsigned_less [of b] by (rule less_trans) simp

lemma run_count3: "0 < unat (ucast (b :: u8) + 18 :: u32)"
proof -
  have "unat (ucast b :: u32) = unat b" by (metis unat_of_nat32 of_nat_unat unat_lt8)
  moreover have "unat b < 256" using unsigned_less [of b] by simp
  ultimately have "unat (ucast b + of_nat 18 :: u32) = unat b + 18" by (subst unat_add_small) simp_all
  then show ?thesis by simp
qed

text \<open>Every token moves the output on.\<close>

lemma ends_literal:
  fixes d e :: u32
  shows "confined s dst (unat e) t \<Longrightarrow> unat d < unat e \<Longrightarrow>
   ends s dst (unat e) (\<lambda>(x', d'). unat d < unat d' \<and> unat d' \<le> unat e) (szs_literal src dst x d t)"
  using word_Suc [of d e] unfolding szs_literal_def
  by (auto intro!: ends_bind ends_then ends_read ends_write ends_return simp: word_less_nat_alt)

lemma ends_run:
  fixes d e :: u32
  assumes "confined s dst (unat e) t" and d: "unat d < unat e"
  shows "ends s dst (unat e) (\<lambda>(x', d'). unat d < unat d' \<and> unat d' \<le> unat e) (szs_run src dst e x d t)"
  unfolding szs_run_def
proof (intro ends_bind [where P = "\<lambda>_. True"] ends_read assms(1))
  fix h l :: u8 and t1 assume t1: "confined s dst (unat e) t1"
  let ?rep = "push_bit 8 (ucast h) OR ucast l :: u32"
  let ?count = "if drop_bit 12 ?rep \<noteq> 0 then returnP (drop_bit 12 ?rep + 2, x + 2)
    else bindP (FlatRead8 (src + (x + 2))) (\<lambda>b. returnP (ucast b + 18, x + 3))"
  have "ends s dst (unat e) (\<lambda>(c, x'). 0 < unat (c :: u32)) (?count t1)"
    using t1 run_count [of h l] run_count3
    by (auto intro!: ends_return ends_bind [where P = "\<lambda>_. True"] ends_read)
  then have "ends s dst (unat e) (\<lambda>(x', d'). unat d < unat d' \<and> unat d' \<le> unat e)
      (bindP ?count (\<lambda>(count, srcIdx'). bindP (szs_copy dst e (unat count) d (d - ((?rep AND 0xFFF) + 1)))
        (\<lambda>dstIdx'. returnP (srcIdx', dstIdx'))) t1)"
  proof (rule ends_bind)
    fix v :: "u32 \<times> u32" and t2 assume v: "(\<lambda>(c, x'). 0 < unat c) v" and t2: "confined s dst (unat e) t2"
    obtain c x' where cx: "v = (c, x')" "0 < unat c" using v by (cases v) auto
    have "ends s dst (unat e) (\<lambda>(x', d'). unat d < unat d' \<and> unat d' \<le> unat e)
        (bindP (szs_copy dst e (unat c) d (d - ((?rep AND 0xFFF) + 1))) (\<lambda>dstIdx'. returnP (x', dstIdx')) t2)"
      by (rule ends_bind [OF ends_copy [where k = "unat c"]]) (use t2 d cx(2) in \<open>auto intro!: ends_return\<close>)
    then show "ends s dst (unat e) (\<lambda>(x', d'). unat d < unat d' \<and> unat d' \<le> unat e)
        ((case v of (count, srcIdx') \<Rightarrow> bindP (szs_copy dst e (unat count) d (d - ((?rep AND 0xFFF) + 1)))
          (\<lambda>dstIdx'. returnP (srcIdx', dstIdx'))) t2)"
      unfolding cx(1) by simp
  qed
  then show "ends s dst (unat e) (\<lambda>(x', d'). unat d < unat d' \<and> unat d' \<le> unat e)
      ((let rep = ?rep; distance = (rep AND 0xFFF) + 1
        in if distance > d then throwP Fatal
           else bindP (if drop_bit 12 rep \<noteq> 0 then returnP (drop_bit 12 rep + 2, x + 2)
               else bindP (FlatRead8 (src + (x + 2))) (\<lambda>b. returnP (ucast b + 18, x + 3)))
             (\<lambda>(count, srcIdx'). bindP (szs_copy dst e (unat count) d (d - distance)) (\<lambda>dstIdx'. returnP (srcIdx', dstIdx')))) t1)"
    by (simp add: Let_def ends_Fatal t1)
qed

definition advances :: "u32 \<Rightarrow> u32 \<Rightarrow> u32 \<times> u32 \<times> u32 \<times> u32 + unit \<Rightarrow> bool" where
  "advances d e r \<longleftrightarrow> (case r of Inl (x', d', m', f') \<Rightarrow> unat d < unat d' \<and> unat d' \<le> unat e | Inr u \<Rightarrow> True)"

lemma ends_step:
  assumes c: "confined s dst (unat e) t" and e: "unat e < 2 ^ 31" and d: "unat d \<le> unat e"
  shows "ends s dst (unat e) (advances d e)
    (szs_step src dst e (x, d, m, f) t)"
proof (cases "unat d < unat e")
  case True
  have fl: "ends s dst (unat e) (\<lambda>_. True) (szs_flags src (x, m, f) t)"
    using c by (auto simp: szs_flags_def intro!: ends_bind [where P = "\<lambda>_. True"] ends_read ends_return)
  have tok: "ends s dst (unat e) (advances d e)
      (bindP (if f1 AND m1 \<noteq> 0 then szs_literal src dst x1 d else szs_run src dst e x1 d)
        (\<lambda>(srcIdx', dstIdx'). returnP (Inl (srcIdx', dstIdx', drop_bit 1 m1, f1))) t1)"
    if t1: "confined s dst (unat e) t1" for x1 m1 f1 t1
  proof (rule ends_bind)
    show "ends s dst (unat e) (\<lambda>(x', d'). unat d < unat d' \<and> unat d' \<le> unat e)
        ((if f1 AND m1 \<noteq> 0 then szs_literal src dst x1 d else szs_run src dst e x1 d) t1)"
      using ends_literal [OF t1 True] ends_run [OF t1 True] by simp
  qed (auto intro!: ends_return simp: advances_def)
  have "ends s dst (unat e) (advances d e)
      (bindP (szs_flags src (x, m, f)) (\<lambda>(x1, m1, f1).
        bindP (if f1 AND m1 \<noteq> 0 then szs_literal src dst x1 d else szs_run src dst e x1 d)
          (\<lambda>(srcIdx', dstIdx'). returnP (Inl (srcIdx', dstIdx', drop_bit 1 m1, f1)))) t)"
  proof (rule ends_bind [where m = "szs_flags src (x, m, f)", OF fl])
    fix v :: "u32 \<times> u32 \<times> u32" and t' assume "confined s dst (unat e) t'"
    from tok [OF this, of "snd (snd v)" "fst (snd v)" "fst v"]
    show "ends s dst (unat e) (advances d e)
      ((case v of (x1, m1, f1) \<Rightarrow> bindP (if f1 AND m1 \<noteq> 0 then szs_literal src dst x1 d else szs_run src dst e x1 d)
          (\<lambda>(srcIdx', dstIdx'). returnP (Inl (srcIdx', dstIdx', drop_bit 1 m1, f1)))) t')"
      unfolding case_prod_unfold .
  qed
  then show ?thesis using c by (simp add: szs_step_def ends_return advances_def)
next
  case False
  then have "d = e" using d by (simp add: word_unat_eq_iff)
  then show ?thesis using c by (simp add: szs_step_def ends_return advances_def)
qed

lemma ends_loop:
  assumes e: "unat e < 2 ^ 31"
  shows "confined s dst (unat e) t \<Longrightarrow> unat d \<le> unat e \<Longrightarrow> unat e - unat d < fuel \<Longrightarrow>
    ends s dst (unat e) (\<lambda>_. True) (loopP fuel (szs_step src dst e) (x, d, m, f) t)"
proof (induction fuel arbitrary: x d m f t)
  case (Suc fuel)
  have "ends s dst (unat e) (\<lambda>_. True) ((case r of Inl a' \<Rightarrow> loopP fuel (szs_step src dst e) a' | Inr u \<Rightarrow> returnP u) t')"
    if r: "advances d e r"
      and t': "confined s dst (unat e) t'" for r t'
    using r Suc.IH [OF t'] Suc.prems(3) t' by (auto simp: advances_def split: sum.splits intro!: ends_return)
  with ends_step [OF Suc.prems(1) e Suc.prems(2)] show ?case
    unfolding loopP.simps by (rule ends_bind)
qed simp

text \<open>The size field, big-endian at offset 4.\<close>

definition size_field :: "'a memory_scheme \<Rightarrow> u32 \<Rightarrow> u32" where
  "size_field s src = BigEndian_Read32 (map (mem_byte s src) [4..<8])"

lemma expandSize_run:
  assumes "wii_memory s" "ram_window src 8"
  shows "szs_expandSize src s = (Ok (size_field s src), s)"
proof -
  have r: "FlatRead8 (src + of_nat i) s = (Ok (mem_byte s src i), s)" if "i < 8" for i
    unfolding FlatRead8_def by (rule Read8_window [OF assms that])
  have "[4..<8] = [4, 5, 6, 7 :: nat]" by (simp add: upt_conv_Cons)
  then show ?thesis using r [of 4] r [of 5] r [of 6] r [of 7]
    by (simp add: szs_expandSize_def bindP_def returnP_run size_field_def BigEndian_Read32_def)
qed

section \<open>Properties\<close>

text \<open>C30: the decoder decodes: where memory holds a stream of literals and back-references with the size of its
  expansion in the header, outside the destination, decoding returns that size and leaves exactly the expansion
  in the destination, byte for byte, and the rest of memory alone; a stream that refers to before the start of
  the output, or whose last copy overruns the announced size, stops the program.  Any byte string has such a
  stream, its literals.\<close>

theorem decode_expands:
  assumes f: "szs_frame s src (16 + length (szs_stream 0 ts)) dst n" and n: "size_field s src = of_nat n"
    and ts: "list_all token_ok ts" and at: "\<forall>i < length (szs_stream 0 ts). mem_byte s src (16 + i) = szs_stream 0 ts ! i"
  shows "(case unpack n ts [] of
      Done out \<Rightarrow> decodeSZS src dst s = (Ok (of_nat n), written s dst out) \<and> length out = n
    | Corrupt \<Rightarrow> fst (decodeSZS src dst s) = Throw Fatal
    | Short \<Rightarrow> True) \<and> unpack (length bs) (map Literal bs) [] = Done bs"
proof
  have w: "wii_memory s" "ram_window src 8" using f by (auto simp: szs_frame_def ram_bytes_def ram_window_def)
  have u: "unat (of_nat n :: u32) = n" using frame_small [OF f] by (simp add: unat_of_nat)
  have "loop_result (loopP (Suc n) (szs_step src dst (of_nat n)) (of_nat 16, of_nat (length ([] :: u8 list)), 0, 0) (written s dst []))
      s dst (unpack n ts [])"
    by (rule loop_unpack [OF f, of 0]) (use ts at in \<open>simp_all add: group_ok_def stream_at_def\<close>)
  then have l: "loop_result (loopP (Suc n) (szs_step src dst (of_nat n)) (16, 0, 0, 0) s) s dst (unpack n ts [])" by simp
  have d: "decodeSZS src dst s = thenP (loopP (Suc n) (szs_step src dst (of_nat n)) (16, 0, 0, 0)) (returnP (of_nat n)) s"
    unfolding decodeSZS_def bindP_Ok [of "szs_expandSize src", OF expandSize_run [OF w]] n u ..
  have len: "unpack n ts out = Done out' \<Longrightarrow> length out \<le> n \<Longrightarrow> length out' = n" for ts out out'
    by (induction n ts out rule: unpack.induct) (auto split: if_splits szs_token.splits)
  show "case unpack n ts [] of
      Done out \<Rightarrow> decodeSZS src dst s = (Ok (of_nat n), written s dst out) \<and> length out = n
    | Corrupt \<Rightarrow> fst (decodeSZS src dst s) = Throw Fatal | Short \<Rightarrow> True"
    using l len [of ts "[]"] unfolding d
    by (auto simp: loop_result_def thenP_def bindP_def returnP_run split: szs_result.splits prod.splits)
  have "unpack (length out + length bs) (map Literal bs) out = Done (out @ bs)" for out
  proof (induction bs arbitrary: out)
    case (Cons a bs)
    then show ?case using Cons [of "out @ [a]"] by simp
  qed simp
  then show "unpack (length bs) (map Literal bs) [] = Done bs" by (metis add_0 append_Nil list.size(3))
qed

text \<open>C31: whatever the input is, and even if it overlaps the destination, the decoder ends, within as many rounds
  as the announced size, and changes no byte outside the announced destination range; if it returns, it returns
  the announced size.  An announced size of \<open>2\<^sup>3\<^sup>1\<close> or more is returned at once with nothing decoded.\<close>

theorem decode_confined:
  assumes w: "wii_memory s" "ram_window src 8" and n: "e = size_field s src"
    and dst: "unat e < 2 ^ 31 \<Longrightarrow> ram_bytes s dst (unat e)"
  shows "\<exists>r t. decodeSZS src dst s = (r, t) \<and> r \<noteq> Throw OutOfFuel \<and> (\<forall>v. r = Ok v \<longrightarrow> v = e) \<and>
    (\<forall>k j. \<not> (k = fst (ram_loc dst) \<and> snd (ram_loc dst) \<le> j \<and> j < snd (ram_loc dst) + unat e) \<longrightarrow> Storage t k j = Storage s k j) \<and>
    (2 ^ 31 \<le> unat e \<longrightarrow> (r, t) = (Ok e, s))"
proof (cases "unat e < 2 ^ 31")
  case True
  have "confined s dst (unat e) s" using dst [OF True] by (simp add: confined_def)
  from ends_loop [OF True this, of 0 "Suc (unat e)" src 16 0 0]
  have "ends s dst (unat e) (\<lambda>_. True) (loopP (Suc (unat e)) (szs_step src dst e) (16, 0, 0, 0) s)" by simp
  then have "ends s dst (unat e) (\<lambda>v. v = e) (thenP (loopP (Suc (unat e)) (szs_step src dst e) (16, 0, 0, 0)) (returnP e) s)"
    by (rule ends_then) (simp add: ends_return)
  then have "ends s dst (unat e) (\<lambda>v. v = e) (decodeSZS src dst s)"
    unfolding decodeSZS_def bindP_Ok [of "szs_expandSize src", OF expandSize_run [OF w]] n .
  then show ?thesis using True
    by (cases "decodeSZS src dst s") (auto simp: ends_def confined_def split: res.splits)
next
  case False
  have "int (2 ^ 31) \<le> int (unat e)" using False by (simp only: of_nat_le_iff not_less)
  then have "2 ^ 31 \<le> uint e" by simp
  then have "sint e < 0" using uint_lt2p [of e] by (simp add: sint_cases msb_uint)
  then have "loopP (Suc (unat e)) (szs_step src dst e) (16, 0, 0, 0) s = (Ok (), s)"
    by (intro loopP_done) (simp add: szs_step_def returnP_run)
  then have "decodeSZS src dst s = (Ok e, s)"
    unfolding decodeSZS_def bindP_Ok [of "szs_expandSize src", OF expandSize_run [OF w]] n [symmetric]
    by (simp add: thenP_def bindP_def returnP_run)
  then show ?thesis by simp
qed

definition sample_file :: memory where
  "sample_file = put_bytes (ram_loc 0x80001000)
     ([0x59, 0x61, 0x7A, 0x30, 0, 0, 0, 4, 0, 0, 0, 0, 0, 0, 0, 0] @ szs_stream 0 [Literal 65, Back 1 3]) empty_memory"

lemma sample_file_frame: "szs_frame sample_file 0x80001000 20 0x80002000 4"
  using empty_memory_ok(1)
  by (simp add: sample_file_def szs_frame_def ram_bytes_def ram_window_def FindExecutableRange_def empty_memory_ok kMem1Size_def)

lemma decode_expands_witness:
  "fst (decodeSZS 0x80001000 0x80002000 sample_file) = Ok 4 \<and>
   snd (decodeSZS 0x80001000 0x80002000 sample_file) = put_bytes (ram_loc 0x80002000) [65, 65, 65, 65] sample_file"
proof -
  have "size_field sample_file 0x80001000 = of_nat 4"
    by (simp add: size_field_def sample_file_def mem_byte_put upt_rec BigEndian_Read32_def)
  moreover have "\<forall>i < length (szs_stream 0 [Literal 65, Back 1 3]).
      mem_byte sample_file 0x80001000 (16 + i) = szs_stream 0 [Literal 65, Back 1 3] ! i"
    by (simp add: sample_file_def mem_byte_put)
  ultimately show ?thesis
    using decode_expands [of sample_file "0x80001000" "[Literal 65, Back 1 3]" "0x80002000" 4 "[]"] sample_file_frame
    by (simp add: written_def numeral_3_eq_3)
qed

lemma decode_confined_witness:
  "fst (decodeSZS 0x80001000 0x80002000 sample_file) \<noteq> Throw OutOfFuel \<and>
   Storage (snd (decodeSZS 0x80001000 0x80002000 sample_file)) (fst (ram_loc 0x80002000)) 0x2004 =
   Storage sample_file (fst (ram_loc 0x80002000)) 0x2004"
proof -
  have "size_field sample_file 0x80001000 = 4"
    by (simp add: size_field_def sample_file_def mem_byte_put upt_rec BigEndian_Read32_def)
  moreover have "wii_memory sample_file" "ram_window 0x80001000 8" "ram_bytes sample_file 0x80002000 4"
    using sample_file_frame by (auto simp: szs_frame_def ram_bytes_def ram_window_def)
  ultimately show ?thesis
    using decode_confined [of sample_file "0x80001000" 4 "0x80002000"]
    by (cases "decodeSZS 0x80001000 0x80002000 sample_file") (auto simp: ram_loc_def kMem1Size_def)
qed

end
