(* ===== verification/Text_Lines.thy ===== *)
theory Text_Lines
  imports Prelude
begin

text \<open>
  The library functions on text that several components use: decimal numbers and lines.
\<close>

text \<open>\<open>std::to_string\<close> of an integer.\<close>

fun to_string :: "nat \<Rightarrow> string" where
  "to_string n = (if n < 10 then [char_of (48 + n)] else to_string (n div 10) @ [char_of (48 + n mod 10)])"

declare to_string.simps [simp del]

definition int_string :: "int \<Rightarrow> string" where
  "int_string i = (if i < 0 then CHR ''-'' # to_string (nat (- i)) else to_string (nat i))"

text \<open>The pieces of a text between separators; a separator at the end has no piece after it.\<close>

function split_on :: "char \<Rightarrow> string \<Rightarrow> string list" where
  "split_on sep [] = []"
| "split_on sep (c # cs) = takeWhile (\<lambda>d. d \<noteq> sep) (c # cs) # split_on sep (tl (dropWhile (\<lambda>d. d \<noteq> sep) (c # cs)))"
  by pat_completeness auto
termination
proof (relation "measure (length \<circ> snd)")
  fix sep c and cs :: string
  have "length (dropWhile (\<lambda>d. d \<noteq> sep) (c # cs)) \<le> length (c # cs)" by (rule length_dropWhile_le)
  then show "((sep, tl (dropWhile (\<lambda>d. d \<noteq> sep) (c # cs))), (sep, c # cs)) \<in> measure (length \<circ> snd)"
    by (cases "dropWhile (\<lambda>d. d \<noteq> sep) (c # cs)") auto
qed simp

text \<open>The lines that \<open>std::getline\<close> yields.\<close>

definition getlines :: "string \<Rightarrow> string list" where
  "getlines t = split_on CHR 0x0A t"

lemma while_until:
  "c \<notin> set l \<Longrightarrow> takeWhile (\<lambda>d. d \<noteq> c) (l @ c # t) = l"
  "c \<notin> set l \<Longrightarrow> dropWhile (\<lambda>d. d \<noteq> c) (l @ c # t) = c # t"
  by (induction l) auto

lemma split_on_piece: "sep \<notin> set l \<Longrightarrow> split_on sep (l @ sep # t) = l # split_on sep t"
  by (cases l) (auto simp: while_until)

lemma split_on_last: "sep \<notin> set l \<Longrightarrow> l \<noteq> [] \<Longrightarrow> split_on sep l = [l]"
proof (cases l)
  case (Cons c cs)
  assume "sep \<notin> set l"
  then have "takeWhile (\<lambda>d. d \<noteq> sep) (c # cs) = c # cs" "dropWhile (\<lambda>d. d \<noteq> sep) (c # cs) = []"
    unfolding takeWhile_eq_all_conv dropWhile_eq_Nil_conv Cons by auto
  then show ?thesis unfolding Cons split_on.simps by simp
qed simp

lemma getlines_line: "CHR 0x0A \<notin> set l \<Longrightarrow> getlines (l @ CHR 0x0A # t) = l # getlines t"
  by (simp add: getlines_def split_on_piece)

section \<open>Characters and bytes\<close>

definition char_byte :: "char \<Rightarrow> u8" where
  "char_byte c = of_nat (of_char c)"

definition byte_char :: "u8 \<Rightarrow> char" where
  "byte_char b = char_of (unat b)"

lemma char_byte_nat: "unat (char_byte c) = of_char c"
proof -
  have "of_char c < (256 :: nat)" by (rule nat_of_char_less_256)
  then show ?thesis by (simp add: char_byte_def unat_of_nat)
qed

lemma byte_char_byte [simp]: "byte_char (char_byte c) = c"
  by (simp add: byte_char_def char_byte_nat)

lemma char_byte_zero: "char_byte c = 0 \<longleftrightarrow> c = CHR 0x00"
proof
  assume "char_byte c = 0"
  then have "of_char c = (0 :: nat)" using char_byte_nat [of c] by simp
  then have "char_of (of_char c :: nat) = CHR 0x00" by (simp add: char_of_def)
  then show "c = CHR 0x00" by simp
qed (simp add: char_byte_def)

text \<open>\<open>std::tolower\<close> in the C locale.\<close>

definition tolower :: "char \<Rightarrow> char" where
  "tolower c = (if 65 \<le> (of_char c :: nat) \<and> (of_char c :: nat) \<le> 90 then char_of (of_char c + 32 :: nat) else c)"

definition Lowercase :: "string \<Rightarrow> string" where
  "Lowercase s = map tolower s"

end
