(* ===== verification/Input_Expr.thy ===== *)
theory Input_Expr
  imports Text_Lines
begin

text \<open>
  The input expressions of \<open>runtime/src/input_expr.cpp\<close>: lexer and parser.  \<open>double\<close> is a type
  parameter; the record \<open>dbl\<close> holds the operations of the language and of its library on it.  A constant
  of the source is the conversion of its digits.

  A position in the text is the text that is left.  \<open>Token::text\<close> is read for four token types only, so the
  other constructors have no text.  The recursive descent has fuel, which one call costs one unit of;
  \<open>NoFuel\<close> is the model's mark that it ran out.
\<close>

record 'r dbl =
  strtod :: "string \<Rightarrow> 'r"
  fadd :: "'r \<Rightarrow> 'r \<Rightarrow> 'r"
  fsub :: "'r \<Rightarrow> 'r \<Rightarrow> 'r"
  fmul :: "'r \<Rightarrow> 'r \<Rightarrow> 'r"
  fdiv :: "'r \<Rightarrow> 'r \<Rightarrow> 'r"
  flt :: "'r \<Rightarrow> 'r \<Rightarrow> bool"
  feq :: "'r \<Rightarrow> 'r \<Rightarrow> bool"
  fabs :: "'r \<Rightarrow> 'r"
  fsqrt :: "'r \<Rightarrow> 'r"
  fpow :: "'r \<Rightarrow> 'r \<Rightarrow> 'r"
  fsin :: "'r \<Rightarrow> 'r"
  fcos :: "'r \<Rightarrow> 'r"
  ftan :: "'r \<Rightarrow> 'r"
  ffloor :: "'r \<Rightarrow> 'r"
  fcopysign :: "'r \<Rightarrow> 'r \<Rightarrow> 'r"
  fisfinite :: "'r \<Rightarrow> bool"
  fseconds :: "int \<Rightarrow> 'r"
  fticks :: "'r \<Rightarrow> int"
  funsigned :: "'r \<Rightarrow> u32"

section \<open>Nodes\<close>

datatype Kind =
    Literal | Input | Not | Add | Sub | Mul | Div | And | Or | Xor
  | Greater | Less | Equal
  | FnIf | FnMin | FnMax | FnClamp | FnAbs | FnSqrt | FnPow | FnSin | FnCos | FnTan
  | FnDeadzone | FnTimer | FnToggle | FnHold | FnTap | FnPulse | FnSmooth | FnNot

text \<open>The state of the stateful functions; \<open>mark\<close> counts clock ticks.\<close>

record 'r node_state =
  released :: bool
  state :: bool
  taps :: u32
  val :: 'r
  mark :: int
  marked :: bool

datatype 'r node = Node (kind: Kind) (literal: 'r) (inp: string) (args: "'r node list") (nstate: "'r node_state")

text \<open>A new node; its mark is overwritten before it is read.\<close>

definition new_state :: "'r dbl \<Rightarrow> 'r node_state" where
  "new_state D = \<lparr>released = False, state = False, taps = 0, val = strtod D ''0.0'', mark = 0, marked = False\<rparr>"

definition literal_node :: "'r dbl \<Rightarrow> 'r \<Rightarrow> 'r node" where
  "literal_node D x = Node Literal x '''' [] (new_state D)"

definition input_node :: "'r dbl \<Rightarrow> string \<Rightarrow> 'r node" where
  "input_node D name = Node Input (strtod D ''0.0'') name [] (new_state D)"

definition op_node :: "'r dbl \<Rightarrow> Kind \<Rightarrow> 'r node list \<Rightarrow> 'r node" where
  "op_node D k ns = Node k (strtod D ''0.0'') '''' ns (new_state D)"

definition FunctionTable :: "string \<Rightarrow> (Kind \<times> nat \<times> nat) option" where
  "FunctionTable = map_of [
     (''not'', (FnNot, 1, 1)), (''if'', (FnIf, 3, 3)),
     (''min'', (FnMin, 2, 2)), (''max'', (FnMax, 2, 2)),
     (''clamp'', (FnClamp, 3, 3)), (''abs'', (FnAbs, 1, 1)),
     (''sqrt'', (FnSqrt, 1, 1)), (''pow'', (FnPow, 2, 2)),
     (''sin'', (FnSin, 1, 1)), (''cos'', (FnCos, 1, 1)),
     (''tan'', (FnTan, 1, 1)), (''deadzone'', (FnDeadzone, 2, 2)),
     (''timer'', (FnTimer, 1, 1)), (''toggle'', (FnToggle, 1, 2)),
     (''hold'', (FnHold, 2, 2)), (''tap'', (FnTap, 2, 3)),
     (''pulse'', (FnPulse, 2, 2)), (''smooth'', (FnSmooth, 2, 3))]"

section \<open>Tokenizer\<close>

datatype token = End | Quoted string | Number string | Ident string | Op char | LParen | RParen | Comma

text \<open>The character classes of the C locale.\<close>

definition char_code :: "char \<Rightarrow> nat" where
  "char_code c = of_char c"

definition isspace :: "char \<Rightarrow> bool" where
  "isspace c \<longleftrightarrow> char_code c = 32 \<or> 9 \<le> char_code c \<and> char_code c \<le> 13"

definition isdigit :: "char \<Rightarrow> bool" where
  "isdigit c \<longleftrightarrow> 48 \<le> char_code c \<and> char_code c \<le> 57"

definition isalpha :: "char \<Rightarrow> bool" where
  "isalpha c \<longleftrightarrow> 65 \<le> char_code c \<and> char_code c \<le> 90 \<or> 97 \<le> char_code c \<and> char_code c \<le> 122"

definition isalnum :: "char \<Rightarrow> bool" where
  "isalnum c \<longleftrightarrow> isalpha c \<or> isdigit c"

definition number_char :: "char \<Rightarrow> bool" where
  "number_char c \<longleftrightarrow> isdigit c \<or> c = CHR ''.''"

definition ident_char :: "char \<Rightarrow> bool" where
  "ident_char c \<longleftrightarrow> isalnum c \<or> c = CHR ''_'' \<or> c = CHR '' ''"

text \<open>The token, or the error, and the text that is left.\<close>

definition lex_quoted :: "string \<Rightarrow> (string + token) \<times> string" where
  "lex_quoted t = (let name = takeWhile (\<lambda>d. d \<noteq> CHR 0x60) (tl t)
     in if length name = length (tl t) then (Inl (''unterminated '' @ [CHR 0x60] @ '' in expression''), t)
        else (Inr (Quoted name), drop (Suc (length name)) (tl t)))"

definition lex_number :: "string \<Rightarrow> (string + token) \<times> string" where
  "lex_number t = (Inr (Number (takeWhile number_char t)), dropWhile number_char t)"

definition lex_ident :: "string \<Rightarrow> (string + token) \<times> string" where
  "lex_ident t = (let name = rev (dropWhile (\<lambda>c. c = CHR '' '') (rev (takeWhile ident_char t)))
     in (Inr (Ident name), drop (length name) t))"

definition lex_symbol :: "char \<Rightarrow> string \<Rightarrow> (string + token) \<times> string" where
  "lex_symbol c t =
     (if c = CHR ''('' then (Inr LParen, tl t)
      else if c = CHR '')'' then (Inr RParen, tl t)
      else if c = CHR '','' then (Inr Comma, tl t)
      else if c \<in> set ''!&|^+-*/><='' then (Inr (Op c), tl t)
      else (Inl (''unexpected character '' @ [CHR 0x27] @ [c] @ [CHR 0x27] @ '' in expression''), t))"

definition Next :: "string \<Rightarrow> (string + token) \<times> string" where
  "Next text = (let t = dropWhile isspace text in
     case t of [] \<Rightarrow> (Inr End, [])
     | c # cs \<Rightarrow>
         if c = CHR 0x60 then lex_quoted t
         else if number_char c then lex_number t
         else if isalpha c \<or> c = CHR ''_'' then lex_ident t
         else lex_symbol c t)"

section \<open>Parser\<close>

record parser =
  m_lexer :: string
  m_tok :: token
  m_lexError :: string
  m_failed :: bool

definition Advance :: "parser \<Rightarrow> parser" where
  "Advance p = (case Next (m_lexer p) of
     (Inr t, rest) \<Rightarrow> p\<lparr>m_lexer := rest, m_tok := t\<rparr>
   | (Inl e, rest) \<Rightarrow> p\<lparr>m_lexer := rest, m_tok := End, m_lexError := e, m_failed := True\<rparr>)"

definition new_parser :: "string \<Rightarrow> parser" where
  "new_parser text = Advance \<lparr>m_lexer = text, m_tok = End, m_lexError = '''', m_failed = False\<rparr>"

definition Precedence :: "char \<Rightarrow> int" where
  "Precedence op =
     (if op = CHR ''|'' then 1
      else if op = CHR ''^'' then 2
      else if op = CHR ''&'' then 3
      else if op = CHR ''>'' \<or> op = CHR ''<'' \<or> op = CHR ''='' then 4
      else if op = CHR ''+'' \<or> op = CHR ''-'' then 5
      else if op = CHR ''*'' \<or> op = CHR ''/'' then 6
      else - 1)"

definition BinaryKind :: "char \<Rightarrow> Kind" where
  "BinaryKind op =
     (if op = CHR ''|'' then Or
      else if op = CHR ''^'' then Xor
      else if op = CHR ''&'' then And
      else if op = CHR ''>'' then Greater
      else if op = CHR ''<'' then Less
      else if op = CHR ''='' then Equal
      else if op = CHR ''+'' then Add
      else if op = CHR ''-'' then Sub
      else if op = CHR ''*'' then Mul
      else Div)"

text \<open>The node that a prefix operator makes of its operand.\<close>

definition unary_node :: "'r dbl \<Rightarrow> char \<Rightarrow> 'r node \<Rightarrow> 'r node" where
  "unary_node D op inner =
     (if op = CHR ''+'' then inner
      else if op = CHR ''!'' then op_node D Not [inner]
      else op_node D Sub [literal_node D (strtod D ''0.0''), inner])"

text \<open>The text of an operator token.\<close>

fun tok_op :: "token \<Rightarrow> char option" where
  "tok_op (Op op) = Some op"
| "tok_op _ = None"

definition prefix_op :: "token \<Rightarrow> char option" where
  "prefix_op t = (case tok_op t of
     Some op \<Rightarrow> if op = CHR ''!'' \<or> op = CHR ''-'' \<or> op = CHR ''+'' then Some op else None
   | None \<Rightarrow> None)"

datatype 'a outcome = Parsed 'a parser | Refused string | NoFuel

fun then_parse :: "'a outcome \<Rightarrow> ('a \<Rightarrow> parser \<Rightarrow> 'b outcome) \<Rightarrow> 'b outcome" where
  "then_parse (Parsed a p) f = f a p"
| "then_parse (Refused e) f = Refused e"
| "then_parse NoFuel f = NoFuel"

definition close_paren :: "string \<Rightarrow> 'a \<Rightarrow> parser \<Rightarrow> 'a outcome" where
  "close_paren msg x p = (if m_tok p \<noteq> RParen then Refused msg else Parsed x (Advance p))"

definition check_arity :: "'r dbl \<Rightarrow> string \<Rightarrow> Kind \<Rightarrow> nat \<Rightarrow> nat \<Rightarrow> 'r node list \<Rightarrow> parser \<Rightarrow> 'r node outcome" where
  "check_arity D name k minArgs maxArgs ns p =
     (if length ns < minArgs \<or> length ns > maxArgs
      then Refused (name @ '' takes '' @ to_string minArgs @ '' to '' @ to_string maxArgs @ '' arguments'')
      else Parsed (op_node D k ns) p)"

text \<open>The end of a call, after its arguments.\<close>

definition finish_call :: "'r dbl \<Rightarrow> string \<Rightarrow> Kind \<Rightarrow> nat \<Rightarrow> nat \<Rightarrow> 'r node list outcome \<Rightarrow> 'r node outcome" where
  "finish_call D name k minArgs maxArgs m =
     then_parse (then_parse m (close_paren (''expected closing paren after '' @ name @ '' arguments'')))
       (check_arity D name k minArgs maxArgs)"

fun ParseBinary :: "'r dbl \<Rightarrow> nat \<Rightarrow> int \<Rightarrow> parser \<Rightarrow> 'r node outcome"
  and binary_loop :: "'r dbl \<Rightarrow> nat \<Rightarrow> int \<Rightarrow> 'r node \<Rightarrow> parser \<Rightarrow> 'r node outcome"
  and ParseUnary :: "'r dbl \<Rightarrow> nat \<Rightarrow> parser \<Rightarrow> 'r node outcome"
  and ParsePrimary :: "'r dbl \<Rightarrow> nat \<Rightarrow> parser \<Rightarrow> 'r node outcome"
  and parse_args :: "'r dbl \<Rightarrow> nat \<Rightarrow> 'r node list \<Rightarrow> parser \<Rightarrow> 'r node list outcome" where
  "ParseBinary D 0 minPrec p = NoFuel"
| "ParseBinary D (Suc n) minPrec p = then_parse (ParseUnary D n p) (\<lambda>lhs p. binary_loop D n minPrec lhs p)"
| "binary_loop D 0 minPrec lhs p = NoFuel"
| "binary_loop D (Suc n) minPrec lhs p =
     (case tok_op (m_tok p) of
        None \<Rightarrow> Parsed lhs p
      | Some op \<Rightarrow>
          if Precedence op < 0 \<or> Precedence op < minPrec then Parsed lhs p
          else then_parse (ParseBinary D n (Precedence op + 1) (Advance p))
            (\<lambda>rhs p. binary_loop D n minPrec (op_node D (BinaryKind op) [lhs, rhs]) p))"
| "ParseUnary D 0 p = NoFuel"
| "ParseUnary D (Suc n) p =
     (if m_failed p then Refused (m_lexError p)
      else case prefix_op (m_tok p) of
        Some op \<Rightarrow> then_parse (ParseUnary D n (Advance p)) (\<lambda>inner p. Parsed (unary_node D op inner) p)
      | None \<Rightarrow> ParsePrimary D n p)"
| "ParsePrimary D 0 p = NoFuel"
| "ParsePrimary D (Suc n) p =
     (if m_failed p then Refused (m_lexError p)
      else case m_tok p of
        Quoted name \<Rightarrow> Parsed (input_node D name) (Advance p)
      | Number digits \<Rightarrow> Parsed (literal_node D (strtod D digits)) (Advance p)
      | LParen \<Rightarrow> then_parse (ParseBinary D n 0 (Advance p)) (close_paren ''expected closing paren'')
      | Ident name \<Rightarrow>
          (let p1 = Advance p in
           if m_tok p1 \<noteq> LParen then Parsed (input_node D name) p1
           else case FunctionTable name of
             None \<Rightarrow> Refused (''unknown function '' @ [CHR 0x27] @ name @ [CHR 0x27])
           | Some (k, minArgs, maxArgs) \<Rightarrow>
               (let p2 = Advance p1 in
                finish_call D name k minArgs maxArgs
                  (if m_tok p2 \<noteq> RParen then parse_args D n [] p2 else Parsed [] p2)))
      | _ \<Rightarrow> Refused ''expected start of expression'')"
| "parse_args D 0 ns p = NoFuel"
| "parse_args D (Suc n) ns p =
     then_parse (ParseBinary D n 0 p) (\<lambda>arg p.
       if m_tok p \<noteq> Comma then Parsed (ns @ [arg]) p else parse_args D n (ns @ [arg]) (Advance p))"

definition ParseExpression :: "'r dbl \<Rightarrow> nat \<Rightarrow> parser \<Rightarrow> 'r node outcome" where
  "ParseExpression D n p = then_parse (ParseBinary D n 0 p) (\<lambda>node p.
     if m_failed p then Refused (m_lexError p)
     else if m_tok p \<noteq> End then Refused ''unexpected trailing input in expression''
     else Parsed node p)"

definition trim_char :: "char \<Rightarrow> bool" where
  "trim_char c \<longleftrightarrow> c \<in> {CHR '' '', CHR 0x09, CHR 0x0D, CHR 0x0A}"

definition Trim :: "string \<Rightarrow> string" where
  "Trim text = rev (dropWhile trim_char (rev (dropWhile trim_char text)))"

text \<open>The fuel of the parser: five nested calls for each character.\<close>

definition parse_fuel :: "string \<Rightarrow> nat" where
  "parse_fuel text = 5 * length text + 10"

text \<open>\<open>Expression::Parse\<close>: the root, none for a blank text, or the error.\<close>

definition Parse :: "'r dbl \<Rightarrow> string \<Rightarrow> 'r node option outcome" where
  "Parse D text =
     (if Trim text = [] then Parsed None (new_parser text)
      else then_parse (ParseExpression D (parse_fuel text) (new_parser text)) (\<lambda>root p. Parsed (Some root) p))"

end
