(* ===== verification/Input_Parser_Laws.thy ===== *)
theory Input_Parser_Laws
  imports Input_Expr
begin

text \<open>
  The parser of input expressions against a grammar.  The lexer consumes, so five calls for each character are
  enough fuel; more fuel changes nothing; every expression of the grammar is accepted with its tree, and every
  text that is accepted is one.
\<close>

section \<open>The lexer consumes\<close>

lemma drop_smaller: "xs \<noteq> [] \<Longrightarrow> n > 0 \<Longrightarrow> length (drop n xs) < length xs"
  by (cases xs) auto

lemma lex_ident_smaller:
  assumes "isalpha c \<or> c = CHR ''_''"
  shows "length (snd (lex_ident (c # cs))) < length (c # cs)"
proof -
  have c: "ident_char c" "c \<noteq> CHR '' ''" using assms
    by (auto simp: ident_char_def isalnum_def isalpha_def char_code_def)
  have "c \<in> set (rev (takeWhile ident_char (c # cs)))" using c by simp
  then have "dropWhile (\<lambda>c. c = CHR '' '') (rev (takeWhile ident_char (c # cs))) \<noteq> []"
    using c(2) unfolding dropWhile_eq_Nil_conv by blast
  then have "0 < length (rev (dropWhile (\<lambda>c. c = CHR '' '') (rev (takeWhile ident_char (c # cs)))))"
    unfolding length_rev length_greater_0_conv .
  then show ?thesis unfolding lex_ident_def Let_def snd_conv by (rule drop_smaller [OF list.distinct(2)])
qed

lemma Next_smaller:
  "Next t = (r, rest) \<Longrightarrow> r \<noteq> Inr End \<Longrightarrow> (\<forall>e. r \<noteq> Inl e) \<Longrightarrow> length rest < length t"
proof -
  assume n: "Next t = (r, rest)" and r: "r \<noteq> Inr End" "\<forall>e. r \<noteq> Inl e"
  have le: "length (dropWhile isspace t) \<le> length t" by (rule length_dropWhile_le)
  show ?thesis
  proof (cases "dropWhile isspace t")
    case (Cons c cs)
    have num: "length (dropWhile number_char (c # cs)) < length (c # cs)" if "number_char c"
      using that length_dropWhile_le [of number_char cs] by simp
    show ?thesis using n r Cons le num lex_ident_smaller [of c cs]
      by (auto simp: Next_def Let_def lex_quoted_def lex_number_def lex_symbol_def split: if_splits)
  next
    case Nil
    then show ?thesis using n r unfolding Next_def Let_def Nil by simp
  qed
qed

definition weight :: "parser \<Rightarrow> nat" where
  "weight p = (if m_tok p = End then 0 else Suc (length (m_lexer p)))"

lemma Advance_weight: "m_tok p \<noteq> End \<Longrightarrow> weight (Advance p) < weight p"
  using Next_smaller [of "m_lexer p"]
  by (cases "Next (m_lexer p)") (auto simp: Advance_def weight_def split: sum.splits)

lemma new_parser_weight: "weight (new_parser t) \<le> length t"
  using Next_smaller [of t]
  by (cases "Next t") (auto simp: new_parser_def Advance_def weight_def split: sum.splits)

fun yields :: "('a \<Rightarrow> parser \<Rightarrow> bool) \<Rightarrow> 'a outcome \<Rightarrow> bool" where
  "yields P (Parsed x p) = P x p"
| "yields P (Refused e) = True"
| "yields P NoFuel = True"

lemma yields_then: "yields P m \<Longrightarrow> (\<And>x p. P x p \<Longrightarrow> yields Q (f x p)) \<Longrightarrow> yields Q (then_parse m f)"
  by (cases m) auto

lemma tok_op_Some: "tok_op t = Some op \<Longrightarrow> t = Op op"
  by (cases t) auto

lemma prefix_op_Some: "prefix_op t = Some op \<Longrightarrow> t = Op op \<and> op \<in> {CHR ''!'', CHR ''-'', CHR ''+''}"
  by (auto simp: prefix_op_def dest!: tok_op_Some split: option.splits if_splits)

lemma yields_close: "weight q < w \<Longrightarrow> yields (\<lambda>x q. weight q < w) (close_paren msg x q)"
  using Advance_weight [of q] by (auto simp: close_paren_def)

lemma yields_finish:
  assumes "yields (\<lambda>x q. weight q < w) m"
  shows "yields (\<lambda>x q. weight q < w) (finish_call D name k mn mx m)"
  unfolding finish_call_def
  by (rule yields_then [where P = "\<lambda>x q. weight q < w", OF yields_then [OF assms]])
    (simp_all only: yields_close check_arity_def, simp)

lemma parser_consumes:
  fixes D :: "'r dbl"
  shows "(\<forall>minPrec p. yields (\<lambda>x q. weight q < weight p) (ParseBinary D n minPrec p)) \<and>
    (\<forall>minPrec lhs p. yields (\<lambda>x q. weight q \<le> weight p) (binary_loop D n minPrec lhs p)) \<and>
    (\<forall>p. yields (\<lambda>x q. weight q < weight p) (ParseUnary D n p)) \<and>
    (\<forall>p. yields (\<lambda>x q. weight q < weight p) (ParsePrimary D n p)) \<and>
    (\<forall>ns p. yields (\<lambda>x q. weight q < weight p) (parse_args D n ns p))"
proof (induction n)
  case (Suc n)
  then have B: "yields (\<lambda>x q. weight q < weight p) (ParseBinary D n minPrec p)"
    and L: "yields (\<lambda>x q. weight q \<le> weight p) (binary_loop D n minPrec lhs p)"
    and U: "yields (\<lambda>x q. weight q < weight p) (ParseUnary D n p)"
    and P: "yields (\<lambda>x q. weight q < weight p) (ParsePrimary D n p)"
    and A: "yields (\<lambda>x q. weight q < weight p) (parse_args D n ns p)" for minPrec p lhs ns by blast+
  have adv: "weight (Advance p) < weight p" if "m_tok p = t" "t \<noteq> End" for p t using Advance_weight that by simp
  have weaken: "yields Q m \<Longrightarrow> (\<And>x p. Q x p \<Longrightarrow> R x p) \<Longrightarrow> yields R m" for Q R and m :: "'s outcome" by (cases m) auto
  have "yields (\<lambda>x q. weight q < weight p) (ParseBinary D (Suc n) minPrec p)" for minPrec p
    unfolding ParseBinary.simps by (rule yields_then [OF U], rule weaken [OF L]) simp
  moreover have "yields (\<lambda>x q. weight q \<le> weight p) (binary_loop D (Suc n) minPrec lhs p)" for minPrec lhs p
  proof (cases "tok_op (m_tok p)")
    case (Some op)
    then have "weight (Advance p) < weight p" using adv tok_op_Some by blast
    then show ?thesis using Some
      by (auto intro!: yields_then [OF B] weaken [OF L])
  qed simp
  moreover have "yields (\<lambda>x q. weight q < weight p) (ParseUnary D (Suc n) p)" for p
  proof (cases "prefix_op (m_tok p)")
    case (Some op)
    then have "weight (Advance p) < weight p" using adv prefix_op_Some by blast
    then show ?thesis using Some
      by (auto intro!: yields_then [OF U])
  qed (use P in simp)
  moreover have "yields (\<lambda>x q. weight q < weight p) (ParsePrimary D (Suc n) p)" for p
  proof (cases "m_tok p")
    case (Ident name)
    note lt = adv [OF Ident]
    show ?thesis
    proof (cases "m_tok (Advance p) = LParen")
      case True
      note lt2 = adv [OF True]
      show ?thesis using True Ident lt lt2
        by (auto simp: Let_def split: option.splits intro!: yields_finish weaken [OF A])
    qed (use Ident lt in simp)
  next
    case LParen
    show ?thesis using LParen adv [OF LParen] by (auto intro!: yields_then [OF B] yields_close)
  qed (auto intro: Advance_weight)
  moreover have "yields (\<lambda>x q. weight q < weight p) (parse_args D (Suc n) ns p)" for ns p
    unfolding parse_args.simps
    by (rule yields_then [OF B]) (auto intro!: weaken [OF A] dest: adv)
  ultimately show ?case by blast
qed (simp_all)

text \<open>An outcome that is not a lack of fuel.\<close>

fun enough :: "'a outcome \<Rightarrow> bool" where
  "enough NoFuel = False"
| "enough (Parsed x p) = True"
| "enough (Refused e) = True"

lemma enough_then: "enough m \<Longrightarrow> (\<And>x q. m = Parsed x q \<Longrightarrow> enough (f x q)) \<Longrightarrow> enough (then_parse m f)"
  by (cases m) auto

lemma enough_finish: "enough m \<Longrightarrow> enough (finish_call D name k mn mx m)"
  by (cases m) (auto simp: finish_call_def close_paren_def check_arity_def)

lemma parser_fuel:
  "(\<forall>minPrec p. 5 * weight p + 3 \<le> n \<longrightarrow> enough (ParseBinary D n minPrec p)) \<and>
   (\<forall>minPrec lhs p. 5 * weight p + 1 \<le> n \<longrightarrow> enough (binary_loop D n minPrec lhs p)) \<and>
   (\<forall>p. 5 * weight p + 2 \<le> n \<longrightarrow> enough (ParseUnary D n p)) \<and>
   (\<forall>p. 5 * weight p + 1 \<le> n \<longrightarrow> enough (ParsePrimary D n p)) \<and>
   (\<forall>ns p. 5 * weight p + 4 \<le> n \<longrightarrow> enough (parse_args D n ns p))"
proof (induction n)
  case (Suc n)
  then have B: "5 * weight p + 3 \<le> n \<Longrightarrow> enough (ParseBinary D n minPrec p)"
    and L: "5 * weight p + 1 \<le> n \<Longrightarrow> enough (binary_loop D n minPrec lhs p)"
    and U: "5 * weight p + 2 \<le> n \<Longrightarrow> enough (ParseUnary D n p)"
    and P: "5 * weight p + 1 \<le> n \<Longrightarrow> enough (ParsePrimary D n p)"
    and A: "5 * weight p + 4 \<le> n \<Longrightarrow> enough (parse_args D n ns p)" for minPrec p lhs ns by blast+
  have adv: "weight (Advance p) < weight p" if "m_tok p = t" "t \<noteq> End" for p t using Advance_weight that by simp
  have cB: "ParseBinary D n minPrec p = Parsed x q \<Longrightarrow> weight q < weight p"
    and cU: "ParseUnary D n p = Parsed x q \<Longrightarrow> weight q < weight p" for minPrec p x q
    using parser_consumes [of D n] by (metis yields.simps(1))+
  have comma: "m_tok q = Comma \<Longrightarrow> weight q < weight p \<Longrightarrow> 3 + 5 * weight p \<le> n \<Longrightarrow> 5 * weight (Advance q) + 4 \<le> n" for p q
    using adv [of q Comma] by simp
  have "5 * weight p + 3 \<le> Suc n \<Longrightarrow> enough (ParseBinary D (Suc n) minPrec p)" for minPrec p
    unfolding ParseBinary.simps by (rule enough_then) (auto dest!: cU simp: U L)
  moreover have "5 * weight p + 1 \<le> Suc n \<Longrightarrow> enough (binary_loop D (Suc n) minPrec lhs p)" for minPrec lhs p
  proof (cases "tok_op (m_tok p)")
    case (Some op)
    assume "5 * weight p + 1 \<le> Suc n"
    moreover have "weight (Advance p) < weight p" using adv tok_op_Some [OF Some] by blast
    ultimately show ?thesis using Some by (auto intro!: enough_then B L dest: cB)
  qed simp
  moreover have "5 * weight p + 2 \<le> Suc n \<Longrightarrow> enough (ParseUnary D (Suc n) p)" for p
  proof (cases "prefix_op (m_tok p)")
    case (Some op)
    assume "5 * weight p + 2 \<le> Suc n"
    moreover have "weight (Advance p) < weight p" using adv prefix_op_Some [OF Some] by blast
    ultimately show ?thesis using Some by (auto intro!: enough_then U)
  qed (use P in simp)
  moreover have "5 * weight p + 1 \<le> Suc n \<Longrightarrow> enough (ParsePrimary D (Suc n) p)" for p
  proof (cases "m_tok p")
    case (Ident name)
    assume "5 * weight p + 1 \<le> Suc n"
    then show ?thesis using Ident adv [OF Ident] adv [of "Advance p" LParen]
      by (auto simp: Let_def intro!: enough_finish A split: option.splits)
  next
    case LParen
    assume "5 * weight p + 1 \<le> Suc n"
    then show ?thesis using LParen adv [OF LParen] by (auto simp: close_paren_def intro!: enough_then B)
  qed simp_all
  moreover have "5 * weight p + 4 \<le> Suc n \<Longrightarrow> enough (parse_args D (Suc n) ns p)" for ns p
    using comma by (auto intro!: enough_then A B dest!: cB)
  ultimately show ?case by blast
qed simp

section \<open>More fuel\<close>

definition upto_fuel :: "'a outcome \<Rightarrow> 'a outcome \<Rightarrow> bool" where
  "upto_fuel m m' \<longleftrightarrow> enough m \<longrightarrow> m' = m"

lemma upto_refl [simp]: "upto_fuel m m" "upto_fuel NoFuel m"
  by (auto simp: upto_fuel_def)

lemma upto_then: "upto_fuel m m' \<Longrightarrow> (\<And>x q. upto_fuel (f x q) (f' x q)) \<Longrightarrow> upto_fuel (then_parse m f) (then_parse m' f')"
  by (cases m) (auto simp: upto_fuel_def)

lemma upto_finish: "upto_fuel m m' \<Longrightarrow> upto_fuel (finish_call D name k mn mx m) (finish_call D name k mn mx m')"
  unfolding finish_call_def by (intro upto_then) simp_all

lemma parser_more_fuel:
  "(\<forall>minPrec p. upto_fuel (ParseBinary D n minPrec p) (ParseBinary D (Suc n) minPrec p)) \<and>
   (\<forall>minPrec lhs p. upto_fuel (binary_loop D n minPrec lhs p) (binary_loop D (Suc n) minPrec lhs p)) \<and>
   (\<forall>p. upto_fuel (ParseUnary D n p) (ParseUnary D (Suc n) p)) \<and>
   (\<forall>p. upto_fuel (ParsePrimary D n p) (ParsePrimary D (Suc n) p)) \<and>
   (\<forall>ns p. upto_fuel (parse_args D n ns p) (parse_args D (Suc n) ns p))"
proof (induction n)
  case (Suc n)
  define m where "m = Suc n"
  from Suc have B: "upto_fuel (ParseBinary D n minPrec p) (ParseBinary D m minPrec p)"
    and L: "upto_fuel (binary_loop D n minPrec lhs p) (binary_loop D m minPrec lhs p)"
    and U: "upto_fuel (ParseUnary D n p) (ParseUnary D m p)"
    and P: "upto_fuel (ParsePrimary D n p) (ParsePrimary D m p)"
    and A: "upto_fuel (parse_args D n ns p) (parse_args D m ns p)" for minPrec p lhs ns
    unfolding m_def by blast+
  have "upto_fuel (ParseBinary D (Suc n) minPrec p) (ParseBinary D (Suc m) minPrec p)" for minPrec p
    unfolding ParseBinary.simps(2) by (intro upto_then U L)
  moreover have "upto_fuel (binary_loop D (Suc n) minPrec lhs p) (binary_loop D (Suc m) minPrec lhs p)" for minPrec lhs p
    unfolding binary_loop.simps(2) by (auto split: option.splits intro!: upto_then B L)
  moreover have "upto_fuel (ParseUnary D (Suc n) p) (ParseUnary D (Suc m) p)" for p
    unfolding ParseUnary.simps(2) by (auto split: option.splits intro!: upto_then U P)
  moreover have "upto_fuel (ParsePrimary D (Suc n) p) (ParsePrimary D (Suc m) p)" for p
    unfolding ParsePrimary.simps(2) Let_def
    by (auto split: option.splits token.splits intro!: upto_then upto_finish B A)
  moreover have "upto_fuel (parse_args D (Suc n) ns p) (parse_args D (Suc m) ns p)" for ns p
    unfolding parse_args.simps(2) by (auto intro!: upto_then B A)
  ultimately show ?case unfolding m_def by blast
qed simp

text \<open>The outcome of all large fuels.\<close>

definition settles :: "(nat \<Rightarrow> 'a outcome) \<Rightarrow> 'a outcome \<Rightarrow> bool" where
  "settles f r \<longleftrightarrow> (\<exists>N. \<forall>n \<ge> N. f n = r)"

lemma settles_Suc: "settles (\<lambda>n. f (Suc n)) r \<Longrightarrow> settles f r"
  unfolding settles_def by (metis Suc_le_D Suc_le_mono)

lemma settles_const [simp]: "settles (\<lambda>n. r) r"
  by (simp add: settles_def)

lemma settles_then: "settles f (Parsed x q) \<Longrightarrow> settles (\<lambda>n. g n x q) r \<Longrightarrow> settles (\<lambda>n. then_parse (f n) (g n)) r"
  unfolding settles_def
proof (elim exE)
  fix M N assume "\<forall>n\<ge>M. f n = Parsed x q" "\<forall>n\<ge>N. g n x q = r"
  then have "\<forall>n \<ge> max M N. then_parse (f n) (g n) = r" by simp
  then show "\<exists>N. \<forall>n\<ge>N. then_parse (f n) (g n) = r" ..
qed

lemma settled_at:
  assumes "settles (\<lambda>n. ParseBinary D n m p) r" "enough (ParseBinary D n m p)"
  shows "ParseBinary D n m p = r"
proof -
  have up: "ParseBinary D (n + k) m p = ParseBinary D n m p" for k
  proof (induction k)
    case (Suc k)
    then show ?case using parser_more_fuel [of D "n + k"] assms(2) by (auto simp: upto_fuel_def)
  qed simp
  obtain N where "\<forall>n \<ge> N. ParseBinary D n m p = r" using assms(1) by (auto simp: settles_def)
  then show ?thesis using up [of N] by simp
qed

section \<open>The grammar\<close>

datatype syn =
    SNumber string | SQuoted string | SName string | SParen syn | SUnary char syn
  | SBinary syn char syn | SCall string "syn list"

fun commas :: "token list list \<Rightarrow> token list" where
  "commas [] = []"
| "commas [ts] = ts"
| "commas (ts # us # tss) = ts @ Comma # commas (us # tss)"

fun tokens :: "syn \<Rightarrow> token list" where
  "tokens (SNumber s) = [Number s]"
| "tokens (SQuoted s) = [Quoted s]"
| "tokens (SName s) = [Ident s]"
| "tokens (SParen e) = LParen # tokens e @ [RParen]"
| "tokens (SUnary c e) = Op c # tokens e"
| "tokens (SBinary l c r) = tokens l @ Op c # tokens r"
| "tokens (SCall f es) = Ident f # LParen # commas (map tokens es) @ [RParen]"

fun level :: "syn \<Rightarrow> int" where
  "level (SBinary l c r) = Precedence c"
| "level e = 7"

fun grammatical :: "syn \<Rightarrow> bool" where
  "grammatical (SNumber s) = True"
| "grammatical (SQuoted s) = True"
| "grammatical (SName s) = True"
| "grammatical (SParen e) = grammatical e"
| "grammatical (SUnary c e) \<longleftrightarrow> c \<in> {CHR ''!'', CHR ''-'', CHR ''+''} \<and> grammatical e \<and> level e = 7"
| "grammatical (SBinary l c r) \<longleftrightarrow> 0 < Precedence c \<and> grammatical l \<and> grammatical r \<and>
     Precedence c \<le> level l \<and> Precedence c < level r"
| "grammatical (SCall f es) \<longleftrightarrow> list_all grammatical es \<and>
     (case FunctionTable f of None \<Rightarrow> False | Some (k, mn, mx) \<Rightarrow> mn \<le> length es \<and> length es \<le> mx)"

fun denote :: "'r dbl \<Rightarrow> syn \<Rightarrow> 'r node" where
  "denote D (SNumber s) = literal_node D (strtod D s)"
| "denote D (SQuoted s) = input_node D s"
| "denote D (SName s) = input_node D s"
| "denote D (SParen e) = denote D e"
| "denote D (SUnary c e) = unary_node D c (denote D e)"
| "denote D (SBinary l c r) = op_node D (BinaryKind c) [denote D l, denote D r]"
| "denote D (SCall f es) = op_node D (fst (the (FunctionTable f))) (map (denote D) es)"

fun leads :: "parser \<Rightarrow> token list \<Rightarrow> parser \<Rightarrow> bool" where
  "leads p [] q \<longleftrightarrow> p = q"
| "leads p (t # ts) q \<longleftrightarrow> m_tok p = t \<and> t \<noteq> End \<and> leads (Advance p) ts q"

lemma leads_append: "leads p (ts @ us) q \<longleftrightarrow> (\<exists>p'. leads p ts p' \<and> leads p' us q)"
  by (induction ts arbitrary: p) auto

lemma not_failed: "leads p ts q \<Longrightarrow> \<not> m_failed q \<Longrightarrow> \<not> m_failed p"
  by (induction ts arbitrary: p) (fastforce simp: Advance_def split: prod.splits sum.splits)+

lemma Precedence_le: "Precedence c \<le> 6"
  by (simp add: Precedence_def)

lemma level_le: "level e \<le> 7"
  using Precedence_le by (cases e) (auto intro: order_trans [OF Precedence_le])

section \<open>Every grammatical expression is accepted\<close>

lemma settles_step: "(\<And>n. f (Suc n) = r) \<Longrightarrow> settles f r"
  by (rule settles_Suc) simp

lemma Advance_failed: "\<not> m_failed (Advance p) \<Longrightarrow> \<not> m_failed p"
  by (auto simp: Advance_def split: prod.splits sum.splits)

lemma unary_of_primary:
  assumes "settles (\<lambda>n. ParsePrimary D n p) r" "prefix_op (m_tok p) = None" "\<not> m_failed p"
  shows "settles (\<lambda>n. ParseUnary D n p) r"
  by (rule settles_Suc) (use assms in simp)

lemma binary_of_unary:
  assumes "settles (\<lambda>n. ParseUnary D n p) (Parsed x q)" "settles (\<lambda>n. binary_loop D n m x q) r"
  shows "settles (\<lambda>n. ParseBinary D n m p) r"
  by (rule settles_Suc)
    (use settles_then [where f = "\<lambda>n. ParseUnary D n p" and x = x and q = q and g = "\<lambda>n. binary_loop D n m"] assms in simp)

definition stops :: "int \<Rightarrow> parser \<Rightarrow> bool" where
  "stops m q \<longleftrightarrow> (\<forall>op. m_tok q = Op op \<longrightarrow> Precedence op < m \<or> Precedence op < 0)"

lemma loop_stops: "stops m q \<Longrightarrow> settles (\<lambda>n. binary_loop D n m x q) (Parsed x q)"
  by (rule settles_Suc) (cases "tok_op (m_tok q)", auto simp: stops_def dest: tok_op_Some)

lemma loop_goes:
  assumes "m_tok p = Op c" "m \<le> Precedence c" "0 \<le> Precedence c"
    and "settles (\<lambda>n. ParseBinary D n (Precedence c + 1) (Advance p)) (Parsed y q)"
    and "settles (\<lambda>n. binary_loop D n m (op_node D (BinaryKind c) [x, y]) q) r"
  shows "settles (\<lambda>n. binary_loop D n m x p) r"
  by (rule settles_Suc) (use assms in \<open>simp add: settles_then\<close>)

definition parses_unary :: "'r dbl \<Rightarrow> syn \<Rightarrow> bool" where
  "parses_unary D e \<longleftrightarrow> (\<forall>p q. leads p (tokens e) q \<longrightarrow> \<not> m_failed q \<longrightarrow> m_tok q \<noteq> LParen \<longrightarrow>
     settles (\<lambda>n. ParseUnary D n p) (Parsed (denote D e) q))"

definition parses_binary :: "'r dbl \<Rightarrow> syn \<Rightarrow> bool" where
  "parses_binary D e \<longleftrightarrow> (\<forall>p q m r. leads p (tokens e) q \<longrightarrow> \<not> m_failed q \<longrightarrow> m_tok q \<noteq> LParen \<longrightarrow>
     m \<le> level e \<longrightarrow> stops (level e + 1) q \<longrightarrow>
     settles (\<lambda>n. binary_loop D n m (denote D e) q) r \<longrightarrow> settles (\<lambda>n. ParseBinary D n m p) r)"

lemma parses_binary_stop:
  "parses_binary D e \<Longrightarrow> leads p (tokens e) q \<Longrightarrow> \<not> m_failed q \<Longrightarrow> m_tok q \<noteq> LParen \<Longrightarrow> m \<le> level e \<Longrightarrow> stops m q \<Longrightarrow>
   settles (\<lambda>n. ParseBinary D n m p) (Parsed (denote D e) q)"
  unfolding parses_binary_def using loop_stops [of m q D "denote D e"] by (fastforce simp: stops_def)

lemma parses_binary_of_unary: "parses_unary D e \<Longrightarrow> parses_binary D e"
  unfolding parses_unary_def parses_binary_def by (blast intro: binary_of_unary)

lemma not_op_stops: "m_tok q \<in> {End, RParen, Comma} \<Longrightarrow> stops m q"
  by (auto simp: stops_def)

lemma args_accepted:
  assumes "\<And>e. e \<in> set es \<Longrightarrow> parses_binary D e" "es \<noteq> []" "\<forall>e \<in> set es. 0 \<le> level e"
    and "leads p (commas (map tokens es)) q" "\<not> m_failed q" "m_tok q = RParen"
  shows "settles (\<lambda>n. parse_args D n ns p) (Parsed (ns @ map (denote D) es) q)"
  using assms
proof (induction es arbitrary: ns p)
  case (Cons e es)
  show ?case
  proof (cases es)
    case Nil
    have "settles (\<lambda>n. ParseBinary D n 0 p) (Parsed (denote D e) q)"
      by (rule parses_binary_stop) (use Cons.prems Nil in \<open>auto simp: not_op_stops\<close>)
    then show ?thesis using Nil Cons.prems by (intro settles_Suc [where f = "\<lambda>n. parse_args D n ns p"])
       (simp add: settles_then)
  next
    case (Cons e' es')
    then obtain p' where p': "leads p (tokens e) p'" "m_tok p' = Comma" "leads (Advance p') (commas (map tokens es)) q"
      using Cons.prems(4) by (auto simp: leads_append)
    have nf: "\<not> m_failed p'" using not_failed [of p' "[Comma]" "Advance p'"] not_failed [OF p'(3)] Cons.prems p'(2) by simp
    have "settles (\<lambda>n. ParseBinary D n 0 p) (Parsed (denote D e) p')"
      by (rule parses_binary_stop [OF _ p'(1) nf]) (use Cons.prems p' in \<open>auto simp: not_op_stops\<close>)
    moreover have "settles (\<lambda>n. parse_args D n (ns @ [denote D e]) (Advance p')) (Parsed ((ns @ [denote D e]) @ map (denote D) es) q)"
      by (rule Cons.IH) (use Cons.prems p' Cons in auto)
    ultimately show ?thesis using p'(2) by (intro settles_Suc [where f = "\<lambda>n. parse_args D n ns p"])
       (simp add: settles_then)
  qed
qed simp

lemma tokens_first: "\<exists>t ts. tokens e = t # ts \<and> t \<noteq> RParen"
  by (induction e) auto

lemma commas_first: "es \<noteq> [] \<Longrightarrow> \<exists>t ts. commas (map tokens es) = t # ts \<and> t \<noteq> RParen"
  using tokens_first [of "hd es"] by (cases "map tokens es" rule: commas.cases) auto

lemma level_pos: "grammatical e \<Longrightarrow> 0 \<le> level e"
  by (cases e) auto

lemma primary_call:
  assumes "m_tok p = Ident f" "m_tok (Advance p) = LParen" "FunctionTable f = Some (k, mn, mx)" "\<not> m_failed p"
  shows "ParsePrimary D (Suc n) p = finish_call D f k mn mx
    (if m_tok (Advance (Advance p)) \<noteq> RParen then parse_args D n [] (Advance (Advance p)) else Parsed [] (Advance (Advance p)))"
  using assms by (simp add: Let_def)

lemma settles_finish:
  assumes "settles m (Parsed ns p)" "m_tok p = RParen" "mn \<le> length ns" "length ns \<le> mx"
  shows "settles (\<lambda>n. finish_call D f k mn mx (m n)) (Parsed (op_node D k ns) (Advance p))"
proof -
  obtain N where "\<forall>n \<ge> N. m n = Parsed ns p" using assms(1) by (auto simp: settles_def)
  then have "\<forall>n \<ge> N. finish_call D f k mn mx (m n) = Parsed (op_node D k ns) (Advance p)"
    using assms(2-4) by (simp add: finish_call_def close_paren_def check_arity_def)
  then show ?thesis by (auto simp: settles_def)
qed

lemma paren_accepted:
  assumes acc: "grammatical (SParen e)" "parses_binary D e"
  shows "parses_unary D (SParen e)"
proof -
  have "settles (\<lambda>n. ParseUnary D n p) (Parsed (denote D e) q)"
    if l: "leads p (tokens (SParen e)) q" and nf: "\<not> m_failed q" for p q
  proof -
    obtain p' where p: "m_tok p = LParen" "leads (Advance p) (tokens e) p'" "m_tok p' = RParen" "q = Advance p'"
      using l by (auto simp: leads_append)
    have nf': "\<not> m_failed p'" "\<not> m_failed p" using nf p(4) not_failed [OF p(2)] Advance_failed by blast+
    have "settles (\<lambda>n. ParseBinary D n 0 (Advance p)) (Parsed (denote D e) p')"
      by (rule parses_binary_stop [OF _ p(2) nf'(1)]) (use acc p(3) in \<open>auto simp: level_pos not_op_stops\<close>)
    then have "settles (\<lambda>n. ParsePrimary D n p) (Parsed (denote D e) q)" using p nf'
      by (intro settles_Suc [where f = "\<lambda>n. ParsePrimary D n p"]) (simp add: settles_then close_paren_def)
    then show ?thesis by (rule unary_of_primary) (use p nf' in \<open>simp_all add: prefix_op_def\<close>)
  qed
  then show ?thesis by (simp add: parses_unary_def)
qed

lemma unary_accepted:
  assumes acc: "grammatical (SUnary c e)" "parses_unary D e"
  shows "parses_unary D (SUnary c e)"
proof -
  have "settles (\<lambda>n. ParseUnary D n p) (Parsed (unary_node D c (denote D e)) q)"
    if l: "leads p (tokens (SUnary c e)) q" and nf: "\<not> m_failed q" "m_tok q \<noteq> LParen" for p q
  proof -
    have p: "m_tok p = Op c" "leads (Advance p) (tokens e) q" using l by auto
    then have "\<not> m_failed p" using nf(1) not_failed [OF p(2)] Advance_failed by blast
    moreover have "prefix_op (m_tok p) = Some c" using p acc(1) by (auto simp: prefix_op_def)
    moreover have "settles (\<lambda>n. ParseUnary D n (Advance p)) (Parsed (denote D e) q)"
      using acc p nf by (auto simp: parses_unary_def)
    ultimately show ?thesis
      by (intro settles_Suc [where f = "\<lambda>n. ParseUnary D n p"]) (simp add: settles_then)
  qed
  then show ?thesis by (simp add: parses_unary_def)
qed

lemma binary_accepted:
  assumes acc: "grammatical (SBinary l c r)" "parses_binary D l" "parses_binary D r"
  shows "parses_binary D (SBinary l c r)"
proof -
  have "settles (\<lambda>n. ParseBinary D n m p) res"
    if ld: "leads p (tokens (SBinary l c r)) q" and nf: "\<not> m_failed q" "m_tok q \<noteq> LParen"
      and m: "m \<le> Precedence c" and st: "stops (Precedence c + 1) q"
      and res: "settles (\<lambda>n. binary_loop D n m (denote D (SBinary l c r)) q) res" for p q m res
  proof -
    obtain p' where p: "leads p (tokens l) p'" "m_tok p' = Op c" "leads (Advance p') (tokens r) q"
      using ld by (auto simp: leads_append)
    have nf': "\<not> m_failed p'" using nf(1) not_failed [OF p(3)] Advance_failed by blast
    have r: "settles (\<lambda>n. ParseBinary D n (Precedence c + 1) (Advance p')) (Parsed (denote D r) q)"
      by (rule parses_binary_stop [OF _ p(3) nf]) (use acc st in auto)
    have "settles (\<lambda>n. binary_loop D n m (denote D l) p') res"
      by (rule loop_goes [OF p(2) m _ r]) (use acc(1) res in auto)
    then show ?thesis using acc p nf' m unfolding parses_binary_def
      by (auto simp: stops_def)
  qed
  then show ?thesis by (simp add: parses_binary_def)
qed

lemma call_accepted:
  assumes acc: "grammatical (SCall f es)" "\<forall>e \<in> set es. parses_binary D e"
  shows "parses_unary D (SCall f es)"
proof -
  obtain k mn mx where f: "FunctionTable f = Some (k, mn, mx)" "mn \<le> length es" "length es \<le> mx"
    using acc(1) by (auto split: option.splits)
  have "settles (\<lambda>n. ParseUnary D n p) (Parsed (denote D (SCall f es)) q)"
    if ld: "leads p (tokens (SCall f es)) q" and nf: "\<not> m_failed q" for p q
  proof -
    define p2 where "p2 = Advance (Advance p)"
    obtain p' where p: "m_tok p = Ident f" "m_tok (Advance p) = LParen" "leads p2 (commas (map tokens es)) p'"
        "m_tok p' = RParen" "q = Advance p'"
      using ld by (auto simp: leads_append p2_def)
    have nf': "\<not> m_failed p'" "\<not> m_failed p" using nf p(5) not_failed [OF p(3)] Advance_failed unfolding p2_def by blast+
    have "settles (\<lambda>n. if m_tok p2 \<noteq> RParen then parse_args D n [] p2 else Parsed [] p2) (Parsed (map (denote D) es) p')"
    proof (cases "es = []")
      case False
      have "m_tok p2 \<noteq> RParen" using commas_first [OF False] p(3) by auto
      then show ?thesis using args_accepted [of es D p2 p' "[]"] acc f p nf' False
        by (auto simp: list_all_iff level_pos)
    qed (use p in simp)
    then have "settles (\<lambda>n. ParsePrimary D (Suc n) p) (Parsed (denote D (SCall f es)) q)"
      unfolding primary_call [OF p(1,2) f(1) nf'(2)] p2_def [symmetric]
      using settles_finish [OF _ p(4), of _ "map (denote D) es" mn mx D f k] p(5) f by simp
    then have "settles (\<lambda>n. ParsePrimary D n p) (Parsed (denote D (SCall f es)) q)" by (rule settles_Suc)
    then show ?thesis by (rule unary_of_primary) (use p nf' in \<open>simp_all add: prefix_op_def\<close>)
  qed
  then show ?thesis by (simp add: parses_unary_def)
qed

lemma accepted: "grammatical e \<Longrightarrow> (level e = 7 \<longrightarrow> parses_unary D e) \<and> parses_binary D e"
proof (induction e)
  case (SNumber s)
  have "parses_unary D (SNumber s)" unfolding parses_unary_def
    by (intro allI impI unary_of_primary settles_step) (auto simp: prefix_op_def dest: Advance_failed)
  then show ?case by (simp add: parses_binary_of_unary)
next
  case (SQuoted s)
  have "parses_unary D (SQuoted s)" unfolding parses_unary_def
    by (intro allI impI unary_of_primary settles_step) (auto simp: prefix_op_def dest: Advance_failed)
  then show ?case by (simp add: parses_binary_of_unary)
next
  case (SName s)
  have "parses_unary D (SName s)" unfolding parses_unary_def
    by (intro allI impI unary_of_primary settles_step) (auto simp: prefix_op_def Let_def dest: Advance_failed)
  then show ?case by (simp add: parses_binary_of_unary)
next
  case (SParen e)
  then show ?case using paren_accepted [of e D] by (simp add: parses_binary_of_unary)
next
  case (SUnary c e)
  then show ?case using unary_accepted [of c e D] by (simp add: parses_binary_of_unary)
next
  case (SBinary l c r)
  then show ?case using binary_accepted [of l c r D] Precedence_le [of c] by simp
next
  case (SCall f es)
  then have "\<forall>e \<in> set es. parses_binary D e" by (auto simp: list_all_iff split: option.splits)
  then show ?case using call_accepted [of f es D] SCall.prems by (simp add: parses_binary_of_unary)
qed

section \<open>Every accepted text is grammatical\<close>

definition read_as :: "'r dbl \<Rightarrow> parser \<Rightarrow> (syn \<Rightarrow> bool) \<Rightarrow> 'r node \<Rightarrow> parser \<Rightarrow> bool" where
  "read_as D p P x q \<longleftrightarrow> (\<exists>e. grammatical e \<and> P e \<and> x = denote D e \<and> leads p (tokens e) q)"

lemma parsed_then: "then_parse m f = Parsed x q \<longleftrightarrow> (\<exists>y p. m = Parsed y p \<and> f y p = Parsed x q)"
  by (cases m) auto

lemma finish_parsed: "finish_call D name k mn mx m = Parsed x q \<longleftrightarrow>
    (\<exists>ns p. m = Parsed ns p \<and> m_tok p = RParen \<and> q = Advance p \<and> x = op_node D k ns \<and> mn \<le> length ns \<and> length ns \<le> mx)"
  by (cases m) (auto simp: finish_call_def parsed_then close_paren_def check_arity_def split: if_splits)

definition sound_at :: "'r dbl \<Rightarrow> nat \<Rightarrow> bool" where
  "sound_at D n \<longleftrightarrow>
   (\<forall>m p x q. ParseBinary D n m p = Parsed x q \<longrightarrow> 0 \<le> m \<longrightarrow> m \<le> 7 \<longrightarrow> read_as D p (\<lambda>e. m \<le> level e) x q \<and> stops m q) \<and>
   (\<forall>m e p0 p x q. binary_loop D n m (denote D e) p = Parsed x q \<longrightarrow> 0 \<le> m \<longrightarrow> grammatical e \<longrightarrow> m \<le> level e \<longrightarrow>
      leads p0 (tokens e) p \<longrightarrow> stops (level e + 1) p \<longrightarrow> read_as D p0 (\<lambda>e. m \<le> level e) x q \<and> stops m q) \<and>
   (\<forall>p x q. ParseUnary D n p = Parsed x q \<longrightarrow> read_as D p (\<lambda>e. level e = 7) x q) \<and>
   (\<forall>p x q. ParsePrimary D n p = Parsed x q \<longrightarrow> read_as D p (\<lambda>e. level e = 7) x q) \<and>
   (\<forall>ns p xs q. parse_args D n ns p = Parsed xs q \<longrightarrow> (\<exists>es. es \<noteq> [] \<and> list_all grammatical es \<and>
      xs = ns @ map (denote D) es \<and> leads p (commas (map tokens es)) q))"

lemma soundD:
  assumes "sound_at D n"
  shows "ParseBinary D n m p = Parsed x q \<Longrightarrow> 0 \<le> m \<Longrightarrow> m \<le> 7 \<Longrightarrow> read_as D p (\<lambda>e. m \<le> level e) x q \<and> stops m q"
    and "binary_loop D n m (denote D e) p = Parsed x q \<Longrightarrow> 0 \<le> m \<Longrightarrow> grammatical e \<Longrightarrow> m \<le> level e \<Longrightarrow>
      leads p0 (tokens e) p \<Longrightarrow> stops (level e + 1) p \<Longrightarrow> read_as D p0 (\<lambda>e. m \<le> level e) x q \<and> stops m q"
  using assms unfolding sound_at_def by blast+

lemma read_as_one: "grammatical e \<Longrightarrow> P e \<Longrightarrow> x = denote D e \<Longrightarrow> leads p (tokens e) q \<Longrightarrow> read_as D p P x q"
  by (auto simp: read_as_def)

lemma sound_binary:
  assumes IH: "sound_at D n" and r: "ParseBinary D (Suc n) m p = Parsed x q" "0 \<le> m" "m \<le> 7"
  shows "read_as D p (\<lambda>e. m \<le> level e) x q \<and> stops m q"
proof -
  obtain y p' where u: "ParseUnary D n p = Parsed y p'" and l: "binary_loop D n m y p' = Parsed x q"
    using r by (auto simp: parsed_then)
  obtain e where e: "grammatical e" "level e = 7" "y = denote D e" "leads p (tokens e) p'"
    using IH u unfolding sound_at_def read_as_def by blast
  have "Precedence op < 8" for op using Precedence_le [of op] by simp
  then have "stops (level e + 1) p'" using e(2) by (simp add: stops_def)
  then show ?thesis using IH l e r(2,3) unfolding sound_at_def by simp
qed

lemma sound_loop:
  assumes IH: "sound_at D n" and r: "binary_loop D (Suc n) m (denote D e) p = Parsed x q" "0 \<le> m"
    and e: "grammatical e" "m \<le> level e" "leads p0 (tokens e) p" "stops (level e + 1) p"
  shows "read_as D p0 (\<lambda>e. m \<le> level e) x q \<and> stops m q"
proof (cases "\<exists>c. m_tok p = Op c \<and> 0 \<le> Precedence c \<and> m \<le> Precedence c")
  case True
  then obtain c where c: "m_tok p = Op c" "0 \<le> Precedence c" "m \<le> Precedence c" by blast
  then obtain y p' where y: "ParseBinary D n (Precedence c + 1) (Advance p) = Parsed y p'"
      and l: "binary_loop D n m (op_node D (BinaryKind c) [denote D e, y]) p' = Parsed x q"
    using r by (auto simp: parsed_then)
  have "read_as D (Advance p) (\<lambda>e. Precedence c + 1 \<le> level e) y p' \<and> stops (Precedence c + 1) p'"
    using soundD(1) [OF IH y] c Precedence_le [of c] by simp
  then obtain e' where e': "grammatical e'" "Precedence c < level e'" "y = denote D e'" "leads (Advance p) (tokens e') p'"
      "stops (Precedence c + 1) p'" unfolding read_as_def by auto
  have "Precedence c \<noteq> 0" by (simp add: Precedence_def)
  then have "grammatical (SBinary e c e')" using c e e' by (auto simp: stops_def)
  moreover have "leads p0 (tokens (SBinary e c e')) p'" using e(3) e'(4) c(1) by (auto simp: leads_append)
  moreover have "binary_loop D n m (denote D (SBinary e c e')) p' = Parsed x q" using l e'(3) by simp
  ultimately show ?thesis using soundD(2) [OF IH, of m "SBinary e c e'" p' x q p0] r(2) c(3) e'(5) by simp
next
  case False
  then have "stops m p" by (auto simp: stops_def)
  moreover have "x = denote D e \<and> q = p"
    using r(1) False by (auto dest: tok_op_Some split: option.splits if_splits)
  ultimately show ?thesis using e by (auto simp: read_as_def)
qed

lemma sound_unary:
  assumes IH: "sound_at D n" and r: "ParseUnary D (Suc n) p = Parsed x q"
  shows "read_as D p (\<lambda>e. level e = 7) x q"
proof (cases "prefix_op (m_tok p)")
  case (Some c)
  then obtain y where y: "ParseUnary D n (Advance p) = Parsed y q" "x = unary_node D c y"
    using r by (auto simp: parsed_then split: if_splits)
  obtain e where e: "grammatical e" "level e = 7" "y = denote D e" "leads (Advance p) (tokens e) q"
    using IH y unfolding sound_at_def read_as_def by blast
  show ?thesis using e y prefix_op_Some [OF Some] by (intro read_as_one [of "SUnary c e"]) auto
qed (use IH r in \<open>simp add: sound_at_def split: if_splits\<close>)

lemma sound_primary:
  assumes IH: "sound_at D n" and r: "ParsePrimary D (Suc n) p = Parsed x q"
  shows "read_as D p (\<lambda>e. level e = 7) x q"
proof (cases "m_tok p")
  case (Ident name)
  have nf: "\<not> m_failed p" using r by (auto split: if_splits)
  show ?thesis
  proof (cases "m_tok (Advance p) = LParen")
    case True
    obtain k mn mx where f: "FunctionTable name = Some (k, mn, mx)"
      using r Ident nf True by (auto simp: Let_def split: option.splits)
    obtain ns p' where a: "(if m_tok (Advance (Advance p)) \<noteq> RParen then parse_args D n [] (Advance (Advance p))
          else Parsed [] (Advance (Advance p))) = Parsed ns p'" "m_tok p' = RParen" "q = Advance p'"
        "x = op_node D k ns" "mn \<le> length ns" "length ns \<le> mx"
      using r unfolding primary_call [OF Ident True f nf] finish_parsed by blast
    obtain es where "list_all grammatical es" "ns = map (denote D) es" "leads (Advance (Advance p)) (commas (map tokens es)) p'"
    proof (cases "m_tok (Advance (Advance p)) \<noteq> RParen")
      case True
      then show ?thesis using that IH a(1) unfolding sound_at_def by (metis append_Nil)
    qed (use a that [of "[]"] in simp)
    then show ?thesis using a f Ident True by (intro read_as_one [of "SCall name es"]) (auto simp: leads_append)
  qed (use r Ident nf in \<open>auto simp: Let_def intro: read_as_one [of "SName name"]\<close>)
next
  case LParen
  then obtain p' where b: "ParseBinary D n 0 (Advance p) = Parsed x p'" "m_tok p' = RParen" "q = Advance p'"
    using r by (auto simp: parsed_then close_paren_def split: if_splits)
  have "read_as D (Advance p) (\<lambda>e. 0 \<le> level e) x p'" using IH b(1) unfolding sound_at_def by simp
  then obtain e where "grammatical e" "x = denote D e" "leads (Advance p) (tokens e) p'" by (auto simp: read_as_def)
  then show ?thesis using LParen b by (intro read_as_one [of "SParen e"]) (auto simp: leads_append)
next
  case (Number s)
  then show ?thesis using r by (auto intro!: read_as_one [of "SNumber s"] split: if_splits)
next
  case (Quoted s)
  then show ?thesis using r by (auto intro!: read_as_one [of "SQuoted s"] split: if_splits)
qed (use r in \<open>auto split: if_splits\<close>)

lemma sound_args:
  assumes IH: "sound_at D n" and r: "parse_args D (Suc n) ns p = Parsed xs q"
  shows "\<exists>es. es \<noteq> [] \<and> list_all grammatical es \<and> xs = ns @ map (denote D) es \<and> leads p (commas (map tokens es)) q"
proof -
  obtain y p' where b: "ParseBinary D n 0 p = Parsed y p'"
      and l: "(if m_tok p' \<noteq> Comma then Parsed (ns @ [y]) p' else parse_args D n (ns @ [y]) (Advance p')) = Parsed xs q"
    using r by (auto simp: parsed_then)
  have "read_as D p (\<lambda>e. 0 \<le> level e) y p'" using IH b unfolding sound_at_def by simp
  then obtain e where e: "grammatical e" "y = denote D e" "leads p (tokens e) p'" by (auto simp: read_as_def)
  show ?thesis
  proof (cases "m_tok p' = Comma")
    case True
    then obtain es where es: "es \<noteq> []" "list_all grammatical es" "xs = (ns @ [y]) @ map (denote D) es"
        "leads (Advance p') (commas (map tokens es)) q"
      using IH l unfolding sound_at_def by (metis (full_types))
    have "commas (map tokens (e # es)) = tokens e @ Comma # commas (map tokens es)" using es(1) by (cases es) auto
    then show ?thesis using es e True by (intro exI [of _ "e # es"]) (auto simp: leads_append)
  next
    case False
    then show ?thesis using l e by (intro exI [of _ "[e]"]) auto
  qed
qed

lemma sound_parser: "sound_at D n"
proof (induction n)
  case (Suc n)
  show ?case unfolding sound_at_def [of D "Suc n"]
  proof (intro conjI, goal_cases)
    case 1 then show ?case using sound_binary [OF Suc] by blast
  next
    case 2 then show ?case using sound_loop [OF Suc] by (intro allI impI)
  next
    case 3 then show ?case using sound_unary [OF Suc] by blast
  next
    case 4 then show ?case using sound_primary [OF Suc] by blast
  next
    case 5 then show ?case using sound_args [OF Suc] by blast
  qed
qed (simp add: sound_at_def)

section \<open>Texts\<close>

text \<open>The tokens of a text, up to its end.\<close>

definition lexes :: "string \<Rightarrow> token list \<Rightarrow> bool" where
  "lexes text ts \<longleftrightarrow> (\<exists>q. leads (new_parser text) ts q \<and> m_tok q = End \<and> \<not> m_failed q)"

lemma ParseExpression_parsed: "ParseExpression D n p = Parsed x q \<longleftrightarrow>
    ParseBinary D n 0 p = Parsed x q \<and> \<not> m_failed q \<and> m_tok q = End"
  by (auto simp: ParseExpression_def parsed_then split: if_splits)

lemma parse_enough: "enough (ParseBinary D (parse_fuel text) 0 (new_parser text))"
  using parser_fuel [of "parse_fuel text" D] new_parser_weight [of "text"] by (auto simp: parse_fuel_def)

lemma ParseExpression_exact:
  "(\<exists>q. ParseExpression D (parse_fuel text) (new_parser text) = Parsed x q) \<longleftrightarrow>
   (\<exists>e. grammatical e \<and> lexes text (tokens e) \<and> x = denote D e)"
proof
  assume "\<exists>q. ParseExpression D (parse_fuel text) (new_parser text) = Parsed x q"
  then obtain q where q: "ParseBinary D (parse_fuel text) 0 (new_parser text) = Parsed x q" "\<not> m_failed q" "m_tok q = End"
    by (auto simp: ParseExpression_parsed)
  then show "\<exists>e. grammatical e \<and> lexes text (tokens e) \<and> x = denote D e"
    using soundD(1) [OF sound_parser q(1)] by (auto simp: read_as_def lexes_def)
next
  assume "\<exists>e. grammatical e \<and> lexes text (tokens e) \<and> x = denote D e"
  then obtain e q where e: "grammatical e" "x = denote D e" "leads (new_parser text) (tokens e) q" "m_tok q = End" "\<not> m_failed q"
    by (auto simp: lexes_def)
  have "settles (\<lambda>n. ParseBinary D n 0 (new_parser text)) (Parsed (denote D e) q)"
    by (rule parses_binary_stop) (use accepted [OF e(1)] e level_pos in \<open>auto simp: not_op_stops\<close>)
  then have "ParseBinary D (parse_fuel text) 0 (new_parser text) = Parsed (denote D e) q"
    using settled_at parse_enough by blast
  then show "\<exists>q. ParseExpression D (parse_fuel text) (new_parser text) = Parsed x q"
    using e by (auto simp: ParseExpression_parsed)
qed

lemma trim_is_space: "trim_char c \<Longrightarrow> isspace c"
  unfolding trim_char_def isspace_def char_code_def by (elim insertE) simp_all

lemma blank_no_tokens: "Trim text = [] \<Longrightarrow> lexes text ts \<Longrightarrow> ts = []"
proof -
  assume t: "Trim text = []" and l: "lexes text ts"
  have "dropWhile trim_char text = []"
  proof (rule ccontr)
    assume ne: "dropWhile trim_char text \<noteq> []"
    then have "\<not> trim_char (hd (dropWhile trim_char text))" by (rule hd_dropWhile)
    moreover have "trim_char (hd (dropWhile trim_char text))"
      using t hd_in_set [OF ne] by (simp add: Trim_def dropWhile_eq_Nil_conv)
    ultimately show False ..
  qed
  then have sp: "dropWhile isspace text = []"
    by (simp add: dropWhile_eq_Nil_conv trim_is_space)
  have "Next text = (Inr End, [])" unfolding Next_def Let_def sp by simp
  then have "m_tok (new_parser text) = End" by (simp add: new_parser_def Advance_def)
  then show ?thesis using l by (cases ts) (auto simp: lexes_def)
qed

section \<open>Properties\<close>

text \<open>C32: the parser accepts exactly the language of the grammar and builds the tree of the only reading: parsing
  ends, within the fuel; it returns the node \<open>x\<close> exactly if the text is the tokens of an expression, with operands
  no looser than their operators and operators of one level grouped to the left, that denotes \<open>x\<close>; and it returns no
  node exactly for a blank text.  Any other text is refused.\<close>

theorem parse_exact:
  "Parse D text \<noteq> NoFuel \<and>
   ((\<exists>q. Parse D text = Parsed (Some x) q) \<longleftrightarrow> (\<exists>e. grammatical e \<and> lexes text (tokens e) \<and> x = denote D e)) \<and>
   ((\<exists>q. Parse D text = Parsed None q) \<longleftrightarrow> Trim text = [])"
proof (cases "Trim text = []")
  case True
  then have "\<not> lexes text (tokens e)" for e using blank_no_tokens tokens_first by (metis list.distinct(1))
  then show ?thesis using True by (simp add: Parse_def)
next
  case False
  have "ParseExpression D (parse_fuel text) (new_parser text) \<noteq> NoFuel"
    using parse_enough [of D "text"] unfolding ParseExpression_def
    by (cases "ParseBinary D (parse_fuel text) 0 (new_parser text)") auto
  then show ?thesis using False ParseExpression_exact [of D "text" x]
    by (cases "ParseExpression D (parse_fuel text) (new_parser text)") (auto simp: Parse_def)
qed

end
