(* ===== verification/Input_Eval.thy ===== *)
theory Input_Eval
  imports Input_Expr
begin

text \<open>
  Evaluation of input expressions, the names they refer to and the reader of Dolphin's pad configuration
  (\<open>runtime/src/input_expr.cpp\<close>).  The steady clock is a sequence of readings; the number of readings made is
  threaded through evaluation.  Operands are evaluated from left to right, one of the orders that C++ allows.
  A node is evaluated in a frame with its own state, its arguments as they are after their evaluation, and the
  clock.  An argument that is not there is \<open>Throw Fatal\<close>.
\<close>

record 'r frame =
  f_state :: "'r node_state"
  f_args :: "'r node list"
  f_clock :: nat

type_synonym 'r evaluator = "(nat, 'r \<times> 'r node) prog"

definition Arg :: "'r evaluator list \<Rightarrow> nat \<Rightarrow> ('r frame, 'r) prog" where
  "Arg evs i w =
     (if i < length evs
      then (case (evs ! i) (f_clock w) of
              (Ok (v, a), c) \<Rightarrow> (Ok v, w\<lparr>f_args := (f_args w)[i := a], f_clock := c\<rparr>)
            | (Throw e, c) \<Rightarrow> (Throw e, w\<lparr>f_clock := c\<rparr>))
      else (Throw Fatal, w))"

definition clock_now :: "(nat \<Rightarrow> int) \<Rightarrow> ('r frame, int) prog" where
  "clock_now clk w = (Ok (clk (f_clock w)), w\<lparr>f_clock := Suc (f_clock w)\<rparr>)"

definition get_state :: "('r frame, 'r node_state) prog" where
  "get_state w = (Ok (f_state w), w)"

definition put_state :: "('r node_state \<Rightarrow> 'r node_state) \<Rightarrow> ('r frame, unit) prog" where
  "put_state f w = (Ok (), w\<lparr>f_state := f (f_state w)\<rparr>)"

section \<open>Operations on doubles\<close>

definition num :: "'r dbl \<Rightarrow> string \<Rightarrow> 'r" where
  "num D s = strtod D s"

definition kConditionThreshold :: "'r dbl \<Rightarrow> 'r" where
  "kConditionThreshold D = num D ''0.5''"

definition truth :: "'r dbl \<Rightarrow> bool \<Rightarrow> 'r" where
  "truth D b = (if b then num D ''1.0'' else num D ''0.0'')"

definition fge :: "'r dbl \<Rightarrow> 'r \<Rightarrow> 'r \<Rightarrow> bool" where
  "fge D a b \<longleftrightarrow> flt D b a \<or> feq D a b"

definition std_min :: "'r dbl \<Rightarrow> 'r \<Rightarrow> 'r \<Rightarrow> 'r" where
  "std_min D a b = (if flt D b a then b else a)"

definition std_max :: "'r dbl \<Rightarrow> 'r \<Rightarrow> 'r \<Rightarrow> 'r" where
  "std_max D a b = (if flt D a b then b else a)"

definition std_clamp :: "'r dbl \<Rightarrow> 'r \<Rightarrow> 'r \<Rightarrow> 'r \<Rightarrow> 'r" where
  "std_clamp D v lo hi = (if flt D v lo then lo else if flt D hi v then hi else v)"

definition eval_div :: "'r dbl \<Rightarrow> 'r \<Rightarrow> 'r \<Rightarrow> 'r" where
  "eval_div D lhs rhs = (if feq D rhs (num D ''0.0'') then num D ''0.0'' else fdiv D lhs rhs)"

definition eval_xor :: "'r dbl \<Rightarrow> 'r \<Rightarrow> 'r \<Rightarrow> 'r" where
  "eval_xor D a b = std_max D (std_min D a (fsub D (num D ''1.0'') b)) (std_min D b (fsub D (num D ''1.0'') a))"

definition eval_clamp :: "'r dbl \<Rightarrow> 'r \<Rightarrow> 'r \<Rightarrow> 'r \<Rightarrow> 'r" where
  "eval_clamp D v lo hi = (if flt D hi lo then std_clamp D v hi lo else std_clamp D v lo hi)"

definition eval_deadzone :: "'r dbl \<Rightarrow> 'r \<Rightarrow> 'r \<Rightarrow> 'r" where
  "eval_deadzone D v zone =
     (let dz = std_clamp D zone (num D ''0.0'') (num D ''0.999'')
      in fcopysign D (fdiv D (std_max D (num D ''0.0'') (fsub D (fabs D v) dz)) (fsub D (num D ''1.0'') dz)) v)"

section \<open>Functions with state\<close>

text \<open>The first evaluation sets the mark.\<close>

definition mark_once :: "int \<Rightarrow> ('r frame, unit) prog" where
  "mark_once now = put_state (\<lambda>s. if marked s then s else s\<lparr>mark := now, marked := True\<rparr>)"

definition elapsed :: "'r dbl \<Rightarrow> int \<Rightarrow> 'r node_state \<Rightarrow> 'r" where
  "elapsed D now s = fseconds D (now - mark s)"

definition eval_timer :: "'r dbl \<Rightarrow> (nat \<Rightarrow> int) \<Rightarrow> 'r evaluator list \<Rightarrow> ('r frame, 'r) prog" where
  "eval_timer D clk evs =
     bindP (clock_now clk) (\<lambda>now. thenP (mark_once now) (bindP (Arg evs 0) (\<lambda>period. bindP get_state (\<lambda>s.
     let progress = fdiv D (elapsed D now s) period
     in if \<not> fisfinite D progress \<or> flt D progress (num D ''0.0'')
        then thenP (put_state (\<lambda>s. s\<lparr>mark := now\<rparr>)) (returnP (num D ''0.0''))
        else if fge D progress (num D ''1.0'')
        then let resets = ffloor D progress
             in thenP (put_state (\<lambda>s. s\<lparr>mark := mark s + fticks D (fmul D period resets)\<rparr>))
                  (returnP (fsub D progress resets))
        else returnP progress))))"

text \<open>A press switches the state, once for each release.\<close>

definition toggle_press :: "'r dbl \<Rightarrow> 'r \<Rightarrow> 'r node_state \<Rightarrow> 'r node_state" where
  "toggle_press D inner s =
     (if flt D inner (kConditionThreshold D) then s\<lparr>released := True\<rparr>
      else if released s then s\<lparr>released := False, state := \<not> state s\<rparr>
      else s)"

definition eval_toggle :: "'r dbl \<Rightarrow> 'r evaluator list \<Rightarrow> ('r frame, 'r) prog" where
  "eval_toggle D evs =
     bindP (Arg evs 0) (\<lambda>inner. thenP (put_state (toggle_press D inner))
     (thenP (if length evs = 2
             then bindP (Arg evs 1) (\<lambda>clear.
               if flt D (kConditionThreshold D) clear then put_state (\<lambda>s. s\<lparr>state := False\<rparr>) else returnP ())
             else returnP ())
     (bindP get_state (\<lambda>s. returnP (truth D (state s))))))"

definition eval_hold :: "'r dbl \<Rightarrow> (nat \<Rightarrow> int) \<Rightarrow> 'r evaluator list \<Rightarrow> ('r frame, 'r) prog" where
  "eval_hold D clk evs =
     bindP (clock_now clk) (\<lambda>now. thenP (mark_once now) (bindP (Arg evs 0) (\<lambda>input. bindP get_state (\<lambda>s.
     thenP (if flt D input (kConditionThreshold D) then put_state (\<lambda>s. s\<lparr>state := False, mark := now\<rparr>)
            else if \<not> state s
            then bindP (Arg evs 1) (\<lambda>seconds.
              if fge D (elapsed D now s) seconds then put_state (\<lambda>s. s\<lparr>state := True\<rparr>) else returnP ())
            else returnP ())
     (bindP get_state (\<lambda>s. returnP (truth D (state s))))))))"

text \<open>The number of taps asked for, from 1 to 64.\<close>

definition desired_taps :: "'r dbl \<Rightarrow> 'r \<Rightarrow> u32" where
  "desired_taps D requested =
     (let r = (if fisfinite D requested then requested else num D ''2.0'')
      in funsigned D (std_clamp D (fadd D r (num D ''0.5'')) (num D ''1.0'') (num D ''64.0'')))"

definition tap_press :: "int \<Rightarrow> 'r node_state \<Rightarrow> 'r node_state" where
  "tap_press now s =
     (if released s
      then s\<lparr>mark := (if taps s = 0 then now else mark s), taps := taps s + 1, released := False\<rparr>
      else s)"

definition eval_tap :: "'r dbl \<Rightarrow> (nat \<Rightarrow> int) \<Rightarrow> 'r evaluator list \<Rightarrow> ('r frame, 'r) prog" where
  "eval_tap D clk evs =
     bindP (clock_now clk) (\<lambda>now. thenP (mark_once now) (bindP get_state (\<lambda>s0.
     bindP (Arg evs 0) (\<lambda>input. bindP (Arg evs 1) (\<lambda>seconds.
     let timeUp = flt D seconds (elapsed D now s0)
     in bindP (if length evs = 3 then Arg evs 2 else returnP (num D ''2.0'')) (\<lambda>requested.
        if flt D input (kConditionThreshold D)
        then thenP (put_state (\<lambda>s. s\<lparr>released := True, taps := (if taps s > 0 \<and> timeUp then 0 else taps s)\<rparr>))
               (returnP (num D ''0.0''))
        else thenP (put_state (tap_press now))
               (bindP get_state (\<lambda>s. returnP (truth D (desired_taps D requested = taps s))))))))))"

definition pulse_press :: "'r dbl \<Rightarrow> int \<Rightarrow> 'r \<Rightarrow> 'r node_state \<Rightarrow> 'r node_state" where
  "pulse_press D now requested s =
     (let safe = (if fisfinite D requested then std_clamp D requested (num D ''0.0'') (num D ''3600.0'') else num D ''0.0'');
          seconds = fticks D safe
      in if state s then s\<lparr>mark := mark s + seconds\<rparr> else s\<lparr>state := True, mark := now + seconds\<rparr>)"

definition pulse_end :: "int \<Rightarrow> 'r node_state \<Rightarrow> 'r node_state" where
  "pulse_end now s = (if state s \<and> now \<ge> mark s then s\<lparr>state := False\<rparr> else s)"

definition eval_pulse :: "'r dbl \<Rightarrow> (nat \<Rightarrow> int) \<Rightarrow> 'r evaluator list \<Rightarrow> ('r frame, 'r) prog" where
  "eval_pulse D clk evs =
     bindP (clock_now clk) (\<lambda>now. bindP (Arg evs 0) (\<lambda>input. bindP get_state (\<lambda>s.
     thenP (if flt D input (kConditionThreshold D) then put_state (\<lambda>s. s\<lparr>released := True\<rparr>)
            else if released s
            then thenP (put_state (\<lambda>s. s\<lparr>released := False\<rparr>))
                   (bindP (Arg evs 1) (\<lambda>requested. put_state (pulse_press D now requested)))
            else returnP ())
     (thenP (put_state (pulse_end now))
     (bindP get_state (\<lambda>s. returnP (truth D (state s))))))))"

definition smooth_move :: "'r dbl \<Rightarrow> 'r \<Rightarrow> 'r \<Rightarrow> 'r \<Rightarrow> 'r \<Rightarrow> 'r node_state \<Rightarrow> 'r node_state" where
  "smooth_move D time desired up down s =
     (let rate = (if flt D desired (val s) then down else up);
          maxMove = fdiv D time rate
      in if \<not> fisfinite D maxMove then s\<lparr>val := desired\<rparr>
         else let diff = fsub D desired (val s)
              in s\<lparr>val := fadd D (val s) (fcopysign D (std_min D maxMove (fabs D diff)) diff)\<rparr>)"

definition eval_smooth :: "'r dbl \<Rightarrow> (nat \<Rightarrow> int) \<Rightarrow> 'r evaluator list \<Rightarrow> ('r frame, 'r) prog" where
  "eval_smooth D clk evs =
     bindP (clock_now clk) (\<lambda>now. thenP (mark_once now) (bindP get_state (\<lambda>s0.
     thenP (put_state (\<lambda>s. s\<lparr>mark := now\<rparr>))
     (bindP (Arg evs 0) (\<lambda>desired. bindP (Arg evs 1) (\<lambda>up.
      bindP (if length evs = 3 then Arg evs 2 else returnP up) (\<lambda>down.
      thenP (put_state (smooth_move D (elapsed D now s0) desired up down))
        (bindP get_state (\<lambda>s. returnP (val s))))))))))"

section \<open>Evaluation\<close>

definition eval1 :: "'r evaluator list \<Rightarrow> ('r \<Rightarrow> 'r) \<Rightarrow> ('r frame, 'r) prog" where
  "eval1 evs f = bindP (Arg evs 0) (\<lambda>a. returnP (f a))"

definition eval2 :: "'r evaluator list \<Rightarrow> ('r \<Rightarrow> 'r \<Rightarrow> 'r) \<Rightarrow> ('r frame, 'r) prog" where
  "eval2 evs f = bindP (Arg evs 0) (\<lambda>a. bindP (Arg evs 1) (\<lambda>b. returnP (f a b)))"

definition eval3 :: "'r evaluator list \<Rightarrow> ('r \<Rightarrow> 'r \<Rightarrow> 'r \<Rightarrow> 'r) \<Rightarrow> ('r frame, 'r) prog" where
  "eval3 evs f = bindP (Arg evs 0) (\<lambda>a. bindP (Arg evs 1) (\<lambda>b. bindP (Arg evs 2) (\<lambda>c. returnP (f a b c))))"

fun eval_kind ::
  "'r dbl \<Rightarrow> (nat \<Rightarrow> int) \<Rightarrow> (string \<Rightarrow> 'r) option \<Rightarrow> Kind \<Rightarrow> 'r \<Rightarrow> string \<Rightarrow> 'r evaluator list \<Rightarrow> ('r frame, 'r) prog" where
  "eval_kind D clk source Literal x name evs = returnP x"
| "eval_kind D clk source Input x name evs = returnP (case source of Some f \<Rightarrow> f name | None \<Rightarrow> num D ''0.0'')"
| "eval_kind D clk source Not x name evs = eval1 evs (fsub D (num D ''1.0''))"
| "eval_kind D clk source FnNot x name evs = eval1 evs (fsub D (num D ''1.0''))"
| "eval_kind D clk source Add x name evs = eval2 evs (fadd D)"
| "eval_kind D clk source Sub x name evs = eval2 evs (fsub D)"
| "eval_kind D clk source Mul x name evs = eval2 evs (fmul D)"
| "eval_kind D clk source Div x name evs = eval2 evs (eval_div D)"
| "eval_kind D clk source And x name evs = eval2 evs (std_min D)"
| "eval_kind D clk source Or x name evs = eval2 evs (std_max D)"
| "eval_kind D clk source Xor x name evs = eval2 evs (eval_xor D)"
| "eval_kind D clk source Greater x name evs = eval2 evs (\<lambda>a b. truth D (flt D b a))"
| "eval_kind D clk source Less x name evs = eval2 evs (\<lambda>a b. truth D (flt D a b))"
| "eval_kind D clk source Equal x name evs = eval2 evs (\<lambda>a b. truth D (feq D a b))"
| "eval_kind D clk source FnIf x name evs =
     bindP (Arg evs 0) (\<lambda>c. if flt D (kConditionThreshold D) c then Arg evs 1 else Arg evs 2)"
| "eval_kind D clk source FnMin x name evs = eval2 evs (std_min D)"
| "eval_kind D clk source FnMax x name evs = eval2 evs (std_max D)"
| "eval_kind D clk source FnClamp x name evs = eval3 evs (eval_clamp D)"
| "eval_kind D clk source FnAbs x name evs = eval1 evs (fabs D)"
| "eval_kind D clk source FnSqrt x name evs = eval1 evs (fsqrt D)"
| "eval_kind D clk source FnPow x name evs = eval2 evs (fpow D)"
| "eval_kind D clk source FnSin x name evs = eval1 evs (fsin D)"
| "eval_kind D clk source FnCos x name evs = eval1 evs (fcos D)"
| "eval_kind D clk source FnTan x name evs = eval1 evs (ftan D)"
| "eval_kind D clk source FnDeadzone x name evs = eval2 evs (eval_deadzone D)"
| "eval_kind D clk source FnTimer x name evs = eval_timer D clk evs"
| "eval_kind D clk source FnToggle x name evs = eval_toggle D evs"
| "eval_kind D clk source FnHold x name evs = eval_hold D clk evs"
| "eval_kind D clk source FnTap x name evs = eval_tap D clk evs"
| "eval_kind D clk source FnPulse x name evs = eval_pulse D clk evs"
| "eval_kind D clk source FnSmooth x name evs = eval_smooth D clk evs"

fun Eval :: "'r dbl \<Rightarrow> (nat \<Rightarrow> int) \<Rightarrow> (string \<Rightarrow> 'r) option \<Rightarrow> 'r node \<Rightarrow> 'r evaluator" where
  "Eval D clk source (Node k x name ns st) = (\<lambda>c.
     case eval_kind D clk source k x name (map (\<lambda>a. Eval D clk source a) ns) \<lparr>f_state = st, f_args = ns, f_clock = c\<rparr> of
       (Ok v, w) \<Rightarrow> (Ok (v, Node k x name (f_args w) (f_state w)), f_clock w)
     | (Throw e, w) \<Rightarrow> (Throw e, f_clock w))"

definition Evaluate :: "'r dbl \<Rightarrow> (nat \<Rightarrow> int) \<Rightarrow> (string \<Rightarrow> 'r) option \<Rightarrow> 'r node option \<Rightarrow> (nat, 'r \<times> 'r node option) prog" where
  "Evaluate D clk source root = (case root of
     None \<Rightarrow> returnP (num D ''0.0'', None)
   | Some r \<Rightarrow> bindP (Eval D clk source r) (\<lambda>(v, r'). returnP (if fisfinite D v then v else num D ''0.0'', Some r')))"

fun Collect :: "'r node \<Rightarrow> string list \<Rightarrow> string list" where
  "Collect (Node k x name ns st) out =
     fold (\<lambda>a out. Collect a out) ns (if k = Input \<and> name \<notin> set out then out @ [name] else out)"

definition ReferencedInputs :: "'r node option \<Rightarrow> string list" where
  "ReferencedInputs root = (case root of None \<Rightarrow> [] | Some r \<Rightarrow> Collect r [])"

section \<open>Configuration files\<close>

record config_reader =
  inSection :: bool
  found :: bool
  controls :: "(string \<times> string) list"
  deviceName :: string

definition config_line :: "string \<Rightarrow> string \<Rightarrow> config_reader \<Rightarrow> config_reader" where
  "config_line wanted line r =
     (let trimmed = Trim line in
      case trimmed of [] \<Rightarrow> r
      | c # cs \<Rightarrow>
        if c = CHR ''#'' \<or> c = CHR '';'' then r
        else if c = CHR ''['' then r\<lparr>inSection := trimmed = wanted, found := found r \<or> trimmed = wanted\<rparr>
        else if \<not> inSection r then r
        else if CHR ''='' \<notin> set trimmed then r
        else let key = Trim (takeWhile (\<lambda>d. d \<noteq> CHR ''='') trimmed);
                 v = Trim (tl (dropWhile (\<lambda>d. d \<noteq> CHR ''='') trimmed))
             in if key = ''Device'' then r\<lparr>deviceName := v\<rparr>
                else if v \<noteq> [] then r\<lparr>controls := controls r @ [(key, v)]\<rparr>
                else r)"

text \<open>The controls and the device of a pad, from the contents of the file if it can be read.\<close>

definition ReadDolphinConfig ::
  "string \<Rightarrow> string option \<Rightarrow> int \<Rightarrow> string + (string \<times> string) list \<times> string" where
  "ReadDolphinConfig path file padIndex = (case file of
     None \<Rightarrow> Inl (''could not open '' @ path)
   | Some text \<Rightarrow>
       let wanted = ''[GCPad'' @ int_string padIndex @ '']'';
           r = fold (config_line wanted) (getlines text) \<lparr>inSection = False, found = False, controls = [], deviceName = ''''\<rparr>
       in if \<not> found r then Inl (wanted @ '' not found in '' @ path)
          else Inr (controls r, deviceName r))"

end
