(* ===== verification/Input_Laws.thy ===== *)
theory Input_Laws
  imports Input_Parser_Laws Input_Eval
begin

text \<open>
  Parsed trees have the arguments that evaluation reads, evaluation keeps the expression of a tree, and so it
  never goes wrong.
\<close>

section \<open>Parsed trees\<close>

text \<open>The numbers of arguments of each kind of node.\<close>

fun arity :: "Kind \<Rightarrow> nat set" where
  "arity Literal = {0}"
| "arity Input = {0}"
| "arity Not = {1}"
| "arity FnIf = {3}"
| "arity FnClamp = {3}"
| "arity FnAbs = {1}"
| "arity FnSqrt = {1}"
| "arity FnSin = {1}"
| "arity FnCos = {1}"
| "arity FnTan = {1}"
| "arity FnTimer = {1}"
| "arity FnToggle = {1, 2}"
| "arity FnTap = {2, 3}"
| "arity FnSmooth = {2, 3}"
| "arity FnNot = {1}"
| "arity k = {2}"

fun well_formed :: "'r node \<Rightarrow> bool" where
  "well_formed (Node k x name ns st) \<longleftrightarrow> length ns \<in> arity k \<and> list_all well_formed ns"

fun expression :: "'r dbl \<Rightarrow> 'r node \<Rightarrow> 'r node" where
  "expression D (Node k x name ns st) = Node k x name (map (\<lambda>a. expression D a) ns) (new_state D)"

lemma BinaryKind_arity: "arity (BinaryKind c) = {2}"
  by (simp add: BinaryKind_def)

lemma FunctionTable_arity: "FunctionTable f = Some (k, mn, mx) \<Longrightarrow> mn \<le> n \<Longrightarrow> n \<le> mx \<Longrightarrow> n \<in> arity k"
  by (auto simp: FunctionTable_def split: if_splits)

lemma denote_well_formed: "grammatical e \<Longrightarrow> well_formed (denote D e)"
  by (induction e)
    (auto simp: literal_node_def input_node_def op_node_def unary_node_def BinaryKind_arity list_all_iff
      dest: FunctionTable_arity split: option.splits)

section \<open>Evaluation does not go wrong\<close>

definition safe :: "'r dbl \<Rightarrow> 'r node list \<Rightarrow> ('r frame, 'x) prog \<Rightarrow> bool" where
  "safe D ns m \<longleftrightarrow> (\<forall>w. map (\<lambda>a. expression D a) (f_args w) = map (\<lambda>a. expression D a) ns \<longrightarrow>
     (\<exists>v w'. m w = (Ok v, w') \<and> map (\<lambda>a. expression D a) (f_args w') = map (\<lambda>a. expression D a) ns))"

lemma safe_return [intro, simp]: "safe D ns (returnP x)"
  by (simp add: safe_def returnP_run)

lemma safe_state [intro, simp]: "safe D ns (put_state f)" "safe D ns get_state" "safe D ns (clock_now clk)" "safe D ns (mark_once now)"
  by (simp_all add: safe_def put_state_def get_state_def clock_now_def mark_once_def)

lemma safe_bind [intro!]: "safe D ns m \<Longrightarrow> (\<And>v. safe D ns (f v)) \<Longrightarrow> safe D ns (bindP m f)"
  unfolding safe_def bindP_def by (metis (mono_tags, lifting) case_prod_conv res.simps(5))

lemma safe_then [intro!]: "safe D ns m \<Longrightarrow> safe D ns k \<Longrightarrow> safe D ns (thenP m k)"
  unfolding thenP_def by auto

definition good_evaluator :: "'r dbl \<Rightarrow> 'r node \<Rightarrow> 'r evaluator \<Rightarrow> bool" where
  "good_evaluator D n ev \<longleftrightarrow> (\<forall>c. \<exists>v n' c'. ev c = (Ok (v, n'), c') \<and> expression D n' = expression D n)"

lemma safe_Arg:
  assumes "list_all2 (good_evaluator D) ns evs" "i < length evs"
  shows "safe D ns (Arg evs i)"
  unfolding safe_def
proof (intro allI impI)
  fix w :: "'a frame"
  assume w: "map (\<lambda>a. expression D a) (f_args w) = map (\<lambda>a. expression D a) ns"
  have "good_evaluator D (ns ! i) (evs ! i)" using assms by (simp add: list_all2_conv_all_nth)
  then obtain v n' c' where e: "(evs ! i) (f_clock w) = (Ok (v, n'), c')" "expression D n' = expression D (ns ! i)"
    unfolding good_evaluator_def by blast
  have "map (\<lambda>a. expression D a) ((f_args w)[i := n']) = map (\<lambda>a. expression D a) ns"
    unfolding map_update w e(2) using assms(1,2) by (simp add: list_all2_lengthD list_update_same_conv)
  then show "\<exists>v w'. Arg evs i w = (Ok v, w') \<and> map (\<lambda>a. expression D a) (f_args w') = map (\<lambda>a. expression D a) ns"
    using e assms(2) by (simp add: Arg_def)
qed

lemma safe_eval_kind:
  assumes "list_all2 (good_evaluator D) ns evs" "length evs \<in> arity k"
  shows "safe D ns (eval_kind D clk source k x name evs)"
proof -
  have A: "i < length evs \<Longrightarrow> safe D ns (Arg evs i)" for i by (rule safe_Arg [OF assms(1)])
  show ?thesis
    using assms(2) A
    by (cases k) (auto simp: eval1_def eval2_def eval3_def eval_timer_def eval_toggle_def eval_hold_def
      eval_tap_def eval_pulse_def eval_smooth_def Let_def)
qed

lemma Eval_good: "well_formed n \<Longrightarrow> good_evaluator D n (Eval D clk source n)"
proof (induction n)
  case (Node k x name ns st)
  have "list_all2 (good_evaluator D) ns (map (\<lambda>a. Eval D clk source a) ns)"
    using Node by (auto simp: list_all2_conv_all_nth list_all_length)
  from safe_eval_kind [OF this, of k clk source x name] Node.prems
  have "safe D ns (eval_kind D clk source k x name (map (\<lambda>a. Eval D clk source a) ns))" by simp
  show ?case unfolding good_evaluator_def
  proof
    fix c
    obtain v w' where "eval_kind D clk source k x name (map (\<lambda>a. Eval D clk source a) ns) \<lparr>f_state = st, f_args = ns, f_clock = c\<rparr> = (Ok v, w')"
        "map (\<lambda>a. expression D a) (f_args w') = map (\<lambda>a. expression D a) ns"
      using \<open>safe D ns _\<close> unfolding safe_def by (metis (no_types, lifting) frame.select_convs(2))
    then show "\<exists>v n' c'. Eval D clk source (Node k x name ns st) c = (Ok (v, n'), c') \<and> expression D n' = expression D (Node k x name ns st)"
      by simp
  qed
qed

lemma well_formed_expression: "well_formed (expression D n) = well_formed n"
  by (induction n) (auto simp: list_all_iff)

lemma expression_well_formed: "expression D n' = expression D n \<Longrightarrow> well_formed n \<Longrightarrow> well_formed n'"
  by (metis well_formed_expression)

lemma Collect_expression: "Collect (expression D n) out = Collect n out"
proof (induction n arbitrary: out)
  case (Node k x name ns st)
  then have "fold (\<lambda>a out. Collect a out) (map (\<lambda>a. expression D a) ns) out' = fold (\<lambda>a out. Collect a out) ns out'" for out'
    unfolding fold_map comp_def by (intro fold_cong) auto
  then show ?case by simp
qed

lemma ReferencedInputs_expression:
  "map_option (expression D) root' = map_option (expression D) root \<Longrightarrow> ReferencedInputs root' = ReferencedInputs root"
  by (cases root; cases root') (auto simp: ReferencedInputs_def, metis Collect_expression)

lemma Evaluate_good:
  assumes "\<And>r. root = Some r \<Longrightarrow> well_formed r"
  shows "\<exists>v root' c'. Evaluate D clk source root c = (Ok (v, root'), c') \<and>
    map_option (expression D) root' = map_option (expression D) root \<and> (fisfinite D v \<or> v = num D ''0.0'')"
proof (cases root)
  case (Some r)
  obtain v r' c' where "Eval D clk source r c = (Ok (v, r'), c')" "expression D r' = expression D r"
    using Eval_good [OF assms [OF Some], of D clk source] unfolding good_evaluator_def by blast
  then show ?thesis using Some by (simp add: Evaluate_def bindP_def returnP_run)
qed (simp add: Evaluate_def returnP_run)

text \<open>Numbers in tenths.\<close>

definition tenths :: "int dbl" where
  "tenths = \<lparr>strtod = foldl (\<lambda>n c. if isdigit c then 10 * n + (of_char c - 48) else n) 0,
     fadd = (+), fsub = (-), fmul = (\<lambda>a b. a * b div 10), fdiv = (\<lambda>a b. a * 10 div b),
     flt = (<), feq = (=), fabs = abs, fsqrt = id, fpow = (\<lambda>a b. a), fsin = id, fcos = id, ftan = id,
     ffloor = (\<lambda>a. a div 10 * 10), fcopysign = (\<lambda>a b. if b < 0 then - abs a else abs a),
     fisfinite = (\<lambda>_. True), fseconds = id, fticks = id, funsigned = (\<lambda>a. word_of_int (a div 10))\<rparr>"

text \<open>C33: evaluation of parsed input never goes wrong: in the tree that the parser returns every node has the
  arguments that its evaluation may read, and this tree can be evaluated any number of times.  However earlier
  evaluations have left the states of its nodes, each evaluation returns a value that is finite or zero, and it
  changes neither the expression nor the names that the expression refers to.\<close>

theorem evaluation_total:
  assumes p: "Parse D text = Parsed root q" and r: "map_option (expression D) root' = map_option (expression D) root"
  shows "(\<exists>v root'' c'. Evaluate D clk source root' c = (Ok (v, root''), c') \<and>
      map_option (expression D) root'' = map_option (expression D) root \<and> (fisfinite D v \<or> v = num D ''0.0'')) \<and>
    ReferencedInputs root' = ReferencedInputs root \<and>
    (\<forall>x. root = Some x \<longrightarrow> well_formed x)"
proof -
  have w: "well_formed x" if "root = Some x" for x
  proof -
    have "\<exists>q. ParseExpression D (parse_fuel text) (new_parser text) = Parsed x q"
      using p that by (auto simp: Parse_def parsed_then split: if_splits)
    then show ?thesis using ParseExpression_exact denote_well_formed by metis
  qed
  have "well_formed x" if "root' = Some x" for x
    using that r w expression_well_formed by (cases root) auto
  from Evaluate_good [of root', OF this, of D clk source c] r show ?thesis
    using w ReferencedInputs_expression [OF r] by auto
qed

lemma evaluation_total_witness:
  "(\<exists>v root' c'. Evaluate tenths (\<lambda>_. 0) (Some (\<lambda>_. 20)) (Some (denote tenths (SBinary (SName ''a'') (CHR ''+'') (SNumber ''1.5'')))) 0 =
     (Ok (v, root'), c')) \<and>
   well_formed (denote tenths (SBinary (SName ''a'') (CHR ''+'') (SNumber ''1.5'')))"
proof -
  have "Parse tenths ''a + 1.5'' = Parsed (Some (denote tenths (SBinary (SName ''a'') (CHR ''+'') (SNumber ''1.5''))))
      \<lparr>m_lexer = [], m_tok = End, m_lexError = [], m_failed = False\<rparr>"
    by code_simp
  from evaluation_total [OF this refl] show ?thesis by blast
qed
end
