(* ===== verification/Nand_Settings.thy ===== *)
theory Nand_Settings
  imports Text_Lines
begin

text \<open>
  The console settings in the emulated NAND (\<open>runtime/include/nand_settings.h\<close>), the identity derived from them
  (\<open>console_identity.h\<close>) and the serial number word (\<open>sc_serial_contract.h\<close>).  The file system is the state of
  one file; what else it may refuse to a launch is an argument.
\<close>

section \<open>The encrypted text\<close>

definition kInitialKey :: u32 where
  "kInitialKey = 0x73B5DBFA"

definition rotate_key :: "u32 \<Rightarrow> u32" where
  "rotate_key key = push_bit 1 key OR drop_bit 31 key"

fun decode_bytes :: "u8 list \<Rightarrow> u32 \<Rightarrow> string" where
  "decode_bytes [] key = []"
| "decode_bytes (b # bs) key =
     (let c = byte_char (b XOR ucast key) in
      if c = CHR 0x00 then []
      else if c \<noteq> CHR 0x0D then c # decode_bytes bs (rotate_key key)
      else decode_bytes bs (rotate_key key))"

type_synonym settings = "string \<Rightarrow> string option"

text \<open>\<open>emplace\<close> keeps an entry that is there.\<close>

definition add_setting :: "string \<Rightarrow> settings \<Rightarrow> settings" where
  "add_setting line m =
     (let key = takeWhile (\<lambda>c. c \<noteq> CHR ''='') line in
      if CHR ''='' \<in> set line \<and> key \<noteq> [] \<and> m key = None
      then m(key \<mapsto> drop (Suc (length key)) line)
      else m)"

text \<open>The file: absent, unreadable, or its bytes.\<close>

datatype nand_file = Absent | Unreadable | Contents "u8 list"

definition Read :: "nand_file \<Rightarrow> settings option" where
  "Read file = (case file of
     Contents bytes \<Rightarrow>
       if length bytes < 256 then None
       else Some (fold add_setting (getlines (decode_bytes (take 256 bytes) kInitialKey)) Map.empty)
   | _ \<Rightarrow> None)"

definition digits :: string where
  "digits = ''0123456789''"

definition valid_serial :: "string \<Rightarrow> bool" where
  "valid_serial s \<longleftrightarrow> s \<noteq> [] \<and> length s \<le> 9 \<and> list_all (\<lambda>c. c \<in> set digits) s \<and> \<not> list_all (\<lambda>c. c = CHR ''0'') s"

definition short_field :: "settings \<Rightarrow> string \<Rightarrow> nat \<Rightarrow> bool" where
  "short_field m key n = (case m key of None \<Rightarrow> False | Some v \<Rightarrow> v \<noteq> [] \<and> length v \<le> n)"

definition HasIdentity :: "settings \<Rightarrow> bool" where
  "HasIdentity m \<longleftrightarrow> (case m ''SERNO'' of None \<Rightarrow> False | Some s \<Rightarrow> valid_serial s) \<and>
     short_field m ''CODE'' 5 \<and> short_field m ''AREA'' 3 \<and> short_field m ''GAME'' 2"

definition GenerateSerial :: "int \<Rightarrow> string" where
  "GenerateSerial now =
     (if now < 0 then []
      else let ds = to_string (nat (now mod 1000000000)) in replicate (9 - length ds) CHR ''0'' @ ds)"

section \<open>The encoder\<close>

text \<open>The buffer, the position and the key.\<close>

type_synonym encoder = "u8 list \<times> nat \<times> u32"

definition writeByte :: "char \<Rightarrow> encoder \<Rightarrow> encoder" where
  "writeByte v = (\<lambda>(bytes, position, key).
     (bytes[position := char_byte v XOR ucast key], position + 1, rotate_key key))"

text \<open>The characters of a line; and whether an encoded byte was zero.\<close>

fun writeChars :: "string \<Rightarrow> encoder \<times> bool \<Rightarrow> encoder \<times> bool" where
  "writeChars [] r = r"
| "writeChars (c # cs) (e, hasNull) =
     (let e' = writeByte c e in writeChars cs (e', hasNull \<or> fst e' ! (fst (snd e') - 1) = 0))"

lemma writeByte_length [simp]: "length (fst (writeByte c e)) = length (fst e)"
  by (cases e) (simp add: writeByte_def)

lemma writeChars_length [simp]: "length (fst (fst (writeChars cs r))) = length (fst (fst r))"
  by (induction cs r rule: writeChars.induct) (auto simp: Let_def)

text \<open>A line, after as many line feeds as it takes.\<close>

function writeLine :: "string \<Rightarrow> encoder \<Rightarrow> encoder option" where
  "writeLine line (bytes, position, key) =
     (if position + length line > length bytes then None
      else let (e, hasNull) = writeChars line ((bytes, position, key), False) in
           if \<not> hasNull then Some e
           else writeLine line (writeByte CHR 0x0A (fst e, position, key)))"
  by pat_completeness auto
termination
proof (relation "measure (\<lambda>(line, bytes, position, key). length bytes + 1 - position)")
  fix line bytes position key x e hasNull
  assume a: "\<not> length bytes < position + length line" "x = writeChars line ((bytes, position, key), False)"
    "(e, hasNull) = x" "\<not> \<not> hasNull"
  then have "length (fst e) = length bytes" using writeChars_length [of line "((bytes, position, key), False)"] by (metis fst_conv)
  then show "((line, writeByte CHR 0x0A (fst e, position, key)), (line, bytes, position, key)) \<in>
      measure (\<lambda>(line, bytes, position, key). length bytes + 1 - position)"
    using a by (auto simp: writeByte_def)
qed simp

fun writeLines :: "string list \<Rightarrow> encoder \<Rightarrow> encoder option" where
  "writeLines [] e = Some e"
| "writeLines (l # ls) e = (case writeLine l e of None \<Rightarrow> None | Some e' \<Rightarrow> writeLines ls e')"

definition crlf :: string where
  "crlf = [CHR 0x0D, CHR 0x0A]"

definition setting_lines :: "string \<Rightarrow> string list" where
  "setting_lines serial = map (\<lambda>l. l @ crlf)
     [''AREA=EUR'', ''MODEL=RVL-001(EUR)'', ''DVD=0'', ''MPCH=0x7FFE'', ''CODE=LEH'',
      ''SERNO='' @ serial, ''VIDEO=PAL'', ''GAME=EU'']"

definition EncodeNew :: "string \<Rightarrow> u8 list option" where
  "EncodeNew serial =
     (if \<not> HasIdentity [''SERNO'' \<mapsto> serial, ''CODE'' \<mapsto> ''LEH'', ''AREA'' \<mapsto> ''EUR'', ''GAME'' \<mapsto> ''EU''] then None
      else map_option fst (writeLines (setting_lines serial) (replicate 256 0, 0, kInitialKey)))"

section \<open>First launch\<close>

text \<open>What the file system grants a launch.\<close>

record nand_env =
  inspect_ok :: bool
  directories_ok :: bool
  scratch_ok :: bool
  write_ok :: bool
  link_ok :: bool

text \<open>Until the file is to be published: finished, or the bytes to publish.  A message of the system follows some errors.\<close>

definition invalid_settings :: string where
  "invalid_settings = ''Existing NAND setting.txt is unreadable or invalid; restore it from this console'' @ [CHR 0x27] @ ''s backup''"

definition ensure_begin :: "nand_env \<Rightarrow> int \<Rightarrow> nand_file \<Rightarrow> (string + unit) + u8 list" where
  "ensure_begin env now file =
     (if \<not> inspect_ok env then Inl (Inl ''Cannot inspect NAND setting.txt'')
      else if file \<noteq> Absent
      then (case Read file of
              Some m \<Rightarrow> if HasIdentity m then Inl (Inr ()) else Inl (Inl invalid_settings)
            | None \<Rightarrow> Inl (Inl invalid_settings))
      else case EncodeNew (GenerateSerial now) of
        None \<Rightarrow> Inl (Inl ''Cannot initialize NAND settings: invalid system clock'')
      | Some bytes \<Rightarrow>
          if \<not> directories_ok env then Inl (Inl ''Cannot create NAND settings directory'')
          else if \<not> scratch_ok env then Inl (Inl ''Cannot create temporary NAND settings directory'')
          else Inr bytes)"

text \<open>The scratch file is linked to the path, which fails if the path exists.\<close>

definition ensure_publish :: "nand_env \<Rightarrow> u8 list \<Rightarrow> nand_file \<Rightarrow> bool \<times> nand_file" where
  "ensure_publish env bytes file =
     (if write_ok env \<and> link_ok env \<and> file = Absent then (True, Contents bytes) else (False, file))"

definition ensure_end :: "bool \<Rightarrow> nand_file \<Rightarrow> string + unit" where
  "ensure_end published file = (case Read file of
     Some m \<Rightarrow> if HasIdentity m then Inr ()
               else Inl (if published then ''Cannot read newly initialized NAND setting.txt''
                         else ''Cannot persist NAND setting.txt; check NAND directory permissions'')
   | None \<Rightarrow> Inl (if published then ''Cannot read newly initialized NAND setting.txt''
                  else ''Cannot persist NAND setting.txt; check NAND directory permissions''))"

text \<open>A launch that runs alone.\<close>

definition Ensure :: "nand_env \<Rightarrow> int \<Rightarrow> nand_file \<Rightarrow> (string + unit) \<times> nand_file" where
  "Ensure env now file = (case ensure_begin env now file of
     Inl r \<Rightarrow> (r, file)
   | Inr bytes \<Rightarrow> let (published, file') = ensure_publish env bytes file in (ensure_end published file', file'))"

section \<open>Identity\<close>

record Identity =
  serial :: string
  productCode :: string
  area :: string
  gameRegion :: string
  mac :: "u8 list"

definition serial_hash :: "string \<Rightarrow> u32" where
  "serial_hash s = foldl (\<lambda>hash c. (hash XOR ucast (char_byte c)) * 16777619) 2166136261 s"

definition mac_suffix :: "string \<Rightarrow> u32" where
  "mac_suffix s = (let suffix = serial_hash s AND 0x00FFFFFF
     in if suffix = 0 \<or> suffix = 0x00FFFFFF then suffix XOR 0x005A17C3 else suffix)"

definition FromSerial :: "string \<Rightarrow> Identity" where
  "FromSerial s = (let suffix = mac_suffix s in
     \<lparr>serial = s, productCode = [], area = [], gameRegion = [],
      mac = [0x00, 0x09, 0xBF, ucast (drop_bit 16 suffix), ucast (drop_bit 8 suffix), ucast suffix]\<rparr>)"

text \<open>No identity ends the program.\<close>

definition LoadFromNand :: "nand_file \<Rightarrow> Identity option" where
  "LoadFromNand file = (case Read file of
     None \<Rightarrow> None
   | Some m \<Rightarrow> if \<not> HasIdentity m then None
       else Some ((FromSerial (the (m ''SERNO'')))\<lparr>productCode := the (m ''CODE''), area := the (m ''AREA''), gameRegion := the (m ''GAME'')\<rparr>))"

definition hex_digit :: "nat \<Rightarrow> char" where
  "hex_digit n = ''0123456789ABCDEF'' ! n"

definition hex_byte :: "u8 \<Rightarrow> string" where
  "hex_byte b = [hex_digit (unat b div 16), hex_digit (unat b mod 16)]"

fun FormatMac :: "u8 list \<Rightarrow> string" where
  "FormatMac [] = []"
| "FormatMac [b] = hex_byte b"
| "FormatMac (b # bs) = hex_byte b @ '':'' @ FormatMac bs"

text \<open>The serial number as a word: the value to store, if any.\<close>

definition decimal :: "string \<Rightarrow> nat" where
  "decimal s = foldl (\<lambda>n c. 10 * n + (of_char c - 48)) 0 s"

definition ScSerial_Write :: "string \<Rightarrow> u32 \<Rightarrow> (u32 \<Rightarrow> nat \<Rightarrow> bool) \<Rightarrow> u32 option" where
  "ScSerial_Write s address contains =
     (if s = [] \<or> length s > 9 \<or> \<not> list_all (\<lambda>c. c \<in> set digits) s then None
      else if decimal s \<ge> 2 ^ 32 \<or> address = 0 \<or> \<not> contains address 4 then None
      else Some (of_nat (decimal s)))"

end
