(* ===== verification/Nand_Encoding_Laws.thy ===== *)
theory Nand_Encoding_Laws
  imports Nand_Settings
begin

text \<open>
  The encrypted settings: the rotating key has period 32, a line that would encode a zero byte is moved, and the
  reader finds the fields that the encoder wrote.
\<close>

section \<open>The key stream\<close>

definition key_at :: "nat \<Rightarrow> u32" where
  "key_at n = (rotate_key ^^ n) kInitialKey"

definition key_byte :: "nat \<Rightarrow> u8" where
  "key_byte n = ucast (key_at n)"

lemma key_at_0: "key_at 0 = kInitialKey" and rotate_key_at: "rotate_key (key_at n) = key_at (Suc n)"
  by (simp_all add: key_at_def)

fun key_chain :: "u32 list \<Rightarrow> bool" where
  "key_chain [] = True"
| "key_chain [k] = True"
| "key_chain (k # k' # ks) \<longleftrightarrow> rotate_key k = k' \<and> key_chain (k' # ks)"

lemma key_chain_at: "key_chain ks \<Longrightarrow> ks = key_at n # ks' \<Longrightarrow> i < length ks \<Longrightarrow> ks ! i = key_at (n + i)"
proof (induction ks arbitrary: n ks' i rule: key_chain.induct)
  case (3 k k' ks)
  then have "k' = key_at (Suc n)" using rotate_key_at [of n] by auto
  then show ?case using 3 by (cases i) auto
qed auto

definition key_table :: "u32 list" where
  "key_table = [
     0x73B5DBFA, 0xE76BB7F4, 0xCED76FE9, 0x9DAEDFD3, 0x3B5DBFA7, 0x76BB7F4E, 0xED76FE9C, 0xDAEDFD39,
     0xB5DBFA73, 0x6BB7F4E7, 0xD76FE9CE, 0xAEDFD39D, 0x5DBFA73B, 0xBB7F4E76, 0x76FE9CED, 0xEDFD39DA,
     0xDBFA73B5, 0xB7F4E76B, 0x6FE9CED7, 0xDFD39DAE, 0xBFA73B5D, 0x7F4E76BB, 0xFE9CED76, 0xFD39DAED,
     0xFA73B5DB, 0xF4E76BB7, 0xE9CED76F, 0xD39DAEDF, 0xA73B5DBF, 0x4E76BB7F, 0x9CED76FE, 0x39DAEDFD]"

lemma key_table_chain: "key_chain (key_table @ [kInitialKey])"
  by (simp add: key_table_def kInitialKey_def rotate_key_def)

lemma key_table_at: "i < 32 \<Longrightarrow> key_at i = key_table ! i" and key_at_32: "key_at 32 = kInitialKey"
proof -
  have h: "key_table @ [kInitialKey] = key_at 0 # tl (key_table @ [kInitialKey])" "length key_table = 32"
    by (simp_all add: key_table_def key_at_0 kInitialKey_def)
  show "i < 32 \<Longrightarrow> key_at i = key_table ! i"
    using key_chain_at [OF key_table_chain h(1), of i] h(2) by (simp add: nth_append)
  show "key_at 32 = kInitialKey"
    using key_chain_at [OF key_table_chain h(1), of 32] h(2) by (simp add: nth_append)
qed

lemma key_at_period: "key_at (n + 32) = key_at n"
  using key_at_32 unfolding key_at_def by (simp add: funpow_add)

lemma key_at_mod: "key_at n = key_at (n mod 32)"
proof -
  have "key_at (m + 32 * k) = key_at m" for m k
    by (induction k) (simp_all add: key_at_period add.assoc [symmetric] add.commute [of 32])
  from this [of "n mod 32" "n div 32"] show ?thesis by simp
qed

fun enc :: "nat \<Rightarrow> string \<Rightarrow> u8 list" where
  "enc p [] = []"
| "enc p (c # cs) = (char_byte c XOR key_byte p) # enc (Suc p) cs"

lemma length_enc [simp]: "length (enc p t) = length t"
  by (induction p t rule: enc.induct) auto

lemma enc_append: "enc p (a @ b) = enc p a @ enc (p + length a) b"
  by (induction p a rule: enc.induct) auto

text \<open>A text without an encoded zero at a position.\<close>

definition clear_at :: "nat \<Rightarrow> string \<Rightarrow> bool" where
  "clear_at p t \<longleftrightarrow> 0 \<notin> set (enc p t)"

lemma clear_at_mod: "clear_at p t = clear_at (p mod 32) t"
proof -
  have "enc p t = enc q t" if "p mod 32 = q mod 32" for q
    using that
  proof (induction p t arbitrary: q rule: enc.induct)
    case (2 p c cs)
    have "key_byte p = key_byte q" unfolding key_byte_def using 2(2) key_at_mod [of p] key_at_mod [of q] by simp
    moreover have "Suc p mod 32 = Suc q mod 32" using 2(2) by (metis mod_Suc)
    ultimately show ?case using 2(1) [of "Suc q"] by simp
  qed simp
  from this [of "p mod 32"] show ?thesis by (simp add: clear_at_def)
qed

lemma clear_at_append: "clear_at p (a @ b) \<longleftrightarrow> clear_at p a \<and> clear_at (p + length a) b"
  by (auto simp: clear_at_def enc_append)

section \<open>Encoding\<close>

definition holding :: "string \<Rightarrow> encoder" where
  "holding t = (enc 0 t @ replicate (256 - length t) 0, length t, key_at (length t))"

lemma writeChars_run:
  "p + length t \<le> length bytes \<Longrightarrow>
   writeChars t ((bytes, p, key_at p), h) =
     ((take p bytes @ enc p t @ drop (p + length t) bytes, p + length t, key_at (p + length t)), h \<or> \<not> clear_at p t)"
proof (induction t arbitrary: bytes p h)
  case (Cons c t)
  define b where "b = char_byte c XOR key_byte p"
  have w: "writeByte c (bytes, p, key_at p) = (bytes[p := b], Suc p, key_at (Suc p))"
    by (simp add: writeByte_def b_def key_byte_def rotate_key_at)
  have "take (Suc p) (bytes[p := b]) = take p bytes @ [b]" "bytes[p := b] ! p = b"
    using Cons.prems by (simp_all add: take_Suc_conv_app_nth)
  then show ?case using Cons.IH [of "Suc p" "bytes[p := b]"] Cons.prems
    by (simp add: w clear_at_def b_def [symmetric] Let_def disj_assoc)
qed (simp add: clear_at_def)

lemma writeLine_clear:
  assumes "p + length line \<le> length bytes" "clear_at p line"
  shows "writeLine line (bytes, p, key_at p) =
    Some (take p bytes @ enc p line @ drop (p + length line) bytes, p + length line, key_at (p + length line))"
  using assms by (simp add: writeChars_run)

lemma writeLine_run:
  "p + n + length line \<le> length bytes \<Longrightarrow> clear_at (p + n) line \<Longrightarrow>
   \<exists>r \<le> n. writeLine line (bytes, p, key_at p) = Some (take p bytes @ enc p (replicate r CHR 0x0A @ line) @ drop (p + r + length line) bytes,
     p + r + length line, key_at (p + r + length line))"
proof (induction n arbitrary: p bytes)
  case (Suc n)
  show ?case
  proof (cases "clear_at p line")
    case True
    then show ?thesis using Suc.prems by (intro exI [of _ 0]) (simp add: writeLine_clear del: writeLine.simps)
  next
    case False
    define failed where "failed = take p bytes @ enc p line @ drop (p + length line) bytes"
    define b where "b = char_byte CHR 0x0A XOR key_byte p"
    have len: "length failed = length bytes" using Suc.prems by (simp add: failed_def)
    have lf: "writeByte CHR 0x0A (failed, p, key_at p) = (failed[p := b], Suc p, key_at (Suc p))"
      by (simp add: writeByte_def b_def key_byte_def rotate_key_at)
    have "writeLine line (bytes, p, key_at p) = writeLine line (failed[p := b], Suc p, key_at (Suc p))"
      using False Suc.prems by (simp add: writeChars_run failed_def [symmetric] lf del: writeLine.simps add: writeLine.simps [of line bytes])
    moreover obtain r where r: "r \<le> n" "writeLine line (failed[p := b], Suc p, key_at (Suc p)) =
        Some (take (Suc p) (failed[p := b]) @ enc (Suc p) (replicate r CHR 0x0A @ line) @ drop (Suc p + r + length line) (failed[p := b]),
          Suc p + r + length line, key_at (Suc p + r + length line))"
      using Suc.IH [of "Suc p" "failed[p := b]"] Suc.prems len by auto
    moreover have "take (Suc p) (failed[p := b]) = take p bytes @ [b]"
      using Suc.prems len by (simp add: take_Suc_conv_app_nth) (simp add: failed_def)
    moreover have "drop (Suc p + r + length line) (failed[p := b]) = drop (Suc p + r + length line) bytes"
      using Suc.prems by (simp add: failed_def add_ac)
    ultimately show ?thesis by (intro exI [of _ "Suc r"]) (simp add: b_def add_ac del: writeLine.simps)
  qed
qed (auto simp: writeLine_clear simp del: writeLine.simps)

lemma writeLine_holding:
  assumes "length t + n + length line \<le> 256" "clear_at (length t + n) line"
  shows "\<exists>r \<le> n. writeLine line (holding t) = Some (holding (t @ replicate r CHR 0x0A @ line))"
proof -
  define z :: "u8 list" where "z = enc 0 t @ replicate (256 - length t) 0"
  have h: "holding t = (z, length t, key_at (length t))" by (simp add: holding_def z_def)
  obtain r where r: "r \<le> n" "writeLine line (holding t) = Some (take (length t) z @ enc (length t) (replicate r CHR 0x0A @ line) @
      drop (length t + r + length line) z, length t + r + length line, key_at (length t + r + length line))"
    unfolding h using writeLine_run [of "length t" n line z] assms by (auto simp: z_def simp del: writeLine.simps)
  have "take (length t) z @ enc (length t) (replicate r CHR 0x0A @ line) @ drop (length t + r + length line) z =
      enc 0 (t @ replicate r CHR 0x0A @ line) @ replicate (256 - length (t @ replicate r CHR 0x0A @ line)) 0"
    by (simp add: z_def enc_append)
  then show ?thesis using r by (intro exI [of _ r]) (simp add: holding_def add_ac)
qed

section \<open>New settings\<close>

lemma xor_zero: "a XOR b = 0 \<longleftrightarrow> a = (b :: 'a::len word)"
  by (metis xor.comm_neutral xor.assoc xor_self_eq xor.left_neutral)

text \<open>The low bytes of the keys with their phases.\<close>

definition low_bytes :: "(nat \<times> nat) list" where
  "low_bytes = [
     (0, 250), (1, 244), (2, 233), (3, 211), (4, 167), (5, 78), (6, 156), (7, 57), (8, 115), (9, 231),
     (10, 206), (11, 157), (12, 59), (13, 118), (14, 237), (15, 218), (16, 181), (17, 107), (18, 215),
     (19, 174), (20, 93), (21, 187), (22, 118), (23, 237), (24, 219), (25, 183), (26, 111), (27, 223),
     (28, 191), (29, 127), (30, 254), (31, 253)]"

lemma low_bytes_at: "(n mod 32, unat (key_byte n)) \<in> set low_bytes"
proof -
  have "map (\<lambda>k. unat (ucast k :: u8)) key_table = map snd low_bytes" by (simp add: key_table_def low_bytes_def)
  moreover have "map fst low_bytes = [0..<32]" by (simp add: low_bytes_def upt_rec)
  moreover have "n mod 32 < length low_bytes" "length low_bytes = length key_table" by (simp_all add: low_bytes_def key_table_def)
  ultimately have "low_bytes ! (n mod 32) = (n mod 32, unat (key_byte n))"
    unfolding key_byte_def using key_at_mod [of n] key_table_at [of "n mod 32"]
    by (metis (no_types, lifting) add_0 length_map mod_less_divisor nth_map nth_upt prod.collapse zero_less_numeral diff_zero length_upt)
  then show ?thesis using \<open>n mod 32 < length low_bytes\<close> by (metis nth_mem)
qed

text \<open>A character that no byte of the key stream clears, but for those of one phase.\<close>

definition safe_char :: "nat \<Rightarrow> char \<Rightarrow> bool" where
  "safe_char q c \<longleftrightarrow> list_all (\<lambda>(i, b). i = q \<or> b \<noteq> of_char c) low_bytes"

lemma safe_char_at: "safe_char q c \<Longrightarrow> n mod 32 \<noteq> q \<Longrightarrow> char_byte c \<noteq> key_byte n"
  unfolding safe_char_def list_all_iff using low_bytes_at [of n] char_byte_nat [of c] by fastforce

lemma safe_clear: "list_all (safe_char q) t \<Longrightarrow> \<forall>i < length t. (p + i) mod 32 \<noteq> q \<Longrightarrow> clear_at p t"
proof (induction t arbitrary: p)
  case (Cons c t)
  have "char_byte c \<noteq> key_byte p" using Cons.prems safe_char_at [of q c p] by (metis add_0_right length_greater_0_conv list.distinct(1) list.pred_inject(2))
  moreover have "clear_at (Suc p) t" using Cons.prems Cons.IH [of "Suc p"] by (metis add_Suc_shift length_Cons list.pred_inject(2) not_less_eq)
  ultimately show ?case by (simp add: clear_at_def xor_zero)
qed (simp add: clear_at_def)

lemma fixed_safe: "list_all (safe_char 32) ''AREUMODLV-01()P=Hx7FCEIGS2345678''" "list_all (safe_char 32) crlf"
  by (simp_all add: safe_char_def low_bytes_def crlf_def)

lemma special_safe: "safe_char 7 CHR ''9''" "safe_char 5 CHR ''N''"
  by (simp_all add: safe_char_def low_bytes_def)

lemma safe_weaken: "safe_char 32 c \<Longrightarrow> safe_char q c"
  by (auto simp: safe_char_def low_bytes_def)

lemma safe_32_clear: "list_all (safe_char 32) t \<Longrightarrow> clear_at p t"
  by (rule safe_clear) (auto simp: mod_less_divisor order_less_imp_not_eq)

lemma digits_all_safe: "list_all (safe_char 7) digits"
  by (simp add: digits_def safe_char_def low_bytes_def)

lemma digits_safe: "list_all (\<lambda>c. c \<in> set digits) s \<Longrightarrow> list_all (safe_char 7) s"
  using digits_all_safe unfolding list_all_iff by blast

lemma serial_line_clear:
  assumes "list_all (\<lambda>c. c \<in> set digits) s" "length s \<le> 9"
  shows "clear_at 67 (''SERNO='' @ s @ crlf)"
proof -
  have "clear_at 67 (''SER'' @ ''N'' @ ''O='' @ s @ crlf)"
    unfolding clear_at_append
  proof (intro conjI)
    show "clear_at (67 + length ''SER'') ''N''" by (rule safe_clear [of 5]) (simp_all add: special_safe)
    show "clear_at (67 + length ''SER'' + length ''N'' + length ''O='') s"
    proof (rule safe_clear [OF digits_safe [OF assms(1)]], intro allI impI)
      fix i assume "i < length s"
      then have "i < 9" using assms(2) by simp
      then have "(73 + i) mod 32 \<noteq> 7" by presburger
      then show "(67 + length ''SER'' + length ''N'' + length ''O='' + i) mod 32 \<noteq> 7" by simp
    qed
  qed (use fixed_safe in \<open>auto intro!: safe_32_clear\<close>)
  then show ?thesis by simp
qed

definition fixed_line :: "string \<Rightarrow> bool" where
  "fixed_line l \<longleftrightarrow> list_all (safe_char 32) l"

lemma writeLines_fixed:
  "list_all fixed_line ls \<Longrightarrow> length (t @ concat ls) \<le> 256 \<Longrightarrow>
   writeLines (ls @ ms) (holding t) = writeLines ms (holding (t @ concat ls))"
proof (induction ls arbitrary: t)
  case (Cons l ls)
  have "writeLine l (holding t) = Some (holding (t @ l))"
    using writeLine_holding [of t 0 l] Cons.prems safe_32_clear [of l] by (simp add: fixed_line_def del: writeLine.simps)
  then show ?case using Cons.IH [of "t @ l"] Cons.prems by (simp del: writeLine.simps)
qed simp

definition head_lines :: "string list" where
  "head_lines = map (\<lambda>l. l @ crlf) [''AREA=EUR'', ''MODEL=RVL-001(EUR)'', ''DVD=0'', ''MPCH=0x7FFE'', ''CODE=LEH'']"

definition tail_lines :: "string list" where
  "tail_lines = map (\<lambda>l. l @ crlf) [''VIDEO=PAL'', ''GAME=EU'']"

lemma fixed_lines: "list_all fixed_line head_lines" "list_all fixed_line tail_lines"
  using fixed_safe by (simp_all add: head_lines_def tail_lines_def fixed_line_def)

definition setting_text :: "string \<Rightarrow> nat \<Rightarrow> string" where
  "setting_text s r = concat head_lines @ replicate r CHR 0x0A @ (''SERNO='' @ s @ crlf) @ concat tail_lines"

lemma EncodeNew_text:
  assumes "valid_serial s"
  shows "\<exists>r \<le> 7. EncodeNew s = Some (fst (holding (setting_text s r)))"
proof -
  have d: "list_all (\<lambda>c. c \<in> set digits) s" "length s \<le> 9" using assms by (auto simp: valid_serial_def)
  have id: "HasIdentity [''SERNO'' \<mapsto> s, ''CODE'' \<mapsto> ''LEH'', ''AREA'' \<mapsto> ''EUR'', ''GAME'' \<mapsto> ''EU'']"
    using assms by (simp add: HasIdentity_def short_field_def)
  have lines: "setting_lines s = head_lines @ [''SERNO='' @ s @ crlf] @ tail_lines"
    by (simp add: setting_lines_def head_lines_def tail_lines_def)
  have "length (concat head_lines) = 60" "length (concat tail_lines) = 20" "length crlf = 2"
    by (simp_all add: head_lines_def tail_lines_def crlf_def)
  moreover from this obtain r where r: "r \<le> 7" "writeLine (''SERNO='' @ s @ crlf) (holding (concat head_lines)) =
      Some (holding (concat head_lines @ replicate r CHR 0x0A @ (''SERNO='' @ s @ crlf)))"
    using writeLine_holding [of "concat head_lines" 7 "''SERNO='' @ s @ crlf"] serial_line_clear [OF d] d(2)
    by (auto simp del: writeLine.simps)
  moreover have "(replicate 256 0, 0, kInitialKey) = holding []" by (simp add: holding_def key_at_0)
  ultimately have "writeLines (setting_lines s) (replicate 256 0, 0, kInitialKey) = Some (holding (setting_text s r))"
    using d(2) writeLines_fixed [OF fixed_lines(1), of "[]"] writeLines_fixed [OF fixed_lines(2), where ms = "[]"]
    by (simp add: lines setting_text_def del: writeLine.simps)
  then show ?thesis using id r(1) by (auto simp: EncodeNew_def)
qed

section \<open>Reading\<close>

lemma byte_char_back: "byte_char ((char_byte c XOR k) XOR k) = c"
  by (simp add: xor.assoc byte_char_def char_byte_nat)

lemma decode_enc:
  "CHR 0x00 \<notin> set t \<Longrightarrow> decode_bytes (enc p t @ bs) (key_at p) =
     filter (\<lambda>c. c \<noteq> CHR 0x0D) t @ decode_bytes bs (key_at (p + length t))"
proof (induction t arbitrary: p)
  case (Cons c t)
  have "byte_char ((char_byte c XOR key_byte p) XOR ucast (key_at p)) = c" using byte_char_back by (simp add: key_byte_def)
  then show ?case using Cons by (auto simp: Let_def rotate_key_at)
qed simp

definition plain_line :: "string \<Rightarrow> bool" where
  "plain_line l \<longleftrightarrow> CHR 0x00 \<notin> set l \<and> CHR 0x0A \<notin> set l \<and> CHR 0x0D \<notin> set l"

lemma getlines_plain: "list_all plain_line ls \<Longrightarrow>
   getlines (filter (\<lambda>c. c \<noteq> CHR 0x0D) (concat (map (\<lambda>l. l @ crlf) ls)) @ t) = ls @ getlines t"
proof (induction ls)
  case (Cons l ls)
  then have "filter (\<lambda>c. c \<noteq> CHR 0x0D) l = l" "filter (\<lambda>c. c \<noteq> CHR 0x0D) crlf = [CHR 0x0A]"
    by (auto simp: plain_line_def crlf_def filter_id_conv)
  then show ?case using Cons getlines_line [of l] by (simp add: plain_line_def)
qed simp

lemma getlines_feeds: "getlines (replicate r CHR 0x0A @ t) = replicate r [] @ getlines t"
  by (induction r) (use getlines_line [of "[]"] in auto)

lemma digit_plain: "c \<in> set digits \<Longrightarrow> c \<noteq> CHR 0x00 \<and> c \<noteq> CHR 0x0A \<and> c \<noteq> CHR 0x0D"
  by (auto simp: digits_def)

lemma digits_plain: "list_all (\<lambda>c. c \<in> set digits) s \<Longrightarrow> plain_line (''SERNO='' @ s)"
  using digit_plain by (fastforce simp: plain_line_def list_all_iff)

definition head_settings :: "string list" where
  "head_settings = [''AREA=EUR'', ''MODEL=RVL-001(EUR)'', ''DVD=0'', ''MPCH=0x7FFE'', ''CODE=LEH'']"

definition tail_settings :: "string \<Rightarrow> string list" where
  "tail_settings s = [''SERNO='' @ s, ''VIDEO=PAL'', ''GAME=EU'']"

lemma setting_text_lines: "setting_text s r = concat (map (\<lambda>l. l @ crlf) head_settings) @ replicate r CHR 0x0A @
    concat (map (\<lambda>l. l @ crlf) (tail_settings s))"
  by (simp add: setting_text_def head_lines_def tail_lines_def head_settings_def tail_settings_def)

lemma getlines_setting_text:
  assumes "list_all (\<lambda>c. c \<in> set digits) s"
  shows "getlines (filter (\<lambda>c. c \<noteq> CHR 0x0D) (setting_text s r) @ g) =
    head_settings @ replicate r [] @ tail_settings s @ getlines g"
proof -
  have "list_all plain_line head_settings" "list_all plain_line (tail_settings s)"
    using digits_plain [OF assms] by (simp_all add: head_settings_def tail_settings_def plain_line_def)
  then show ?thesis unfolding setting_text_lines filter_append append_assoc
    by (simp add: getlines_plain getlines_feeds filter_replicate del: filter_append)
qed

lemma add_setting_keeps: "m key = Some v \<Longrightarrow> fold add_setting ls m key = Some v"
proof (induction ls arbitrary: m)
  case (Cons l ls)
  have "add_setting l m key = Some v" using Cons.prems by (auto simp: add_setting_def Let_def)
  then show ?case using Cons.IH by simp
qed simp

lemma add_setting_Nil [simp]: "add_setting [] = id"
  by (simp add: add_setting_def fun_eq_iff)

definition new_settings :: "string \<Rightarrow> settings" where
  "new_settings s = [''AREA'' \<mapsto> ''EUR'', ''MODEL'' \<mapsto> ''RVL-001(EUR)'', ''DVD'' \<mapsto> ''0'', ''MPCH'' \<mapsto> ''0x7FFE'',
     ''CODE'' \<mapsto> ''LEH'', ''SERNO'' \<mapsto> s, ''VIDEO'' \<mapsto> ''PAL'', ''GAME'' \<mapsto> ''EU'']"

lemma fold_new_settings: "fold add_setting (head_settings @ replicate r [] @ tail_settings s) Map.empty = new_settings s"
proof -
  have "fold add_setting head_settings Map.empty =
      [''AREA'' \<mapsto> ''EUR'', ''MODEL'' \<mapsto> ''RVL-001(EUR)'', ''DVD'' \<mapsto> ''0'', ''MPCH'' \<mapsto> ''0x7FFE'', ''CODE'' \<mapsto> ''LEH'']"
    by (simp add: head_settings_def add_setting_def)
  then show ?thesis by (simp add: tail_settings_def add_setting_def new_settings_def)
qed

lemma setting_text_plain: "list_all (\<lambda>c. c \<in> set digits) s \<Longrightarrow> CHR 0x00 \<notin> set (setting_text s r)"
  using digit_plain by (fastforce simp: setting_text_def head_lines_def tail_lines_def crlf_def list_all_iff)

lemma setting_text_length: "valid_serial s \<Longrightarrow> r \<le> 7 \<Longrightarrow> length (setting_text s r) \<le> 256"
  by (auto simp: setting_text_def head_lines_def tail_lines_def crlf_def valid_serial_def)

lemma Read_new:
  assumes s: "valid_serial s" and e: "EncodeNew s = Some bytes"
  shows "length bytes = 256 \<and> (\<exists>m. Read (Contents bytes) = Some m \<and> new_settings s \<subseteq>\<^sub>m m)"
proof -
  have d: "list_all (\<lambda>c. c \<in> set digits) s" using s by (simp add: valid_serial_def)
  obtain r where r: "r \<le> 7" "bytes = fst (holding (setting_text s r))" using EncodeNew_text [OF s] e by auto
  have len: "length bytes = 256" using setting_text_length [OF s r(1)] r(2) by (simp add: holding_def)
  have "decode_bytes bytes kInitialKey = filter (\<lambda>c. c \<noteq> CHR 0x0D) (setting_text s r) @
      decode_bytes (replicate (256 - length (setting_text s r)) 0) (key_at (length (setting_text s r)))"
    using decode_enc [OF setting_text_plain [OF d], of 0] by (simp add: r(2) holding_def key_at_0)
  then obtain g where g: "decode_bytes bytes kInitialKey = filter (\<lambda>c. c \<noteq> CHR 0x0D) (setting_text s r) @ g" ..
  have "Read (Contents bytes) = Some (fold add_setting (getlines g) (new_settings s))"
    using len fold_new_settings [of r s] by (simp add: Read_def g getlines_setting_text [OF d])
  moreover have "new_settings s \<subseteq>\<^sub>m fold add_setting (getlines g) (new_settings s)"
    unfolding map_le_def dom_def using add_setting_keeps by fastforce
  ultimately show ?thesis using len by blast
qed

lemma map_leD: "m \<subseteq>\<^sub>m m' \<Longrightarrow> m k = Some v \<Longrightarrow> m' k = Some v"
  by (auto simp: map_le_def dom_def)

lemma new_HasIdentity: "valid_serial s \<Longrightarrow> new_settings s \<subseteq>\<^sub>m m \<Longrightarrow> HasIdentity m \<and> m ''SERNO'' = Some s"
proof -
  assume v: "valid_serial s" and le: "new_settings s \<subseteq>\<^sub>m m"
  have "m ''SERNO'' = Some s" "m ''CODE'' = Some ''LEH''" "m ''AREA'' = Some ''EUR''" "m ''GAME'' = Some ''EU''"
    by (rule map_leD [OF le], simp add: new_settings_def)+
  then show ?thesis using v by (simp add: HasIdentity_def short_field_def)
qed

lemma EncodeNew_invalid: "\<not> valid_serial s \<Longrightarrow> EncodeNew s = None"
  by (simp add: EncodeNew_def HasIdentity_def)

text \<open>The identity of a serial number, as the first launch creates it.\<close>

definition new_identity :: "string \<Rightarrow> Identity" where
  "new_identity s = (FromSerial s)\<lparr>productCode := ''LEH'', area := ''EUR'', gameRegion := ''EU''\<rparr>"

lemma LoadFromNand_new: "valid_serial s \<Longrightarrow> EncodeNew s = Some bytes \<Longrightarrow> LoadFromNand (Contents bytes) = Some (new_identity s)"
proof -
  assume v: "valid_serial s" "EncodeNew s = Some bytes"
  then obtain m where m: "Read (Contents bytes) = Some m" "new_settings s \<subseteq>\<^sub>m m" using Read_new by blast
  have "m ''CODE'' = Some ''LEH''" "m ''AREA'' = Some ''EUR''" "m ''GAME'' = Some ''EU''"
    by (rule map_leD [OF m(2)], simp add: new_settings_def)+
  then show ?thesis using new_HasIdentity [OF v(1) m(2)] m(1) by (simp add: LoadFromNand_def new_identity_def)
qed

section \<open>Serial numbers\<close>

lemma digit_char: "d < 10 \<Longrightarrow> char_of (48 + d) \<in> set digits" "d < 10 \<Longrightarrow> of_char (char_of (48 + d) :: char) = 48 + (d :: nat)"
proof -
  assume "d < 10"
  moreover have "digits = map (\<lambda>d. char_of (48 + d)) [0..<10]" by code_simp
  ultimately show "char_of (48 + d) \<in> set digits" by (metis atLeastLessThan_iff image_eqI set_map set_upt zero_le)
next
  assume "d < 10"
  then show "of_char (char_of (48 + d) :: char) = 48 + d" by (simp add: of_char_of)
qed

lemma to_string_digits: "list_all (\<lambda>c. c \<in> set digits) (to_string n)"
  by (induction n rule: to_string.induct) (subst to_string.simps, auto simp: digit_char)

lemma decimal_snoc: "decimal (xs @ [c]) = 10 * decimal xs + (of_char c - 48)"
  by (simp add: decimal_def)

lemma decimal_to_string: "decimal (to_string n) = n"
proof (induction n rule: to_string.induct)
  case (1 n)
  show ?case
  proof (cases "n < 10")
    case True
    then show ?thesis by (subst to_string.simps) (simp add: decimal_def digit_char)
  next
    case False
    then show ?thesis using 1 by (subst to_string.simps) (simp add: decimal_snoc digit_char)
  qed
qed

lemma length_to_string: "n < 10 ^ Suc k \<Longrightarrow> length (to_string n) \<le> Suc k"
proof (induction k arbitrary: n)
  case (Suc k)
  show ?case
  proof (cases "n < 10")
    case False
    have "n div 10 < 10 ^ Suc k" using Suc.prems by (simp add: less_mult_imp_div_less)
    then show ?thesis using Suc.IH False by (subst to_string.simps) simp
  qed (subst to_string.simps, simp)
qed (subst to_string.simps, simp)

lemma to_string_nonempty: "to_string n \<noteq> []"
  by (subst to_string.simps) simp

lemma decimal_zeros: "decimal (replicate k CHR ''0'' @ s) = decimal s"
  by (induction k) (simp_all add: decimal_def)

lemma all_zeros: "list_all (\<lambda>c. c = CHR ''0'') s \<Longrightarrow> decimal s = 0"
proof -
  assume "list_all (\<lambda>c. c = CHR ''0'') s"
  then have "s = replicate (length s) CHR ''0'' @ []" by (simp add: list_all_iff replicate_length_same)
  then show ?thesis using decimal_zeros [of "length s" "[]"] by (simp add: decimal_def)
qed

lemma zero_digit: "list_all (\<lambda>c. c \<in> set digits) (replicate k CHR ''0'')"
  by (simp add: list_all_iff digits_def)

lemma GenerateSerial_digits: "0 \<le> now \<Longrightarrow> decimal (GenerateSerial now) = nat (now mod 1000000000) \<and>
    length (GenerateSerial now) = 9 \<and> list_all (\<lambda>c. c \<in> set digits) (GenerateSerial now)"
proof -
  assume "0 \<le> now"
  moreover have "length (to_string (nat (now mod 1000000000))) \<le> 9"
    using length_to_string [of "nat (now mod 1000000000)" 8] by (simp add: nat_less_iff)
  ultimately show ?thesis
    using to_string_digits by (simp add: GenerateSerial_def Let_def decimal_zeros decimal_to_string list_all_append zero_digit)
qed

lemma GenerateSerial_valid: "valid_serial (GenerateSerial now) \<longleftrightarrow> 0 \<le> now \<and> now mod 1000000000 \<noteq> 0"
proof (cases "0 \<le> now")
  case True
  show ?thesis
  proof (cases "now mod 1000000000 = 0")
    case True
    have "to_string 0 = ''0''" by code_simp
    then show ?thesis using \<open>0 \<le> now\<close> True by (simp add: GenerateSerial_def valid_serial_def list_all_iff)
  next
    case False
    have "now mod 1000000000 \<ge> 0" by simp
    then have "nat (now mod 1000000000) \<noteq> 0" using False by linarith
    then have "\<not> list_all (\<lambda>c. c = CHR ''0'') (GenerateSerial now)" using GenerateSerial_digits [OF True] all_zeros by metis
    moreover have "GenerateSerial now \<noteq> []" using GenerateSerial_digits [OF True] by auto
    ultimately show ?thesis using GenerateSerial_digits [OF True] False True by (simp add: valid_serial_def)
  qed
qed (simp add: GenerateSerial_def valid_serial_def)

section \<open>Properties\<close>

text \<open>C34: new settings are read back.  They are encoded exactly for a valid serial number, one of up to nine digits
  that are not all zero: the line feeds that keep encoded bytes from being zero always suffice.  The file has 256
  bytes, and reading it, its raw tail included, finds every field as it was written and the identity of the serial
  number.\<close>

theorem settings_roundtrip:
  "(EncodeNew s \<noteq> None \<longleftrightarrow> valid_serial s) \<and>
   (\<forall>bytes. EncodeNew s = Some bytes \<longrightarrow> length bytes = 256 \<and>
     (\<exists>m. Read (Contents bytes) = Some m \<and> new_settings s \<subseteq>\<^sub>m m \<and> HasIdentity m) \<and>
     LoadFromNand (Contents bytes) = Some (new_identity s))"
proof (cases "valid_serial s")
  case True
  then show ?thesis using EncodeNew_text Read_new LoadFromNand_new new_HasIdentity by (metis not_Some_eq)
qed (simp add: EncodeNew_invalid)

lemma settings_roundtrip_witness:
  "\<exists>bytes. EncodeNew ''999999999'' = Some bytes \<and> length bytes = 256 \<and> LoadFromNand (Contents bytes) = Some (new_identity ''999999999'')"
proof -
  have "valid_serial ''999999999''" by (simp add: valid_serial_def digits_def)
  then show ?thesis using settings_roundtrip [of "''999999999''"] by blast
qed


end
