(* ===== verification/Nand_Launch_Laws.thy ===== *)
theory Nand_Launch_Laws
  imports Nand_Encoding_Laws
begin

text \<open>
  The first launch as a state machine, for any number of launches at the same time.
\<close>

section \<open>Launches at the same time\<close>

datatype launch = Starting nand_env int | Publishing nand_env "u8 list" | Published bool | Returned "string + unit"

inductive launch_step :: "nand_file \<Rightarrow> launch \<Rightarrow> nand_file \<Rightarrow> launch \<Rightarrow> bool" where
  stops_early: "ensure_begin env now file = Inl r \<Longrightarrow> launch_step file (Starting env now) file (Returned r)"
| prepares: "ensure_begin env now file = Inr bytes \<Longrightarrow> launch_step file (Starting env now) file (Publishing env bytes)"
| publishes: "ensure_publish env bytes file = (b, file') \<Longrightarrow> launch_step file (Publishing env bytes) file' (Published b)"
| reads_back: "launch_step file (Published b) file (Returned (ensure_end b file))"

text \<open>Any number of launches, in any interleaving.\<close>

inductive system_steps :: "nand_file \<times> (nat \<Rightarrow> launch) \<Rightarrow> nand_file \<times> (nat \<Rightarrow> launch) \<Rightarrow> bool" where
  none: "system_steps s s"
| one: "system_steps s (file, ls) \<Longrightarrow> launch_step file (ls i) file' l \<Longrightarrow> system_steps s (file', ls(i := l))"

inductive_cases launch_stepE: "launch_step file l file' l'"

text \<open>A file that is there stays as it is.\<close>

lemma step_file: "launch_step file l file' l' \<Longrightarrow> file \<noteq> Absent \<Longrightarrow> file' = file"
  by (auto elim!: launch_stepE simp: ensure_publish_def split: if_splits)

lemma steps_file: "system_steps s t \<Longrightarrow> fst s \<noteq> Absent \<Longrightarrow> fst t = fst s"
  by (induction rule: system_steps.induct) (auto dest: step_file)

definition has_identity :: "nand_file \<Rightarrow> bool" where
  "has_identity file \<longleftrightarrow> (\<exists>m. Read file = Some m \<and> HasIdentity m)"

lemma ensure_end_ok: "ensure_end b file = Inr u \<longleftrightarrow> has_identity file"
  by (auto simp: ensure_end_def has_identity_def split: option.splits)

lemma ensure_begin_ok: "ensure_begin env now file = Inl (Inr u) \<Longrightarrow> has_identity file"
  by (auto simp: ensure_begin_def has_identity_def split: if_splits option.splits)

lemma has_identity_file: "has_identity file \<Longrightarrow> file \<noteq> Absent"
  by (auto simp: has_identity_def Read_def)

lemma LoadFromNand_identity: "has_identity file \<Longrightarrow> \<exists>id. LoadFromNand file = Some id"
  by (auto simp: has_identity_def LoadFromNand_def)

definition all_starting :: "(nat \<Rightarrow> nand_env \<times> int) \<Rightarrow> nat \<Rightarrow> launch" where
  "all_starting start i = Starting (fst (start i)) (snd (start i))"

definition granted :: "nand_env \<Rightarrow> bool" where
  "granted env \<longleftrightarrow> inspect_ok env \<and> directories_ok env \<and> scratch_ok env \<and> write_ok env \<and> link_ok env"

text \<open>The invariant of the launches: what each stage of a launch has made sure of.\<close>

definition launch_inv :: "nand_file \<Rightarrow> nand_env \<times> int \<Rightarrow> nand_file \<Rightarrow> launch \<Rightarrow> bool" where
  "launch_inv file0 start file l = (case l of
     Starting env now \<Rightarrow> (env, now) = start
   | Publishing env bytes \<Rightarrow> env = fst start \<and> file0 = Absent \<and>
       EncodeNew (GenerateSerial (snd start)) = Some bytes
   | Published b \<Rightarrow> file0 = Absent \<and> (granted (fst start) \<longrightarrow> file \<noteq> Absent)
   | Returned r \<Rightarrow> (r = Inr () \<longrightarrow> has_identity file) \<and>
       (file0 = Absent \<and> granted (fst start) \<and> valid_serial (GenerateSerial (snd start)) \<longrightarrow> r = Inr ()))"

definition file_inv :: "nand_file \<Rightarrow> (nat \<Rightarrow> nand_env \<times> int) \<Rightarrow> nand_file \<Rightarrow> bool" where
  "file_inv file0 start file \<longleftrightarrow> file = file0 \<or>
     file0 = Absent \<and> (\<exists>i bytes. EncodeNew (GenerateSerial (snd (start i))) = Some bytes \<and> file = Contents bytes)"

lemma encoded_valid: "EncodeNew s = Some bytes \<Longrightarrow> valid_serial s \<and> has_identity (Contents bytes)"
  using EncodeNew_invalid [of s] Read_new [of s bytes] new_HasIdentity by (auto simp: has_identity_def)

lemma file_inv_identity: "file_inv Absent start file \<Longrightarrow> file \<noteq> Absent \<Longrightarrow> has_identity file"
  using encoded_valid by (auto simp: file_inv_def)

lemma ensure_begin_bytes: "ensure_begin env now file = Inr bytes \<longleftrightarrow>
    inspect_ok env \<and> directories_ok env \<and> scratch_ok env \<and> file = Absent \<and> EncodeNew (GenerateSerial now) = Some bytes"
  by (auto simp: ensure_begin_def split: option.splits if_splits)

lemma ensure_begin_granted: "granted env \<Longrightarrow> valid_serial (GenerateSerial now) \<Longrightarrow> file = Absent \<or> has_identity file \<Longrightarrow>
    ensure_begin env now file = Inl r \<Longrightarrow> r = Inr ()"
  using EncodeNew_text [of "GenerateSerial now"]
  by (auto simp: ensure_begin_def granted_def has_identity_def Read_def split: option.splits if_splits)

lemma launch_inv_step:
  assumes step: "launch_step file l file' l'" and inv: "launch_inv file0 start file l" and f: "file_inv file0 starts file"
  shows "launch_inv file0 start file' l'"
  using step
proof cases
  case (stops_early env now r)
  have "has_identity file" if "r = Inr ()" using stops_early that ensure_begin_ok by blast
  moreover have "r = Inr ()" if "file0 = Absent" "granted env" "valid_serial (GenerateSerial now)"
    using ensure_begin_granted [OF that(2,3) _ stops_early(4)] file_inv_identity f that(1) by blast
  ultimately show ?thesis using inv stops_early by (auto simp: launch_inv_def)
next
  case (prepares env now bytes)
  then have "file = Absent" using ensure_begin_bytes by blast
  then have "file0 = Absent" using f by (auto simp: file_inv_def)
  then show ?thesis using inv prepares ensure_begin_bytes by (auto simp: launch_inv_def)
next
  case (publishes env bytes b)
  then show ?thesis using inv by (auto simp: launch_inv_def ensure_publish_def granted_def split: if_splits)
next
  case (reads_back b)
  then show ?thesis using inv ensure_end_ok [of b "file"] file_inv_identity [of starts "file"] f
    by (auto simp: launch_inv_def) 
qed

lemma launch_inv_file: "launch_inv file0 start file l \<Longrightarrow> launch_step file m file' m' \<Longrightarrow> launch_inv file0 start file' l"
  using step_file [of "file" m "file'" m'] has_identity_file
  by (cases "file = Absent") (auto simp: launch_inv_def split: launch.splits)

lemma file_inv_step:
  assumes "launch_step file l file' l'" "launch_inv file0 (starts i) file l" "file_inv file0 starts file"
  shows "file_inv file0 starts file'"
  using assms by (cases) (auto simp: launch_inv_def file_inv_def ensure_publish_def split: if_splits)

lemma reach_inv:
  "system_steps s t \<Longrightarrow> s = (file0, all_starting starts) \<Longrightarrow>
   file_inv file0 starts (fst t) \<and> (\<forall>i. launch_inv file0 (starts i) (fst t) (snd t i))"
proof (induction rule: system_steps.induct)
  case (none s)
  then show ?case by (simp add: file_inv_def launch_inv_def all_starting_def)
next
  case (one s fl ls i fl' l)
  then show ?case using launch_inv_step [OF one.hyps(2)] launch_inv_file [OF _ one.hyps(2)] file_inv_step [OF one.hyps(2)]
    by simp blast
qed

text \<open>C35: launches at the same time agree on one console.  In every interleaving of any number of launches, a
  settings file that is there is never replaced; a file that a launch has created holds the identity of a serial
  number that one of the launches generated; a launch that has succeeded has found an identity, which every later
  load finds again; and on a system that had no file, a launch to which the file system grants its requests, and
  whose clock is not a multiple of \<open>10\<^sup>9\<close> seconds, can only succeed.\<close>

theorem launches_agree:
  assumes start: "system_steps (file0, all_starting starts) (file, ls)" and later: "system_steps (file, ls) (file', ls')"
  shows "(file \<noteq> Absent \<longrightarrow> file' = file) \<and>
    (file \<noteq> file0 \<longrightarrow> (\<exists>i. valid_serial (GenerateSerial (snd (starts i))) \<and>
       LoadFromNand file = Some (new_identity (GenerateSerial (snd (starts i)))))) \<and>
    (ls i = Returned (Inr ()) \<longrightarrow> LoadFromNand file \<noteq> None \<and> LoadFromNand file' = LoadFromNand file) \<and>
    (file0 = Absent \<and> granted (fst (starts i)) \<and> 0 \<le> snd (starts i) \<and> snd (starts i) mod 1000000000 \<noteq> 0 \<and>
       ls i = Returned r \<longrightarrow> r = Inr ())"
proof (intro conjI impI)
  have inv: "file_inv file0 starts file" "launch_inv file0 (starts i) file (ls i)" for i
    using reach_inv [OF start] by auto
  show same: "file' = file" if "file \<noteq> Absent" using steps_file [OF later] that by simp
  show "\<exists>i. valid_serial (GenerateSerial (snd (starts i))) \<and> LoadFromNand file = Some (new_identity (GenerateSerial (snd (starts i))))"
    if "file \<noteq> file0"
    using inv(1) that encoded_valid LoadFromNand_new unfolding file_inv_def by metis
  show "LoadFromNand file \<noteq> None" "LoadFromNand file' = LoadFromNand file" if "ls i = Returned (Inr ())"
  proof -
    have "has_identity file" using inv(2) [of i] that by (simp add: launch_inv_def)
    then show "LoadFromNand file \<noteq> None" "LoadFromNand file' = LoadFromNand file"
      using LoadFromNand_identity same has_identity_file by auto
  qed
  show "r = Inr ()" if "file0 = Absent \<and> granted (fst (starts i)) \<and> 0 \<le> snd (starts i) \<and> snd (starts i) mod 1000000000 \<noteq> 0 \<and> ls i = Returned r"
    using inv(2) [of i] that GenerateSerial_valid by (simp add: launch_inv_def)
qed

text \<open>Two launches a second apart, which both find no file; the first publishes its own.\<close>

definition race :: "nat \<Rightarrow> nand_env \<times> int" where
  "race i = (\<lparr>inspect_ok = True, directories_ok = True, scratch_ok = True, write_ok = True, link_ok = True\<rparr>, 1700000000 + int i)"

lemma race_steps:
  "\<exists>bytes ls. system_steps (Absent, all_starting race) (Contents bytes, ls) \<and>
     (\<exists>r. ls 0 = Returned r) \<and> (\<exists>r. ls 1 = Returned r)"
proof -
  have "valid_serial (GenerateSerial (snd (race i)))" if "i = 0 \<or> i = 1" for i
    using that by (auto simp: GenerateSerial_valid race_def)
  then obtain b0 b1 where b: "EncodeNew (GenerateSerial (snd (race 0))) = Some b0" "EncodeNew (GenerateSerial (snd (race 1))) = Some b1"
    using EncodeNew_text by metis
  define env where "env = fst (race 0)"
  have env: "fst (race i) = env" "granted env" for i by (simp_all add: env_def race_def granted_def)
  define l1 where "l1 = (all_starting race)(0 := Publishing env b0)"
  define l2 where "l2 = l1(1 := Publishing env b1)"
  define l3 where "l3 = l2(0 := Published True)"
  define l4 where "l4 = l3(1 := Published False)"
  define l5 where "l5 = l4(0 := Returned (ensure_end True (Contents b0)))"
  define l6 where "l6 = l5(1 := Returned (ensure_end False (Contents b0)))"
  have "launch_step Absent (all_starting race 0) Absent (Publishing env b0)"
    using b env unfolding all_starting_def env(1) by (intro prepares) (simp add: ensure_begin_bytes granted_def)
  with none have "system_steps (Absent, all_starting race) (Absent, l1)" unfolding l1_def by (rule one)
  moreover have "launch_step Absent (l1 1) Absent (Publishing env b1)"
    using b env unfolding l1_def all_starting_def by (simp add: env(1)) (intro prepares, simp add: ensure_begin_bytes granted_def)
  ultimately have "system_steps (Absent, all_starting race) (Absent, l2)" unfolding l2_def by (rule one)
  moreover have "launch_step Absent (l2 0) (Contents b0) (Published True)"
    using env unfolding l2_def l1_def by (simp, intro publishes, simp add: ensure_publish_def granted_def)
  ultimately have "system_steps (Absent, all_starting race) (Contents b0, l3)" unfolding l3_def by (rule one)
  moreover have "launch_step (Contents b0) (l3 1) (Contents b0) (Published False)"
    unfolding l3_def l2_def by (simp, intro publishes, simp add: ensure_publish_def)
  ultimately have "system_steps (Absent, all_starting race) (Contents b0, l4)" unfolding l4_def by (rule one)
  moreover have "launch_step (Contents b0) (l4 0) (Contents b0) (Returned (ensure_end True (Contents b0)))"
    unfolding l4_def l3_def by (simp, rule reads_back)
  ultimately have "system_steps (Absent, all_starting race) (Contents b0, l5)" unfolding l5_def by (rule one)
  moreover have "launch_step (Contents b0) (l5 1) (Contents b0) (Returned (ensure_end False (Contents b0)))"
    unfolding l5_def l4_def by (simp, rule reads_back)
  ultimately have "system_steps (Absent, all_starting race) (Contents b0, l6)" unfolding l6_def by (rule one)
  then show ?thesis by (intro exI [of _ b0] exI [of _ l6]) (simp add: l6_def l5_def)
qed

lemma launches_agree_witness:
  "\<exists>bytes ls. system_steps (Absent, all_starting race) (Contents bytes, ls) \<and>
     ls 0 = Returned (Inr ()) \<and> ls 1 = Returned (Inr ()) \<and> LoadFromNand (Contents bytes) \<noteq> None"
proof -
  obtain bytes ls r0 r1 where s: "system_steps (Absent, all_starting race) (Contents bytes, ls)" "ls 0 = Returned r0" "ls 1 = Returned r1"
    using race_steps by blast
  have g: "granted (fst (race i))" for i by (simp add: race_def granted_def)
  have t: "0 \<le> snd (race i) \<and> snd (race i) mod 1000000000 \<noteq> 0" if "i = 0 \<or> i = 1" for i using that by (auto simp: race_def)
  have "r0 = Inr ()" using launches_agree [OF s(1) none, of 0 r0] s(2) g t by simp
  moreover have "r1 = Inr ()" using launches_agree [OF s(1) none, of 1 r1] s(3) g t by simp
  moreover have "LoadFromNand (Contents bytes) \<noteq> None" using launches_agree [OF s(1) none, of 0 r0] s(2) calculation by simp
  ultimately show ?thesis using s by blast
qed
end
