(* ===== verification/Sorted_Map.thy ===== *)
theory Sorted_Map
  imports Text_Lines "HOL-Library.Char_ord" "HOL-Library.List_Lexorder"
begin

text \<open>
  \<open>std::map\<close>: the pairs in the order of their keys.  Strings are ordered as \<open>std::string\<close> orders them, by the codes
  of their characters.  The locale \<open>map_ops\<close> is what the clients use; the sorted list is its instance.
\<close>

locale map_ops =
  fixes put :: "'k \<Rightarrow> 'v \<Rightarrow> 'm \<Rightarrow> 'm"
    and get :: "'m \<Rightarrow> 'k \<Rightarrow> 'v option"
    and empty :: 'm
  assumes get_empty: "get empty k = None"
    and get_put: "get (put k v m) k' = (if k' = k then Some v else get m k')"
begin

text \<open>Of several values for a key the last one stays.\<close>

lemma get_fold_put:
  "get (fold (\<lambda>x. put (f x) (g x)) xs m) k =
     (case filter (\<lambda>x. f x = k) xs of [] \<Rightarrow> get m k | y # ys \<Rightarrow> Some (g (last (y # ys))))"
  by (induction xs arbitrary: m) (auto simp: get_put split: list.splits)

lemma get_fold_put_None: "get (fold (\<lambda>x. put (f x) (g x)) xs empty) k = None \<longleftrightarrow> k \<notin> f ` set xs"
proof (cases "filter (\<lambda>x. f x = k) xs")
  case (Cons y ys)
  then have "y \<in> set (filter (\<lambda>x. f x = k) xs)" by simp
  then have "y \<in> set xs" "f y = k" by simp_all
  then show ?thesis using Cons by (auto simp: get_fold_put)
qed (auto simp: get_fold_put get_empty filter_empty_conv)

end

fun map_put :: "'k::linorder \<Rightarrow> 'v \<Rightarrow> ('k \<times> 'v) list \<Rightarrow> ('k \<times> 'v) list" where
  "map_put k v [] = [(k, v)]"
| "map_put k v ((k', v') # m) =
     (if k < k' then (k, v) # (k', v') # m
      else if k = k' then (k, v) # m
      else (k', v') # map_put k v m)"

interpretation smap: map_ops map_put map_of "[]"
proof
  show "map_of (map_put k v m) k' = (if k' = k then Some v else map_of m k')" for k k' :: "'a::linorder" and v :: 'b and m
    by (induction m) auto
qed simp

definition map_ok :: "('k::linorder \<times> 'v) list \<Rightarrow> bool" where
  "map_ok m \<longleftrightarrow> sorted (map fst m) \<and> distinct (map fst m)"

lemma map_ok_Nil [simp]: "map_ok []"
  by (simp add: map_ok_def)

lemma map_ok_Cons: "map_ok ((k, v) # m) \<longleftrightarrow> map_ok m \<and> (\<forall>k' \<in> fst ` set m. k < k')"
  by (auto simp: map_ok_def less_le)

lemma map_put_keys: "set (map fst (map_put k v m)) = insert k (set (map fst m))"
  by (induction k v m rule: map_put.induct) auto

lemma map_ok_put: "map_ok m \<Longrightarrow> map_ok (map_put k v m)"
proof (induction k v m rule: map_put.induct)
  case (2 k v k' v' m)
  consider "k < k'" | "k = k'" | "k' < k" by (rule linorder_cases)
  then show ?case
  proof cases
    case 3
    then show ?thesis using 2 map_put_keys [of k v m] by (auto simp: map_ok_Cons)
  qed (use 2 in \<open>auto simp: map_ok_Cons intro: less_trans\<close>)
qed (simp add: map_ok_Cons)

lemma map_of_iff: "map_ok m \<Longrightarrow> map_of m k = Some v \<longleftrightarrow> (k, v) \<in> set m"
  by (simp add: map_ok_def)

lemma map_put_values: "(k', v') \<in> set (map_put k v m) \<Longrightarrow> (k', v') = (k, v) \<or> (k', v') \<in> set m"
  by (induction m) (auto split: if_splits)

lemma map_put_not_Nil [simp]: "map_put k v m \<noteq> []"
  by (cases "(k, v, m)" rule: map_put.cases) auto

end
