(* ===== verification/Dvd_Fst.thy ===== *)
theory Dvd_Fst
  imports Sorted_Map Guest_Memory "HOL-Library.Multiset"
begin

text \<open>
  The file table of the disc (\<open>runtime/include/hle/dvd_contract.h\<close>), which is built from the registered files, and
  the reader of the file table of the extracted disc (\<open>LoadFstIndex\<close> of \<open>runtime/src/hle/storage/dvd.cpp\<close>).
  An exception is its message.
\<close>

record RegisteredFile =
  rf_hostPath :: string
  rf_dvdPath :: string
  rf_size :: u32
  rf_discOffsetWords :: u32

record IndexedEntry =
  ie_hostPath :: string
  ie_dvdPath :: string
  ie_size :: u32
  ie_discOffsetWords :: u32
  parentIndex :: u32
  subtreeEnd :: u32
  ie_isDirectory :: bool

record Image =
  entries :: "IndexedEntry list"
  pathToEntry :: "string \<Rightarrow> int option"
  bytes :: "u8 list"

section \<open>Paths\<close>

text \<open>The non-empty components between slashes.\<close>

function path_components :: "string \<Rightarrow> string list" where
  "path_components path = (case dropWhile (\<lambda>c. c = CHR ''/'') path of
     [] \<Rightarrow> []
   | c # cs \<Rightarrow> takeWhile (\<lambda>d. d \<noteq> CHR ''/'') (c # cs) # path_components (dropWhile (\<lambda>d. d \<noteq> CHR ''/'') (c # cs)))"
  by pat_completeness auto
termination
proof (relation "measure length")
  fix path c cs
  assume p: "dropWhile (\<lambda>c. c = CHR ''/'') path = c # cs"
  have "c \<noteq> CHR ''/''" using hd_dropWhile [of "\<lambda>c. c = CHR ''/''" path] by (simp add: p)
  then have "length (dropWhile (\<lambda>d. d \<noteq> CHR ''/'') (c # cs)) < length (c # cs)"
    using length_dropWhile_le [of "\<lambda>d. d \<noteq> CHR ''/''" cs] by simp
  moreover have "length (c # cs) \<le> length path" using length_dropWhile_le [of "\<lambda>c. c = CHR ''/''" path] by (simp add: p)
  ultimately show "(dropWhile (\<lambda>d. d \<noteq> CHR ''/'') (c # cs), path) \<in> measure length" by simp
qed simp

declare path_components.simps [simp del]

definition add_component :: "string \<Rightarrow> string list \<Rightarrow> string list" where
  "add_component c cs = (if c = ''.'' then cs else if c = ''..'' then butlast cs else cs @ [c])"

fun join_path :: "string list \<Rightarrow> string" where
  "join_path [] = []"
| "join_path [c] = c"
| "join_path (c # cs) = c @ CHR ''/'' # join_path cs"

definition canonical_components :: "string \<Rightarrow> string list" where
  "canonical_components input =
     fold add_component (path_components (map (\<lambda>c. if c = CHR 0x5C then CHR ''/'' else c) input)) []"

definition CanonicalizePath :: "string \<Rightarrow> string" where
  "CanonicalizePath input = CHR ''/'' # join_path (canonical_components input)"

definition NormalizeLookupPath :: "string \<Rightarrow> string" where
  "NormalizeLookupPath input = Lowercase (CanonicalizePath input)"

definition Components :: "string \<Rightarrow> string list" where
  "Components canonicalPath = (if canonicalPath = ''/'' then [] else split_on CHR ''/'' (tl canonicalPath))"

section \<open>The tree of the files\<close>

datatype TreeNode = TreeNode (tname: string) (tchildren: "(string \<times> TreeNode) list") (tfile: "RegisteredFile option")

fun add_file :: "string list \<Rightarrow> string \<Rightarrow> RegisteredFile \<Rightarrow> TreeNode \<Rightarrow> TreeNode" where
  "add_file [] back f (TreeNode n ch _) = TreeNode back ch (Some f)"
| "add_file (c # cs) back f (TreeNode n ch fl) =
     (let child = (case map_of ch (Lowercase c) of None \<Rightarrow> TreeNode c [] None | Some t \<Rightarrow> t)
      in TreeNode n (map_put (Lowercase c) (add_file cs back f child) ch) fl)"

text \<open>Emission: the entries, the index of the paths and the names.\<close>

record emission =
  em_entries :: "IndexedEntry list"
  em_index :: "string \<Rightarrow> int option"
  em_names :: "string list"

definition emplace :: "string \<Rightarrow> int \<Rightarrow> (string \<Rightarrow> int option) \<Rightarrow> string \<Rightarrow> int option" where
  "emplace k v m = (if m k = None then m(k \<mapsto> v) else m)"

definition emit_entry :: "IndexedEntry \<Rightarrow> string \<Rightarrow> emission \<Rightarrow> emission" where
  "emit_entry e name em =
     \<lparr>em_entries = em_entries em @ [e],
      em_index = emplace (NormalizeLookupPath (ie_dvdPath e)) (sint (of_nat (length (em_entries em)) :: u32)) (em_index em),
      em_names = em_names em @ [name]\<rparr>"

definition directory_entry :: "string \<Rightarrow> u32 \<Rightarrow> u32 \<Rightarrow> IndexedEntry" where
  "directory_entry path parent end = \<lparr>ie_hostPath = [], ie_dvdPath = path, ie_size = 0, ie_discOffsetWords = 0,
     parentIndex = parent, subtreeEnd = end, ie_isDirectory = True\<rparr>"

definition file_entry :: "RegisteredFile \<Rightarrow> string \<Rightarrow> u32 \<Rightarrow> u32 \<Rightarrow> IndexedEntry" where
  "file_entry f path parent index = \<lparr>ie_hostPath = rf_hostPath f, ie_dvdPath = path, ie_size = rf_size f,
     ie_discOffsetWords = rf_discOffsetWords f, parentIndex = parent, subtreeEnd = index + 1, ie_isDirectory = False\<rparr>"

definition set_subtree_end :: "nat \<Rightarrow> emission \<Rightarrow> emission" where
  "set_subtree_end i em =
     em\<lparr>em_entries := (em_entries em)[i := (em_entries em ! i)\<lparr>subtreeEnd := of_nat (length (em_entries em))\<rparr>]\<rparr>"

fun EmitTree :: "(string \<times> TreeNode) list \<Rightarrow> u32 \<Rightarrow> string \<Rightarrow> emission \<Rightarrow> string + emission" where
  "EmitTree [] directoryIndex directoryPath em = Inr em"
| "EmitTree ((key, TreeNode name ch f) # rest) directoryIndex directoryPath em =
     (let childPath = (if directoryPath = ''/'' then CHR ''/'' # name else directoryPath @ CHR ''/'' # name);
          index = length (em_entries em)
      in if ch \<noteq> []
         then if f \<noteq> None then Inl (''DVD FST path is both a file and a directory: '' @ childPath)
              else case EmitTree ch (of_nat index) childPath (emit_entry (directory_entry childPath directoryIndex 0) name em) of
                     Inl e \<Rightarrow> Inl e
                   | Inr em' \<Rightarrow> EmitTree rest directoryIndex directoryPath (set_subtree_end index em')
         else case f of
                None \<Rightarrow> Inl (''DVD FST contains an empty implicit node: '' @ childPath)
              | Some file \<Rightarrow> EmitTree rest directoryIndex directoryPath
                  (emit_entry (file_entry file childPath directoryIndex (of_nat index)) name em))"

section \<open>The image\<close>

text \<open>The names one after another, with the offset of each.\<close>

fun name_table :: "string list \<Rightarrow> u8 list \<Rightarrow> u32 list \<Rightarrow> string + u8 list \<times> u32 list" where
  "name_table [] table offsets = Inr (table, offsets)"
| "name_table (n # ns) table offsets =
     (if length table > 0x00FFFFFF then Inl ''DVD FST name table exceeds the Wii 24-bit offset limit''
      else name_table ns (table @ map char_byte n @ [0]) (offsets @ [of_nat (length table)]))"

definition entry_bytes :: "IndexedEntry \<Rightarrow> u32 \<Rightarrow> u8 list" where
  "entry_bytes e nameOffset =
     BigEndian_Write32 ((if ie_isDirectory e then 0x01000000 else 0) OR nameOffset) @
     BigEndian_Write32 (if ie_isDirectory e then parentIndex e else ie_discOffsetWords e) @
     BigEndian_Write32 (if ie_isDirectory e then subtreeEnd e else ie_size e)"

definition files_by_path :: "RegisteredFile list \<Rightarrow> string + (string \<times> RegisteredFile) list" where
  "files_by_path registrations =
     (if \<exists>f \<in> set registrations. CanonicalizePath (rf_dvdPath f) = ''/''
      then Inl ''DVD FST cannot register the root as a file''
      else Inr (fold (\<lambda>f. map_put (NormalizeLookupPath (CanonicalizePath (rf_dvdPath f)))
                            (f\<lparr>rf_dvdPath := CanonicalizePath (rf_dvdPath f)\<rparr>)) registrations []))"

definition build_tree :: "(string \<times> RegisteredFile) list \<Rightarrow> TreeNode" where
  "build_tree files = fold (\<lambda>(_, f) t. add_file (Components (rf_dvdPath f)) (last (Components (rf_dvdPath f))) f t)
     files (TreeNode [] [] None)"

definition root_emission :: emission where
  "root_emission = \<lparr>em_entries = [directory_entry ''/'' 0 0], em_index = [''/'' \<mapsto> 0], em_names = [[]]\<rparr>"

definition BuildImage :: "RegisteredFile list \<Rightarrow> string + Image" where
  "BuildImage registrations = (case files_by_path registrations of
     Inl e \<Rightarrow> Inl e
   | Inr files \<Rightarrow>
       (case EmitTree (tchildren (build_tree files)) 0 ''/'' root_emission of
          Inl e \<Rightarrow> Inl e
        | Inr em \<Rightarrow>
            let es = em_entries (set_subtree_end 0 em) in
            if length es > (2 ^ 32 - 1) div 12 then Inl ''DVD FST contains too many entries''
            else case name_table (tl (em_names em)) [0] [0] of
                   Inl e \<Rightarrow> Inl e
                 | Inr (table, offsets) \<Rightarrow>
                     Inr \<lparr>entries = es, pathToEntry = em_index em,
                          bytes = concat (map2 entry_bytes es offsets) @ table\<rparr>))"

text \<open>The place of the image below the arena.\<close>

definition ReserveBelowArena :: "u32 \<Rightarrow> u32 \<Rightarrow> nat \<Rightarrow> u32 option" where
  "ReserveBelowArena arenaLo arenaHi byteCount =
     (if byteCount = 0 \<or> byteCount > 2 ^ 32 - 1 \<or> arenaHi \<le> arenaLo then None
      else let sz = of_nat byteCount in
           if sz > arenaHi - arenaLo then None
           else let address = (arenaHi - sz) AND NOT 31 in
                if address < arenaLo \<or> unat address + unat sz > unat arenaHi then None else Some address)"

section \<open>Reading a file table\<close>

record FstFileEntry =
  fe_start :: u32
  fe_end :: u32
  fe_size :: u32
  fe_dvdPath :: string
  fe_hostPath :: string

definition read_word :: "u8 list \<Rightarrow> nat \<Rightarrow> u32" where
  "read_word data i = BigEndian_Read32 (take 4 (drop i data))"

text \<open>The name at an offset; none if no terminator follows, where the code reads past the buffer.\<close>

definition c_string :: "u8 list \<Rightarrow> nat \<Rightarrow> string option" where
  "c_string data i = (if 0 \<in> set (drop i data) then Some (map byte_char (takeWhile (\<lambda>b. b \<noteq> 0) (drop i data))) else None)"

definition join_dir :: "string \<Rightarrow> string \<Rightarrow> string" where
  "join_dir dir name = (if dir = [] then name else dir @ CHR ''/'' # name)"

text \<open>From entry \<open>i\<close> on, with the stack of the open directories (innermost first) and the files so far.  The host
  path of a file is a function of its disc path.\<close>

function fst_loop ::
  "(string \<Rightarrow> string) \<Rightarrow> u8 list \<Rightarrow> nat \<Rightarrow> nat \<Rightarrow> (nat \<times> string) list \<Rightarrow> FstFileEntry list \<Rightarrow> FstFileEntry list option" where
  "fst_loop host data entryCount i stack files =
     (if i \<ge> entryCount then Some files
      else case dropWhile (\<lambda>(end, _). i \<ge> end) stack of
        [] \<Rightarrow> Some files
      | (end, dir) # stack' \<Rightarrow>
          let nameWord = read_word data (12 * i);
              nameOffset = unat (nameWord AND 0x00FFFFFF);
              stringBase = 12 * entryCount
          in if stringBase + nameOffset \<ge> length data then Some files
             else case c_string data (stringBase + nameOffset) of
               None \<Rightarrow> None
             | Some name \<Rightarrow>
                 if drop_bit 24 nameWord \<noteq> 0
                 then fst_loop host data entryCount (Suc i)
                        ((unat (read_word data (12 * i + 8)), join_dir dir name) # (end, dir) # stack') files
                 else let fileOffset = read_word data (12 * i + 4);
                          fileSize = read_word data (12 * i + 8);
                          start = 4 * fileOffset
                      in fst_loop host data entryCount (Suc i) ((end, dir) # stack')
                           (if 4 * unat fileOffset > 0xFFFFFFFF then files
                            else files @ [\<lparr>fe_start = start, fe_end = start + fileSize, fe_size = fileSize,
                                           fe_dvdPath = CHR ''/'' # join_dir dir name,
                                           fe_hostPath = host (CHR ''/'' # join_dir dir name)\<rparr>]))"
  by pat_completeness auto
termination by (relation "measure (\<lambda>(host, data, n, i, stack, files). n - i)") auto

declare fst_loop.simps [simp del]

text \<open>The files in the order of their offsets.  \<open>srt\<close> is the sort, which may leave files of one offset in any order.\<close>

definition sorts_files :: "(FstFileEntry list \<Rightarrow> FstFileEntry list) \<Rightarrow> bool" where
  "sorts_files srt \<longleftrightarrow> (\<forall>xs. mset (srt xs) = mset xs \<and> sorted (map fe_start (srt xs)))"

definition LoadFstIndex ::
  "(FstFileEntry list \<Rightarrow> FstFileEntry list) \<Rightarrow> (string \<Rightarrow> string) \<Rightarrow> u8 list \<Rightarrow> FstFileEntry list option" where
  "LoadFstIndex srt host data =
     (if length data < 12 then Some []
      else let entryCount = unat (read_word data 8) in
           if entryCount = 0 \<or> entryCount > 0x10000 then Some []
           else if 12 * entryCount \<ge> length data then Some []
           else map_option srt (fst_loop host data entryCount 1 [(entryCount, [])] []))"

end
