(* ===== verification/Dvd_Disc.thy ===== *)
theory Dvd_Disc
  imports Dvd_Fst
begin

text \<open>
  The disc of the program (\<open>runtime/src/hle/storage/dvd.cpp\<close>): the index of the host files, the overlays that replace
  them, the publication of the file table and of the disc ranges of the files, and the initialisation.

  The host file system, the overlays, the code of the guest and the two library sorts are the environment \<open>disc_host\<close>.
  The program exits when the table cannot be published; log texts are not modelled.
\<close>

section \<open>State\<close>

record DVDFileEntry =
  de_hostPath :: string
  de_dvdPath :: string
  de_size :: u32
  de_discOffsetWords :: u32
  de_isDirectory :: bool

text \<open>The bounds of a range stay below \<open>2 ^ 35\<close>, far from the bounds of the 64-bit fields.\<close>

record PublishedExtent =
  pe_startBytes :: nat
  pe_endBytes :: nat
  pe_entryIndex :: int

record dvd_state = memory +
  g_fileEntries :: "DVDFileEntry list"
  g_pathToEntry :: "string \<Rightarrow> int option"
  g_publishedExtents :: "PublishedExtent list"
  g_dvdInitialized :: bool
  g_initializing :: bool
  g_fstFiles :: "FstFileEntry list"
  g_fstLoaded :: bool
  g_loggedReadErrors :: "string set"
  g_dmaWrites :: "(u32 \<times> u32) list"

type_synonym 'a drive = "(dvd_state, 'a) prog"

section \<open>Environment\<close>

text \<open>An entry that a directory walk visits; the size and the relative path may be unavailable.\<close>

record host_entry =
  he_path :: string
  he_filename :: string
  he_relative :: "string option"
  he_regular :: bool
  he_size :: "nat option"

datatype mapping_kind = MapFile | MapFolder | MapFolderByName

record Mapping =
  mp_kind :: mapping_kind
  mp_discPath :: string
  mp_hostPath :: string
  mp_recursive :: bool
  mp_create :: bool

record PatchSet =
  ps_mappings :: "Mapping list"
  ps_skippedExternals :: u32

record Overlay =
  ov_root :: string
  ov_patches :: "PatchSet option"

record disc_host =
  dh_root :: string
  dh_join :: "string \<Rightarrow> string \<Rightarrow> string"
  dh_exists :: "string \<Rightarrow> bool"
  dh_regular :: "string \<Rightarrow> bool"
  dh_size :: "string \<Rightarrow> nat option"
  dh_walk :: "string \<Rightarrow> bool \<Rightarrow> host_entry list"
  dh_read :: "string \<Rightarrow> u8 list option"
  dh_overlays :: "Overlay list"
  dh_sort_files :: "FstFileEntry list \<Rightarrow> FstFileEntry list"
  dh_sort_extents :: "PublishedExtent list \<Rightarrow> PublishedExtent list"
  dh_reserved_base :: u32
  dh_reserved_size :: u32
  dh_guest :: "u32 \<Rightarrow> (u32 list \<Rightarrow> (dvd_state, unit) prog) option"

section \<open>The index of the host files\<close>

definition RegisterFileEntry :: "string \<Rightarrow> string \<Rightarrow> u32 \<Rightarrow> dvd_state \<Rightarrow> dvd_state" where
  "RegisterFileEntry dvdPath0 hostPath sz s =
     (let dvdPath = CanonicalizePath dvdPath0 in
      s\<lparr>g_fileEntries := g_fileEntries s @ [\<lparr>de_hostPath = hostPath, de_dvdPath = dvdPath, de_size = sz,
                           de_discOffsetWords = 0, de_isDirectory = False\<rparr>],
        g_pathToEntry := (g_pathToEntry s)(NormalizeLookupPath dvdPath \<mapsto> sint (of_nat (length (g_fileEntries s)) :: u32))\<rparr>)"

definition DvdEntryExists :: "dvd_state \<Rightarrow> string \<Rightarrow> bool" where
  "DvdEntryExists s dvdPath \<longleftrightarrow> g_pathToEntry s (NormalizeLookupPath (CanonicalizePath dvdPath)) \<noteq> None"

definition scan_prefix :: "string \<Rightarrow> string" where
  "scan_prefix virtualPrefix =
     (let prefix = (if virtualPrefix = [] then ''/'' else virtualPrefix)
      in if last prefix \<noteq> CHR ''/'' \<and> last prefix \<noteq> CHR 0x5C then prefix @ ''/'' else prefix)"

definition scan_entry :: "string \<Rightarrow> bool \<Rightarrow> host_entry \<Rightarrow> dvd_state \<Rightarrow> dvd_state" where
  "scan_entry virtualPrefix addNewFiles e s =
     (if \<not> he_regular e then s
      else case he_size e of None \<Rightarrow> s
      | Some sz \<Rightarrow>
          (case he_relative e of None \<Rightarrow> s
           | Some relative \<Rightarrow>
               let dvdPath = scan_prefix virtualPrefix @ relative in
               if \<not> addNewFiles \<and> \<not> DvdEntryExists s dvdPath then s
               else RegisterFileEntry dvdPath (he_path e) (of_nat sz) s))"

definition ScanDirectory :: "disc_host \<Rightarrow> string \<Rightarrow> string \<Rightarrow> bool \<Rightarrow> bool \<Rightarrow> dvd_state \<Rightarrow> dvd_state" where
  "ScanDirectory host root virtualPrefix recursive addNewFiles s =
     (if \<not> dh_exists host root then s
      else fold (scan_entry virtualPrefix addNewFiles) (dh_walk host root recursive) s)"

text \<open>The part after the last slash.\<close>

definition last_name :: "string \<Rightarrow> string" where
  "last_name path = rev (takeWhile (\<lambda>c. c \<noteq> CHR ''/'') (rev path))"

definition disc_paths_by_name :: "DVDFileEntry list \<Rightarrow> string \<Rightarrow> string list" where
  "disc_paths_by_name es name =
     map de_dvdPath (filter (\<lambda>e. Lowercase (last_name (de_dvdPath e)) = name \<and> Lowercase (last_name (de_dvdPath e)) \<noteq> []) es)"

definition apply_by_name :: "DVDFileEntry list \<Rightarrow> host_entry \<Rightarrow> dvd_state \<Rightarrow> dvd_state" where
  "apply_by_name snapshot e s =
     (if \<not> he_regular e then s
      else let found = disc_paths_by_name snapshot (Lowercase (he_filename e)) in
           if found = [] then s
           else case he_size e of None \<Rightarrow> s
                | Some sz \<Rightarrow> fold (\<lambda>dvdPath. RegisterFileEntry dvdPath (he_path e) (of_nat sz)) found s)"

definition ApplyFolderByNameMapping :: "disc_host \<Rightarrow> Mapping \<Rightarrow> dvd_state \<Rightarrow> dvd_state" where
  "ApplyFolderByNameMapping host m s =
     fold (apply_by_name (g_fileEntries s)) (dh_walk host (mp_hostPath m) (mp_recursive m)) s"

definition apply_mapping :: "disc_host \<Rightarrow> Mapping \<Rightarrow> dvd_state \<Rightarrow> dvd_state" where
  "apply_mapping host m s =
     (case mp_kind m of
        MapFile \<Rightarrow>
          (if \<not> mp_create m \<and> \<not> DvdEntryExists s (mp_discPath m) then s
           else case dh_size host (mp_hostPath m) of None \<Rightarrow> s
                | Some sz \<Rightarrow> RegisterFileEntry (mp_discPath m) (mp_hostPath m) (of_nat sz) s)
      | MapFolder \<Rightarrow> ScanDirectory host (mp_hostPath m) (mp_discPath m) (mp_recursive m) (mp_create m) s
      | MapFolderByName \<Rightarrow> ApplyFolderByNameMapping host m s)"

definition ScanOverlayRoot :: "disc_host \<Rightarrow> Overlay \<Rightarrow> dvd_state \<Rightarrow> dvd_state" where
  "ScanOverlayRoot host overlay s =
     (case ov_patches overlay of
        None \<Rightarrow> ScanDirectory host (ov_root overlay) ''/'' True True s
      | Some ps \<Rightarrow> fold (apply_mapping host) (ps_mappings ps) s)"

definition entry_of :: "dvd_state \<Rightarrow> string \<Rightarrow> nat option" where
  "entry_of s normalized =
     (case g_pathToEntry s normalized of
        None \<Rightarrow> None
      | Some i \<Rightarrow> if 0 \<le> i \<and> i < sint (of_nat (length (g_fileEntries s)) :: u32) then Some (nat i) else None)"

definition ResolveDvdMappedHostPath :: "disc_host \<Rightarrow> dvd_state \<Rightarrow> string \<Rightarrow> string \<Rightarrow> string" where
  "ResolveDvdMappedHostPath host s dvdPath fallbackHostPath =
     (let normalized = NormalizeLookupPath dvdPath in
      case entry_of s normalized of
        Some i \<Rightarrow> de_hostPath (g_fileEntries s ! i)
      | None \<Rightarrow>
          (case find (\<lambda>ov. dh_regular host (dh_join host (ov_root ov) (tl normalized))) (dh_overlays host) of
             Some ov \<Rightarrow> dh_join host (ov_root ov) (tl normalized)
           | None \<Rightarrow> fallbackHostPath))"

text \<open>The result for the tests: the host path of a file.\<close>

definition resolved_host_path :: "dvd_state \<Rightarrow> string \<Rightarrow> string option" where
  "resolved_host_path s dvdPath =
     (case entry_of s (NormalizeLookupPath dvdPath) of
        None \<Rightarrow> None
      | Some i \<Rightarrow> if de_isDirectory (g_fileEntries s ! i) then None else Some (de_hostPath (g_fileEntries s ! i)))"

section \<open>The table of the extracted disc\<close>

definition dvd_load_fst :: "disc_host \<Rightarrow> unit drive" where
  "dvd_load_fst host s =
     (if g_fstLoaded s then (Ok (), s)
      else case dh_read host (dh_join host (dh_join host (dh_root host) ''sys'') ''fst.bin'') of
        None \<Rightarrow> (Ok (), s\<lparr>g_fstLoaded := True\<rparr>)
      | Some data \<Rightarrow>
          (case LoadFstIndex (dh_sort_files host)
                  (\<lambda>p. ResolveDvdMappedHostPath host s p (dh_join host (dh_join host (dh_root host) ''files'') (tl p))) data of
             None \<Rightarrow> (Throw Fatal, s\<lparr>g_fstLoaded := True\<rparr>)
           | Some files \<Rightarrow> (Ok (), s\<lparr>g_fstLoaded := True, g_fstFiles := files\<rparr>)))"

section \<open>Publication\<close>

text \<open>A file of the extracted disc lends its offset to the entry of its path.\<close>

definition keep_offset :: "dvd_state \<Rightarrow> FstFileEntry \<Rightarrow> DVDFileEntry list \<Rightarrow> DVDFileEntry list" where
  "keep_offset s f es =
     (case entry_of s (NormalizeLookupPath (fe_dvdPath f)) of
        None \<Rightarrow> es
      | Some i \<Rightarrow> es[i := (es ! i)\<lparr>de_discOffsetWords := fe_start f div 4\<rparr>])"

definition next_free :: "FstFileEntry list \<Rightarrow> DVDFileEntry list \<Rightarrow> nat" where
  "next_free files es =
     fold (\<lambda>e n. if de_discOffsetWords e \<noteq> 0 then max n (4 * unat (de_discOffsetWords e) + unat (de_size e)) else n) es
       (fold (\<lambda>f n. max n (unat (fe_end f))) files 0)"

text \<open>The other entries get ranges behind; none if the word offsets run out.\<close>

fun synthetic_extents :: "nat \<Rightarrow> DVDFileEntry list \<Rightarrow> DVDFileEntry list option" where
  "synthetic_extents n [] = Some []"
| "synthetic_extents n (e # es) =
     (if de_isDirectory e \<or> de_discOffsetWords e \<noteq> 0 then map_option (\<lambda>r. e # r) (synthetic_extents n es)
      else let n' = (n + 31) div 32 * 32 in
           if n' div 4 > 0xFFFFFFFF then None
           else map_option (\<lambda>r. e\<lparr>de_discOffsetWords := of_nat (n' div 4)\<rparr> # r)
                  (synthetic_extents (n' + unat (max (de_size e) 4)) es))"

definition registration :: "DVDFileEntry \<Rightarrow> RegisteredFile" where
  "registration e = \<lparr>rf_hostPath = de_hostPath e, rf_dvdPath = de_dvdPath e, rf_size = de_size e,
     rf_discOffsetWords = de_discOffsetWords e\<rparr>"

definition indexed_entry :: "IndexedEntry \<Rightarrow> DVDFileEntry" where
  "indexed_entry e = \<lparr>de_hostPath = ie_hostPath e, de_dvdPath = ie_dvdPath e, de_size = ie_size e,
     de_discOffsetWords = ie_discOffsetWords e, de_isDirectory = ie_isDirectory e\<rparr>"

definition extents_of :: "DVDFileEntry list \<Rightarrow> PublishedExtent list" where
  "extents_of es = concat (map (\<lambda>i. let e = es ! i in
     if de_isDirectory e \<or> de_discOffsetWords e = 0 then []
     else [\<lparr>pe_startBytes = 4 * unat (de_discOffsetWords e),
            pe_endBytes = 4 * unat (de_discOffsetWords e) + unat (max (de_size e) 1),
            pe_entryIndex = sint (of_nat i :: u32)\<rparr>]) [0..<length es])"

text \<open>The index and the ranges; none if the program gives up.\<close>

definition publish_index :: "disc_host \<Rightarrow> dvd_state \<Rightarrow> (Image \<times> dvd_state) option" where
  "publish_index host s =
     (let es = fold (keep_offset s) (g_fstFiles s) (g_fileEntries s) in
      case synthetic_extents (next_free (g_fstFiles s) es) es of
        None \<Rightarrow> None
      | Some es' \<Rightarrow>
          (case BuildImage (map registration es') of
             Inl _ \<Rightarrow> None
           | Inr img \<Rightarrow>
               let indexed = map indexed_entry (entries img)
               in Some (img, s\<lparr>g_fileEntries := indexed, g_pathToEntry := pathToEntry img,
                                 g_publishedExtents := dh_sort_extents host (extents_of indexed)\<rparr>)))"

definition write_bytes :: "u32 \<Rightarrow> u8 list \<Rightarrow> ('a memory_scheme, unit) prog" where
  "write_bytes dest data = stmts (map (\<lambda>i. Write8 (dest + of_nat i) (data ! i)) [0..<length data])"

definition BuildAndPublishRuntimeFst :: "disc_host \<Rightarrow> unit drive" where
  "BuildAndPublishRuntimeFst host s =
     (case publish_index host s of
        None \<Rightarrow> (Throw Fatal, s)
      | Some (img, s') \<Rightarrow>
          if dh_reserved_base host = 0 \<or> length (bytes img) > unat (dh_reserved_size host) \<or>
             \<not> Contains s' (dh_reserved_base host) (unat (dh_reserved_size host))
          then (Throw Fatal, s')
          else stmts [write_bytes (dh_reserved_base host) (bytes img),
                      Write32 0x80000038 (dh_reserved_base host),
                      Write32 0x8000003C (of_nat (length (bytes img)))] s')"

section \<open>Initialisation\<close>

definition isalnum :: "u8 \<Rightarrow> bool" where
  "isalnum b \<longleftrightarrow> (0x30 \<le> b \<and> b \<le> 0x39) \<or> (0x41 \<le> b \<and> b \<le> 0x5A) \<or> (0x61 \<le> b \<and> b \<le> 0x7A)"

definition IsValidGameCode :: "u32 \<Rightarrow> bool" where
  "IsValidGameCode code \<longleftrightarrow> list_all isalnum (BigEndian_Write32 code)"

definition CurrentGameCode :: "u32 \<Rightarrow> ('a memory_scheme, u32) prog" where
  "CurrentGameCode fallback =
     bindP (getsP (\<lambda>s. Contains s 0x80000000 4)) (\<lambda>mapped.
     if mapped then bindP (Read32 0x80000000) (\<lambda>code. returnP (if IsValidGameCode code then code else fallback))
     else returnP fallback)"

definition CurrentDiscGameCode :: "('a memory_scheme, u32) prog" where
  "CurrentDiscGameCode = CurrentGameCode 0x524D4350"

definition InitDvdWaitingQueues :: "('a memory_scheme, unit) prog" where
  "InitDvdWaitingQueues = stmts (concat (map (\<lambda>i. let queue = 0x80343230 + of_nat i * 8 in
     [Write32 queue queue, Write32 (queue + 4) queue]) [0..<4]))"

definition CompleteDvdCancelState :: "('a memory_scheme, unit) prog" where
  "CompleteDvdCancelState = stmts
     [InitDvdWaitingQueues, Write32 0x80386664 0, Write32 0x80386668 0, Write32 0x80386670 0, Write32 0x8038667C 1,
      Write32 0x803866A8 1, Write32 0x803866F0 0]"

definition init_contexts :: "('a memory_scheme, unit) prog" where
  "init_contexts = stmts (concat (map (\<lambda>i. let ctx = 0x803434E0 + of_nat i * 0x20 in
     [Write32 (ctx + 0x0C) 0xFEEBDAED, Write32 (ctx + 0x10) (of_nat i)]) [0..<4]))"

definition DVDInit :: "disc_host \<Rightarrow> unit drive" where
  "DVDInit host =
     bindP (getsP (\<lambda>s. g_dvdInitialized s \<or> g_initializing s)) (\<lambda>stop.
     if stop then returnP ()
     else stmts
       [modifyP (\<lambda>s. s\<lparr>g_initializing := True\<rparr>),
        Write8 0x80386724 1, Write8 0x80386725 1, Write32 0x80386720 0, Write8 0x803866A0 1,
        CompleteDvdCancelState,
        init_contexts,
        bindP CurrentDiscGameCode (Write32 0x80000000), Write16 0x80000004 0x3031, Write8 0x80000006 1,
        modifyP (ScanDirectory host (dh_join host (dh_root host) ''files'') ''/'' True True),
        modifyP (ScanDirectory host (dh_join host (dh_root host) ''sys'') ''/sys/'' True True),
        modifyP (fold (ScanOverlayRoot host) (rev (dh_overlays host))),
        dvd_load_fst host,
        BuildAndPublishRuntimeFst host,
        (case dh_guest host 0x8015DF1C of None \<Rightarrow> returnP () | Some f \<Rightarrow> f []),
        modifyP (\<lambda>s. s\<lparr>g_dvdInitialized := True, g_initializing := False\<rparr>)])"

section \<open>Ranges\<close>

text \<open>The last range that starts at or before the offset; the ranges are in the order of their starts.\<close>

definition FindPublishedExtentForByteOffset :: "PublishedExtent list \<Rightarrow> nat \<Rightarrow> PublishedExtent option" where
  "FindPublishedExtentForByteOffset extents offset =
     (case takeWhile (\<lambda>e. pe_startBytes e \<le> offset) extents of
        [] \<Rightarrow> None
      | es \<Rightarrow> if offset < pe_endBytes (last es) then Some (last es) else None)"

end
