(* ===== verification/Dvd_Read.thy ===== *)
theory Dvd_Read
  imports Dvd_Disc
begin

text \<open>
  The reads of the disc (\<open>runtime/src/hle/storage/dvd.cpp\<close> and \<open>DvdReadContract\<close> of
  \<open>runtime/include/hle/dvd_contract.h\<close>): by handle, by absolute offset and through the drive.  The results are the
  32-bit return values.
\<close>

section \<open>Reading a host file\<close>

datatype HostReadFailure = MissingFile | BadOffset | ShortRead

fun Describe :: "HostReadFailure \<Rightarrow> string" where
  "Describe MissingFile = ''host file is missing or cannot be opened''"
| "Describe BadOffset = ''read offset is outside the host file''"
| "Describe ShortRead = ''host file did not contain the complete requested range''"

definition ReadExact :: "disc_host \<Rightarrow> string \<Rightarrow> nat \<Rightarrow> nat \<Rightarrow> HostReadFailure + u8 list" where
  "ReadExact host hostPath offset len =
     (case dh_read host hostPath of
        None \<Rightarrow> Inl MissingFile
      | Some fl \<Rightarrow>
          if offset \<ge> length fl then Inl BadOffset
          else if len > length fl - offset then Inl ShortRead
          else Inr (take len (drop offset fl)))"

text \<open>The return value and the value for the callback.\<close>

definition CompletionFor :: "bool \<Rightarrow> u32 \<times> u32" where
  "CompletionFor succeeded = (if succeeded then (1, 1) else (0, 2))"

section \<open>Completion\<close>

definition kDvdFatalError :: u32 where "kDvdFatalError = - 3"

definition DVD_CB_OFFSET_STATE :: u32 where "DVD_CB_OFFSET_STATE = 0x0C"
definition DVD_CB_OFFSET_TRANSFERRED :: u32 where "DVD_CB_OFFSET_TRANSFERRED = 0x20"
definition DVD_FILEINFO_OFFSET_ADDR :: u32 where "DVD_FILEINFO_OFFSET_ADDR = 0x30"

text \<open>A failure is logged once for a path and an offset.\<close>

definition ReportDvdReadError :: "string \<Rightarrow> int \<Rightarrow> unit drive" where
  "ReportDvdReadError hostPath offset =
     modifyP (\<lambda>s. s\<lparr>g_loggedReadErrors := insert (hostPath @ CHR 0x0A # int_string offset) (g_loggedReadErrors s)\<rparr>)"

definition DvdReadFatal :: "u32 \<Rightarrow> string \<Rightarrow> int \<Rightarrow> u32 drive" where
  "DvdReadFatal fileInfoPtr hostPath offset =
     thenP (ReportDvdReadError hostPath offset)
       (thenP (catchP (stmts [Write32 (fileInfoPtr + DVD_CB_OFFSET_STATE) (- 1), Write32 (fileInfoPtr + DVD_CB_OFFSET_TRANSFERRED) 0])
                (\<lambda>_. returnP ()))
         (returnP kDvdFatalError))"

definition GxNotifyGuestRamDmaWrite :: "u32 \<Rightarrow> u32 \<Rightarrow> unit drive" where
  "GxNotifyGuestRamDmaWrite addr sz = modifyP (\<lambda>s. s\<lparr>g_dmaWrites := g_dmaWrites s @ [(addr, sz)]\<rparr>)"

definition CopyToGuestAsDma :: "u32 \<Rightarrow> u8 list \<Rightarrow> unit drive" where
  "CopyToGuestAsDma dest data =
     thenP (write_bytes dest data) (GxNotifyGuestRamDmaWrite dest (of_nat (length data)))"

definition InvokeDvdCallback :: "disc_host \<Rightarrow> u32 \<Rightarrow> u32 \<Rightarrow> u32 \<Rightarrow> unit drive" where
  "InvokeDvdCallback host callbackPtr result fileInfoPtr =
     (if callbackPtr = 0 then returnP ()
      else case dh_guest host callbackPtr of None \<Rightarrow> returnP () | Some f \<Rightarrow> f [result, fileInfoPtr])"

definition InvokeDvdLowCallback :: "disc_host \<Rightarrow> u32 \<Rightarrow> u32 \<Rightarrow> unit drive" where
  "InvokeDvdLowCallback host callbackPtr result =
     (if callbackPtr = 0 then returnP ()
      else case dh_guest host callbackPtr of None \<Rightarrow> returnP () | Some f \<Rightarrow> f [result])"

section \<open>Reads by handle\<close>

text \<open>The part after the file is found: the word offset of the handle is \<open>startWords\<close>.\<close>

definition read_entry_at :: "disc_host \<Rightarrow> u32 \<Rightarrow> u32 \<Rightarrow> u32 \<Rightarrow> u32 \<Rightarrow> nat \<Rightarrow> DVDFileEntry \<Rightarrow> u32 drive" where
  "read_entry_at host fileInfoPtr bufferPtr len offset extentBias entry =
     (if sint offset < 0 \<or> sint len < 0 then DvdReadFatal fileInfoPtr (de_hostPath entry) (sint offset)
      else let requestedOffset = extentBias + unat offset in
        if requestedOffset \<ge> unat (de_size entry) then DvdReadFatal fileInfoPtr (de_hostPath entry) (sint offset)
        else let uOffset = of_nat requestedOffset;
                 uLength = (if len > de_size entry - uOffset then de_size entry - uOffset else len)
          in bindP (getsP (\<lambda>s. uLength \<noteq> 0 \<and> \<not> Contains s bufferPtr (unat uLength))) (\<lambda>outside.
             if outside then DvdReadFatal fileInfoPtr (de_hostPath entry) (sint offset)
             else case ReadExact host (de_hostPath entry) (unat uOffset) (unat uLength) of
                    Inl _ \<Rightarrow> DvdReadFatal fileInfoPtr (de_hostPath entry) (sint offset)
                  | Inr data \<Rightarrow>
                      thenP (stmts [CopyToGuestAsDma bufferPtr data,
                                    Write32 (fileInfoPtr + DVD_CB_OFFSET_TRANSFERRED) uLength,
                                    Write32 (fileInfoPtr + DVD_CB_OFFSET_STATE) 0,
                                    CompleteDvdCancelState])
                        (returnP uLength)))"

definition DVDReadPrio :: "disc_host \<Rightarrow> u32 \<Rightarrow> u32 \<Rightarrow> u32 \<Rightarrow> u32 \<Rightarrow> u32 drive" where
  "DVDReadPrio host fileInfoPtr bufferPtr len offset =
     bindP (catchP (bindP (Read32 (fileInfoPtr + DVD_FILEINFO_OFFSET_ADDR)) (\<lambda>w. returnP (Some w))) (\<lambda>_. returnP None)) (\<lambda>handle.
     case handle of
       None \<Rightarrow> DvdReadFatal fileInfoPtr ''<invalid DVD file info>'' (sint offset)
     | Some startWords \<Rightarrow>
         bindP (getsP (\<lambda>s. map_option (\<lambda>e. (e, g_fileEntries s ! nat (pe_entryIndex e)))
                   (FindPublishedExtentForByteOffset (g_publishedExtents s) (4 * unat startWords)))) (\<lambda>found.
         case found of
           None \<Rightarrow> DvdReadFatal fileInfoPtr ''<unresolved DVD file handle>'' (sint offset)
         | Some (extent, entry) \<Rightarrow>
             read_entry_at host fileInfoPtr bufferPtr len offset (4 * unat startWords - pe_startBytes extent) entry))"

definition DVDReadAsyncPrio :: "disc_host \<Rightarrow> u32 \<Rightarrow> u32 \<Rightarrow> u32 \<Rightarrow> u32 \<Rightarrow> u32 \<Rightarrow> u32 drive" where
  "DVDReadAsyncPrio host fileInfoPtr bufferPtr len offset callbackPtr =
     bindP (DVDReadPrio host fileInfoPtr bufferPtr len offset) (\<lambda>bytesRead.
     thenP (stmts [InvokeDvdCallback host callbackPtr bytesRead fileInfoPtr, CompleteDvdCancelState])
       (returnP (if sint bytesRead \<ge> 0 then 1 else 0)))"

section \<open>Reads by offset\<close>

record AbsReadResult =
  ar_entry :: DVDFileEntry
  ar_fileOffset :: u32
  ar_readLength :: u32

definition resolve_extent :: "PublishedExtent list \<Rightarrow> u32 \<Rightarrow> (PublishedExtent \<times> nat) option" where
  "resolve_extent extents offset =
     (case FindPublishedExtentForByteOffset extents (unat offset) of
        Some e \<Rightarrow> Some (e, unat offset)
      | None \<Rightarrow> map_option (\<lambda>e. (e, 4 * unat offset)) (FindPublishedExtentForByteOffset extents (4 * unat offset)))"

definition ResolveAbsRead :: "disc_host \<Rightarrow> u32 \<Rightarrow> u32 \<Rightarrow> AbsReadResult option drive" where
  "ResolveAbsRead host offset len =
     thenP (DVDInit host) (getsP (\<lambda>s.
       case resolve_extent (g_publishedExtents s) offset of
         None \<Rightarrow> None
       | Some (extent, effectiveOffset) \<Rightarrow>
           let entry = g_fileEntries s ! nat (pe_entryIndex extent);
               fileOffset = of_nat (effectiveOffset - pe_startBytes extent)
           in Some \<lparr>ar_entry = entry, ar_fileOffset = fileOffset,
                    ar_readLength = (if len = 0 \<or> fileOffset + len > de_size entry then de_size entry - fileOffset else len)\<rparr>))"

definition abs_read :: "disc_host \<Rightarrow> u32 \<Rightarrow> u32 \<Rightarrow> u32 \<Rightarrow> u32 \<Rightarrow> u32 drive" where
  "abs_read host cmdBlockPtr bufferPtr len offset =
     (if sint len < 0 then DvdReadFatal cmdBlockPtr ''<unmapped DVD offset>'' (uint offset)
      else bindP (ResolveAbsRead host offset len) (\<lambda>found.
        case found of
          None \<Rightarrow> DvdReadFatal cmdBlockPtr ''<unmapped DVD offset>'' (uint offset)
        | Some r \<Rightarrow>
            let fail = DvdReadFatal cmdBlockPtr (de_hostPath (ar_entry r)) (uint (ar_fileOffset r)) in
            if len \<noteq> 0 \<and> ar_readLength r \<noteq> len then fail
            else bindP (getsP (\<lambda>s. len \<noteq> 0 \<and> \<not> Contains s bufferPtr (unat len))) (\<lambda>outside.
              if outside then fail
              else case ReadExact host (de_hostPath (ar_entry r)) (unat (ar_fileOffset r)) (unat (ar_readLength r)) of
                     Inl _ \<Rightarrow> fail
                   | Inr data \<Rightarrow> thenP (CopyToGuestAsDma bufferPtr data) (returnP (of_nat (length data))))))"

definition DVDReadAbsAsyncPrio :: "disc_host \<Rightarrow> u32 \<Rightarrow> u32 \<Rightarrow> u32 \<Rightarrow> u32 \<Rightarrow> u32 \<Rightarrow> u32 drive" where
  "DVDReadAbsAsyncPrio host cmdBlockPtr bufferPtr len offset callbackPtr =
     bindP (abs_read host cmdBlockPtr bufferPtr len offset) (\<lambda>bytesRead.
     thenP (stmts
       [whenP (sint bytesRead \<ge> 0)
          (catchP (stmts [Write32 (cmdBlockPtr + DVD_CB_OFFSET_STATE) 0, Write32 (cmdBlockPtr + DVD_CB_OFFSET_TRANSFERRED) bytesRead])
            (\<lambda>_. returnP ())),
        InvokeDvdCallback host callbackPtr bytesRead cmdBlockPtr, CompleteDvdCancelState])
       (returnP (if sint bytesRead \<ge> 0 then 1 else 0)))"

section \<open>The drive\<close>

definition DVDLowInit :: "disc_host \<Rightarrow> u32 drive" where
  "DVDLowInit host = thenP (DVDInit host) (returnP 1)"

definition DVDLowInquiry :: "u32 \<Rightarrow> u32 drive" where
  "DVDLowInquiry cmdBlockPtr =
     thenP (stmts [whenP (cmdBlockPtr \<noteq> 0) (Write32 (cmdBlockPtr + DVD_CB_OFFSET_STATE) 0), CompleteDvdCancelState]) (returnP 1)"

definition DVDLowReadDiskID :: "u32 \<Rightarrow> u32 drive" where
  "DVDLowReadDiskID diskIdPtr =
     thenP (stmts
       [whenP (diskIdPtr \<noteq> 0)
          (stmts [bindP CurrentDiscGameCode (Write32 diskIdPtr), Write16 (diskIdPtr + 4) 0x3031, Write8 (diskIdPtr + 6) 1]),
        CompleteDvdCancelState]) (returnP 1)"

definition finish_low :: "disc_host \<Rightarrow> u32 \<Rightarrow> bool \<Rightarrow> u32 drive" where
  "finish_low host callback succeeded =
     thenP (stmts [InvokeDvdLowCallback host callback (snd (CompletionFor succeeded)), CompleteDvdCancelState])
       (returnP (fst (CompletionFor succeeded)))"

definition low_failure :: "disc_host \<Rightarrow> u32 \<Rightarrow> string \<Rightarrow> u32 \<Rightarrow> u32 drive" where
  "low_failure host callback hostPath offset =
     thenP (ReportDvdReadError hostPath (uint offset)) (finish_low host callback False)"

definition DVDLowRead :: "disc_host \<Rightarrow> u32 \<Rightarrow> u32 \<Rightarrow> u32 \<Rightarrow> u32 \<Rightarrow> u32 drive" where
  "DVDLowRead host buffer len offset callback =
     (if len = 0 then finish_low host callback True
      else bindP (getsP (\<lambda>s. Contains s buffer (unat len))) (\<lambda>mapped.
        if offset = 0 \<and> len \<ge> 0x20 then
          (if \<not> mapped then low_failure host callback ''<synthetic disc header>'' offset
           else thenP (stmts [bindP CurrentDiscGameCode (Write32 buffer), Write16 (buffer + 4) 0x3031,
                              GxNotifyGuestRamDmaWrite buffer len])
                  (finish_low host callback True))
        else bindP (ResolveAbsRead host offset len) (\<lambda>found.
          case found of
            None \<Rightarrow> low_failure host callback ''<unmapped DVD offset>'' offset
          | Some r \<Rightarrow>
              let fail = low_failure host callback (de_hostPath (ar_entry r)) (ar_fileOffset r) in
              if ar_readLength r \<noteq> len then fail
              else bindP (getsP (\<lambda>s. Contains s buffer (unat len))) (\<lambda>mapped.
                if \<not> mapped then fail
                else case ReadExact host (de_hostPath (ar_entry r)) (unat (ar_fileOffset r)) (unat (ar_readLength r)) of
                       Inl _ \<Rightarrow> fail
                     | Inr data \<Rightarrow> thenP (CopyToGuestAsDma buffer data) (finish_low host callback True)))))"

definition DVDLowUnencryptedRead :: "disc_host \<Rightarrow> u32 \<Rightarrow> u32 \<Rightarrow> u32 \<Rightarrow> u32 \<Rightarrow> u32 drive" where
  "DVDLowUnencryptedRead = DVDLowRead"

definition DVDCheckDevice :: "u32 drive" where
  "DVDCheckDevice = returnP 1"

definition DVDLowClearCoverInterrupt :: "u32 \<Rightarrow> u32 drive" where
  "DVDLowClearCoverInterrupt cb = returnP 1"

end
