(* ===== verification/Dvd_Image_Laws.thy ===== *)
theory Dvd_Image_Laws
  imports Dvd_Fst
begin

text \<open>
  The bytes of the disc file table.  \<open>EmitTree\<close> is the preorder of the tree, unless a path is both a file and a
  directory; the words of the entries and the names are found again in the bytes; and the reader follows the preorder:
  the directories that it holds open are the ones whose subtrees are not finished.
\<close>

section \<open>Emission as a preorder\<close>

definition child_path :: "string \<Rightarrow> string \<Rightarrow> string" where
  "child_path dir name = (if dir = ''/'' then CHR ''/'' # name else dir @ CHR ''/'' # name)"

text \<open>The entries of a forest and their names, from index \<open>i\<close> on, in the directory \<open>d\<close> with path \<open>p\<close>.\<close>

fun flat :: "(string \<times> TreeNode) list \<Rightarrow> nat \<Rightarrow> nat \<Rightarrow> string \<Rightarrow> (IndexedEntry \<times> string) list" where
  "flat [] d i p = []"
| "flat ((key, TreeNode name ch f) # rest) d i p =
     (if ch \<noteq> []
      then let sub = flat ch i (Suc i) (child_path p name) in
           (directory_entry (child_path p name) (of_nat d) (of_nat (Suc i + length sub)), name) # sub @
             flat rest d (Suc i + length sub) p
      else (file_entry (the f) (child_path p name) (of_nat d) (of_nat i), name) # flat rest d (Suc i) p)"

text \<open>No path is a file and a directory, and none is neither.\<close>

fun unmixed :: "(string \<times> TreeNode) list \<Rightarrow> bool" where
  "unmixed [] = True"
| "unmixed ((key, TreeNode name ch f) # rest) \<longleftrightarrow> (f = None \<longleftrightarrow> ch \<noteq> []) \<and> unmixed ch \<and> unmixed rest"

fun put_index :: "nat \<Rightarrow> (IndexedEntry \<times> string) list \<Rightarrow> (string \<Rightarrow> int option) \<Rightarrow> string \<Rightarrow> int option" where
  "put_index i [] m = m"
| "put_index i (e # es) m =
     put_index (Suc i) es (emplace (NormalizeLookupPath (ie_dvdPath (fst e))) (sint (of_nat i :: u32)) m)"

lemma put_index_append: "put_index i (es @ fs) m = put_index (i + length es) fs (put_index i es m)"
  by (induction es arbitrary: i m) (simp_all)

definition emitted :: "(IndexedEntry \<times> string) list \<Rightarrow> emission \<Rightarrow> emission" where
  "emitted es em = \<lparr>em_entries = em_entries em @ map fst es, em_index = put_index (length (em_entries em)) es (em_index em),
     em_names = em_names em @ map snd es\<rparr>"

lemma emitted_Nil [simp]: "emitted [] em = em"
  by (simp add: emitted_def)

lemma emitted_append: "emitted es2 (emitted es1 em) = emitted (es1 @ es2) em"
  by (simp add: emitted_def put_index_append)

lemma emit_entry_emitted: "emit_entry e name em = emitted [(e, name)] em"
  by (simp add: emit_entry_def emitted_def)

text \<open>Closing a directory: its entry was pushed with end 0.\<close>

lemma close_directory:
  "set_subtree_end (length (em_entries em)) (emitted ((directory_entry p d 0, name) # es) em) =
   emitted ((directory_entry p d (of_nat (Suc (length (em_entries em) + length es))), name) # es) em"
proof -
  have "IndexedEntry.subtreeEnd_update (\<lambda>_. x) (directory_entry p d 0) = directory_entry p d x" for x
    by (simp add: directory_entry_def)
  then show ?thesis by (simp add: set_subtree_end_def emitted_def  nth_append list_update_append directory_entry_def)
qed

lemma child_path_if: "(if p = ''/'' then CHR ''/'' # name else p @ CHR ''/'' # name) = child_path p name"
  by (simp add: child_path_def)

lemma EmitTree_flat:
  "unmixed ts \<Longrightarrow> EmitTree ts (of_nat d) p em = Inr (emitted (flat ts d (length (em_entries em)) p) em)"
proof (induction ts arbitrary: d p em rule: unmixed.induct)
  case (2 key name ch f rest)
  define cp where "cp = child_path p name"
  define i where "i = length (em_entries em)"
  show ?case
  proof (cases "ch = []")
    case True
    then obtain fl where f: "f = Some fl" using 2 by auto
    define e where "e = (file_entry fl cp (of_nat d) (of_nat i), name)"
    have "length (em_entries (emitted [e] em)) = Suc i" by (simp add: emitted_def i_def)
    then show ?thesis using 2 True f
      by (simp add: Let_def child_path_if cp_def [symmetric] i_def [symmetric] e_def [symmetric] emit_entry_emitted
        emitted_append)
  next
    case False
    then have f: "f = None" using 2 by auto
    define e where "e = (directory_entry cp (of_nat d) 0, name)"
    define sub where "sub = flat ch i (Suc i) cp"
    have len: "length (em_entries (emitted es em)) = i + length es" for es by (simp add: emitted_def i_def)
    have "EmitTree ch (of_nat i) cp (emitted [e] em) = Inr (emitted (e # sub) em)"
      using 2 False len [of "[e]"] by (simp add: emitted_append sub_def)
    moreover have "set_subtree_end i (emitted (e # sub) em) =
        emitted ((directory_entry cp (of_nat d) (of_nat (Suc i + length sub)), name) # sub) em"
      using close_directory [of em cp "of_nat d" name sub] by (simp add: e_def i_def)
    ultimately show ?thesis using 2 False f
      by (simp add: Let_def child_path_if cp_def [symmetric] i_def [symmetric] e_def [symmetric] emit_entry_emitted
        sub_def [symmetric] len emitted_append)
  qed
qed simp

lemma EmitTree_mixed: "\<not> unmixed ts \<Longrightarrow> \<exists>e. EmitTree ts d p em = Inl e"
proof (induction ts arbitrary: d p em rule: unmixed.induct)
  case (2 key name ch f rest)
  show ?case
  proof (cases "f = None \<longleftrightarrow> ch \<noteq> []")
    case True
    then consider "\<not> unmixed ch" "ch \<noteq> []" | "unmixed ch" "\<not> unmixed rest" using 2 by (cases ch) auto
    then show ?thesis
    proof cases
      case 1
      then have "EmitTree ch d' p' em' \<noteq> Inr x" for d' p' em' x using "2.IH"(1) by (metis Inl_Inr_False)
      then show ?thesis using True 1 by (auto simp: Let_def split: sum.splits)
    next
      case 2
      then show ?thesis using True "2.IH"(2) by (auto simp: Let_def split: option.splits sum.splits)
    qed
  qed (auto simp: Let_def split: option.splits)
qed simp

section \<open>The bytes of an image\<close>

lemma length_entry_bytes [simp]: "length (entry_bytes e x) = 12"
  by (simp add: entry_bytes_def BigEndian_Write32_def)

definition words_of :: "IndexedEntry \<Rightarrow> u32 \<Rightarrow> u32 list" where
  "words_of e off = [(if ie_isDirectory e then 0x01000000 else 0) OR off,
     if ie_isDirectory e then parentIndex e else ie_discOffsetWords e,
     if ie_isDirectory e then subtreeEnd e else ie_size e]"

lemma drop_concat_12: "\<forall>x \<in> set xs. length x = 12 \<Longrightarrow> i < length xs \<Longrightarrow> drop (12 * i) (concat xs @ ys) = xs ! i @ drop (12 * Suc i) (concat xs @ ys)"
proof (induction xs arbitrary: i)
  case (Cons x xs)
  then show ?case by (cases i) auto
qed simp

lemma read_entry:
  assumes "i < length es" "length offs = length es" "k < 3"
  shows "read_word (concat (map2 entry_bytes es offs) @ table) (12 * i + 4 * k) = words_of (es ! i) (offs ! i) ! k"
proof -
  define data where "data = concat (map2 entry_bytes es offs) @ table"
  have "\<forall>x \<in> set (map2 entry_bytes es offs). length x = 12" by auto
  from drop_concat_12 [OF this, of i table] have "drop (12 * i) data = entry_bytes (es ! i) (offs ! i) @ drop (12 * Suc i) data"
    using assms by (simp add: data_def)
  then have "drop (12 * i + 4 * k) data = drop (4 * k) (entry_bytes (es ! i) (offs ! i) @ drop (12 * Suc i) data)"
    by (metis drop_drop add.commute)
  moreover have "k = 0 \<or> k = 1 \<or> k = 2" using assms(3) by auto
  ultimately show ?thesis unfolding data_def [symmetric]
    by (auto simp: read_word_def entry_bytes_def words_of_def BigEndian_Write32_def simp flip: BigEndian_Write32_def)
qed

section \<open>The name table\<close>

lemma name_table_spec:
  "name_table ns table offs = Inr (table', offs') \<Longrightarrow>
   length offs' = length offs + length ns \<and> take (length offs) offs' = offs \<and> take (length table) table' = table \<and>
   (\<forall>j < length ns. unat (offs' ! (length offs + j)) \<le> 0xFFFFFF \<and>
     (\<exists>post. drop (unat (offs' ! (length offs + j))) table' = map char_byte (ns ! j) @ 0 # post))"
proof (induction ns table offs rule: name_table.induct)
  case (2 n ns table offs)
  define t where "t = table @ map char_byte n @ [0]"
  define o1 where "o1 = offs @ [of_nat (length table) :: u32]"
  have small: "length table \<le> 0xFFFFFF" and r: "name_table ns t o1 = Inr (table', offs')"
    using "2.prems" by (auto simp: t_def o1_def split: if_splits)
  have IH: "length offs' = length o1 + length ns" "take (length o1) offs' = o1" "take (length t) table' = t"
      "\<And>j. j < length ns \<Longrightarrow> unat (offs' ! (length o1 + j)) \<le> 0xFFFFFF \<and>
        (\<exists>post. drop (unat (offs' ! (length o1 + j))) table' = map char_byte (ns ! j) @ 0 # post)"
    using "2.IH" small r by (auto simp: t_def o1_def)
  have offs: "take (length offs) offs' = offs" "offs' ! length offs = of_nat (length table)"
  proof -
    have "take (length offs) (take (length o1) offs') = offs" unfolding IH(2) by (simp add: o1_def)
    then show "take (length offs) offs' = offs" by (simp add: o1_def)
    have "take (length o1) offs' ! length offs = of_nat (length table)" unfolding IH(2) by (simp add: o1_def)
    then show "offs' ! length offs = of_nat (length table)" by (simp add: o1_def)
  qed
  have "table' = t @ drop (length t) table'" using IH(3) by (metis append_take_drop_id)
  then have tab: "take (length table) table' = table" "drop (length table) table' = map char_byte n @ 0 # drop (length t) table'"
    by (metis append_eq_conv_conj t_def append.assoc)
       (metis (no_types, lifting) \<open>table' = t @ drop (length t) table'\<close> append.assoc append_Cons append_Nil append_eq_conv_conj t_def)
  have "unat (of_nat (length table) :: u32) = length table" using small by (simp add: unat_of_nat)
  then have first: "unat (offs' ! length offs) \<le> 0xFFFFFF \<and> (\<exists>post. drop (unat (offs' ! length offs)) table' = map char_byte n @ 0 # post)"
    using offs(2) small tab(2) by auto
  show ?case
  proof (intro conjI allI impI)
    fix j assume "j < length (n # ns)"
    then show "unat (offs' ! (length offs + j)) \<le> 0xFFFFFF"
      "\<exists>post. drop (unat (offs' ! (length offs + j))) table' = map char_byte ((n # ns) ! j) @ 0 # post"
      using first IH(4) [of "j - 1"] by (cases j; simp add: o1_def)+
  qed (use IH(1) offs(1) tab(1) in \<open>simp_all add: o1_def\<close>)
qed auto

lemma c_string_name:
  assumes "drop i data = map char_byte n @ 0 # post" "CHR 0x00 \<notin> set n"
  shows "c_string data i = Some n"
proof -
  have "takeWhile (\<lambda>b. b \<noteq> 0) (map char_byte n @ 0 # post) = map char_byte n"
    using assms(2) by (induction n) (auto simp: char_byte_zero)
  then show ?thesis using assms(1) by (simp add: c_string_def comp_def)
qed

lemma type_and_offset:
  fixes off :: u32
  assumes "unat off \<le> 0xFFFFFF"
  shows "((if d then 0x01000000 else 0) OR off) AND 0x00FFFFFF = off"
    and "drop_bit 24 ((if d then 0x01000000 else 0) OR off) \<noteq> 0 \<longleftrightarrow> d"
proof -
  have "unat off < 2 ^ 24" using assms by simp
  then have "take_bit 24 (unat off) = unat off" by (simp add: take_bit_nat_eq_self)
  then have "take_bit 24 off = off" by (metis unsigned_take_bit_eq unsigned_word_eqI)
  then have low: "bit off i \<Longrightarrow> i < 24" for i by (metis bit_take_bit_iff)
  have m: "(0x00FFFFFF :: u32) = mask 24" by (simp add: mask_eq_exp_minus_1)
  have flag: "n = 24" if "bit (0x01000000 :: u32) n" for n
  proof -
    have "(0x01000000 :: u32) = push_bit 24 1" by simp
    then show ?thesis using that by (simp only: bit_push_bit_iff bit_1_iff) simp
  qed
  show "((if d then 0x01000000 else 0) OR off) AND 0x00FFFFFF = off"
    unfolding m by (rule bit_word_eqI) (use low flag in \<open>auto simp: bit_and_iff bit_or_iff bit_mask_iff simp del: bit_numeral_rec\<close>)
  have "drop_bit 24 off = 0" by (rule bit_word_eqI) (use low in \<open>fastforce simp: bit_drop_bit_eq\<close>)
  then show "drop_bit 24 ((if d then 0x01000000 else 0) OR off) \<noteq> 0 \<longleftrightarrow> d" by simp
qed

section \<open>Reading an image\<close>

text \<open>Data that describes a list of entries with their names, from the second one on.\<close>

definition describes :: "u8 list \<Rightarrow> (IndexedEntry \<times> string) list \<Rightarrow> bool" where
  "describes data L \<longleftrightarrow> 12 * length L < length data \<and> length L < 2 ^ 32 \<and>
     (\<forall>i. 1 \<le> i \<and> i < length L \<longrightarrow>
        (let nameWord = read_word data (12 * i); off = unat (nameWord AND 0x00FFFFFF); e = fst (L ! i) in
         12 * length L + off < length data \<and> c_string data (12 * length L + off) = Some (snd (L ! i)) \<and>
         (drop_bit 24 nameWord \<noteq> 0 \<longleftrightarrow> ie_isDirectory e) \<and>
         read_word data (12 * i + 4) = words_of e 0 ! 1 \<and> read_word data (12 * i + 8) = words_of e 0 ! 2))"

definition file_of :: "(string \<Rightarrow> string) \<Rightarrow> IndexedEntry \<Rightarrow> FstFileEntry list" where
  "file_of host e =
     (if ie_isDirectory e \<or> 4 * unat (ie_discOffsetWords e) > 0xFFFFFFFF then []
      else [\<lparr>fe_start = 4 * ie_discOffsetWords e, fe_end = 4 * ie_discOffsetWords e + ie_size e, fe_size = ie_size e,
             fe_dvdPath = ie_dvdPath e, fe_hostPath = host (ie_dvdPath e)\<rparr>])"

definition popped :: "nat \<Rightarrow> (nat \<times> string) list \<Rightarrow> (nat \<times> string) list" where
  "popped j = dropWhile (\<lambda>(end, _). end \<le> j)"

lemma fst_loop_directory:
  assumes "describes data L" "1 \<le> i" "i < length L" "popped i stack = (end, dir) # st" "ie_isDirectory (fst (L ! i))"
  shows "fst_loop host data (length L) i stack files = fst_loop host data (length L) (Suc i)
    ((unat (subtreeEnd (fst (L ! i))), join_dir dir (snd (L ! i))) # (end, dir) # st) files"
  using assms by (subst fst_loop.simps) (auto simp: describes_def Let_def popped_def words_of_def)

lemma fst_loop_file:
  assumes "describes data L" "1 \<le> i" "i < length L" "popped i stack = (end, dir) # st" "\<not> ie_isDirectory (fst (L ! i))"
    and "ie_dvdPath (fst (L ! i)) = CHR ''/'' # join_dir dir (snd (L ! i))"
  shows "fst_loop host data (length L) i stack files =
    fst_loop host data (length L) (Suc i) ((end, dir) # st) (files @ file_of host (fst (L ! i)))"
  using assms by (subst fst_loop.simps) (auto simp: describes_def Let_def popped_def words_of_def file_of_def)

lemma child_path_dir: "child_path (CHR ''/'' # dir) name = CHR ''/'' # join_dir dir name"
  by (simp add: child_path_def join_dir_def)

lemma popped_top: "j < end \<Longrightarrow> popped j ((end, dir) # st) = (end, dir) # st"
  by (simp add: popped_def)

definition open_dirs :: "nat \<Rightarrow> (nat \<times> string) list \<Rightarrow> (nat \<times> string) list \<Rightarrow> bool" where
  "open_dirs i stack stack' \<longleftrightarrow> (\<forall>j \<ge> i. popped j stack = popped j stack')"

definition reads_as :: "(string \<Rightarrow> string) \<Rightarrow> u8 list \<Rightarrow> nat \<Rightarrow> nat \<Rightarrow> (IndexedEntry \<times> string) list \<Rightarrow>
    (nat \<times> string) list \<Rightarrow> (nat \<times> string) list \<Rightarrow> bool" where
  "reads_as host data n i es stack below \<longleftrightarrow> (\<forall>files. \<exists>stack'.
     fst_loop host data n i stack files = fst_loop host data n (i + length es) stack' (files @ concat (map (file_of host \<circ> fst) es)) \<and>
     open_dirs (i + length es) stack' below)"

lemma reads_as_Nil: "open_dirs i stack below \<Longrightarrow> reads_as host data n i [] stack below"
  by (auto simp: reads_as_def)

lemma reads_as_append:
  assumes "reads_as host data n i es stack mid" "\<And>stack'. open_dirs (i + length es) stack' mid \<Longrightarrow> reads_as host data n (i + length es) fs stack' below"
  shows "reads_as host data n i (es @ fs) stack below"
  unfolding reads_as_def
proof
  fix files
  obtain s1 where s1: "fst_loop host data n i stack files = fst_loop host data n (i + length es) s1 (files @ concat (map (file_of host \<circ> fst) es))"
      "open_dirs (i + length es) s1 mid" using assms(1) unfolding reads_as_def by blast
  from assms(2) [OF s1(2)] obtain s2 where
      "fst_loop host data n (i + length es) s1 (files @ concat (map (file_of host \<circ> fst) es)) =
         fst_loop host data n (i + length es + length fs) s2 ((files @ concat (map (file_of host \<circ> fst) es)) @ concat (map (file_of host \<circ> fst) fs))"
      "open_dirs (i + length es + length fs) s2 below" unfolding reads_as_def by blast
  then show "\<exists>stack'. fst_loop host data n i stack files = fst_loop host data n (i + length (es @ fs)) stack'
      (files @ concat (map (file_of host \<circ> fst) (es @ fs))) \<and> open_dirs (i + length (es @ fs)) stack' below"
    using s1(1) by (auto simp: add.assoc)
qed

definition at_index :: "nat \<Rightarrow> (IndexedEntry \<times> string) list \<Rightarrow> (IndexedEntry \<times> string) list \<Rightarrow> bool" where
  "at_index i es L \<longleftrightarrow> take (length es) (drop i L) = es"

lemma at_index_Cons: "at_index i (e # es) L \<Longrightarrow> i < length L \<and> L ! i = e \<and> at_index (Suc i) es L"
proof -
  assume "at_index i (e # es) L"
  then have t: "take (Suc (length es)) (drop i L) = e # es" by (simp add: at_index_def)
  then have "drop i L \<noteq> []" by auto
  then have i: "i < length L" by simp
  then have "drop i L = L ! i # drop (Suc i) L" by (simp add: Cons_nth_drop_Suc)
  then show ?thesis using t i by (simp add: at_index_def)
qed

lemma at_index_append: "at_index i (es @ fs) L \<Longrightarrow> at_index i es L \<and> at_index (i + length es) fs L"
proof -
  assume "at_index i (es @ fs) L"
  then have t: "take (length es + length fs) (drop i L) = es @ fs" by (simp add: at_index_def)
  have "take (length es) (take (length es + length fs) (drop i L)) = es" unfolding t by simp
  moreover have "drop (length es) (take (length es + length fs) (drop i L)) = fs" unfolding t by simp
  ultimately show ?thesis by (simp add: at_index_def drop_take add.commute)
qed

lemma at_index_end: "at_index i es L \<Longrightarrow> i \<le> length L \<Longrightarrow> i + length es \<le> length L"
proof -
  assume a: "at_index i es L" "i \<le> length L"
  have "length es = length (take (length es) (drop i L))" using a(1) by (simp add: at_index_def)
  then show ?thesis using a(2) by simp
qed

lemma flat_Nil: "flat ts d i p = [] \<longleftrightarrow> ts = []"
  by (cases "(ts, d, i, p)" rule: flat.cases) (auto simp: Let_def)

lemma forest_reads:
  assumes d: "describes data L"
  shows "1 \<le> i \<Longrightarrow> i \<le> length L \<Longrightarrow> at_index i (flat ts dd i (CHR ''/'' # dir)) L \<Longrightarrow>
    i + length (flat ts dd i (CHR ''/'' # dir)) \<le> end \<Longrightarrow> open_dirs i stack ((end, dir) # st) \<Longrightarrow>
    reads_as host data (length L) i (flat ts dd i (CHR ''/'' # dir)) stack ((end, dir) # st)"
proof (induction ts arbitrary: dd i dir "end" stack st rule: unmixed.induct)
  case (2 key name ch f rest)
  define p where "p = CHR ''/'' # dir"
  define cp where "cp = child_path p name"
  have cp: "cp = CHR ''/'' # join_dir dir name" by (simp add: cp_def p_def child_path_dir)
  have n: "length L < 2 ^ 32" using d by (simp add: describes_def)
  have "0 < length (flat ((key, TreeNode name ch f) # rest) dd i p)" using flat_Nil [of "(key, TreeNode name ch f) # rest" dd i p] by simp
  then have "i < end" using "2.prems"(4) unfolding p_def by linarith
  then have tp: "popped i stack = (end, dir) # st" using "2.prems"(5) by (simp add: open_dirs_def popped_top)
  show ?case
  proof (cases "ch = []")
    case True
    define e where "e = (file_entry (the f) cp (of_nat dd) (of_nat i), name)"
    define es where "es = flat rest dd (Suc i) p"
    have fl: "flat ((key, TreeNode name ch f) # rest) dd i (CHR ''/'' # dir) = [e] @ es"
      using True by (simp add: e_def es_def cp_def p_def)
    have at: "i < length L" "L ! i = e" "at_index (Suc i) es L" using "2.prems"(3) unfolding fl by (auto dest: at_index_Cons)
    have "reads_as host data (length L) i [e] stack ((end, dir) # st)"
      using fst_loop_file [OF d "2.prems"(1) at(1) tp] at(2)
      by (auto simp: reads_as_def e_def file_entry_def cp open_dirs_def)
    then show ?thesis unfolding fl
    proof (rule reads_as_append)
      fix stack' assume "open_dirs (i + length [e]) stack' ((end, dir) # st)"
      then show "reads_as host data (length L) (i + length [e]) es stack' ((end, dir) # st)"
        using "2.IH"(2) [of "Suc i" dd dir "end" stack' st] "2.prems" at fl by (simp add: es_def p_def)
    qed
  next
    case False
    define sub where "sub = flat ch i (Suc i) cp"
    define e where "e = (directory_entry cp (of_nat dd) (of_nat (Suc i + length sub)), name)"
    define es where "es = flat rest dd (Suc i + length sub) p"
    have fl: "flat ((key, TreeNode name ch f) # rest) dd i (CHR ''/'' # dir) = ([e] @ sub) @ es"
      using False by (simp add: e_def es_def sub_def cp_def p_def Let_def)
    have at: "i < length L" "L ! i = e" "at_index (Suc i) sub L" "at_index (Suc i + length sub) es L"
      using "2.prems"(3) unfolding fl by (auto dest!: at_index_Cons at_index_append)
    have le: "Suc i + length sub \<le> length L" using at_index_end [OF at(3)] at(1) by simp
    have u: "unat (of_nat (Suc i + length sub) :: u32) = Suc i + length sub" by (rule unat_of_nat32) (use le n in simp)
    define below' where "below' = (Suc i + length sub, join_dir dir name) # (end, dir) # st"
    have "reads_as host data (length L) i [e] stack below'"
      using fst_loop_directory [OF d "2.prems"(1) at(1) tp] at(2) u
      by (auto simp: reads_as_def e_def directory_entry_def open_dirs_def file_of_def below'_def simp del: of_nat_Suc of_nat_add)
    then have "reads_as host data (length L) i ([e] @ sub) stack below'"
    proof (rule reads_as_append)
      fix stack' assume "open_dirs (i + length [e]) stack' below'"
      then show "reads_as host data (length L) (i + length [e]) sub stack' below'"
        using "2.IH"(1) [of "Suc i" i "join_dir dir name" "Suc i + length sub" stack' "(end, dir) # st"] at le
        by (simp add: sub_def cp below'_def)
    qed
    then have "reads_as host data (length L) i ([e] @ sub) stack ((end, dir) # st)"
      unfolding reads_as_def by (auto simp: open_dirs_def below'_def popped_def)
    then show ?thesis unfolding fl
    proof (rule reads_as_append)
      fix stack' assume "open_dirs (i + length ([e] @ sub)) stack' ((end, dir) # st)"
      then show "reads_as host data (length L) (i + length ([e] @ sub)) es stack' ((end, dir) # st)"
        using "2.IH"(2) [of "Suc i + length sub" dd dir "end" stack' st] "2.prems" at le fl by (simp add: es_def p_def)
    qed
  qed
qed (simp add: reads_as_Nil)

section \<open>The image of a set of registrations\<close>

lemma BuildImage_run:
  assumes "BuildImage regs = Inr img"
  obtains fs L table offs where "files_by_path regs = Inr fs" "unmixed (tchildren (build_tree fs))"
    "L = (directory_entry ''/'' 0 (of_nat (Suc (length (flat (tchildren (build_tree fs)) 0 1 ''/'')))), []) # flat (tchildren (build_tree fs)) 0 1 ''/''"
    "name_table (map snd (tl L)) [0] [0] = Inr (table, offs)" "length L \<le> (2 ^ 32 - 1) div 12"
    "entries img = map fst L" "bytes img = concat (map2 entry_bytes (map fst L) offs) @ table"
    "pathToEntry img = put_index 1 (tl L) [''/'' \<mapsto> 0]"
proof -
  obtain fs where fs: "files_by_path regs = Inr fs" using assms by (auto simp: BuildImage_def split: sum.splits)
  define ts where "ts = tchildren (build_tree fs)"
  obtain em where em: "EmitTree ts 0 ''/'' root_emission = Inr em"
    using assms fs by (auto simp: BuildImage_def ts_def split: sum.splits)
  then have u: "unmixed ts" using EmitTree_mixed by (metis Inl_Inr_False)
  define es where "es = flat ts 0 1 ''/''"
  define n where "n = Suc (length es)"
  have e: "em = emitted es root_emission" using EmitTree_flat [OF u, of 0 "''/''" root_emission] em
    by (simp add: es_def root_emission_def)
  define L where "L = (directory_entry ''/'' 0 (of_nat n), []) # es"
  have "em_entries (set_subtree_end 0 em) = map fst L" "tl (em_names em) = map snd (tl L)" "em_index em = put_index 1 (tl L) [''/'' \<mapsto> 0]"
    unfolding e by (simp_all add: set_subtree_end_def emitted_def root_emission_def directory_entry_def L_def n_def)
  then obtain table offs where "name_table (map snd (tl L)) [0] [0] = Inr (table, offs)" "\<not> length L > (2 ^ 32 - 1) div 12"
      "img = \<lparr>entries = map fst L, pathToEntry = put_index 1 (tl L) [''/'' \<mapsto> 0], bytes = concat (map2 entry_bytes (map fst L) offs) @ table\<rparr>"
    using assms fs em by (auto simp: BuildImage_def ts_def [symmetric] Let_def split: sum.splits if_splits)
  then show ?thesis using fs u by (intro that [of fs L table offs]) (simp_all add: ts_def es_def L_def n_def)
qed

lemma image_describes:
  assumes nt: "name_table (map snd (tl L)) [0] [0] = Inr (table, offs)" and L: "L \<noteq> []" "length L \<le> (2 ^ 32 - 1) div 12"
    and names: "\<forall>x \<in> set (tl L). CHR 0x00 \<notin> set (snd x)"
  shows "describes (concat (map2 entry_bytes (map fst L) offs) @ table) L"
proof -
  define body where "body = concat (map2 entry_bytes (map fst L) offs)"
  note nt' = name_table_spec [OF nt]
  have len: "length offs = length L" using nt' L(1) by (cases L) auto
  have body: "length body = 12 * length L"
    unfolding body_def by (simp add: length_concat comp_def case_prod_unfold len sum_list_triv)
  have tab: "0 < length table" using nt' by (cases table) auto
  have "(let nameWord = read_word (body @ table) (12 * i); off = unat (nameWord AND 0x00FFFFFF); e = fst (L ! i) in
      12 * length L + off < length (body @ table) \<and> c_string (body @ table) (12 * length L + off) = Some (snd (L ! i)) \<and>
      (drop_bit 24 nameWord \<noteq> 0 \<longleftrightarrow> ie_isDirectory e) \<and>
      read_word (body @ table) (12 * i + 4) = words_of e 0 ! 1 \<and> read_word (body @ table) (12 * i + 8) = words_of e 0 ! 2)"
    if i: "1 \<le> i" "i < length L" for i
  proof -
    obtain j where j: "i = Suc j" using i(1) by (cases i) auto
    define e off where "e = fst (L ! i)" and "off = offs ! i"
    have nm: "map snd (tl L) ! j = snd (L ! i)" "j < length (map snd (tl L))" using i j by (simp_all add: nth_tl)
    obtain post where o: "unat off \<le> 0xFFFFFF" "drop (unat off) table = map char_byte (snd (L ! i)) @ 0 # post"
      using nt' nm j by (auto simp: off_def)
    have w: "read_word (body @ table) (12 * i + 4 * k) = words_of e off ! k" if "k < 3" for k
      using read_entry [of i "map fst L" offs k table] i len that by (simp add: body_def e_def off_def)
    have w0: "read_word (body @ table) (12 * i) = (if ie_isDirectory e then 0x01000000 else 0) OR off"
      using w [of 0] by (simp add: words_of_def)
    have "unat off < length table" using o(2) by (metis drop_eq_Nil2 Nil_is_append_conv list.distinct(1) not_le)
    moreover have "L ! i \<in> set (tl L)" using nth_mem [of j "tl L"] i j by (simp add: nth_tl)
    then have "CHR 0x00 \<notin> set (snd (L ! i))" using names by blast
    then have "c_string (body @ table) (12 * length L + unat off) = Some (snd (L ! i))"
      using o(2) body by (intro c_string_name) simp_all
    ultimately show ?thesis unfolding Let_def w0 type_and_offset [OF o(1)] e_def [symmetric]
      using w [of 1] w [of 2] body by (simp add: words_of_def)
  qed
  then show ?thesis unfolding describes_def body_def [symmetric] using body tab L(2) by auto
qed

lemma LoadFstIndex_describes:
  assumes d: "describes data L" and L: "L = (directory_entry ''/'' 0 (of_nat (length L)), []) # flat ts 0 1 ''/''" "length L \<le> 0x10000"
    and root: "read_word data 8 = of_nat (length L)"
  shows "LoadFstIndex srt host data = Some (srt (concat (map (file_of host \<circ> fst) (tl L))))"
proof -
  have n: "unat (read_word data 8) = length L" unfolding root by (rule unat_of_nat32) (use L(2) in simp)
  have es: "tl L = flat ts 0 1 ''/''" "length L = Suc (length (flat ts 0 1 ''/''))" using L(1) by (metis list.sel(3), metis length_Cons)
  have "at_index 1 (flat ts 0 1 (CHR ''/'' # [])) L" using es by (simp add: at_index_def drop_Suc)
  then have "reads_as host data (length L) 1 (flat ts 0 1 (CHR ''/'' # [])) [(length L, [])] [(length L, [])]"
    using es by (intro forest_reads [OF d]) (simp_all add: open_dirs_def)
  then have "\<exists>stack. fst_loop host data (length L) 1 [(length L, [])] [] =
      fst_loop host data (length L) (1 + length (flat ts 0 1 ''/'')) stack ([] @ concat (map (file_of host \<circ> fst) (flat ts 0 1 ''/'')))"
    unfolding reads_as_def by blast
  then obtain stack where "fst_loop host data (length L) 1 [(length L, [])] [] =
      fst_loop host data (length L) (length L) stack (concat (map (file_of host \<circ> fst) (tl L)))"
    using es by auto
  also have "\<dots> = Some (concat (map (file_of host \<circ> fst) (tl L)))" by (subst fst_loop.simps) simp
  finally show ?thesis using n L(2) es(2) d by (simp add: LoadFstIndex_def describes_def)
qed

end
