(* ===== verification/Dvd_Fst_Laws.thy ===== *)
theory Dvd_Fst_Laws
  imports Dvd_Image_Laws
begin

text \<open>
  What the disc file table is worth: canonical paths are lists of proper names and are their own canonical form; the
  tree holds for every path the file registered last; every entry stands in the index under its path; and the table
  written is the table that is read.
\<close>

section \<open>Canonical paths\<close>

definition good_name :: "string \<Rightarrow> bool" where
  "good_name n \<longleftrightarrow> n \<noteq> [] \<and> CHR ''/'' \<notin> set n \<and> CHR 0x5C \<notin> set n \<and> n \<noteq> ''.'' \<and> n \<noteq> ''..''"

abbreviation good_names :: "string list \<Rightarrow> bool" where
  "good_names \<equiv> list_all good_name"

lemma path_components_Nil: "dropWhile (\<lambda>c. c = CHR ''/'') p = [] \<Longrightarrow> path_components p = []"
  unfolding path_components.simps [of p] by (simp only: list.case)

lemma path_components_Cons: "dropWhile (\<lambda>c. c = CHR ''/'') p = x # xs \<Longrightarrow>
    path_components p = takeWhile (\<lambda>d. d \<noteq> CHR ''/'') (x # xs) # path_components (dropWhile (\<lambda>d. d \<noteq> CHR ''/'') (x # xs))"
  unfolding path_components.simps [of p] by (simp only: list.case)

lemma path_components_plain: "c \<in> set (path_components p) \<Longrightarrow> c \<noteq> [] \<and> CHR ''/'' \<notin> set c \<and> set c \<subseteq> set p"
proof (induction p rule: path_components.induct)
  case (1 path)
  show ?case
  proof (cases "dropWhile (\<lambda>c. c = CHR ''/'') path")
    case Nil
    then show ?thesis using "1.prems" path_components_Nil by simp
  next
    case (Cons x xs)
    have x: "x \<noteq> CHR ''/''" using hd_dropWhile [of "\<lambda>c. c = CHR ''/''" path] by (simp add: Cons)
    have sub: "set (x # xs) \<subseteq> set path" unfolding Cons [symmetric] by (auto dest: set_dropWhileD)
    have "c = takeWhile (\<lambda>d. d \<noteq> CHR ''/'') (x # xs) \<or> c \<in> set (path_components (dropWhile (\<lambda>d. d \<noteq> CHR ''/'') (x # xs)))"
      using "1.prems" unfolding path_components_Cons [OF Cons] by simp
    then show ?thesis
    proof
      assume c: "c = takeWhile (\<lambda>d. d \<noteq> CHR ''/'') (x # xs)"
      show ?thesis unfolding c using x sub by (auto dest: set_takeWhileD)
    next
      assume "c \<in> set (path_components (dropWhile (\<lambda>d. d \<noteq> CHR ''/'') (x # xs)))"
      from "1.IH" [OF Cons this] show ?thesis using sub by (blast dest: set_dropWhileD)
    qed
  qed
qed

lemma fold_add_component: "list_all (\<lambda>c. c \<noteq> [] \<and> CHR ''/'' \<notin> set c \<and> CHR 0x5C \<notin> set c) cs \<Longrightarrow> good_names acc \<Longrightarrow>
    good_names (fold add_component cs acc)"
proof (induction cs arbitrary: acc)
  case (Cons c cs)
  have "good_names (add_component c acc)" using Cons.prems
    by (auto simp: add_component_def good_name_def list_all_iff dest: in_set_butlastD)
  then show ?case using Cons by simp
qed simp

lemma canonical_good: "good_names (canonical_components p)"
  unfolding canonical_components_def
proof (rule fold_add_component)
  define q where "q = map (\<lambda>c. if c = CHR 0x5C then CHR ''/'' else c) p"
  have "CHR 0x5C \<notin> set q" by (auto simp: q_def)
  then show "list_all (\<lambda>c. c \<noteq> [] \<and> CHR ''/'' \<notin> set c \<and> CHR 0x5C \<notin> set c) (path_components q)"
    using path_components_plain [of _ q] by (auto simp: list_all_iff)
qed simp

lemma canonical_chars: "c \<in> set (canonical_components p) \<Longrightarrow> set c \<subseteq> insert CHR ''/'' (set p)"
proof -
  define q where "q = map (\<lambda>c. if c = CHR 0x5C then CHR ''/'' else c) p"
  have "set q \<subseteq> insert CHR ''/'' (set p)" by (auto simp: q_def)
  moreover have "\<forall>c \<in> set (fold add_component cs acc). c \<in> set cs \<or> c \<in> set acc" for cs acc
  proof (induction cs arbitrary: acc)
    case (Cons a cs)
    have "set (add_component a acc) \<subseteq> insert a (set acc)" by (auto simp: add_component_def dest: in_set_butlastD)
    then show ?case using Cons.IH [of "add_component a acc"] by auto
  qed simp
  ultimately show "c \<in> set (canonical_components p) \<Longrightarrow> set c \<subseteq> insert CHR ''/'' (set p)"
    using path_components_plain [of c q] unfolding canonical_components_def q_def [symmetric] by fastforce
qed

lemma path_components_name: "c \<noteq> [] \<Longrightarrow> CHR ''/'' \<notin> set c \<Longrightarrow> path_components (c @ CHR ''/'' # t) = c # path_components t"
proof -
  assume c: "c \<noteq> []" "CHR ''/'' \<notin> set c"
  then obtain x xs where x: "c = x # xs" "x \<noteq> CHR ''/''" by (cases c) auto
  have "path_components (CHR ''/'' # t) = path_components t"
    by (subst path_components.simps, subst (2) path_components.simps) simp
  then show ?thesis using c x while_until [of "CHR ''/''" xs t] by (subst path_components.simps) simp
qed

lemma path_components_last: "c \<noteq> [] \<Longrightarrow> CHR ''/'' \<notin> set c \<Longrightarrow> path_components c = [c]"
proof -
  assume c: "c \<noteq> []" "CHR ''/'' \<notin> set c"
  then obtain x xs where x: "c = x # xs" "x \<noteq> CHR ''/''" by (cases c) auto
  have "takeWhile (\<lambda>d. d \<noteq> CHR ''/'') c = c" "dropWhile (\<lambda>d. d \<noteq> CHR ''/'') c = []"
    using c unfolding takeWhile_eq_all_conv dropWhile_eq_Nil_conv by auto
  moreover have "dropWhile (\<lambda>c. c = CHR ''/'') c = c" using x by simp
  ultimately show ?thesis using path_components_Cons [of c x xs] path_components_Nil [of "[]"] unfolding x(1) by simp
qed

lemma path_components_join: "good_names cs \<Longrightarrow> path_components (join_path cs) = cs"
proof (induction cs rule: join_path.induct)
  case 1
  show ?case by (subst path_components.simps) simp
next
  case (2 c)
  then show ?case by (simp add: path_components_last good_name_def)
next
  case (3 c v va)
  then show ?case by (simp add: path_components_name good_name_def)
qed

lemma split_join: "good_names cs \<Longrightarrow> split_on CHR ''/'' (join_path cs) = cs"
  by (induction cs rule: join_path.induct) (auto simp: split_on_piece split_on_last good_name_def)

lemma join_path_Nil: "good_names cs \<Longrightarrow> join_path cs = [] \<longleftrightarrow> cs = []"
  by (cases cs rule: join_path.cases) (auto simp: good_name_def)

lemma Components_join: "good_names cs \<Longrightarrow> Components (CHR ''/'' # join_path cs) = cs"
  by (auto simp: Components_def split_join join_path_Nil)

lemma join_path_inj: "good_names cs \<Longrightarrow> good_names ds \<Longrightarrow> join_path cs = join_path ds \<Longrightarrow> cs = ds"
  by (metis split_join)

lemma add_good: "good_names cs \<Longrightarrow> fold add_component cs acc = acc @ cs"
  by (induction cs arbitrary: acc) (auto simp: add_component_def good_name_def)

lemma join_path_chars: "set (join_path cs) \<subseteq> insert CHR ''/'' (\<Union> (set ` set cs))"
  by (induction cs rule: join_path.induct) auto

lemma canonical_join: "good_names cs \<Longrightarrow> canonical_components (CHR ''/'' # join_path cs) = cs"
proof -
  assume g: "good_names cs"
  have "CHR 0x5C \<notin> set (join_path cs)" using g join_path_chars [of cs] by (auto simp: list_all_iff good_name_def)
  then have "map (\<lambda>c. if c = CHR 0x5C then CHR ''/'' else c) (CHR ''/'' # join_path cs) = CHR ''/'' # join_path cs"
    by (auto intro: map_idI)
  moreover have "path_components (CHR ''/'' # join_path cs) = path_components (join_path cs)"
    by (subst path_components.simps, subst (2) path_components.simps) simp
  ultimately show ?thesis unfolding canonical_components_def using g by (simp only: path_components_join add_good append_Nil)
qed

lemma CanonicalizePath_join: "good_names cs \<Longrightarrow> CanonicalizePath (CHR ''/'' # join_path cs) = CHR ''/'' # join_path cs"
  by (simp add: CanonicalizePath_def canonical_join)

lemma CanonicalizePath_idem: "CanonicalizePath (CanonicalizePath p) = CanonicalizePath p"
  using CanonicalizePath_join [OF canonical_good] by (simp add: CanonicalizePath_def)

section \<open>Lower case\<close>

lemma tolower_code: "(of_char (tolower c) :: nat) = (if 65 \<le> (of_char c :: nat) \<and> (of_char c :: nat) \<le> 90 then of_char c + 32 else of_char c)"
  by (simp add: tolower_def)

definition fixed_char :: "char \<Rightarrow> bool" where
  "fixed_char d \<longleftrightarrow> of_char d < (65 :: nat) \<or> (90 < (of_char d :: nat) \<and> of_char d < (97 :: nat))"

lemma tolower_fixed: "fixed_char d \<Longrightarrow> tolower c = d \<longleftrightarrow> c = d"
proof (cases "65 \<le> (of_char c :: nat) \<and> (of_char c :: nat) \<le> 90")
  case True
  assume d: "fixed_char d"
  have "(of_char (tolower c) :: nat) = of_char c + 32" using True by (simp add: tolower_code)
  then have "tolower c \<noteq> d" using True d unfolding fixed_char_def by auto
  moreover have "c \<noteq> d" using True d unfolding fixed_char_def by auto
  ultimately show ?thesis by simp
qed (auto simp: tolower_def)

lemma fixed_chars: "fixed_char CHR ''/''" "fixed_char CHR 0x5C" "fixed_char CHR ''.''" "fixed_char CHR 0x00"
  by (simp_all add: fixed_char_def)

lemma Lowercase_good: "good_name n \<Longrightarrow> good_name (Lowercase n)"
proof -
  assume g: "good_name n"
  have keep: "d \<in> set (Lowercase n) \<longleftrightarrow> d \<in> set n" if "fixed_char d" for d
    by (induction n) (simp_all add: Lowercase_def eq_commute [of d] tolower_fixed [OF that])
  have "Lowercase n = ''.'' \<longleftrightarrow> n = ''.''" "Lowercase n = ''..'' \<longleftrightarrow> n = ''..''"
    by (simp_all add: Lowercase_def map_eq_Cons_conv tolower_fixed [OF fixed_chars(3)])
  moreover have "Lowercase n = [] \<longleftrightarrow> n = []" by (simp add: Lowercase_def)
  ultimately show ?thesis using g unfolding good_name_def by (simp add: keep fixed_chars)
qed

lemma Lowercase_join: "Lowercase (join_path cs) = join_path (map Lowercase cs)"
  by (induction cs rule: join_path.induct) (simp_all add: Lowercase_def tolower_def)

section \<open>The tree of the registered files\<close>

text \<open>Every child stands in order under the lower case of its name.\<close>

fun forest_ok :: "(string \<Rightarrow> bool) \<Rightarrow> (string \<times> TreeNode) list \<Rightarrow> bool" where
  "forest_ok P [] = True"
| "forest_ok P ((k, TreeNode n ch f) # rest) \<longleftrightarrow>
     k = Lowercase n \<and> P n \<and> (\<forall>k' \<in> fst ` set rest. k < k') \<and> forest_ok P ch \<and> forest_ok P rest"

lemma forest_ok_child: "forest_ok P ts \<Longrightarrow> (k, t) \<in> set ts \<Longrightarrow> forest_ok P (tchildren t)"
  by (induction P ts rule: forest_ok.induct) auto

lemma forest_ok_put: "forest_ok P ts \<Longrightarrow> P (tname t) \<Longrightarrow> k = Lowercase (tname t) \<Longrightarrow> forest_ok P (tchildren t) \<Longrightarrow> forest_ok P (map_put k t ts)"
proof (induction P ts rule: forest_ok.induct)
  case (1 P)
  then show ?case by (cases t) simp
next
  case (2 P k' n ch f rest)
  have t: "forest_ok P [(k, t)]" using "2.prems" by (cases t) auto
  have o: "k' = Lowercase n" "P n" "\<forall>k \<in> fst ` set rest. k' < k" "forest_ok P ch" "forest_ok P rest" using "2.prems"(1) unfolding forest_ok.simps by blast+
  consider "k < k'" | "k = k'" | "k' < k" by (rule linorder_cases)
  then show ?case
  proof cases
    case 1
    then have "\<forall>k'' \<in> fst ` set rest. k < k''" using o(3) less_trans by blast
    then show ?thesis using 1 t o by (cases t) simp
  next
    case 2
    then show ?thesis using t o by (cases t) simp
  next
    case 3
    then have "\<forall>k'' \<in> fst ` set (map_put k t rest). k' < k''" using o(3) map_put_keys [of k t rest] by (metis insert_iff set_map)
    moreover have "\<not> k < k'" "k \<noteq> k'" using 3 by auto
    then have "map_put k t ((k', TreeNode n ch f) # rest) = (k', TreeNode n ch f) # map_put k t rest" by simp
    ultimately show ?thesis using o "2.IH"(2) "2.prems" by simp
  qed
qed

lemma add_file_ok:
  "forest_ok P (tchildren t) \<Longrightarrow> list_all P cs \<Longrightarrow> cs \<noteq> [] \<longrightarrow> nm = last cs \<Longrightarrow>
   forest_ok P (tchildren (add_file cs nm f t)) \<and> tname (add_file cs nm f t) = (if cs = [] then nm else tname t)"
proof (induction cs nm f t rule: add_file.induct)
  case (2 c cs nm f n ch fl)
  define child where "child = (case map_of ch (Lowercase c) of None \<Rightarrow> TreeNode c [] None | Some t \<Rightarrow> t)"
  have "forest_ok P (tchildren child)" using 2 forest_ok_child
    by (auto simp: child_def split: option.splits dest!: map_of_SomeD)
  have "Lowercase (tname t) = k \<and> P (tname t)" if "(k, t) \<in> set ch" for k t
  proof -
    have "forest_ok P ch \<Longrightarrow> (k, t) \<in> set ch \<Longrightarrow> Lowercase (tname t) = k \<and> P (tname t)"
      by (induction P ch rule: forest_ok.induct) auto
    then show ?thesis using 2 that by simp
  qed
  then have "Lowercase (tname child) = Lowercase c" "P (tname child)" using 2
    by (auto simp: child_def split: option.splits dest!: map_of_SomeD)
  moreover have "forest_ok P (tchildren (add_file cs nm f child)) \<and>
      tname (add_file cs nm f child) = (if cs = [] then nm else tname child)"
    using "2.IH" [OF refl] 2 \<open>forest_ok P (tchildren child)\<close> by (simp add: child_def)
  ultimately show ?case using 2 by (auto simp: Let_def child_def [symmetric] intro!: forest_ok_put)
qed simp

fun node_get :: "string list \<Rightarrow> TreeNode \<Rightarrow> RegisteredFile option" where
  "node_get [] (TreeNode n ch f) = f"
| "node_get (k # ks) (TreeNode n ch f) = (case map_of ch k of None \<Rightarrow> None | Some t \<Rightarrow> node_get ks t)"

lemma node_get_empty: "node_get ks (TreeNode n [] None) = None"
  by (cases ks) simp_all

lemma node_get_add: "node_get ks (add_file cs nm f t) = (if ks = map Lowercase cs then Some f else node_get ks t)"
proof (induction cs nm f t arbitrary: ks rule: add_file.induct)
  case (1 nm f n ch fl)
  then show ?case by (cases ks) simp_all
next
  case (2 c cs nm f n ch fl)
  then show ?case by (cases ks) (auto simp: Let_def smap.get_put node_get_empty split: option.splits)
qed

text \<open>The nodes in preorder, each under its path of keys.\<close>

fun nodes :: "(string \<times> TreeNode) list \<Rightarrow> string list \<Rightarrow> (string list \<times> RegisteredFile option) list" where
  "nodes [] ks = []"
| "nodes ((k, TreeNode n ch f) # rest) ks = (ks @ [k], f) # nodes ch (ks @ [k]) @ nodes rest ks"

lemma nodes_prefix: "(js, f) \<in> set (nodes ts ks) \<Longrightarrow> \<exists>k js'. js = ks @ k # js' \<and> k \<in> fst ` set ts"
  by (induction ts ks rule: nodes.induct) force+

lemma nodes_distinct: "forest_ok P ts \<Longrightarrow> distinct (map fst (nodes ts ks))"
proof (induction ts ks rule: nodes.induct)
  case (2 k n ch f rest ks)
  have a: "(ks @ [k], g) \<notin> set (nodes ch (ks @ [k]))" for g using nodes_prefix by fastforce
  have b: "(ks @ [k], g) \<notin> set (nodes rest ks)" for g using nodes_prefix "2.prems" by fastforce
  have c: "(js, g) \<notin> set (nodes rest ks)" if j: "(js, h) \<in> set (nodes ch (ks @ [k]))" for js g h
  proof
    assume "(js, g) \<in> set (nodes rest ks)"
    from nodes_prefix [OF this] obtain k' js' where r: "js = ks @ k' # js'" "k' \<in> fst ` set rest" by blast
    from nodes_prefix [OF j] obtain k'' js'' where "js = (ks @ [k]) @ k'' # js''" by blast
    then have "k' = k" using r(1) by simp
    then show False using "2.prems" r(2) by auto
  qed
  have "set (map fst (nodes ch (ks @ [k]))) \<inter> set (map fst (nodes rest ks)) = {}" using c by fastforce
  moreover have "ks @ [k] \<notin> set (map fst (nodes ch (ks @ [k])))" "ks @ [k] \<notin> set (map fst (nodes rest ks))" using a b by auto
  ultimately show ?case using 2 by simp
qed simp

lemma nodes_get:
  "forest_ok P ts \<Longrightarrow> map_of ts k = Some t \<Longrightarrow> node_get js t = Some f \<Longrightarrow> (ks @ k # js, Some f) \<in> set (nodes ts ks)"
proof (induction ts ks arbitrary: k t js rule: nodes.induct)
  case (2 k' n ch g rest ks)
  show ?case
  proof (cases "k = k'")
    case True
    then have t: "t = TreeNode n ch g" using "2.prems" by simp
    show ?thesis
    proof (cases js)
      case Nil
      then show ?thesis using "2.prems" t True by simp
    next
      case (Cons j js')
      then obtain u where "map_of ch j = Some u" "node_get js' u = Some f" using "2.prems" t by (auto split: option.splits)
      then have "((ks @ [k']) @ j # js', Some f) \<in> set (nodes ch (ks @ [k']))" using "2.IH"(1) "2.prems" by simp
      then show ?thesis using Cons True by simp
    qed
  qed (use 2 in simp)
qed simp

section \<open>The entries of the tree\<close>

lemma join_path_snoc: "join_path (cs @ [c]) = (if cs = [] then c else join_path cs @ CHR ''/'' # c)"
  by (induction cs rule: join_path.induct) auto

lemma child_path_join: "good_names cs \<Longrightarrow> child_path (CHR ''/'' # join_path cs) n = CHR ''/'' # join_path (cs @ [n])"
  by (auto simp: child_path_def join_path_snoc join_path_Nil)

lemma NormalizeLookupPath_join: "good_names cs \<Longrightarrow> NormalizeLookupPath (CHR ''/'' # join_path cs) = CHR ''/'' # join_path (map Lowercase cs)"
  by (simp add: NormalizeLookupPath_def CanonicalizePath_join flip: Lowercase_join) (simp add: Lowercase_def tolower_def)

definition entry_at :: "string list \<Rightarrow> RegisteredFile option \<Rightarrow> IndexedEntry \<Rightarrow> bool" where
  "entry_at ks fl e \<longleftrightarrow> NormalizeLookupPath (ie_dvdPath e) = CHR ''/'' # join_path ks \<and>
     (case fl of None \<Rightarrow> ie_isDirectory e
      | Some f \<Rightarrow> \<not> ie_isDirectory e \<and> ie_hostPath e = rf_hostPath f \<and> ie_size e = rf_size f \<and> ie_discOffsetWords e = rf_discOffsetWords f)"

lemma flat_nodes:
  "unmixed ts \<Longrightarrow> forest_ok good_name ts \<Longrightarrow> good_names cs \<Longrightarrow>
   list_all2 (\<lambda>(ks, fl) x. entry_at ks fl (fst x)) (nodes ts (map Lowercase cs)) (flat ts d i (CHR ''/'' # join_path cs))"
proof (induction ts arbitrary: d i cs rule: unmixed.induct)
  case (2 key name ch f rest)
  have p: "child_path (CHR ''/'' # join_path cs) name = CHR ''/'' # join_path (cs @ [name])" "good_names (cs @ [name])"
    using 2 by (simp_all add: child_path_join)
  have k: "key = Lowercase name" using 2 by simp
  note path = NormalizeLookupPath_join [OF p(2)]
  show ?case
  proof (cases "ch = []")
    case True
    then obtain fl where f: "f = Some fl" using 2 by auto
    show ?thesis using 2 True f by (simp add: p(1) k path [simplified] entry_at_def file_entry_def)
  next
    case False
    then have f: "f = None" using 2 by auto
    define sub where "sub = flat ch i (Suc i) (CHR ''/'' # join_path (cs @ [name]))"
    have "list_all2 (\<lambda>(ks, fl) x. entry_at ks fl (fst x)) (nodes ch (map Lowercase cs @ [Lowercase name])) sub"
      unfolding sub_def using "2.IH"(1) [of "cs @ [name]"] 2 p by simp
    then show ?thesis using 2 False f
      by (simp add: p(1) k path sub_def [symmetric] Let_def list_all2_appendI entry_at_def directory_entry_def path [simplified])
  qed
qed simp

section \<open>The registrations\<close>

lemma fold_put_from: "x \<in> set (fold (\<lambda>f. map_put (a f) (b f)) xs m) \<Longrightarrow> x \<in> set m \<or> (\<exists>f \<in> set xs. x = (a f, b f))"
proof (induction xs arbitrary: m)
  case (Cons y xs)
  from Cons.IH [of "map_put (a y) (b y) m"] Cons.prems have "x \<in> set (map_put (a y) (b y) m) \<or> (\<exists>f \<in> set xs. x = (a f, b f))" by simp
  then show ?case using map_put_values [of "fst x" "snd x" "a y" "b y" m] by auto
qed simp

lemma fold_put_ok: "map_ok m \<Longrightarrow> map_ok (fold (\<lambda>f. map_put (a f) (b f)) xs m)"
  by (induction xs arbitrary: m) (simp_all add: map_ok_put)

lemma NormalizeLookupPath_canonical: "NormalizeLookupPath (CanonicalizePath p) = NormalizeLookupPath p"
  by (simp add: NormalizeLookupPath_def CanonicalizePath_idem)

definition file_at :: "(string \<Rightarrow> bool) \<Rightarrow> string \<times> RegisteredFile \<Rightarrow> bool" where
  "file_at P x \<longleftrightarrow> (\<exists>cs. cs \<noteq> [] \<and> good_names cs \<and> list_all P cs \<and> rf_dvdPath (snd x) = CHR ''/'' # join_path cs \<and>
     fst x = CHR ''/'' # join_path (map Lowercase cs))"

definition file_keys :: "string \<times> RegisteredFile \<Rightarrow> string list" where
  "file_keys x = map Lowercase (Components (rf_dvdPath (snd x)))"

lemma files_by_path_ok:
  assumes "files_by_path regs = Inr fs" and "\<forall>f \<in> set regs. list_all P (canonical_components (rf_dvdPath f))"
  shows "map_ok fs" and "list_all (file_at P) fs"
proof -
  have fs: "fs = fold (\<lambda>f. map_put (NormalizeLookupPath (CanonicalizePath (rf_dvdPath f))) (f\<lparr>rf_dvdPath := CanonicalizePath (rf_dvdPath f)\<rparr>)) regs []"
    and root: "\<forall>f \<in> set regs. CanonicalizePath (rf_dvdPath f) \<noteq> ''/''"
    using assms(1) by (auto simp: files_by_path_def split: if_splits)
  show "map_ok fs" unfolding fs by (rule fold_put_ok) simp
  have "file_at P x" if "x \<in> set fs" for x
  proof -
    have "\<exists>f \<in> set regs. x = (NormalizeLookupPath (CanonicalizePath (rf_dvdPath f)), f\<lparr>rf_dvdPath := CanonicalizePath (rf_dvdPath f)\<rparr>)"
      using fold_put_from [of x _ _ regs "[]"] that unfolding fs by fastforce
    then obtain f where f: "f \<in> set regs"
      "x = (NormalizeLookupPath (CanonicalizePath (rf_dvdPath f)), f\<lparr>rf_dvdPath := CanonicalizePath (rf_dvdPath f)\<rparr>)" by blast
    define cs where "cs = canonical_components (rf_dvdPath f)"
    have g: "good_names cs" unfolding cs_def by (rule canonical_good)
    moreover have "cs \<noteq> []" using root f(1) by (auto simp: CanonicalizePath_def cs_def)
    moreover have "list_all P cs" using assms(2) f(1) by (simp add: cs_def)
    ultimately show ?thesis
      using NormalizeLookupPath_join [OF g] unfolding file_at_def f(2) CanonicalizePath_def cs_def [symmetric] by auto
  qed
  then show "list_all (file_at P) fs" by (simp add: list_all_iff)
qed

lemma file_at_keys: "file_at P x \<Longrightarrow> fst x = CHR ''/'' # join_path (file_keys x) \<and> file_keys x \<noteq> [] \<and> good_names (file_keys x)"
  unfolding file_at_def file_keys_def by (auto simp: Components_join list_all_iff Lowercase_good)

section \<open>The tree of the registrations\<close>

definition add_entry :: "string \<times> RegisteredFile \<Rightarrow> TreeNode \<Rightarrow> TreeNode" where
  "add_entry = (\<lambda>(_, f) t. add_file (Components (rf_dvdPath f)) (last (Components (rf_dvdPath f))) f t)"

lemma add_entry_ok: "file_at P x \<Longrightarrow> forest_ok P (tchildren t) \<Longrightarrow> forest_ok P (tchildren (add_entry x t))"
  unfolding file_at_def add_entry_def by (cases x) (auto simp: Components_join add_file_ok)

lemma fold_add_ok: "list_all (file_at P) fs \<Longrightarrow> forest_ok P (tchildren t) \<Longrightarrow> forest_ok P (tchildren (fold add_entry fs t))"
  by (induction fs arbitrary: t) (simp_all add: add_entry_ok)

lemma add_entry_get: "node_get ks (add_entry x t) = (if ks = file_keys x then Some (snd x) else node_get ks t)"
  by (cases x) (simp add: add_entry_def file_keys_def node_get_add)

lemma fold_add_get:
  "distinct (map file_keys fs) \<Longrightarrow> node_get ks (fold add_entry fs t) =
     (case find (\<lambda>x. file_keys x = ks) fs of None \<Rightarrow> node_get ks t | Some x \<Rightarrow> Some (snd x))"
proof (induction fs arbitrary: t)
  case (Cons x fs)
  have "find (\<lambda>y. file_keys y = ks) fs = None" if "file_keys x = ks" using Cons.prems that unfolding find_None_iff by (metis distinct.simps(2) image_eqI list.simps(9) set_map)
  then show ?case using Cons by (auto simp: add_entry_get split: option.splits)
qed simp

lemma build_tree_entries: "build_tree fs = fold add_entry fs (TreeNode [] [] None)"
  by (simp add: build_tree_def add_entry_def)

lemma build_tree_get:
  assumes "map_ok fs" "list_all (file_at P) fs" "x \<in> set fs"
  shows "node_get (file_keys x) (build_tree fs) = Some (snd x)"
proof -
  have "map fst fs = map (\<lambda>ks. CHR ''/'' # join_path ks) (map file_keys fs)"
    using assms(2) file_at_keys by (auto simp: list_all_iff)
  then have "distinct (map file_keys fs)" using assms(1) unfolding map_ok_def by (metis distinct_map)
  moreover from this have "find (\<lambda>y. file_keys y = file_keys x) fs = Some x"
    using assms(3) by (induction fs) (auto simp: image_iff)
  ultimately show ?thesis by (simp add: build_tree_entries fold_add_get)
qed

lemma flat_names: "forest_ok P ts \<Longrightarrow> x \<in> set (flat ts d i p) \<Longrightarrow> P (snd x)"
  by (induction ts d i p rule: flat.induct) (auto simp: Let_def split: if_splits)

lemma nodes_good: "forest_ok good_name ts \<Longrightarrow> good_names ks \<Longrightarrow> x \<in> set (nodes ts ks) \<Longrightarrow> good_names (fst x) \<and> fst x \<noteq> []"
  by (induction ts ks rule: nodes.induct) (auto simp: Lowercase_good)

section \<open>The index\<close>

abbreviation entry_key :: "IndexedEntry \<times> string \<Rightarrow> string" where
  "entry_key x \<equiv> NormalizeLookupPath (ie_dvdPath (fst x))"

lemma put_index_other: "k \<notin> entry_key ` set es \<Longrightarrow> put_index i es m k = m k"
  by (induction i es m rule: put_index.induct) (auto simp: emplace_def)

lemma put_index_nth:
  "distinct (map entry_key es) \<Longrightarrow> j < length es \<Longrightarrow> m (entry_key (es ! j)) = None \<Longrightarrow>
   put_index i es m (entry_key (es ! j)) = Some (sint (of_nat (i + j) :: u32))"
proof (induction i es m arbitrary: j rule: put_index.induct)
  case (2 i e es m)
  show ?case
  proof (cases j)
    case 0
    have "entry_key e \<notin> entry_key ` set es" using "2.prems" by auto
    then show ?thesis using 0 "2.prems" put_index_other [of "entry_key e" es] by (simp add: emplace_def)
  next
    case (Suc l)
    then have "entry_key (es ! l) \<in> entry_key ` set es" using "2.prems" by simp
    moreover have "entry_key e \<notin> entry_key ` set es" using "2.prems"(1) by simp
    ultimately have "entry_key (es ! l) \<noteq> entry_key e" by metis
    then have "emplace (entry_key e) (sint (of_nat i :: u32)) m (entry_key (es ! l)) = None" using "2.prems" Suc by (simp add: emplace_def)
    then show ?thesis using "2.IH" [of l] "2.prems" Suc by simp
  qed
qed simp

lemma sint_index: "n < 2 ^ 31 \<Longrightarrow> sint (of_nat n :: u32) = int n"
  by (simp add: signed_of_nat signed_take_bit_int_eq_self)

lemma image_nodes:
  assumes "BuildImage regs = Inr img"
  obtains fs where "files_by_path regs = Inr fs" "forest_ok good_name (tchildren (build_tree fs))"
    "list_all2 (\<lambda>(ks, fl) e. entry_at ks fl e) (nodes (tchildren (build_tree fs)) []) (tl (entries img))"
    "\<forall>i < length (entries img). pathToEntry img (NormalizeLookupPath (ie_dvdPath (entries img ! i))) = Some (int i)"
proof -
  obtain fs L table offs where fs: "files_by_path regs = Inr fs" and u: "unmixed (tchildren (build_tree fs))"
    and L: "L = (directory_entry ''/'' 0 (of_nat (Suc (length (flat (tchildren (build_tree fs)) 0 1 ''/'')))), []) # flat (tchildren (build_tree fs)) 0 1 ''/''"
    and n: "length L \<le> (2 ^ 32 - 1) div 12" and es: "entries img = map fst L"
    and idx: "pathToEntry img = put_index 1 (tl L) [''/'' \<mapsto> 0]" using BuildImage_run [OF assms] by metis
  define ts where "ts = tchildren (build_tree fs)"
  define tt where "tt = flat ts 0 1 ''/''"
  have L': "L = (directory_entry ''/'' 0 (of_nat (Suc (length tt))), []) # tt" unfolding L tt_def ts_def ..
  have "list_all (file_at good_name) fs" using files_by_path_ok [OF fs] canonical_good by blast
  then have ok: "forest_ok good_name ts" unfolding ts_def build_tree_entries by (rule fold_add_ok) simp
  have nd: "list_all2 (\<lambda>(ks, fl) x. entry_at ks fl (fst x)) (nodes ts []) tt"
    using flat_nodes [OF u ok [unfolded ts_def], of "[]" 0 1] by (simp add: ts_def tt_def)
  have "list_all2 (\<lambda>x y. CHR ''/'' # join_path (fst x) = entry_key y) (nodes ts []) tt"
    by (rule list_all2_mono [OF nd]) (auto simp: entry_at_def)
  then have keys: "map entry_key tt = map (\<lambda>x. CHR ''/'' # join_path (fst x)) (nodes ts [])"
    by (simp add: list_all2_conv_all_nth list_eq_iff_nth_eq)
  have good: "good_names (fst x) \<and> fst x \<noteq> []" if "x \<in> set (nodes ts [])" for x using nodes_good [OF ok _ that] by simp
  have "inj_on (\<lambda>ks. CHR ''/'' # join_path ks) (fst ` set (nodes ts []))"
    using good join_path_inj by (auto simp: inj_on_def)
  then have "distinct (map (\<lambda>ks. CHR ''/'' # join_path ks) (map fst (nodes ts [])))"
    using nodes_distinct [OF ok] by (simp only: distinct_map set_map)
  then have dist: "distinct (map entry_key tt)" unfolding keys by (simp add: comp_def)
  have root: "''/'' \<notin> entry_key ` set tt"
  proof
    assume "''/'' \<in> entry_key ` set tt"
    then have "''/'' \<in> set (map entry_key tt)" by simp
    then obtain x where "x \<in> set (nodes ts [])" "join_path (fst x) = []" unfolding keys by auto
    then show False using good join_path_Nil by blast
  qed
  have "pathToEntry img (NormalizeLookupPath (ie_dvdPath (entries img ! i))) = Some (int i)" if i: "i < length (entries img)" for i
  proof (cases i)
    case 0
    have "NormalizeLookupPath ''/'' = ''/''" using NormalizeLookupPath_join [of "[]"] by simp
    then show ?thesis using 0 put_index_other [OF root] unfolding idx es L' by (simp add: directory_entry_def)
  next
    case (Suc j)
    have j: "j < length tt" using i Suc unfolding es L' by simp
    have "[''/'' \<mapsto> 0 :: int] (entry_key (tt ! j)) = None" using root j by (metis fun_upd_other image_eqI nth_mem)
    then have "put_index 1 tt [''/'' \<mapsto> 0] (entry_key (tt ! j)) = Some (sint (of_nat (Suc j) :: u32))"
      using put_index_nth [OF dist j] by simp
    moreover have "Suc j < 2 ^ 31" using n j unfolding L' by simp
    ultimately show ?thesis using Suc j unfolding idx es L' by (simp add: sint_index del: of_nat_Suc) 
  qed
  moreover have "list_all2 (\<lambda>(ks, fl) e. entry_at ks fl e) (nodes ts []) (tl (entries img))"
    using nd unfolding es L' by (simp add: list_all2_map2 case_prod_unfold)
  ultimately show ?thesis using that fs ok unfolding ts_def by blast
qed

section \<open>A sample\<close>

text \<open>Two registrations of one path, the second in another spelling.\<close>

definition sample_files :: "RegisteredFile list" where
  "sample_files =
     [\<lparr>rf_hostPath = ''files/a'', rf_dvdPath = ''/Race/a.szs'', rf_size = 100, rf_discOffsetWords = 64\<rparr>,
      \<lparr>rf_hostPath = ''mod/a'', rf_dvdPath = ''race/./a.SZS'', rf_size = 200, rf_discOffsetWords = 64\<rparr>]"

definition sample_entries :: "IndexedEntry list" where
  "sample_entries =
     [directory_entry ''/'' 0 3, directory_entry ''/race'' 0 3,
      file_entry \<lparr>rf_hostPath = ''mod/a'', rf_dvdPath = ''/race/a.SZS'', rf_size = 200, rf_discOffsetWords = 64\<rparr> ''/race/a.SZS'' 1 2]"

lemma sample_path: "CanonicalizePath ''/Race/a.szs'' = ''/Race/a.szs''" "CanonicalizePath ''race/./a.SZS'' = ''/race/a.SZS''"
  "NormalizeLookupPath ''/Race/a.szs'' = ''/race/a.szs''" "NormalizeLookupPath ''/race/a.SZS'' = ''/race/a.szs''"
  "NormalizeLookupPath ''race/./a.SZS'' = ''/race/a.szs''"
  by (simp_all add: NormalizeLookupPath_def CanonicalizePath_def canonical_components_def path_components.simps add_component_def
      Lowercase_def tolower_def char_of_def bit_iff_odd)

lemma sample_components: "Components ''/race/a.SZS'' = [''race'', ''a.SZS'']"
  by (simp add: Components_def)

lemma sample_image: "\<exists>b m. BuildImage sample_files = Inr \<lparr>entries = sample_entries, pathToEntry = m, bytes = b\<rparr>"
  by (simp add: BuildImage_def files_by_path_def sample_files_def sample_path sample_components build_tree_def Let_def
    Lowercase_def tolower_def char_of_def bit_iff_odd
    set_subtree_end_def emit_entry_def root_emission_def sample_entries_def directory_entry_def file_entry_def)

section \<open>Properties\<close>

text \<open>C36: the index of the built table finds, for the path of a file in any spelling (upper or lower case, either
  slash, dots), the entry of the file that was registered last under it, with its host path, size and disc offset.\<close>

theorem fst_lookup:
  assumes "BuildImage (before @ f # after) = Inr img"
    and "\<forall>g \<in> set after. NormalizeLookupPath (rf_dvdPath g) \<noteq> NormalizeLookupPath (rf_dvdPath f)"
  shows "\<exists>i < length (entries img).
    pathToEntry img (NormalizeLookupPath (rf_dvdPath f)) = Some (int i) \<and>
    NormalizeLookupPath (ie_dvdPath (entries img ! i)) = NormalizeLookupPath (rf_dvdPath f) \<and>
    \<not> ie_isDirectory (entries img ! i) \<and> ie_hostPath (entries img ! i) = rf_hostPath f \<and>
    ie_size (entries img ! i) = rf_size f \<and> ie_discOffsetWords (entries img ! i) = rf_discOffsetWords f"
proof -
  define regs where "regs = before @ f # after"
  obtain fs where fs: "files_by_path regs = Inr fs" and ok: "forest_ok good_name (tchildren (build_tree fs))"
    and nd: "list_all2 (\<lambda>(ks, fl) e. entry_at ks fl e) (nodes (tchildren (build_tree fs)) []) (tl (entries img))"
    and idx: "\<forall>i < length (entries img). pathToEntry img (NormalizeLookupPath (ie_dvdPath (entries img ! i))) = Some (int i)"
    by (rule image_nodes [OF assms(1)]) (simp add: regs_def)
  have at: "map_ok fs" "list_all (file_at good_name) fs" using files_by_path_ok [OF fs, of good_name] canonical_good by blast+
  define k where "k = NormalizeLookupPath (rf_dvdPath f)"
  define r where "r = f\<lparr>rf_dvdPath := CanonicalizePath (rf_dvdPath f)\<rparr>"
  have fs': "fs = fold (\<lambda>f. map_put (NormalizeLookupPath (rf_dvdPath f)) (f\<lparr>rf_dvdPath := CanonicalizePath (rf_dvdPath f)\<rparr>)) regs []"
    using fs by (auto simp: files_by_path_def NormalizeLookupPath_canonical split: if_splits)
  have "filter (\<lambda>g. NormalizeLookupPath (rf_dvdPath g) = k) regs = filter (\<lambda>g. NormalizeLookupPath (rf_dvdPath g) = k) before @ [f]"
    using assms(2) by (simp add: regs_def k_def filter_empty_conv)
  then have "map_of fs k = Some r" unfolding fs' smap.get_fold_put by (auto simp: r_def split: list.splits) (metis last_snoc last.simps)
  then have mem: "(k, r) \<in> set fs" using map_of_iff [OF at(1)] by blast
  have "file_at good_name (k, r)" using at(2) mem by (simp add: list_all_iff)
  note key = file_at_keys [OF this]
  then obtain a ks where ks: "file_keys (k, r) = a # ks" by (cases "file_keys (k, r)") auto
  have "node_get (a # ks) (build_tree fs) = Some r" using build_tree_get [OF at mem] ks by simp
  then have "map_of (tchildren (build_tree fs)) a \<noteq> None \<and> node_get ks (the (map_of (tchildren (build_tree fs)) a)) = Some r"
    by (cases "build_tree fs") (auto split: option.splits)
  then have "(a # ks, Some r) \<in> set (nodes (tchildren (build_tree fs)) [])" using nodes_get [OF ok, of a _ ks r "[]"] by auto
  then obtain j where j: "j < length (nodes (tchildren (build_tree fs)) [])" "nodes (tchildren (build_tree fs)) [] ! j = (a # ks, Some r)"
    by (auto simp: in_set_conv_nth)
  then have e: "j < length (tl (entries img))" "entry_at (a # ks) (Some r) (tl (entries img) ! j)"
    using list_all2_nthD [OF nd j(1)] list_all2_lengthD [OF nd] by simp_all
  then have "Suc j < length (entries img)" "tl (entries img) ! j = entries img ! Suc j" by (auto simp: nth_tl)
  moreover have "NormalizeLookupPath (ie_dvdPath (tl (entries img) ! j)) = k"
    using e(2) key ks by (simp add: entry_at_def)
  ultimately show ?thesis using e(2) idx unfolding k_def [symmetric]
    by (intro exI [of _ "Suc j"]) (auto simp: entry_at_def r_def)
qed

theorem fst_lookup_witness: "\<exists>img i. BuildImage sample_files = Inr img \<and> pathToEntry img ''/race/a.szs'' = Some (int i) \<and>
  ie_hostPath (entries img ! i) = ''mod/a''"
proof -
  obtain img where img: "BuildImage sample_files = Inr img" using sample_image by blast
  then show ?thesis using fst_lookup [of "[sample_files ! 0]" "sample_files ! 1" "[]" img]
    by (auto simp: sample_files_def sample_path)
qed

text \<open>C37: the bytes of a built table, of at most 65536 entries and without zero characters in the paths, are read back
  as the files of its entries, each with its path, its size and the byte range of its disc offset, in the order of the
  offsets; a file whose offset is beyond the 4 GiB that the reader counts is left out.\<close>

theorem fst_roundtrip:
  assumes "BuildImage regs = Inr img" and "length (entries img) \<le> 0x10000"
    and "\<forall>f \<in> set regs. CHR 0x00 \<notin> set (rf_dvdPath f)" and "sorts_files srt"
  shows "\<exists>files. LoadFstIndex srt host (bytes img) = Some files \<and> sorted (map fe_start files) \<and>
    mset files = mset (concat (map (file_of host) (tl (entries img))))"
proof -
  obtain fs L table offs where fs: "files_by_path regs = Inr fs"
    and L: "L = (directory_entry ''/'' 0 (of_nat (Suc (length (flat (tchildren (build_tree fs)) 0 1 ''/'')))), []) # flat (tchildren (build_tree fs)) 0 1 ''/''"
    and nt: "name_table (map snd (tl L)) [0] [0] = Inr (table, offs)"
    and n: "length L \<le> (2 ^ 32 - 1) div 12" and es: "entries img = map fst L"
    and by': "bytes img = concat (map2 entry_bytes (map fst L) offs) @ table" using BuildImage_run [OF assms(1)] by metis
  have "\<forall>f \<in> set regs. list_all (\<lambda>n. CHR 0x00 \<notin> set n) (canonical_components (rf_dvdPath f))"
    using assms(3) canonical_chars by (fastforce simp: list_all_iff)
  then have "list_all (file_at (\<lambda>n. CHR 0x00 \<notin> set n)) fs" using files_by_path_ok [OF fs] by blast
  then have "forest_ok (\<lambda>n. CHR 0x00 \<notin> set n) (tchildren (build_tree fs))" unfolding build_tree_entries by (rule fold_add_ok) simp
  then have names: "\<forall>x \<in> set (tl L). CHR 0x00 \<notin> set (snd x)" using flat_names unfolding L by fastforce
  have len: "length offs = length (map fst L)" using name_table_spec [OF nt] L by simp
  have "read_word (bytes img) (12 * 0 + 4 * 2) = words_of (map fst L ! 0) (offs ! 0) ! 2"
    unfolding by' by (rule read_entry) (use len L in simp_all)
  then have "read_word (bytes img) 8 = of_nat (length L)" by (simp add: words_of_def L directory_entry_def)
  then have "LoadFstIndex srt host (bytes img) = Some (srt (concat (map (file_of host \<circ> fst) (tl L))))"
    using image_describes [OF nt _ n names] L assms(2) unfolding by' es
    by (intro LoadFstIndex_describes [where ts = "tchildren (build_tree fs)"]) simp_all
  then show ?thesis using assms(4) by (simp add: es map_tl sorts_files_def)
qed

theorem fst_roundtrip_witness: "\<exists>img files. BuildImage sample_files = Inr img \<and>
  LoadFstIndex (sort_key fe_start) id (bytes img) = Some files \<and> map fe_dvdPath files = [''/race/a.SZS'']"
proof -
  obtain img where img: "BuildImage sample_files = Inr img" and e: "entries img = sample_entries" using sample_image by auto
  have "sorts_files (sort_key fe_start)" by (simp add: sorts_files_def)
  then obtain files where "LoadFstIndex (sort_key fe_start) id (bytes img) = Some files"
      "mset files = mset (concat (map (file_of id) (tl (entries img))))"
    using fst_roundtrip [OF img, of "sort_key fe_start" id] e by (auto simp: sample_files_def sample_entries_def)
  then show ?thesis using img by (auto simp: e sample_entries_def file_of_def directory_entry_def file_entry_def)
qed

end
