(* ===== verification/Dvd_Disc_Laws.thy ===== *)
theory Dvd_Disc_Laws
  imports Dvd_Disc Dvd_Fst_Laws Memory_Laws
begin

text \<open>
  The published disc: every file entry of the table is a registration, the offsets that the publication keeps and
  assigns are distinct, and so a byte offset finds the file whose range it is in.
\<close>

section \<open>The files of an image\<close>

lemma nodes_only:
  "forest_ok P ts \<Longrightarrow> (ks @ k # js, Some f) \<in> set (nodes ts ks) \<Longrightarrow> \<exists>t. map_of ts k = Some t \<and> node_get js t = Some f"
proof (induction ts ks arbitrary: k js rule: nodes.induct)
  case (2 k' n ch g rest ks)
  consider "ks @ k # js = ks @ [k']" "g = Some f" | "(ks @ k # js, Some f) \<in> set (nodes ch (ks @ [k']))"
    | "(ks @ k # js, Some f) \<in> set (nodes rest ks)" using "2.prems"(2) by auto
  then show ?case
  proof cases
    case 1
    then show ?thesis by simp
  next
    case 2
    from nodes_prefix [OF this] obtain l ls where l: "k = k'" "js = l # ls" by auto
    then obtain t where "map_of ch l = Some t" "node_get ls t = Some f"
      using "2.IH"(1) [of l ls] "2.prems" 2 by auto
    then show ?thesis using l by simp
  next
    case 3
    from nodes_prefix [OF this] have "k \<in> fst ` set rest" by auto
    then have "k \<noteq> k'" using "2.prems"(1) by auto
    then show ?thesis using "2.IH"(2) [of k js] "2.prems" 3 by simp
  qed
qed simp

lemma image_file:
  assumes "BuildImage regs = Inr img" "i < length (entries img)" "\<not> ie_isDirectory (entries img ! i)"
  shows "\<exists>f \<in> set regs. NormalizeLookupPath (rf_dvdPath f) = NormalizeLookupPath (ie_dvdPath (entries img ! i)) \<and>
    rf_hostPath f = ie_hostPath (entries img ! i) \<and> rf_size f = ie_size (entries img ! i) \<and>
    rf_discOffsetWords f = ie_discOffsetWords (entries img ! i)"
proof -
  obtain fs where fs: "files_by_path regs = Inr fs" and ok: "forest_ok good_name (tchildren (build_tree fs))"
    and nd: "list_all2 (\<lambda>(ks, fl) e. entry_at ks fl e) (nodes (tchildren (build_tree fs)) []) (tl (entries img))"
    and idx: "\<forall>i < length (entries img). pathToEntry img (NormalizeLookupPath (ie_dvdPath (entries img ! i))) = Some (int i)"
    by (rule image_nodes [OF assms(1)])
  have at: "map_ok fs" "list_all (file_at good_name) fs" using files_by_path_ok [OF fs, of good_name] canonical_good by blast+
  have "i \<noteq> 0"
  proof
    assume "i = 0"
    then show False using assms by (elim BuildImage_run) (simp add: directory_entry_def)
  qed
  then obtain j where j: "i = Suc j" "j < length (tl (entries img))" "tl (entries img) ! j = entries img ! i"
    using assms(2) by (cases i) (auto simp: nth_tl)
  obtain ks fl where k: "nodes (tchildren (build_tree fs)) [] ! j = (ks, fl)" by fastforce
  have jn: "j < length (nodes (tchildren (build_tree fs)) [])" using list_all2_lengthD [OF nd] j by simp
  have e: "entry_at ks fl (entries img ! i)" using list_all2_nthD [OF nd jn] k j by simp
  then obtain f where f: "fl = Some f" using assms(3) by (auto simp: entry_at_def split: option.splits)
  have mem: "(ks, Some f) \<in> set (nodes (tchildren (build_tree fs)) [])" using nth_mem [OF jn] k f by simp
  then obtain a as where ks: "ks = a # as" using nodes_good [OF ok _ mem] by (cases ks) auto
  obtain t where "map_of (tchildren (build_tree fs)) a = Some t" "node_get as t = Some f"
    using nodes_only [OF ok, of "[]" a as f] mem ks by auto
  then have "node_get ks (build_tree fs) = Some f" by (cases "build_tree fs") (simp add: ks)
  moreover have "distinct (map file_keys fs)"
  proof -
    have "map fst fs = map (\<lambda>ks. CHR ''/'' # join_path ks) (map file_keys fs)"
      using at(2) file_at_keys by (auto simp: list_all_iff)
    then show ?thesis using at(1) unfolding map_ok_def by (metis distinct_map)
  qed
  ultimately have "\<exists>x \<in> set fs. file_keys x = ks \<and> snd x = f"
    unfolding build_tree_entries by (auto simp: fold_add_get node_get_empty find_Some_iff split: option.splits)
  then obtain x where x: "x \<in> set fs" "file_keys x = ks" "snd x = f" by blast
  have "file_at good_name x" using at(2) x(1) by (simp add: list_all_iff)
  then have key: "fst x = CHR ''/'' # join_path ks" using file_at_keys x(2) by blast
  have "fs = fold (\<lambda>f. map_put (NormalizeLookupPath (CanonicalizePath (rf_dvdPath f))) (f\<lparr>rf_dvdPath := CanonicalizePath (rf_dvdPath f)\<rparr>)) regs []"
    using fs by (auto simp: files_by_path_def split: if_splits)
  then have "\<exists>g \<in> set regs. x = (NormalizeLookupPath (CanonicalizePath (rf_dvdPath g)), g\<lparr>rf_dvdPath := CanonicalizePath (rf_dvdPath g)\<rparr>)"
    using fold_put_from [of x "\<lambda>f. NormalizeLookupPath (CanonicalizePath (rf_dvdPath f))" "\<lambda>f. f\<lparr>rf_dvdPath := CanonicalizePath (rf_dvdPath f)\<rparr>" regs "[]"] x(1) by simp
  then obtain g where "g \<in> set regs" "NormalizeLookupPath (rf_dvdPath g) = fst x" "rf_hostPath f = rf_hostPath g" "rf_size f = rf_size g"
      "rf_discOffsetWords f = rf_discOffsetWords g" using x(3) by (auto simp: NormalizeLookupPath_canonical)
  then show ?thesis using e key f by (auto simp: entry_at_def)
qed

lemma image_length: "BuildImage regs = Inr img \<Longrightarrow> length (entries img) < 2 ^ 31"
  by (elim BuildImage_run) simp

section \<open>Distinct offsets\<close>

text \<open>No two entries have the same offset, unless none.\<close>

definition offsets_differ :: "DVDFileEntry list \<Rightarrow> bool" where
  "offsets_differ es \<longleftrightarrow> (\<forall>i < length es. \<forall>j < length es. i \<noteq> j \<longrightarrow> de_discOffsetWords (es ! i) \<noteq> 0 \<longrightarrow>
     de_discOffsetWords (es ! i) \<noteq> de_discOffsetWords (es ! j))"

lemma entry_of_less: "entry_of s n = Some i \<Longrightarrow> length (g_fileEntries s) < 2 ^ 31 \<Longrightarrow> i < length (g_fileEntries s)"
  by (auto simp: entry_of_def sint_index split: option.splits if_splits)

lemma length_keep [simp]: "length (keep_offset s f es) = length es"
  by (simp add: keep_offset_def split: option.splits)

lemma length_fold_keep [simp]: "length (fold (keep_offset s) fs es) = length es"
  by (induction fs arbitrary: es) simp_all

definition disc_words :: "FstFileEntry \<Rightarrow> u32" where
  "disc_words f = fe_start f div 4"

lemma fold_keep_offsets:
  assumes "distinct (map disc_words fs)" and "length (g_fileEntries s) = length es" "length es < 2 ^ 31"
    and "\<forall>e \<in> set es. de_discOffsetWords e \<in> insert 0 X" "offsets_differ es" "X \<inter> disc_words ` set fs = {}"
  shows "offsets_differ (fold (keep_offset s) fs es) \<and>
    (\<forall>e \<in> set (fold (keep_offset s) fs es). de_discOffsetWords e \<in> insert 0 (X \<union> disc_words ` set fs))"
  using assms
proof (induction fs arbitrary: es X)
  case (Cons f fs)
  define es' where "es' = keep_offset s f es"
  have new: "\<forall>e \<in> set es'. de_discOffsetWords e \<in> insert 0 (insert (disc_words f) X)" "offsets_differ es'"
  proof -
    have *: "\<forall>e \<in> set es'. de_discOffsetWords e \<in> insert 0 (insert (disc_words f) X) \<and> offsets_differ es'"
    proof (cases "entry_of s (NormalizeLookupPath (fe_dvdPath f))")
      case None
      then show ?thesis using Cons.prems by (auto simp: es'_def keep_offset_def)
    next
      case (Some i)
      then have i: "i < length es" using entry_of_less [OF Some] Cons.prems by simp
      have e: "es' = es[i := (es ! i)\<lparr>de_discOffsetWords := disc_words f\<rparr>]" using Some by (simp add: es'_def keep_offset_def disc_words_def)
      have o: "de_discOffsetWords (es ! j) \<noteq> disc_words f \<or> disc_words f = 0" if "j < length es" for j
        using Cons.prems(4,6) nth_mem [OF that] by auto
      have "offsets_differ es'" unfolding offsets_differ_def e
        using Cons.prems(5) o i unfolding offsets_differ_def by (auto simp: nth_list_update)
      moreover have "\<forall>e \<in> set es'. de_discOffsetWords e \<in> insert 0 (insert (disc_words f) X)"
        unfolding e using Cons.prems(4) by (auto dest!: set_update_subset_insert [THEN subsetD])
      ultimately show ?thesis by blast
    qed
    show "\<forall>e \<in> set es'. de_discOffsetWords e \<in> insert 0 (insert (disc_words f) X)" using * by blast
    show "offsets_differ es'" using * by (cases es') (auto simp: offsets_differ_def)
  qed
  have "length es' = length es" by (simp add: es'_def)
  then show ?case using Cons.IH [of es' "insert (disc_words f) X"] Cons.prems new by (auto simp: es'_def)
qed simp

lemma next_free_bound: "e \<in> set es \<Longrightarrow> de_discOffsetWords e \<noteq> 0 \<Longrightarrow> 4 * unat (de_discOffsetWords e) + unat (de_size e) \<le> next_free fs es"
proof -
  have mono: "n \<le> fold (\<lambda>e n. if de_discOffsetWords e \<noteq> 0 then max n (4 * unat (de_discOffsetWords e) + unat (de_size e)) else n) es n" for n es
    by (induction es arbitrary: n) (auto intro: order_trans [OF max.cobounded1])
  have "e \<in> set es \<Longrightarrow> de_discOffsetWords e \<noteq> 0 \<Longrightarrow> 4 * unat (de_discOffsetWords e) + unat (de_size e) \<le>
      fold (\<lambda>e n. if de_discOffsetWords e \<noteq> 0 then max n (4 * unat (de_discOffsetWords e) + unat (de_size e)) else n) es n" for n
  proof (induction es arbitrary: n)
    case (Cons a es)
    show ?case
    proof (cases "a = e")
      case True
      then show ?thesis using Cons.prems mono [of "max n (4 * unat (de_discOffsetWords e) + unat (de_size e))" es] by simp
    qed (use Cons in simp)
  qed simp
  then show "e \<in> set es \<Longrightarrow> de_discOffsetWords e \<noteq> 0 \<Longrightarrow> ?thesis" by (simp add: next_free_def)
qed

lemma unat_max: "unat (max a b) = max (unat a) (unat b)"
  by (simp add: max_def word_le_nat_alt)

definition fresh :: "DVDFileEntry \<Rightarrow> bool" where
  "fresh e \<longleftrightarrow> \<not> de_isDirectory e \<and> de_discOffsetWords e = 0"

lemma synthetic_spec:
  "synthetic_extents n es = Some es' \<Longrightarrow> length es' = length es \<and>
   (\<forall>i < length es. es' ! i = (es ! i)\<lparr>de_discOffsetWords := de_discOffsetWords (es' ! i)\<rparr>) \<and>
   (\<forall>i < length es. if fresh (es ! i) then n \<le> 4 * unat (de_discOffsetWords (es' ! i)) else es' ! i = es ! i) \<and>
   (\<forall>j < length es. \<forall>i < j. fresh (es ! i) \<longrightarrow> fresh (es ! j) \<longrightarrow>
      4 * unat (de_discOffsetWords (es' ! i)) + unat (max (de_size (es ! i)) 4) \<le> 4 * unat (de_discOffsetWords (es' ! j)))"
proof (induction n es arbitrary: es' rule: synthetic_extents.induct)
  case (2 n e es)
  show ?case
  proof (cases "fresh e")
    case False
    then obtain r where "synthetic_extents n es = Some r" "es' = e # r" using "2.prems" by (auto simp: fresh_def)
    then show ?thesis using "2.IH"(1) [of r] False by (auto simp: fresh_def nth_Cons split: nat.splits)
  next
    case True
    define n' where "n' = (n + 31) div 32 * 32"
    define m where "m = n' + unat (max (de_size e) 4)"
    obtain r where r: "synthetic_extents m es = Some r" and small: "n' div 4 \<le> 0xFFFFFFFF"
      and es': "es' = e\<lparr>de_discOffsetWords := of_nat (n' div 4)\<rparr> # r"
      using "2.prems" True by (auto simp: fresh_def Let_def n'_def m_def split: if_splits)
    have w: "4 * unat (of_nat (n' div 4) :: u32) = n'"
      using small unat_of_nat32 [of "n' div 4"] by (simp add: n'_def)
    have "n \<le> n'" by (simp add: n'_def)
    then have "n \<le> m" by (simp add: m_def)
    have ih: "length r = length es"
        "\<And>i. i < length es \<Longrightarrow> r ! i = (es ! i)\<lparr>de_discOffsetWords := de_discOffsetWords (r ! i)\<rparr>"
        "\<And>i. i < length es \<Longrightarrow> if fresh (es ! i) then m \<le> 4 * unat (de_discOffsetWords (r ! i)) else r ! i = es ! i"
        "\<And>i j. j < length es \<Longrightarrow> i < j \<Longrightarrow> fresh (es ! i) \<Longrightarrow> fresh (es ! j) \<Longrightarrow>
          4 * unat (de_discOffsetWords (r ! i)) + unat (max (de_size (es ! i)) 4) \<le> 4 * unat (de_discOffsetWords (r ! j))"
      using "2.IH"(2) [OF _ refl, of r] r True small by (auto simp: fresh_def n'_def m_def)
    show ?thesis unfolding es'
    proof (intro conjI allI impI, goal_cases)
      case (2 i)
      then show ?case using ih(2) [of "i - 1"] by (cases i) simp_all
    next
      case (3 i)
      then show ?case using ih(3) [of "i - 1"] \<open>n \<le> m\<close> \<open>n \<le> n'\<close> w True by (cases i) (auto split: if_splits)
    next
      case (4 j i)
      then obtain k where j: "j = Suc k" "k < length es" by (cases j) auto
      show ?case
      proof (cases i)
        case 0
        then show ?thesis using ih(3) [of k] j 4 w by (simp add: m_def)
      next
        case (Suc l)
        then show ?thesis using ih(4) [of k l] j 4 by simp
      qed
    qed (simp add: ih(1))
  qed
qed simp

lemma synthetic_differ:
  assumes s: "synthetic_extents n es = Some es'" and d: "offsets_differ es"
    and old: "\<forall>e \<in> set es. de_discOffsetWords e \<noteq> 0 \<longrightarrow> 4 * unat (de_discOffsetWords e) < n"
  shows "offsets_differ es'"
  unfolding offsets_differ_def
proof (intro allI impI)
  note sp = synthetic_spec [OF s]
  fix i j assume ij: "i < length es'" "j < length es'" "i \<noteq> j" and nz: "de_discOffsetWords (es' ! i) \<noteq> 0"
  have kept: "es' ! k = es ! k" if "k < length es" "\<not> fresh (es ! k)" for k using sp that by auto
  have low: "4 * unat (de_discOffsetWords (es ! k)) < n \<or> de_discOffsetWords (es ! k) = 0" if "k < length es" for k
    using old nth_mem [OF that] by blast
  have high: "n \<le> 4 * unat (de_discOffsetWords (es' ! k))" if "k < length es" "fresh (es ! k)" for k using sp that by auto
  have len: "i < length es" "j < length es" using ij sp by auto
  have pos: "0 < unat (max (de_size e) 4)" for e by (simp add: unat_max)
  show "de_discOffsetWords (es' ! i) \<noteq> de_discOffsetWords (es' ! j)"
  proof (cases "fresh (es ! i)"; cases "fresh (es ! j)")
    assume f: "fresh (es ! i)" "fresh (es ! j)"
    have o: "4 * unat (de_discOffsetWords (es' ! a)) < 4 * unat (de_discOffsetWords (es' ! b))"
      if "a < b" "b < length es" "fresh (es ! a)" "fresh (es ! b)" for a b
    proof -
      have "4 * unat (de_discOffsetWords (es' ! a)) + unat (max (de_size (es ! a)) 4) \<le> 4 * unat (de_discOffsetWords (es' ! b))"
        using sp that by blast
      then show ?thesis using pos [of "es ! a"] by linarith
    qed
    show ?thesis using o [of i j] o [of j i] f len ij(3) by (cases i j rule: linorder_cases) auto
  next
    assume f: "fresh (es ! i)" "\<not> fresh (es ! j)"
    then show ?thesis using kept [OF len(2)] high [OF len(1)] low [OF len(2)] nz by auto
  next
    assume f: "\<not> fresh (es ! i)" "fresh (es ! j)"
    then show ?thesis using kept [OF len(1)] high [OF len(2)] low [OF len(1)] nz by auto
  next
    assume f: "\<not> fresh (es ! i)" "\<not> fresh (es ! j)"
    then show ?thesis using kept len d nz ij(3) unfolding offsets_differ_def by auto
  qed
qed

section \<open>Finding a range\<close>

definition sorts_extents :: "(PublishedExtent list \<Rightarrow> PublishedExtent list) \<Rightarrow> bool" where
  "sorts_extents srt \<longleftrightarrow> (\<forall>xs. mset (srt xs) = mset xs \<and> sorted (map pe_startBytes (srt xs)))"

lemma last_of_sorted: "sorted (map f ys) \<Longrightarrow> e \<in> set ys \<Longrightarrow> \<forall>x \<in> set ys. x \<noteq> e \<longrightarrow> f x < f e \<Longrightarrow> last ys = (e :: 'a)" for f :: "'a \<Rightarrow> nat"
proof (induction ys)
  case (Cons y ys)
  show ?case
  proof (cases "e \<in> set ys")
    case False
    then have "e = y" using Cons.prems by simp
    have "ys = []"
    proof (cases ys)
      case (Cons z zs)
      then have "f y \<le> f z" "z \<noteq> e" using Cons.prems(1) False by auto
      then show ?thesis using Cons Cons.prems(3) \<open>e = y\<close> by force
    qed
    then show ?thesis using \<open>e = y\<close> by simp
  qed (use Cons in auto)
qed simp

lemma sorted_takeWhile_filter: "sorted (map f xs) \<Longrightarrow> takeWhile (\<lambda>x. f x \<le> n) xs = filter (\<lambda>x. f x \<le> (n :: nat)) xs"
proof (induction xs)
  case (Cons x xs)
  then have "\<not> f x \<le> n \<Longrightarrow> filter (\<lambda>x. f x \<le> n) xs = []" unfolding filter_empty_conv by fastforce
  then show ?case using Cons by simp
qed simp

lemma find_extent:
  assumes "sorted (map pe_startBytes xs)" "e \<in> set xs" "pe_startBytes e \<le> off" "off < pe_endBytes e"
    and "\<forall>x \<in> set xs. x \<noteq> e \<longrightarrow> pe_startBytes x \<le> off \<longrightarrow> pe_startBytes x < pe_startBytes e"
  shows "FindPublishedExtentForByteOffset xs off = Some e"
proof -
  define ys where "ys = takeWhile (\<lambda>x. pe_startBytes x \<le> off) xs"
  have ys: "ys = filter (\<lambda>x. pe_startBytes x \<le> off) xs" unfolding ys_def by (rule sorted_takeWhile_filter [OF assms(1)])
  have "sorted (map pe_startBytes ys)" unfolding ys by (rule sorted_filter [OF assms(1)])
  then have "last ys = e" by (rule last_of_sorted) (use assms ys in auto)
  moreover have "ys \<noteq> []" using assms(2,3) ys by (auto simp: filter_empty_conv)
  ultimately show ?thesis using assms(4) unfolding FindPublishedExtentForByteOffset_def ys_def [symmetric]
    by (cases ys) auto
qed

definition extent_at :: "DVDFileEntry list \<Rightarrow> nat \<Rightarrow> PublishedExtent" where
  "extent_at es i = \<lparr>pe_startBytes = 4 * unat (de_discOffsetWords (es ! i)),
     pe_endBytes = 4 * unat (de_discOffsetWords (es ! i)) + unat (max (de_size (es ! i)) 1), pe_entryIndex = int i\<rparr>"

lemma extents_of_iff:
  "length es < 2 ^ 31 \<Longrightarrow> x \<in> set (extents_of es) \<longleftrightarrow>
     (\<exists>i < length es. \<not> de_isDirectory (es ! i) \<and> de_discOffsetWords (es ! i) \<noteq> 0 \<and> x = extent_at es i)"
  by (auto simp: extents_of_def extent_at_def Let_def sint_index split: if_splits)

section \<open>Publication\<close>

lemma keep_sizes: "map de_size (fold (keep_offset s) fs es) = map de_size es"
proof -
  have upd: "map de_size (es[i := x]) = map de_size es" if "de_size x = de_size (es ! i)" for es i and x :: DVDFileEntry
    using that by (cases "i < length es") (simp_all add: map_update list_update_same_conv list_update_beyond)
  have "map de_size (keep_offset s f es) = map de_size es" for f es
    by (simp add: keep_offset_def upd split: option.splits)
  then show ?thesis by (induction fs arbitrary: es) simp_all
qed

lemma publish_offsets:
  assumes "synthetic_extents (next_free fs es) es = Some es'" "es = fold (keep_offset s) fs (g_fileEntries s)"
    and "distinct (map disc_words fs)" "length (g_fileEntries s) < 2 ^ 31"
    and "\<forall>e \<in> set (g_fileEntries s). de_discOffsetWords e = 0 \<and> de_size e \<noteq> 0"
  shows "offsets_differ es'"
proof (rule synthetic_differ [OF assms(1)])
  have "offsets_differ (g_fileEntries s)" using assms(5) by (simp add: offsets_differ_def)
  then show "offsets_differ es" unfolding assms(2) using fold_keep_offsets [OF assms(3) refl assms(4), of "{}"] assms(5) by auto
  have "de_size e \<noteq> 0" if "e \<in> set es" for e
  proof -
    have "de_size e \<in> set (map de_size es)" using that by simp
    then show ?thesis using assms(5) by (auto simp: assms(2) keep_sizes)
  qed
  then show "\<forall>e \<in> set es. de_discOffsetWords e \<noteq> 0 \<longrightarrow> 4 * unat (de_discOffsetWords e) < next_free fs es"
    using next_free_bound [of _ es fs] by (metis add_less_cancel_left add.right_neutral unat_gt_0 order_less_le_trans)
qed

text \<open>The published entries carry the offsets of different registrations.\<close>

lemma published_differ:
  assumes "BuildImage (map registration es) = Inr img" "offsets_differ es"
  shows "i < length (entries img) \<Longrightarrow> j < length (entries img) \<Longrightarrow> i \<noteq> j \<Longrightarrow>
    \<not> ie_isDirectory (entries img ! i) \<Longrightarrow> \<not> ie_isDirectory (entries img ! j) \<Longrightarrow>
    ie_discOffsetWords (entries img ! i) \<noteq> 0 \<Longrightarrow> ie_discOffsetWords (entries img ! i) \<noteq> ie_discOffsetWords (entries img ! j)"
proof -
  assume ij: "i < length (entries img)" "j < length (entries img)" "i \<noteq> j" "\<not> ie_isDirectory (entries img ! i)"
    "\<not> ie_isDirectory (entries img ! j)" "ie_discOffsetWords (entries img ! i) \<noteq> 0"
  let ?key = "\<lambda>i. NormalizeLookupPath (ie_dvdPath (entries img ! i))"
  have ex: "\<exists>p < length es. NormalizeLookupPath (de_dvdPath (es ! p)) = ?key k \<and> de_discOffsetWords (es ! p) = ie_discOffsetWords (entries img ! k)"
    if k: "k < length (entries img)" "\<not> ie_isDirectory (entries img ! k)" for k
  proof -
    obtain f where f: "f \<in> set (map registration es)" "NormalizeLookupPath (rf_dvdPath f) = ?key k"
      "rf_discOffsetWords f = ie_discOffsetWords (entries img ! k)" using image_file [OF assms(1) k] by blast
    then obtain e where "e \<in> set es" "f = registration e" by auto
    then show ?thesis using f(2,3) unfolding in_set_conv_nth by (auto simp: registration_def)
  qed
  obtain p where p: "p < length es" "NormalizeLookupPath (de_dvdPath (es ! p)) = ?key i" "de_discOffsetWords (es ! p) = ie_discOffsetWords (entries img ! i)"
    using ex [OF ij(1,4)] by blast
  obtain q where q: "q < length es" "NormalizeLookupPath (de_dvdPath (es ! q)) = ?key j" "de_discOffsetWords (es ! q) = ie_discOffsetWords (entries img ! j)"
    using ex [OF ij(2,5)] by blast
  have "?key i \<noteq> ?key j"
  proof
    assume k: "?key i = ?key j"
    obtain fs where "\<forall>i < length (entries img). pathToEntry img (?key i) = Some (int i)" by (rule image_nodes [OF assms(1)])
    then have "int i = int j" using ij(1,2) k by (metis option.inject)
    then show False using ij(3) by simp
  qed
  then have "p \<noteq> q" using p(2) q(2) by auto
  then show ?thesis using assms(2) p q ij(6) unfolding offsets_differ_def by metis
qed

lemma published_extent:
  assumes "publish_index host s = Some (img, t)" "sorts_extents (dh_sort_extents host)"
    and "distinct (map disc_words (g_fstFiles s))" "length (g_fileEntries s) < 2 ^ 31"
    and "\<forall>e \<in> set (g_fileEntries s). de_discOffsetWords e = 0 \<and> de_size e \<noteq> 0"
    and i: "i < length (g_fileEntries t)" "\<not> de_isDirectory (g_fileEntries t ! i)" "de_discOffsetWords (g_fileEntries t ! i) \<noteq> 0"
    and off: "4 * unat (de_discOffsetWords (g_fileEntries t ! i)) \<le> off" "off < pe_endBytes (extent_at (g_fileEntries t) i)"
    and free: "\<forall>j < length (g_fileEntries t). \<not> de_isDirectory (g_fileEntries t ! j) \<longrightarrow>
      4 * unat (de_discOffsetWords (g_fileEntries t ! j)) \<le> 4 * unat (de_discOffsetWords (g_fileEntries t ! i)) \<or>
      off < 4 * unat (de_discOffsetWords (g_fileEntries t ! j))"
  shows "FindPublishedExtentForByteOffset (g_publishedExtents t) off = Some (extent_at (g_fileEntries t) i)"
proof -
  define es where "es = fold (keep_offset s) (g_fstFiles s) (g_fileEntries s)"
  obtain es' where es': "synthetic_extents (next_free (g_fstFiles s) es) es = Some es'"
    and img: "BuildImage (map registration es') = Inr img"
    and t: "g_fileEntries t = map indexed_entry (entries img)"
      "g_publishedExtents t = dh_sort_extents host (extents_of (map indexed_entry (entries img)))"
    using assms(1) by (auto simp: publish_index_def Let_def es_def split: option.splits sum.splits)
  let ?es = "g_fileEntries t"
  have d: "offsets_differ es'" by (rule publish_offsets [OF es' es_def assms(3-5)])
  have len: "length ?es < 2 ^ 31" using image_length [OF img] by (simp add: t)
  have set: "set (g_publishedExtents t) = set (extents_of ?es)" and sorted: "sorted (map pe_startBytes (g_publishedExtents t))"
    using assms(2) unfolding sorts_extents_def t by (metis mset_eq_setD, blast)
  show ?thesis
  proof (rule find_extent [OF sorted])
    show "extent_at ?es i \<in> set (g_publishedExtents t)" unfolding set extents_of_iff [OF len] using i by blast
    show "\<forall>x \<in> set (g_publishedExtents t). x \<noteq> extent_at ?es i \<longrightarrow> pe_startBytes x \<le> off \<longrightarrow> pe_startBytes x < pe_startBytes (extent_at ?es i)"
    proof (intro ballI impI)
      fix x assume x: "x \<in> set (g_publishedExtents t)" "x \<noteq> extent_at ?es i" "pe_startBytes x \<le> off"
      then obtain j where j: "j < length ?es" "\<not> de_isDirectory (?es ! j)" "de_discOffsetWords (?es ! j) \<noteq> 0" "x = extent_at ?es j"
        unfolding set extents_of_iff [OF len] by blast
      then have ij: "i \<noteq> j" using x by blast
      have "de_discOffsetWords (?es ! i) \<noteq> de_discOffsetWords (?es ! j)"
        using published_differ [OF img d _ _ ij] i j by (simp add: t indexed_entry_def)
      then have "unat (de_discOffsetWords (?es ! i)) \<noteq> unat (de_discOffsetWords (?es ! j))" by (metis word_unat_eq_iff)
      then show "pe_startBytes x < pe_startBytes (extent_at ?es i)"
        using free j x(3) by (auto simp: extent_at_def)
    qed
  qed (use off in \<open>simp_all add: extent_at_def\<close>)
qed

section \<open>Properties\<close>

text \<open>An empty file on the disc, and a file of a mod that gets the same offset.\<close>

lemma empty_file_collides:
  "\<exists>a b b'. de_size a = 0 \<and> de_discOffsetWords a \<noteq> 0 \<and> de_discOffsetWords b = 0 \<and>
     synthetic_extents (next_free [] [a, b]) [a, b] = Some [a, b'] \<and> de_discOffsetWords b' = de_discOffsetWords a"
proof -
  let ?e = "\<lambda>w. \<lparr>de_hostPath = [], de_dvdPath = [], de_size = 0, de_discOffsetWords = w, de_isDirectory = False\<rparr>"
  have "synthetic_extents (next_free [] [?e 8, ?e 0]) [?e 8, ?e 0] = Some [?e 8, ?e 8]" by (simp add: next_free_def)
  then show ?thesis by (intro exI [of _ "?e 8"] exI [of _ "?e 0"]) simp
qed


definition sample_disc :: dvd_state where
  "sample_disc = memory.extend empty_memory (dvd_state.fields
     [\<lparr>de_hostPath = ''files/a'', de_dvdPath = ''/a'', de_size = 10, de_discOffsetWords = 0, de_isDirectory = False\<rparr>,
      \<lparr>de_hostPath = ''mod/b'', de_dvdPath = ''/b'', de_size = 20, de_discOffsetWords = 0, de_isDirectory = False\<rparr>]
     [''/a'' \<mapsto> 0, ''/b'' \<mapsto> 1] [] False False
     [\<lparr>fe_start = 64, fe_end = 74, fe_size = 10, fe_dvdPath = ''/a'', fe_hostPath = ''files/a''\<rparr>] True {} [])"

definition sample_host :: disc_host where
  "sample_host = \<lparr>dh_root = ''data'', dh_join = (\<lambda>a b. a @ CHR ''/'' # b), dh_exists = (\<lambda>_. True), dh_regular = (\<lambda>_. True),
     dh_size = (\<lambda>_. None), dh_walk = (\<lambda>_ _. []), dh_read = [''mod/b'' \<mapsto> replicate 20 7], dh_overlays = [],
     dh_sort_files = sort_key fe_start, dh_sort_extents = sort_key pe_startBytes,
     dh_reserved_base = 0x93000000, dh_reserved_size = 0x1000, dh_guest = (\<lambda>_. None)\<rparr>"

definition sample_published :: "DVDFileEntry list" where
  "sample_published =
     [\<lparr>de_hostPath = [], de_dvdPath = ''/'', de_size = 0, de_discOffsetWords = 0, de_isDirectory = True\<rparr>,
      \<lparr>de_hostPath = ''files/a'', de_dvdPath = ''/a'', de_size = 10, de_discOffsetWords = 16, de_isDirectory = False\<rparr>,
      \<lparr>de_hostPath = ''mod/b'', de_dvdPath = ''/b'', de_size = 20, de_discOffsetWords = 24, de_isDirectory = False\<rparr>]"

lemma disc_paths: "CanonicalizePath ''/a'' = ''/a''" "CanonicalizePath ''/b'' = ''/b''"
  "NormalizeLookupPath ''/a'' = ''/a''" "NormalizeLookupPath ''/b'' = ''/b''"
  by (simp_all add: NormalizeLookupPath_def CanonicalizePath_def canonical_components_def path_components.simps add_component_def
      Lowercase_def tolower_def)

lemma sample_publish: "\<exists>img t. publish_index sample_host sample_disc = Some (img, t) \<and> g_fileEntries t = sample_published"
  by (simp add: publish_index_def sample_disc_def sample_host_def dvd_state.defs memory.defs Let_def keep_offset_def entry_of_def
      disc_paths next_free_def max_def BuildImage_def files_by_path_def registration_def build_tree_def Components_def Lowercase_def
      tolower_def emit_entry_def root_emission_def directory_entry_def file_entry_def set_subtree_end_def indexed_entry_def
      sample_published_def)


end
