(* ===== verification/Dvd_Read_Laws.thy ===== *)
theory Dvd_Read_Laws
  imports Dvd_Read Dvd_Disc_Laws Byte_Memory
begin

text \<open>
  What a read of the disc does to guest memory: \<open>changes\<close> names the words that a run of stores may differ in, and a
  read by handle delivers the bytes of the file or fails without touching the buffer.
\<close>

section \<open>What a run of stores leaves alone\<close>

text \<open>Only the words at the addresses \<open>A\<close> differ.\<close>

definition changes :: "u32 set \<Rightarrow> 'a memory_scheme \<Rightarrow> 'a memory_scheme \<Rightarrow> bool" where
  "changes A s t \<longleftrightarrow> (\<exists>st. t = s\<lparr>Storage := st\<rparr>) \<and>
     (\<forall>a n. ram_window a n \<longrightarrow> (\<forall>c \<in> A. unat a + n \<le> unat c \<or> unat c + 4 \<le> unat a) \<longrightarrow>
       (\<forall>i < n. mem_byte t a i = mem_byte s a i))"

lemma changes_refl: "changes A s s"
proof -
  have "s = s\<lparr>Storage := Storage s\<rparr>" by simp
  then show ?thesis unfolding changes_def by blast
qed

lemma changes_trans: "changes A s t \<Longrightarrow> changes A t u \<Longrightarrow> changes A s u"
proof -
  assume a: "changes A s t" "changes A t u"
  then obtain x y where "t = s\<lparr>Storage := x\<rparr>" "u = t\<lparr>Storage := y\<rparr>" unfolding changes_def by blast
  then have "u = s\<lparr>Storage := y\<rparr>" by simp
  then show ?thesis using a unfolding changes_def by auto
qed

lemma changes_mono: "changes A s t \<Longrightarrow> A \<subseteq> B \<Longrightarrow> changes B s t"
  unfolding changes_def by blast

lemma changes_wr: "ram s c \<Longrightarrow> c \<in> A \<Longrightarrow> changes A s (wr32 s c v)"
proof -
  assume c: "ram s c" "c \<in> A"
  have "wr32 s c v = s\<lparr>Storage := splice (ram_loc c) (BigEndian_Write32 v) (Storage s)\<rparr>" by (simp add: wr32_def put_bytes_splice)
  moreover have "mem_byte (wr32 s c v) a i = mem_byte s a i"
    if "ram_window a n" "unat a + n \<le> unat c \<or> unat c + 4 \<le> unat a" "i < n" for a n i
    using mem_byte_put_other [OF that(1) _ that(2,3), of "BigEndian_Write32 v" s] c(1) by (simp add: wr32_def ram_def)
  ultimately show ?thesis using c(2) unfolding changes_def by blast
qed

lemma changes_ram: "changes A s t \<Longrightarrow> ram t c = ram s c"
  by (rule ram_congI) (auto simp: changes_def)

lemma rd32_bytes: "rd32 s c = BigEndian_Read32 (map (mem_byte s c) [0..<4])"
  by (simp add: rd32_def bytes_at_def mem_byte_def [abs_def])

lemma changes_rd:
  assumes "changes A s t" "ram s c" "\<forall>a \<in> A. ram s a" "c \<notin> A"
  shows "rd32 t c = rd32 s c"
proof -
  have "\<forall>a \<in> A. unat c + 4 \<le> unat a \<or> unat a + 4 \<le> unat c"
    using assms aligned_apart [of c] by (auto simp: ram_def)
  then have "\<forall>i < 4. mem_byte t c i = mem_byte s c i" using assms(1,2) unfolding changes_def ram_def by blast
  then have "map (mem_byte t c) [0..<4] = map (mem_byte s c) [0..<4]" by simp
  then show ?thesis by (simp only: rd32_bytes)
qed

lemma writes_run:
  "\<forall>x \<in> set l. ram s (fst x) \<and> fst x \<in> A \<Longrightarrow> \<exists>t. stmts (map (\<lambda>(c, v). Write32 c v) l) s = (Ok (), t) \<and> changes A s t"
proof (induction l arbitrary: s)
  case Nil
  then show ?case by (simp add: changes_refl returnP_run)
next
  case (Cons x l)
  obtain c v where x: "x = (c, v)" by fastforce
  have c: "ram s c" "c \<in> A" using Cons.prems x by auto
  obtain t where "stmts (map (\<lambda>(c, v). Write32 c v) l) (wr32 s c v) = (Ok (), t)" "changes A (wr32 s c v) t"
    using Cons.IH [of "wr32 s c v"] Cons.prems by auto
  then show ?case using changes_trans [OF changes_wr [OF c]] c by (auto simp: x run_simps)
qed

definition cancel_writes :: "(u32 \<times> u32) list" where
  "cancel_writes =
     [(0x80343230, 0x80343230), (0x80343234, 0x80343230), (0x80343238, 0x80343238), (0x8034323C, 0x80343238),
      (0x80343240, 0x80343240), (0x80343244, 0x80343240), (0x80343248, 0x80343248), (0x8034324C, 0x80343248),
      (0x80386664, 0), (0x80386668, 0), (0x80386670, 0), (0x8038667C, 1), (0x803866A8, 1), (0x803866F0, 0)]"

definition cancel_cells :: "u32 set" where
  "cancel_cells = fst ` set cancel_writes"

lemma CompleteDvdCancelState_writes: "CompleteDvdCancelState s = stmts (map (\<lambda>(c, v). Write32 c v) cancel_writes) s"
  for s :: "'a memory_scheme"
proof -
  have init: "InitDvdWaitingQueues = (stmts (map (\<lambda>(c, v). Write32 c v) (take 8 cancel_writes)) :: ('a memory_scheme, unit) prog)"
    by (simp add: InitDvdWaitingQueues_def upt_rec Let_def cancel_writes_def)
  have join: "stmts (stmts xs # ys) s = stmts (xs @ ys) s" for xs ys :: "('a memory_scheme, unit) prog list"
    by (simp add: stmts_append)
  have "CompleteDvdCancelState s = stmts (map (\<lambda>(c, v). Write32 c v) (take 8 cancel_writes) @
      [Write32 0x80386664 0, Write32 0x80386668 0, Write32 0x80386670 0, Write32 0x8038667C 1,
       Write32 0x803866A8 1, Write32 0x803866F0 0]) s"
    unfolding CompleteDvdCancelState_def init by (rule join)
  also have "\<dots> = stmts (map (\<lambda>(c, v). Write32 c v) (take 8 cancel_writes @ drop 8 cancel_writes)) s"
    by (simp add: cancel_writes_def)
  finally show ?thesis by (simp only: append_take_drop_id)
qed

lemma CompleteDvdCancelState_run:
  "\<forall>c \<in> cancel_cells. ram s c \<Longrightarrow> \<exists>t. CompleteDvdCancelState s = (Ok (), t) \<and> changes cancel_cells s t"
  unfolding CompleteDvdCancelState_writes by (rule writes_run) (auto simp: cancel_cells_def)

lemma write_bytes_run:
  "ram_bytes s a (length bs) \<Longrightarrow> write_bytes a bs s = (Ok (), put_bytes (ram_loc a) bs s)"
  for s :: "'a memory_scheme"
proof (induction bs rule: rev_induct)
  case Nil
  then show ?case by (simp add: write_bytes_def returnP_run)
next
  case (snoc b bs)
  let ?f = "\<lambda>bs i. Write8 (a + of_nat i) (bs ! i) :: ('a memory_scheme, unit) prog"
  have "ram_bytes s a (length bs)"
  proof (cases "bs = []")
    case False
    then show ?thesis using snoc.prems find_exec_sub [of s a "Suc (length bs)" a "length bs"]
      by (auto simp: ram_bytes_def ram_window_def)
  next
    case True
    then show ?thesis using snoc.prems by (auto simp: ram_bytes_def ram_window_def FindExecutableRange_def Intersects_def find_None_iff)
  qed
  then have ih: "stmts (map (?f bs) [0..<length bs]) s = (Ok (), put_bytes (ram_loc a) bs s)"
    using snoc.IH by (simp add: write_bytes_def)
  have "map (?f (bs @ [b])) [0..<length (bs @ [b])] = map (?f bs) [0..<length bs] @ [Write8 (a + of_nat (length bs)) b]"
    by (auto simp: nth_append)
  moreover have "Write8 (a + of_nat (length bs)) b (put_bytes (ram_loc a) bs s) = (Ok (), put_bytes (ram_loc a) (bs @ [b]) s)"
    using Write8_ram [of "put_bytes (ram_loc a) bs s" a "Suc (length bs)" "length bs" b] snoc.prems
    by (simp add: put_bytes_append)
  ultimately show ?case unfolding write_bytes_def using ih by (simp only: stmts_append) (simp add: run_simps)
qed

lemma Contains_ram_bytes: "ram_bytes s a n \<Longrightarrow> 0 < n \<Longrightarrow> Contains s a n"
  using resolve_window [of s a n] by (auto simp: ram_bytes_def Contains_def)

section \<open>Reads by handle\<close>

text \<open>The command block, and a buffer of \<open>n\<close> bytes apart from it and from the globals of the drive.\<close>

definition block_cells :: "u32 \<Rightarrow> u32 set" where
  "block_cells fi = {fi + DVD_CB_OFFSET_STATE, fi + DVD_CB_OFFSET_TRANSFERRED}"

definition read_ready :: "dvd_state \<Rightarrow> u32 \<Rightarrow> u32 \<Rightarrow> nat \<Rightarrow> bool" where
  "read_ready s fi buf n \<longleftrightarrow> ram_bytes s buf n \<and> ram s (fi + DVD_FILEINFO_OFFSET_ADDR) \<and>
     (\<forall>c \<in> block_cells fi \<union> cancel_cells. ram s c \<and> (unat buf + n \<le> unat c \<or> unat c + 4 \<le> unat buf)) \<and>
     block_cells fi \<inter> cancel_cells = {}"

lemma block_cells_distinct: "fi + DVD_CB_OFFSET_STATE \<noteq> fi + DVD_CB_OFFSET_TRANSFERRED"
  by (simp add: DVD_CB_OFFSET_STATE_def DVD_CB_OFFSET_TRANSFERRED_def)

lemma host_frames [simp]:
  "ram (s\<lparr>g_loggedReadErrors := x\<rparr>) c = ram s c" "ram (s\<lparr>g_dmaWrites := y\<rparr>) c = ram s c"
  "mem_byte (s\<lparr>g_loggedReadErrors := x\<rparr>) a i = mem_byte s a i" "mem_byte (s\<lparr>g_dmaWrites := y\<rparr>) a i = mem_byte s a i"
  "rd32 (s\<lparr>g_dmaWrites := y\<rparr>) c = rd32 s c" "rd32 (s\<lparr>g_loggedReadErrors := x\<rparr>) c = rd32 s c"
  by (simp_all add: ram_def wii_memory_def FindExecutableRange_def mem_byte_def rd32_def bytes_at_def)

lemma DvdReadFatal_run:
  assumes "\<forall>c \<in> block_cells fi. ram s c"
  shows "\<exists>t x. DvdReadFatal fi path off s = (Ok kDvdFatalError, t) \<and>
    changes (block_cells fi) (s\<lparr>g_loggedReadErrors := x\<rparr>) t \<and>
    rd32 t (fi + DVD_CB_OFFSET_STATE) = - 1 \<and> rd32 t (fi + DVD_CB_OFFSET_TRANSFERRED) = 0"
proof -
  define x where "x = insert (path @ CHR 0x0A # int_string off) (g_loggedReadErrors s)"
  let ?s = "s\<lparr>g_loggedReadErrors := x\<rparr>" and ?a = "fi + DVD_CB_OFFSET_STATE" and ?b = "fi + DVD_CB_OFFSET_TRANSFERRED"
  have c: "ram ?s ?a" "ram ?s ?b" using assms by (simp_all add: block_cells_def)
  have "DvdReadFatal fi path off s = (Ok kDvdFatalError, wr32 (wr32 ?s ?a (- 1)) ?b 0)"
    using c by (simp add: DvdReadFatal_def ReportDvdReadError_def run_simps x_def)
  moreover have "changes (block_cells fi) ?s (wr32 (wr32 ?s ?a (- 1)) ?b 0)"
    by (rule changes_trans; rule changes_wr) (use c in \<open>simp_all add: block_cells_def\<close>)
  ultimately show ?thesis using c block_cells_distinct [of fi] rd32_wr32_other [of "wr32 ?s ?a (- 1)" ?b ?a] by auto
qed

lemma read_ready_simps:
  assumes "read_ready s fi buf n"
  shows "\<forall>c \<in> block_cells fi. ram s c" "ram s (fi + DVD_FILEINFO_OFFSET_ADDR)" "ram_bytes s buf n" "0 < n \<Longrightarrow> Contains s buf n"
  using assms Contains_ram_bytes by (auto simp: read_ready_def)

lemma ram_put_bytes [simp]: "ram (put_bytes p bs s) c = ram s c"
  by (rule ram_congI) simp_all

text \<open>The stores of a read that succeeds.\<close>

lemma read_stores:
  assumes r: "read_ready s fi buf (length bs)"
  shows "\<exists>t. stmts [CopyToGuestAsDma buf bs, Write32 (fi + DVD_CB_OFFSET_TRANSFERRED) v, Write32 (fi + DVD_CB_OFFSET_STATE) 0,
      CompleteDvdCancelState] s = (Ok (), t) \<and>
    (\<forall>k < length bs. mem_byte t buf k = bs ! k) \<and>
    rd32 t (fi + DVD_CB_OFFSET_TRANSFERRED) = v \<and> rd32 t (fi + DVD_CB_OFFSET_STATE) = 0 \<and>
    g_dmaWrites t = g_dmaWrites s @ [(buf, of_nat (length bs))]"
proof -
  let ?a = "fi + DVD_CB_OFFSET_STATE" and ?b = "fi + DVD_CB_OFFSET_TRANSFERRED"
  define s1 where "s1 = (put_bytes (ram_loc buf) bs s)\<lparr>g_dmaWrites := g_dmaWrites s @ [(buf, of_nat (length bs))]\<rparr>"
  have copy: "CopyToGuestAsDma buf bs s = (Ok (), s1)"
    using write_bytes_run [OF read_ready_simps(3) [OF r]]
    by (simp add: CopyToGuestAsDma_def GxNotifyGuestRamDmaWrite_def run_simps s1_def put_bytes_def)
  have ram1: "ram s1 c = ram s c" for c by (simp add: s1_def)
  have c: "ram s1 ?a" "ram s1 ?b" using read_ready_simps(1) [OF r] by (simp_all add: ram1 block_cells_def)
  define s2 where "s2 = wr32 (wr32 s1 ?b v) ?a 0"
  have ch2: "changes (block_cells fi) s1 s2"
    unfolding s2_def by (rule changes_trans; rule changes_wr) (use c in \<open>simp_all add: block_cells_def\<close>)
  have cc: "\<forall>c \<in> cancel_cells. ram s2 c" using r by (simp add: changes_ram [OF ch2] ram1 read_ready_def)
  obtain t where t: "CompleteDvdCancelState s2 = (Ok (), t)" "changes cancel_cells s2 t" using CompleteDvdCancelState_run [OF cc] by blast
  have w: "ram_window buf (length bs)" using read_ready_simps(3) [OF r] by (simp add: ram_bytes_def)
  have "mem_byte t buf k = bs ! k" if "k < length bs" for k
  proof -
    have "mem_byte t buf k = mem_byte s2 buf k" using t(2) w that r unfolding changes_def read_ready_def by blast
    also have "\<dots> = mem_byte s1 buf k" using ch2 w that r unfolding changes_def read_ready_def by blast
    also have "\<dots> = bs ! k" using that by (simp add: s1_def mem_byte_put)
    finally show ?thesis .
  qed
  moreover have "rd32 t c = rd32 s2 c" if "c \<in> block_cells fi" for c
    by (rule changes_rd [OF t(2)]) (use cc that r in \<open>auto simp: changes_ram [OF ch2] ram1 read_ready_def\<close>)
  then have "rd32 t ?b = v" "rd32 t ?a = 0"
    using c block_cells_distinct [of fi] by (simp_all add: block_cells_def s2_def rd32_wr32_other)
  moreover have "g_dmaWrites t = g_dmaWrites s @ [(buf, of_nat (length bs))]"
    using t(2) ch2 by (auto simp: changes_def s1_def)
  ultimately show ?thesis using copy c t(1) by (intro exI [of _ t]) (simp add: run_simps s2_def)
qed

lemma DVDReadPrio_found:
  assumes "ram s (fi + DVD_FILEINFO_OFFSET_ADDR)" "rd32 s (fi + DVD_FILEINFO_OFFSET_ADDR) = de_discOffsetWords (g_fileEntries s ! i)"
    and "FindPublishedExtentForByteOffset (g_publishedExtents s) (4 * unat (de_discOffsetWords (g_fileEntries s ! i))) =
      Some (extent_at (g_fileEntries s) i)"
  shows "DVDReadPrio host fi buf len off s = read_entry_at host fi buf len off 0 (g_fileEntries s ! i) s"
  using assms by (simp add: DVDReadPrio_def run_simps) (simp add: extent_at_def)

lemma read_length:
  fixes len size off :: u32
  assumes "unat off < unat size"
  shows "unat (if size - off < len then size - off else len) = min (unat len) (unat size - unat off)"
proof -
  have "unat (size - off) = unat size - unat off" using assms by (simp add: unat_sub word_le_nat_alt)
  then show ?thesis by (simp add: word_less_nat_alt min_def)
qed

lemma read_entry_valid:
  assumes "read_ready s fi buf n" "n = min (unat len) (unat (de_size e) - unat off)"
    and "\<not> (sint off < 0 \<or> sint len < 0 \<or> unat (de_size e) \<le> unat off)"
  shows "read_entry_at host fi buf len off 0 e s =
    (case ReadExact host (de_hostPath e) (unat off) n of
       Inl _ \<Rightarrow> DvdReadFatal fi (de_hostPath e) (sint off) s
     | Inr data \<Rightarrow> thenP (stmts [CopyToGuestAsDma buf data, Write32 (fi + DVD_CB_OFFSET_TRANSFERRED) (of_nat n),
         Write32 (fi + DVD_CB_OFFSET_STATE) 0, CompleteDvdCancelState]) (returnP (of_nat n)) s)"
proof -
  let ?u = "if de_size e - off < len then de_size e - off else len"
  have u1: "unat ?u = n" using read_length [of off "de_size e" len] assms(2,3) by simp
  have "of_nat (unat ?u) = ?u" by (simp only: of_nat_unat ucast_id)
  then have u: "?u = of_nat n" "unat (of_nat n :: u32) = n" using u1 by metis+
  have "\<not> ((of_nat n :: u32) \<noteq> 0 \<and> \<not> Contains s buf n)" using read_ready_simps(4) [OF assms(1)] u(2) by (cases "n = 0") auto
  moreover have z: "0 + unat off = unat off" "of_nat (unat off) = off" by simp_all
  moreover have "\<not> (sint off < 0 \<or> sint len < 0)" "\<not> unat off \<ge> unat (de_size e)" using assms(3) by auto
  ultimately show ?thesis unfolding read_entry_at_def Let_def z u
    by (simp only: if_False bindP_def getsP_def res.case prod.case) (simp split: sum.splits)
qed

text \<open>C39: a read through a handle that holds the offset of a published file either delivers the bytes of the host file
  from the offset on, as many as requested and as the indexed size leaves, records them as transferred with the
  state of a finished command and notifies the graphics caches; or, exactly if the offset or the length is negative, the
  offset is not inside the file, or the host file is shorter than the range, it reports the fatal result, records it in
  the command block, and leaves every other byte of guest memory alone.\<close>

theorem read_by_handle:
  assumes "rd32 s (fi + DVD_FILEINFO_OFFSET_ADDR) = de_discOffsetWords (g_fileEntries s ! i)"
    and "FindPublishedExtentForByteOffset (g_publishedExtents s) (4 * unat (de_discOffsetWords (g_fileEntries s ! i))) =
      Some (extent_at (g_fileEntries s) i)"
    and "dh_read host (de_hostPath (g_fileEntries s ! i)) = Some fl"
    and "n = min (unat len) (unat (de_size (g_fileEntries s ! i)) - unat off)"
    and "read_ready s fi buf n"
  shows "if 0 \<le> sint off \<and> 0 \<le> sint len \<and> unat off < unat (de_size (g_fileEntries s ! i)) \<and>
        unat off < length fl \<and> unat off + n \<le> length fl
    then \<exists>t. DVDReadPrio host fi buf len off s = (Ok (of_nat n), t) \<and> (\<forall>k < n. mem_byte t buf k = fl ! (unat off + k)) \<and>
      rd32 t (fi + DVD_CB_OFFSET_TRANSFERRED) = of_nat n \<and> rd32 t (fi + DVD_CB_OFFSET_STATE) = 0 \<and>
      g_dmaWrites t = g_dmaWrites s @ [(buf, of_nat n)]
    else \<exists>t x. DVDReadPrio host fi buf len off s = (Ok kDvdFatalError, t) \<and>
      changes (block_cells fi) (s\<lparr>g_loggedReadErrors := x\<rparr>) t \<and>
      rd32 t (fi + DVD_CB_OFFSET_STATE) = - 1 \<and> rd32 t (fi + DVD_CB_OFFSET_TRANSFERRED) = 0"
proof -
  let ?e = "g_fileEntries s ! i"
  note ready = read_ready_simps [OF assms(5)]
  note found = DVDReadPrio_found [OF ready(2) assms(1,2), of host buf len off]
  note fatal = DvdReadFatal_run [OF ready(1), of "de_hostPath ?e" "sint off"]
  show ?thesis
  proof (cases "sint off < 0 \<or> sint len < 0 \<or> unat (de_size ?e) \<le> unat off")
    case True
    then have "read_entry_at host fi buf len off 0 ?e s = DvdReadFatal fi (de_hostPath ?e) (sint off) s"
      by (auto simp: read_entry_at_def)
    then show ?thesis using fatal True found by auto
  next
    case False
    note entry = read_entry_valid [OF assms(5,4) False, of host]
    show ?thesis
    proof (cases "unat off < length fl \<and> unat off + n \<le> length fl")
      case True
      define bs where "bs = take n (drop (unat off) fl)"
      have "ReadExact host (de_hostPath ?e) (unat off) n = Inr bs" "length bs = n"
        using True assms(3) by (auto simp: ReadExact_def bs_def)
      moreover from this obtain t where "stmts [CopyToGuestAsDma buf bs, Write32 (fi + DVD_CB_OFFSET_TRANSFERRED) (of_nat n),
             Write32 (fi + DVD_CB_OFFSET_STATE) 0, CompleteDvdCancelState] s = (Ok (), t)"
          "\<forall>k < n. mem_byte t buf k = bs ! k" "rd32 t (fi + DVD_CB_OFFSET_TRANSFERRED) = of_nat n"
          "rd32 t (fi + DVD_CB_OFFSET_STATE) = 0" "g_dmaWrites t = g_dmaWrites s @ [(buf, of_nat n)]"
        using read_stores [of s fi buf bs "of_nat n"] assms(5) by auto
      ultimately show ?thesis using True False found entry
        by (simp add: thenP_Ok returnP_run bs_def)
    next
      case f: False
      then have "\<exists>err. ReadExact host (de_hostPath ?e) (unat off) n = Inl err" using assms(3) by (auto simp: ReadExact_def)
      then have "read_entry_at host fi buf len off 0 ?e s = DvdReadFatal fi (de_hostPath ?e) (sint off) s" using entry by auto
      then show ?thesis using fatal f found by auto
    qed
  qed
qed

definition sample_reader :: dvd_state where
  "sample_reader = wr32 (memory.extend empty_memory (dvd_state.fields sample_published (\<lambda>_. None)
     [extent_at sample_published 1, extent_at sample_published 2] True False [] True {} [])) 0x80500030 24"

lemma sample_reader_ram: "wii_memory sample_reader" "FindExecutableRange sample_reader a n = None"
  by (simp_all add: sample_reader_def wii_memory_def wr32_def empty_memory_def memory.defs wii_regions FindExecutableRange_def)

lemma sample_reader_fields:
  "g_fileEntries sample_reader = sample_published"
  "g_publishedExtents sample_reader = [extent_at sample_published 1, extent_at sample_published 2]"
  by (simp_all add: sample_reader_def wr32_def put_bytes_def memory.defs dvd_state.defs)

lemma sample_reader_handle: "rd32 sample_reader 0x80500030 = 24"
  by (simp add: sample_reader_def)

lemma sample_reader_ready: "n \<le> 15 \<Longrightarrow> read_ready sample_reader 0x80500000 0x80600000 n"
  unfolding read_ready_def block_cells_def cancel_cells_def cancel_writes_def DVD_CB_OFFSET_STATE_def
    DVD_CB_OFFSET_TRANSFERRED_def DVD_FILEINFO_OFFSET_ADDR_def
  by (simp add: ram_bytes_def ram_def sample_reader_ram ram_window_def kMem1Size_def)

theorem read_by_handle_witness:
  "\<exists>t. DVDReadPrio sample_host 0x80500000 0x80600000 50 5 sample_reader = (Ok 15, t) \<and> mem_byte t 0x80600000 14 = 7 \<and>
    (\<exists>t. DVDReadPrio sample_host 0x80500000 0x80600000 50 20 sample_reader = (Ok (- 3), t))"
proof -
  have e: "g_fileEntries sample_reader ! 2 = \<lparr>de_hostPath = ''mod/b'', de_dvdPath = ''/b'', de_size = 20, de_discOffsetWords = 24, de_isDirectory = False\<rparr>"
    by (simp add: sample_reader_fields sample_published_def)
  have f: "FindPublishedExtentForByteOffset (g_publishedExtents sample_reader) (4 * unat (24 :: u32)) = Some (extent_at (g_fileEntries sample_reader) 2)"
    by (simp add: sample_reader_fields FindPublishedExtentForByteOffset_def extent_at_def sample_published_def unat_max)
  have h: "dh_read sample_host ''mod/b'' = Some (replicate 20 7)" by (simp add: sample_host_def)
  have a: "rd32 sample_reader (0x80500000 + DVD_FILEINFO_OFFSET_ADDR) = de_discOffsetWords (g_fileEntries sample_reader ! 2)"
    by (simp add: e DVD_FILEINFO_OFFSET_ADDR_def sample_reader_handle)
  from read_by_handle [OF a, of sample_host "replicate 20 7" 15 50 5 "0x80600000"]
    read_by_handle [OF a, of sample_host "replicate 20 7" 0 50 20 "0x80600000"]
  show ?thesis using f h sample_reader_ready [of 0] sample_reader_ready [of 15] by (auto simp: e kDvdFatalError_def)
qed

end
