(* ===== verification/Riivolution.thy ===== *)
theory Riivolution
  imports Sorted_Map Dvd_Fst
begin

text \<open>
  Riivolution patches (\<open>runtime/include/hle/riivolution_contract.h\<close>): the attributes of a patch document, its options
  and patches, the choice of the patches for a game, and the host paths that a patch may name.

  A document arrives as a tree of elements; the parser of the text is a library and a parameter.
\<close>

section \<open>Documents\<close>

datatype XmlNode = XmlNode (xml_name: string) (xml_attributes: "(string \<times> string) list") (xml_children: "XmlNode list")

definition FindAttribute :: "XmlNode \<Rightarrow> string \<Rightarrow> string option" where
  "FindAttribute node a = map_of (xml_attributes node) a"

definition Attribute :: "XmlNode \<Rightarrow> string \<Rightarrow> string" where
  "Attribute node a = (case FindAttribute node a of None \<Rightarrow> [] | Some v \<Rightarrow> v)"

definition AttributeBool :: "XmlNode \<Rightarrow> string \<Rightarrow> bool \<Rightarrow> bool" where
  "AttributeBool node a fallback =
     (case FindAttribute node a of
        None \<Rightarrow> fallback
      | Some v \<Rightarrow> if v \<in> {''true'', ''1'', ''yes''} then True
                 else if v \<in> {''false'', ''0'', ''no''} then False else fallback)"

definition xml_digit :: "nat \<Rightarrow> char \<Rightarrow> nat option" where
  "xml_digit base c =
     (let b = of_char c :: nat in
      if 48 \<le> b \<and> b \<le> 57 then Some (b - 48)
      else if base = 16 \<and> 97 \<le> b \<and> b \<le> 102 then Some (b - 97 + 10)
      else if base = 16 \<and> 65 \<le> b \<and> b \<le> 70 then Some (b - 65 + 10)
      else None)"

fun xml_digits :: "nat \<Rightarrow> nat \<Rightarrow> string \<Rightarrow> nat option" where
  "xml_digits base result [] = Some result"
| "xml_digits base result (c # cs) =
     (case xml_digit base c of None \<Rightarrow> None
      | Some d \<Rightarrow> if result * base + d > 0xFFFFFFFF then None else xml_digits base (result * base + d) cs)"

definition uint_from_text :: "string \<Rightarrow> u32 \<Rightarrow> u32" where
  "uint_from_text t fallback =
     (if t = [] then fallback
      else let hex = (length t > 2 \<and> t ! 0 = CHR ''0'' \<and> (t ! 1 = CHR ''x'' \<or> t ! 1 = CHR ''X'')) in
        case xml_digits (if hex then 16 else 10) 0 (if hex then drop 2 t else t) of
          None \<Rightarrow> fallback | Some n \<Rightarrow> of_nat n)"

definition AttributeUint :: "XmlNode \<Rightarrow> string \<Rightarrow> u32 \<Rightarrow> u32" where
  "AttributeUint node a fallback =
     (case FindAttribute node a of None \<Rightarrow> fallback | Some v \<Rightarrow> uint_from_text v fallback)"

text \<open>The negation of the smallest integer, where the code overflows, wraps.\<close>

definition AttributeInt :: "XmlNode \<Rightarrow> string \<Rightarrow> int \<Rightarrow> int" where
  "AttributeInt node a fallback =
     (case FindAttribute node a of
        None \<Rightarrow> fallback
      | Some v \<Rightarrow>
          if v = [] then fallback
          else let negative = (hd v = CHR ''-'');
                   magnitude = uint_from_text (if negative then tl v else v) 0x80000000
               in if magnitude = 0x80000000 \<and> \<not> negative then fallback
                  else if negative then sint (- magnitude) else sint magnitude)"

section \<open>Patches\<close>

record GameFilter =
  gf_game :: "string option"
  gf_developer :: "string option"
  gf_disc :: "int option"
  gf_version :: "int option"
  gf_regions :: "string list option"

record PatchReference =
  pr_id :: string
  pr_params :: "(string \<times> string) list"

record Choice =
  ch_name :: string
  ch_patchReferences :: "PatchReference list"

record Option =
  op_name :: string
  op_id :: string
  op_choices :: "Choice list"
  op_selectedChoice :: u32

record Section =
  se_name :: string
  se_options :: "Option list"

record File =
  fi_disc :: string
  fi_external :: string
  fi_resize :: bool
  fi_create :: bool
  fi_offset :: u32
  fi_fileoffset :: u32
  fi_length :: u32

record Folder =
  fo_disc :: string
  fo_external :: string
  fo_resize :: bool
  fo_create :: bool
  fo_recursive :: bool
  fo_length :: u32

record Savegame =
  sg_external :: string
  sg_clone :: bool

record MemoryPatch =
  me_offset :: u32
  me_value :: string
  me_valuefile :: string
  me_original :: string
  me_ocarina :: bool
  me_search :: bool
  me_align :: u32

record Patch =
  pa_id :: string
  pa_root :: string
  pa_filePatches :: "File list"
  pa_folderPatches :: "Folder list"
  pa_savegamePatches :: "Savegame list"
  pa_memoryPatches :: "MemoryPatch list"

record Disc =
  di_version :: int
  di_gameFilter :: GameFilter
  di_sections :: "Section list"
  di_patches :: "Patch list"

record ConfigOption =
  co_id :: string
  co_defaultChoice :: u32

record Config =
  cf_version :: int
  cf_options :: "ConfigOption list"

record OptionSelection =
  os_section :: string
  os_option :: string
  os_choice :: u32

section \<open>Parsing\<close>

definition children_named :: "string \<Rightarrow> XmlNode \<Rightarrow> XmlNode list" where
  "children_named name node = filter (\<lambda>c. xml_name c = name) (xml_children node)"

definition ReadParams :: "XmlNode \<Rightarrow> (string \<times> string) list \<Rightarrow> (string \<times> string) list" where
  "ReadParams node params =
     fold (\<lambda>p. map_put (Attribute p ''name'') (Attribute p ''value'')) (children_named ''param'' node) params"

definition parse_choice :: "(string \<times> string) list \<Rightarrow> XmlNode \<Rightarrow> Choice" where
  "parse_choice optionParams node =
     \<lparr>ch_name = Attribute node ''name'',
      ch_patchReferences = map (\<lambda>r. \<lparr>pr_id = Attribute r ''id'', pr_params = ReadParams r (ReadParams node optionParams)\<rparr>)
        (children_named ''patch'' node)\<rparr>"

definition parse_option :: "XmlNode \<Rightarrow> Option" where
  "parse_option node =
     \<lparr>op_name = Attribute node ''name'', op_id = Attribute node ''id'',
      op_choices = map (parse_choice (ReadParams node [])) (children_named ''choice'' node),
      op_selectedChoice = AttributeUint node ''default'' 0\<rparr>"

definition parse_section :: "XmlNode \<Rightarrow> Section" where
  "parse_section node =
     \<lparr>se_name = Attribute node ''name'', se_options = map parse_option (children_named ''option'' node)\<rparr>"

definition parse_file :: "XmlNode \<Rightarrow> File" where
  "parse_file n = \<lparr>fi_disc = Attribute n ''disc'', fi_external = Attribute n ''external'',
     fi_resize = AttributeBool n ''resize'' True, fi_create = AttributeBool n ''create'' False,
     fi_offset = AttributeUint n ''offset'' 0, fi_fileoffset = AttributeUint n ''fileoffset'' 0,
     fi_length = AttributeUint n ''length'' 0\<rparr>"

definition parse_folder :: "XmlNode \<Rightarrow> Folder" where
  "parse_folder n = \<lparr>fo_disc = Attribute n ''disc'', fo_external = Attribute n ''external'',
     fo_resize = AttributeBool n ''resize'' True, fo_create = AttributeBool n ''create'' False,
     fo_recursive = AttributeBool n ''recursive'' True, fo_length = AttributeUint n ''length'' 0\<rparr>"

definition parse_savegame :: "XmlNode \<Rightarrow> Savegame" where
  "parse_savegame n = \<lparr>sg_external = Attribute n ''external'', sg_clone = AttributeBool n ''clone'' True\<rparr>"

definition parse_memory :: "XmlNode \<Rightarrow> MemoryPatch" where
  "parse_memory n = \<lparr>me_offset = AttributeUint n ''offset'' 0, me_value = Attribute n ''value'',
     me_valuefile = Attribute n ''valuefile'', me_original = Attribute n ''original'',
     me_ocarina = AttributeBool n ''ocarina'' False, me_search = AttributeBool n ''search'' False,
     me_align = AttributeUint n ''align'' 1\<rparr>"

definition parse_patch :: "string \<Rightarrow> XmlNode \<Rightarrow> Patch" where
  "parse_patch defaultRoot n =
     \<lparr>pa_id = Attribute n ''id'',
      pa_root = (if Attribute n ''root'' = [] then defaultRoot else Attribute n ''root''),
      pa_filePatches = map parse_file (children_named ''file'' n),
      pa_folderPatches = map parse_folder (children_named ''folder'' n),
      pa_savegamePatches = map parse_savegame (children_named ''savegame'' n),
      pa_memoryPatches = map parse_memory (children_named ''memory'' n)\<rparr>"

definition parse_filter :: "XmlNode \<Rightarrow> GameFilter \<Rightarrow> GameFilter" where
  "parse_filter n f =
     (let f' = fold (\<lambda>(a, v) f. if a = ''game'' then f\<lparr>gf_game := Some v\<rparr>
               else if a = ''developer'' then f\<lparr>gf_developer := Some v\<rparr>
               else if a = ''disc'' then f\<lparr>gf_disc := Some (AttributeInt n ''disc'' (- 1))\<rparr>
               else if a = ''version'' then f\<lparr>gf_version := Some (AttributeInt n ''version'' (- 1))\<rparr>
               else f) (xml_attributes n) f;
          regions = map (\<lambda>r. Attribute r ''type'') (children_named ''region'' n)
      in if regions = [] then f' else f'\<lparr>gf_regions := Some regions\<rparr>)"

definition parse_child :: "string \<Rightarrow> XmlNode \<Rightarrow> Disc \<Rightarrow> Disc" where
  "parse_child defaultRoot n d =
     (if xml_name n = ''id'' then d\<lparr>di_gameFilter := parse_filter n (di_gameFilter d)\<rparr>
      else if xml_name n = ''options'' then d\<lparr>di_sections := di_sections d @ map parse_section (children_named ''section'' n)\<rparr>
      else if xml_name n = ''patch'' then d\<lparr>di_patches := di_patches d @ [parse_patch defaultRoot n]\<rparr>
      else d)"

text \<open>The text is already parsed; none if it is malformed.\<close>

definition ParseString :: "XmlNode option \<Rightarrow> Disc option" where
  "ParseString document =
     (case document of
        None \<Rightarrow> None
      | Some root \<Rightarrow>
          if xml_name root \<noteq> ''wiidisc'' \<or> AttributeInt root ''version'' (- 1) \<noteq> 1 then None
          else Some (fold (parse_child (Attribute root ''root'')) (xml_children root)
                 \<lparr>di_version = 1, di_gameFilter = \<lparr>gf_game = None, gf_developer = None, gf_disc = None, gf_version = None,
                    gf_regions = None\<rparr>, di_sections = [], di_patches = []\<rparr>))"

definition ParseConfigString :: "XmlNode option \<Rightarrow> Config option" where
  "ParseConfigString document =
     (case document of
        None \<Rightarrow> None
      | Some root \<Rightarrow>
          if xml_name root \<noteq> ''riivolution'' \<or> AttributeInt root ''version'' (- 1) \<noteq> 2 then None
          else Some \<lparr>cf_version = 2, cf_options =
                 map (\<lambda>n. \<lparr>co_id = Attribute n ''id'', co_defaultChoice = AttributeUint n ''default'' 0\<rparr>)
                   (children_named ''option'' root)\<rparr>)"

section \<open>The patches of a game\<close>

definition StartsWith :: "string \<Rightarrow> string \<Rightarrow> bool" where
  "StartsWith t prefix \<longleftrightarrow> take (length prefix) t = prefix"

definition matches_option :: "'a option \<Rightarrow> ('a \<Rightarrow> bool) \<Rightarrow> bool" where
  "matches_option wanted P = (case wanted of None \<Rightarrow> True | Some x \<Rightarrow> P x)"

definition optional_int :: "nat option \<Rightarrow> int" where
  "optional_int n = (case n of None \<Rightarrow> - 1 | Some k \<Rightarrow> int k)"

definition IsValidForGame :: "Disc \<Rightarrow> string \<Rightarrow> nat option \<Rightarrow> nat option \<Rightarrow> bool" where
  "IsValidForGame d gameId revision discNumber \<longleftrightarrow>
     length gameId = 6 \<and>
     matches_option (gf_game (di_gameFilter d)) (StartsWith gameId) \<and>
     matches_option (gf_developer (di_gameFilter d)) (\<lambda>x. take 2 (drop 4 gameId) = x) \<and>
     matches_option (gf_disc (di_gameFilter d)) (\<lambda>x. optional_int discNumber = x) \<and>
     matches_option (gf_version (di_gameFilter d)) (\<lambda>x. optional_int revision = x) \<and>
     matches_option (gf_regions (di_gameFilter d)) (\<lambda>rs. rs = [] \<or> take 1 (drop 3 gameId) \<in> set rs)"

text \<open>The first placeholder that stands at a position is replaced; placeholders are not empty.\<close>

function replaceVariables :: "(string \<times> string) list \<Rightarrow> string \<Rightarrow> string" where
  "replaceVariables reps [] = []"
| "replaceVariables reps (c # cs) =
     (case find (\<lambda>(k, v). StartsWith (c # cs) k) reps of
        Some (k, v) \<Rightarrow> v @ replaceVariables reps (drop (length k - 1) cs)
      | None \<Rightarrow> c # replaceVariables reps cs)"
  by pat_completeness auto
termination by (relation "measure (length \<circ> snd)") auto

definition placeholders :: "string \<Rightarrow> (string \<times> string) list \<Rightarrow> (string \<times> string) list" where
  "placeholders gameId params =
     [(''{$__gameid}'', take 3 gameId), (''{$__region}'', take 1 (drop 3 gameId)),
      (''{$__maker}'', if length gameId \<ge> 6 then take 2 (drop 4 gameId) else [])] @
     map (\<lambda>(name, v). (''{$'' @ name @ ''}'', v)) params"

definition instantiate_patch :: "(string \<times> string) list \<Rightarrow> Patch \<Rightarrow> Patch" where
  "instantiate_patch reps p =
     (let rv = replaceVariables reps in
      p\<lparr>pa_root := rv (pa_root p),
        pa_filePatches := map (\<lambda>f. f\<lparr>fi_disc := rv (fi_disc f), fi_external := rv (fi_external f)\<rparr>) (pa_filePatches p),
        pa_folderPatches := map (\<lambda>f. f\<lparr>fo_disc := rv (fo_disc f), fo_external := rv (fo_external f)\<rparr>) (pa_folderPatches p),
        pa_savegamePatches := map (\<lambda>g. g\<lparr>sg_external := rv (sg_external g)\<rparr>) (pa_savegamePatches p),
        pa_memoryPatches := map (\<lambda>m. m\<lparr>me_valuefile := rv (me_valuefile m)\<rparr>) (pa_memoryPatches p)\<rparr>)"

definition option_patches :: "string \<Rightarrow> Patch list \<Rightarrow> Option \<Rightarrow> Patch list" where
  "option_patches gameId patches opt =
     (if op_selectedChoice opt = 0 \<or> unat (op_selectedChoice opt) > length (op_choices opt) then []
      else concat (map (\<lambda>r. case find (\<lambda>p. pa_id p = pr_id r) patches of
             None \<Rightarrow> []
           | Some p \<Rightarrow> [instantiate_patch (placeholders gameId (pr_params r)) p])
           (ch_patchReferences (op_choices opt ! (unat (op_selectedChoice opt) - 1)))))"

definition GeneratePatches :: "Disc \<Rightarrow> string \<Rightarrow> Patch list" where
  "GeneratePatches d gameId =
     concat (map (\<lambda>s. concat (map (option_patches gameId (di_patches d)) (se_options s))) (di_sections d))"

section \<open>Choices\<close>

definition update_options :: "(string \<Rightarrow> Option \<Rightarrow> Option) \<Rightarrow> Disc \<Rightarrow> Disc" where
  "update_options f d = d\<lparr>di_sections := map (\<lambda>s. s\<lparr>se_options := map (f (se_name s)) (se_options s)\<rparr>) (di_sections d)\<rparr>"

definition config_default :: "ConfigOption \<Rightarrow> string \<Rightarrow> Option \<Rightarrow> Option" where
  "config_default c sectionName opt =
     (if (if op_id opt = [] then sectionName @ op_name opt = co_id c else op_id opt = co_id c)
      then opt\<lparr>op_selectedChoice := co_defaultChoice c\<rparr> else opt)"

definition ApplyConfigDefaults :: "Config \<Rightarrow> Disc \<Rightarrow> Disc" where
  "ApplyConfigDefaults config d = fold (\<lambda>c. update_options (config_default c)) (cf_options config) d"

definition selection_choice :: "OptionSelection \<Rightarrow> string \<Rightarrow> Option \<Rightarrow> Option" where
  "selection_choice s sectionName opt =
     (if os_section s \<noteq> [] \<and> sectionName \<noteq> os_section s then opt
      else if ((op_id opt \<noteq> [] \<and> op_id opt = os_option s) \<or> op_name opt = os_option s) \<and>
              unat (os_choice s) \<le> length (op_choices opt)
           then opt\<lparr>op_selectedChoice := os_choice s\<rparr> else opt)"

definition ApplySelections :: "OptionSelection list \<Rightarrow> Disc \<Rightarrow> Disc" where
  "ApplySelections selections d = fold (\<lambda>s. update_options (selection_choice s)) selections d"

section \<open>Host paths\<close>

definition strip_back :: "string \<Rightarrow> string" where
  "strip_back p = rev (dropWhile (\<lambda>c. c = CHR ''/'') (rev p))"

text \<open>The path up to the last slash.\<close>

definition cut_last :: "string \<Rightarrow> string option" where
  "cut_last p = (case dropWhile (\<lambda>c. c \<noteq> CHR ''/'') (rev p) of [] \<Rightarrow> None | _ # r \<Rightarrow> Some (rev r))"

fun resolve_elements :: "nat \<Rightarrow> string \<Rightarrow> string list \<Rightarrow> string option" where
  "resolve_elements depth result [] = Some result"
| "resolve_elements depth result (e # es) =
     (if e = ''.'' then resolve_elements depth result es
      else if e = ''..'' then
        (if depth = 0 then None
         else case cut_last result of None \<Rightarrow> None | Some r \<Rightarrow> resolve_elements (depth - 1) r es)
      else if e = [] then resolve_elements depth result es
      else resolve_elements (Suc depth) (result @ CHR ''/'' # e) es)"

definition MakeAbsoluteFromRelative :: "string \<Rightarrow> string \<Rightarrow> string \<Rightarrow> string option" where
  "MakeAbsoluteFromRelative sdRoot patchRoot external =
     (if CHR 0x5C \<in> set external then None
      else let absolute = (external \<noteq> [] \<and> hd external = CHR ''/'');
               work = strip_back (dropWhile (\<lambda>c. c = CHR ''/'') external)
           in resolve_elements 0 (strip_back (if absolute then sdRoot else patchRoot)) (split_on CHR ''/'' work))"

definition ResolvePatchRoot :: "string \<Rightarrow> string \<Rightarrow> string \<Rightarrow> string" where
  "ResolvePatchRoot sdRoot xmlDirectory rootAttribute =
     (if rootAttribute = [] then xmlDirectory
      else case MakeAbsoluteFromRelative sdRoot xmlDirectory rootAttribute of None \<Rightarrow> xmlDirectory | Some r \<Rightarrow> r)"

definition FindSavegamePatch :: "Patch list \<Rightarrow> Savegame option" where
  "FindSavegamePatch activePatches =
     (case find (\<lambda>p. pa_savegamePatches p \<noteq> []) activePatches of None \<Rightarrow> None | Some p \<Rightarrow> Some (hd (pa_savegamePatches p)))"

end
