(* ===== verification/Riivolution_Load.thy ===== *)
theory Riivolution_Load
  imports Riivolution Dvd_Disc
begin

text \<open>
  The loading of the Riivolution overlays (\<open>runtime/src/hle/storage/riivolution.cpp\<close>): the roots, their documents, the
  mappings of the active patches and the redirection of the saves.

  The configuration, the mod manifest, the host file system and the parser of the documents are the environment
  \<open>riivo_host\<close>.  Paths are their generic texts, as on a host whose separator is the slash; log texts are not modelled.
\<close>

section \<open>State\<close>

record SaveRedirect =
  sr_hostDirectory :: string
  sr_clone :: bool

record riivo_state = memory +
  g_riivoOnce :: bool
  rs_overlays :: "Overlay list"
  rs_saveRedirect :: "SaveRedirect option"

record riivo_host =
  rh_overlay_roots :: "string list"
  rh_configured_path :: "string \<Rightarrow> string"
  rh_is_retro_rewind :: bool
  rh_retro_rewind_root :: string
  rh_mod_roots :: "string list"
  rh_mod_xml :: string
  rh_mod_selections :: "(string \<times> string \<times> u32) list"
  rh_is_directory :: "string \<Rightarrow> bool"
  rh_is_regular :: "string \<Rightarrow> bool"
  rh_listing :: "string \<Rightarrow> host_entry list"
  rh_read :: "string \<Rightarrow> string option"
  rh_canonical :: "string \<Rightarrow> string option"
  rh_normal :: "string \<Rightarrow> string"
  rh_join :: "string \<Rightarrow> string \<Rightarrow> string"
  rh_parent :: "string \<Rightarrow> string"
  rh_extension :: "string \<Rightarrow> string"
  rh_sort :: "string list \<Rightarrow> string list"
  rh_parse :: "string \<Rightarrow> XmlNode option"

section \<open>The game\<close>

text \<open>The game id from the low memory; a missing code or maker is replaced by that of the known game.\<close>

definition RiivoGameId :: "('a memory_scheme, string) prog" where
  "RiivoGameId =
     bindP (CurrentGameCode 0x524D4350) (\<lambda>code.
     bindP (getsP (\<lambda>s. Contains s 0x80000004 2)) (\<lambda>mapped.
     bindP (if mapped then Read16 0x80000004 else returnP 0) (\<lambda>maker.
       let hi = ucast (drop_bit 8 maker) :: u8; lo = ucast maker :: u8 in
       returnP (map byte_char (BigEndian_Write32 code @ (if isalnum hi \<and> isalnum lo then [hi, lo] else [0x30, 0x31]))))))"

section \<open>Roots\<close>

definition RiivoComparablePath :: "riivo_host \<Rightarrow> string \<Rightarrow> string" where
  "RiivoComparablePath h path = rh_normal h path"

definition normalized_root :: "riivo_host \<Rightarrow> string \<Rightarrow> string" where
  "normalized_root h root = (case rh_canonical h root of None \<Rightarrow> rh_normal h root | Some p \<Rightarrow> p)"

definition RiivoAddRoot :: "riivo_host \<Rightarrow> string \<Rightarrow> Overlay list \<Rightarrow> Overlay list" where
  "RiivoAddRoot h root overlays =
     (if \<not> rh_is_directory h root then overlays
      else let normalized = normalized_root h root in
        if list_ex (\<lambda>ov. RiivoComparablePath h (ov_root ov) = RiivoComparablePath h normalized) overlays then overlays
        else overlays @ [\<lparr>ov_root = normalized, ov_patches = None\<rparr>])"

definition RiivoDiscoverRoots :: "riivo_host \<Rightarrow> Overlay list" where
  "RiivoDiscoverRoots h =
     (let retro = (if rh_is_retro_rewind h then rh_retro_rewind_root h else []);
          configured = fold (\<lambda>r. RiivoAddRoot h (rh_configured_path h r)) (rh_overlay_roots h) [];
          canonical = (if retro = [] then configured else RiivoAddRoot h (rh_configured_path h retro) configured)
      in fold (RiivoAddRoot h) (rh_mod_roots h) canonical)"

record RiivoXmlSet =
  xs_sdRoot :: string
  xs_xmlFiles :: "string list"

text \<open>The listing of a folder ends where the host reports an error.\<close>

definition RiivoFindXmls :: "riivo_host \<Rightarrow> string \<Rightarrow> RiivoXmlSet option" where
  "RiivoFindXmls h overlayRoot =
     (let configuredXml = rh_join h overlayRoot (rh_mod_xml h);
          xmlDirectory = rh_join h overlayRoot ''riivolution'';
          xmlFiles = map he_path (filter (\<lambda>e. he_regular e \<and> rh_extension h (he_path e) = ''.xml'') (rh_listing h xmlDirectory))
      in if rh_mod_xml h \<noteq> [] \<and> rh_is_regular h configuredXml
         then Some \<lparr>xs_sdRoot = rh_parent h overlayRoot, xs_xmlFiles = [configuredXml]\<rparr>
         else if rh_is_directory h xmlDirectory \<and> xmlFiles \<noteq> []
         then Some \<lparr>xs_sdRoot = overlayRoot, xs_xmlFiles = rh_sort h xmlFiles\<rparr>
         else None)"

definition RiivoManifestSelections :: "riivo_host \<Rightarrow> OptionSelection list" where
  "RiivoManifestSelections h =
     map (\<lambda>(section, opt, choice). \<lparr>os_section = section, os_option = opt, os_choice = choice\<rparr>) (rh_mod_selections h)"

section \<open>Mappings\<close>

definition skip_external :: "PatchSet \<Rightarrow> PatchSet" where
  "skip_external ps = ps\<lparr>ps_skippedExternals := ps_skippedExternals ps + 1\<rparr>"

definition add_mapping :: "Mapping \<Rightarrow> PatchSet \<Rightarrow> PatchSet" where
  "add_mapping m ps = ps\<lparr>ps_mappings := ps_mappings ps @ [m]\<rparr>"

definition collect_file :: "riivo_host \<Rightarrow> string \<Rightarrow> string \<Rightarrow> File \<Rightarrow> PatchSet \<Rightarrow> PatchSet" where
  "collect_file h sdRoot patchRoot file ps =
     (if fi_disc file = [] then skip_external ps
      else case MakeAbsoluteFromRelative sdRoot patchRoot (fi_external file) of
        None \<Rightarrow> skip_external ps
      | Some hostFile \<Rightarrow>
          if \<not> rh_is_regular h hostFile then skip_external ps
          else add_mapping \<lparr>mp_kind = MapFile, mp_discPath = fi_disc file, mp_hostPath = hostFile, mp_recursive = True,
                             mp_create = fi_create file\<rparr> ps)"

definition collect_folder :: "riivo_host \<Rightarrow> string \<Rightarrow> string \<Rightarrow> Folder \<Rightarrow> PatchSet \<Rightarrow> PatchSet" where
  "collect_folder h sdRoot patchRoot folder ps =
     (case MakeAbsoluteFromRelative sdRoot patchRoot (fo_external folder) of
        None \<Rightarrow> skip_external ps
      | Some hostFolder \<Rightarrow>
          if \<not> rh_is_directory h hostFolder then skip_external ps
          else add_mapping \<lparr>mp_kind = (if fo_disc folder = [] then MapFolderByName else MapFolder),
                             mp_discPath = fo_disc folder, mp_hostPath = hostFolder, mp_recursive = fo_recursive folder,
                             mp_create = fo_create folder\<rparr> ps)"

definition RiivoCollectMappings :: "riivo_host \<Rightarrow> string \<Rightarrow> string \<Rightarrow> Patch \<Rightarrow> PatchSet \<Rightarrow> PatchSet" where
  "RiivoCollectMappings h sdRoot xmlDir patch ps =
     (let patchRoot = ResolvePatchRoot sdRoot xmlDir (pa_root patch)
      in fold (collect_folder h sdRoot patchRoot) (pa_folderPatches patch)
           (fold (collect_file h sdRoot patchRoot) (pa_filePatches patch) ps))"

definition save_redirect :: "string \<Rightarrow> string \<Rightarrow> Patch list \<Rightarrow> SaveRedirect option \<Rightarrow> SaveRedirect option" where
  "save_redirect sdRoot xmlDir activePatches redirect =
     (case redirect of
        Some r \<Rightarrow> Some r
      | None \<Rightarrow>
          (case FindSavegamePatch activePatches of
             None \<Rightarrow> None
           | Some savegame \<Rightarrow>
               (case MakeAbsoluteFromRelative sdRoot xmlDir (sg_external savegame) of
                  None \<Rightarrow> None
                | Some dir \<Rightarrow> Some \<lparr>sr_hostDirectory = dir, sr_clone = sg_clone savegame\<rparr>)))"

section \<open>Loading\<close>

text \<open>The patches of a document with the remembered and the pinned choices.\<close>

definition active_patches :: "riivo_host \<Rightarrow> string \<Rightarrow> Config option \<Rightarrow> string \<Rightarrow> Patch list option" where
  "active_patches h gameId config xmlFile =
     (case rh_read h xmlFile of
        None \<Rightarrow> None
      | Some content \<Rightarrow>
          (case ParseString (rh_parse h content) of
             None \<Rightarrow> None
           | Some disc \<Rightarrow>
               if \<not> IsValidForGame disc gameId None None then None
               else let remembered = (case config of None \<Rightarrow> disc | Some c \<Rightarrow> ApplyConfigDefaults c disc)
                    in Some (GeneratePatches (ApplySelections (RiivoManifestSelections h) remembered) gameId)))"

definition load_document ::
  "riivo_host \<Rightarrow> string \<Rightarrow> string \<Rightarrow> Config option \<Rightarrow> string \<Rightarrow> PatchSet \<times> SaveRedirect option \<Rightarrow> PatchSet \<times> SaveRedirect option" where
  "load_document h gameId sdRoot config xmlFile = (\<lambda>(ps, redirect).
     (case active_patches h gameId config xmlFile of
        None \<Rightarrow> (ps, redirect)
      | Some patches \<Rightarrow>
          (fold (RiivoCollectMappings h sdRoot (rh_parent h xmlFile)) patches ps,
           save_redirect sdRoot (rh_parent h xmlFile) patches redirect)))"

definition remembered_choices :: "riivo_host \<Rightarrow> string \<Rightarrow> string \<Rightarrow> Config option" where
  "remembered_choices h sdRoot gameId =
     (case rh_read h (rh_join h (rh_join h (rh_join h sdRoot ''riivolution'') ''config'') (take 4 gameId @ ''.xml'')) of
        None \<Rightarrow> None
      | Some content \<Rightarrow> ParseConfigString (rh_parse h content))"

definition RiivoLoadPatchSet :: "riivo_host \<Rightarrow> string \<Rightarrow> (riivo_state, PatchSet option) prog" where
  "RiivoLoadPatchSet h overlayRoot =
     (case RiivoFindXmls h overlayRoot of
        None \<Rightarrow> returnP None
      | Some xmlSet \<Rightarrow>
          bindP RiivoGameId (\<lambda>gameId.
          let config = remembered_choices h (xs_sdRoot xmlSet) gameId in
          bindP (getsP rs_saveRedirect) (\<lambda>redirect.
          let (ps, redirect') = fold (load_document h gameId (xs_sdRoot xmlSet) config) (xs_xmlFiles xmlSet)
                (\<lparr>ps_mappings = [], ps_skippedExternals = 0\<rparr>, redirect)
          in bindP (modifyP (\<lambda>s. s\<lparr>rs_saveRedirect := redirect'\<rparr>)) (\<lambda>_. returnP (Some ps)))))"

text \<open>The patches of the overlay at an index.\<close>

definition load_overlay :: "riivo_host \<Rightarrow> nat \<Rightarrow> (riivo_state, unit) prog" where
  "load_overlay h i =
     bindP (getsP (\<lambda>s. ov_root (rs_overlays s ! i))) (\<lambda>root.
     bindP (RiivoLoadPatchSet h root) (\<lambda>patches.
     modifyP (\<lambda>s. s\<lparr>rs_overlays := (rs_overlays s)[i := (rs_overlays s ! i)\<lparr>ov_patches := patches\<rparr>]\<rparr>)))"

definition RiivoInitialize :: "riivo_host \<Rightarrow> (riivo_state, unit) prog" where
  "RiivoInitialize h =
     bindP (modifyP (\<lambda>s. s\<lparr>rs_overlays := RiivoDiscoverRoots h\<rparr>)) (\<lambda>_.
     stmts (map (load_overlay h) [0..<length (RiivoDiscoverRoots h)]))"

text \<open>\<open>std::call_once\<close>: the call counts as made once it returns.\<close>

definition riivo_once :: "riivo_host \<Rightarrow> (riivo_state, unit) prog" where
  "riivo_once h =
     bindP (getsP g_riivoOnce) (\<lambda>called.
     if called then returnP () else bindP (RiivoInitialize h) (\<lambda>_. modifyP (\<lambda>s. s\<lparr>g_riivoOnce := True\<rparr>)))"

definition Overlays :: "riivo_host \<Rightarrow> (riivo_state, Overlay list) prog" where
  "Overlays h = bindP (riivo_once h) (\<lambda>_. getsP rs_overlays)"

definition GetSaveRedirect :: "riivo_host \<Rightarrow> (riivo_state, SaveRedirect option) prog" where
  "GetSaveRedirect h = bindP (riivo_once h) (\<lambda>_. getsP rs_saveRedirect)"

end
