(* ===== verification/Riivolution_Paths.thy ===== *)
theory Riivolution_Paths
  imports Riivolution Dvd_Fst_Laws
begin

text \<open>
  The host paths that a patch document names: a path is rejected exactly when it holds a backslash or leaves its folder,
  and else is its canonical path below the folder.
\<close>

section \<open>Elements of a path\<close>

lemma path_components_slash: "path_components (CHR ''/'' # p) = path_components p"
  by (subst path_components.simps, subst (2) path_components.simps) simp

lemma path_components_trim: "path_components (dropWhile (\<lambda>c. c = CHR ''/'') p) = path_components p"
  by (induction p) (simp_all add: path_components_slash)

text \<open>A path is empty, starts with a slash, is a name, or is a name before a slash.\<close>

lemma path_cases:
  obtains "p = []" | q where "p = CHR ''/'' # q"
  | "p \<noteq> []" "CHR ''/'' \<notin> set p" | x q where "p = x @ CHR ''/'' # q" "x \<noteq> []" "CHR ''/'' \<notin> set x"
proof (cases "CHR ''/'' \<in> set p")
  case True
  then obtain x q where "p = x @ CHR ''/'' # q" "CHR ''/'' \<notin> set x" by (meson split_list_first)
  then show thesis using that(2,4) by (cases "x = []") auto
qed (use that(1,3) in blast)

lemma path_components_append: "path_components (p @ CHR ''/'' # q) = path_components p @ path_components q"
proof (induction "length p" arbitrary: p rule: less_induct)
  case less
  show ?case
  proof (cases p rule: path_cases)
    case 1 then show ?thesis by (simp add: path_components_slash path_components_Nil)
  next
    case (2 r) then show ?thesis using less [of r] by (simp add: path_components_slash)
  next
    case 3 then show ?thesis by (simp add: path_components_name path_components_last)
  next
    case (4 x r) then show ?thesis using less [of r] by (simp add: path_components_name)
  qed
qed

lemma path_components_split: "filter (\<lambda>e. e \<noteq> []) (split_on CHR ''/'' p) = path_components p"
proof (induction "length p" arbitrary: p rule: less_induct)
  case less
  show ?case
  proof (cases p rule: path_cases)
    case 1 then show ?thesis by (simp add: path_components_Nil)
  next
    case (2 r) then show ?thesis using less [of r] by (simp add: path_components_slash)
  next
    case 3 then show ?thesis by (simp add: split_on_last path_components_last)
  next
    case (4 x r) then show ?thesis using less [of r] by (simp add: split_on_piece path_components_name)
  qed
qed

lemma strip_back_parts: "\<exists>n. p = strip_back p @ replicate n CHR ''/''"
proof (intro exI)
  have "rev p = takeWhile (\<lambda>c. c = CHR ''/'') (rev p) @ dropWhile (\<lambda>c. c = CHR ''/'') (rev p)" by simp
  then have "p = strip_back p @ rev (takeWhile (\<lambda>c. c = CHR ''/'') (rev p))"
    unfolding strip_back_def by (metis rev_append rev_rev_ident)
  moreover have "rev (takeWhile (\<lambda>c. c = CHR ''/'') (rev p)) =
      replicate (length (takeWhile (\<lambda>c. c = CHR ''/'') (rev p))) CHR ''/''"
    by (rule replicate_eqI) (auto dest: set_takeWhileD)
  ultimately show "p = strip_back p @ replicate (length (takeWhile (\<lambda>c. c = CHR ''/'') (rev p))) CHR ''/''" by simp
qed

lemma path_components_slashes: "path_components (p @ replicate n CHR ''/'') = path_components p"
  by (induction n arbitrary: p) (simp_all add: path_components_append path_components_slash
      path_components_append [of _ "replicate _ _", simplified] path_components_Nil)

lemma path_components_strip: "path_components (strip_back p) = path_components p"
  using strip_back_parts [of p] path_components_slashes by metis

section \<open>Paths below a folder\<close>

definition slashed :: "string list \<Rightarrow> string" where
  "slashed cs = concat (map (\<lambda>c. CHR ''/'' # c) cs)"

definition below :: "string \<Rightarrow> string list \<Rightarrow> string" where
  "below base cs = strip_back base @ slashed cs"

text \<open>Some part of the path goes up more often than down, from a depth on.\<close>

definition downs :: "string list \<Rightarrow> nat" where
  "downs cs = length (filter (\<lambda>c. c \<noteq> ''.'' \<and> c \<noteq> ''..'') cs)"

definition ups :: "string list \<Rightarrow> nat" where
  "ups cs = length (filter (\<lambda>c. c = ''..'') cs)"

definition climbs :: "nat \<Rightarrow> string list \<Rightarrow> bool" where
  "climbs d cs \<longleftrightarrow> (\<exists>n \<le> length cs. d + downs (take n cs) < ups (take n cs))"

lemma climbs_Nil: "\<not> climbs d []"
  by (simp add: climbs_def ups_def)

lemma ex_le_Suc: "(\<exists>n \<le> Suc k. P n) \<longleftrightarrow> P 0 \<or> (\<exists>n \<le> k. P (Suc n))"
  by (metis Suc_le_mono le0 not0_implies_Suc)

lemma climbs_Cons: "climbs d (c # cs) \<longleftrightarrow>
    (if c = ''.'' then climbs d cs else if c = ''..'' then d = 0 \<or> climbs (d - 1) cs else climbs (Suc d) cs)"
proof -
  have shift: "climbs d (c # cs) \<longleftrightarrow> (\<exists>n \<le> length cs. d + downs (c # take n cs) < ups (c # take n cs))"
    unfolding climbs_def length_Cons ex_le_Suc by (simp add: ups_def)
  have "0 + downs (''..'' # take 0 cs) < ups (''..'' # take 0 cs)" by (simp add: downs_def ups_def)
  then have "climbs 0 (''..'' # cs)" unfolding climbs_def length_Cons ex_le_Suc by auto
  then show ?thesis using shift unfolding climbs_def by (cases d) (auto simp: downs_def ups_def)
qed

lemma slashed_Nil [simp]: "slashed [] = []"
  by (simp add: slashed_def)

lemma slashed_snoc: "slashed (cs @ [c]) = slashed cs @ CHR ''/'' # c"
  by (simp add: slashed_def)

lemma cut_last_snoc: "CHR ''/'' \<notin> set c \<Longrightarrow> cut_last (b @ slashed (cs @ [c])) = Some (b @ slashed cs)"
  unfolding cut_last_def slashed_snoc by (simp add: dropWhile_append2 [of "rev c", simplified] dropWhile_append)

lemma resolve_skip: "resolve_elements d r (filter (\<lambda>e. e \<noteq> []) es) = resolve_elements d r es"
  by (induction d r es rule: resolve_elements.induct) (auto split: option.splits)

lemma add_component_simps:
  "add_component ''.'' cs = cs" "add_component ''..'' (cs @ [c]) = cs"
  "c \<noteq> ''.'' \<Longrightarrow> c \<noteq> ''..'' \<Longrightarrow> add_component c cs = cs @ [c]"
  by (simp_all add: add_component_def)

lemma resolve_below:
  "list_all (\<lambda>c. c \<noteq> [] \<and> CHR ''/'' \<notin> set c) es \<Longrightarrow> list_all (\<lambda>c. CHR ''/'' \<notin> set c) acc \<Longrightarrow>
   resolve_elements (length acc) (b @ slashed acc) es =
     (if climbs (length acc) es then None else Some (b @ slashed (fold add_component es acc)))"
proof (induction es arbitrary: acc)
  case (Cons e es)
  show ?case
  proof (cases "e = ''..''")
    case up: True
    show ?thesis
    proof (cases acc rule: rev_cases)
      case (snoc as a)
      then show ?thesis using Cons.IH [of as] Cons.prems up by (simp add: climbs_Cons cut_last_snoc add_component_simps)
    qed (use up in \<open>simp add: climbs_Cons\<close>)
  next
    case False
    show ?thesis using False Cons.IH [of acc] Cons.IH [of "acc @ [e]"] Cons.prems
      by (cases "e = ''.''") (simp_all add: climbs_Cons add_component_simps slashed_snoc)
  qed
qed (simp add: climbs_Nil)

text \<open>A path is rejected when it holds a backslash or leaves its folder; else it is its canonical path below the folder.\<close>

lemma MakeAbsolute_canonical:
  "MakeAbsoluteFromRelative sd dir ext =
     (if CHR 0x5C \<in> set ext \<or> climbs 0 (path_components ext) then None
      else Some (below (if ext \<noteq> [] \<and> hd ext = CHR ''/'' then sd else dir) (canonical_components ext)))"
proof (cases "CHR 0x5C \<in> set ext")
  case False
  let ?work = "strip_back (dropWhile (\<lambda>c. c = CHR ''/'') ext)"
  have work: "path_components ?work = path_components ext" by (simp add: path_components_strip path_components_trim)
  have "map (\<lambda>c. if c = CHR 0x5C then CHR ''/'' else c) ext = ext" using False by (auto intro: map_idI)
  then have canon: "canonical_components ext = fold add_component (path_components ext) []"
    by (simp add: canonical_components_def)
  have plain: "list_all (\<lambda>c. c \<noteq> [] \<and> CHR ''/'' \<notin> set c) (path_components ext)"
    using path_components_plain [of _ ext] by (auto simp: list_all_iff)
  have "resolve_elements 0 (strip_back b) (split_on CHR ''/'' ?work) =
      (if climbs 0 (path_components ext) then None else Some (below b (canonical_components ext)))" for b
  proof -
    have "resolve_elements 0 (strip_back b) (split_on CHR ''/'' ?work) = resolve_elements 0 (strip_back b) (path_components ext)"
      by (simp only: resolve_skip [of 0 "strip_back b" "split_on CHR ''/'' ?work", symmetric] path_components_split work)
    then show ?thesis using resolve_below [OF plain, of "[]" "strip_back b"] by (simp add: canon below_def)
  qed
  then show ?thesis using False by (simp add: MakeAbsoluteFromRelative_def Let_def)
qed (simp add: MakeAbsoluteFromRelative_def)

lemma strip_back_name: "p \<noteq> [] \<Longrightarrow> last p \<noteq> CHR ''/'' \<Longrightarrow> strip_back p = p"
  by (cases p rule: rev_cases) (simp_all add: strip_back_def)

lemma strip_back_idem: "strip_back (strip_back p) = strip_back p"
  by (simp add: strip_back_def)

lemma strip_below: "good_names cs \<Longrightarrow> strip_back (below b cs) = below b cs"
proof (cases cs rule: rev_cases)
  case (snoc as a)
  moreover assume "good_names cs"
  ultimately have "a \<noteq> []" "CHR ''/'' \<notin> set a" by (auto simp: good_name_def)
  moreover from this have "last a \<noteq> CHR ''/''" by (metis last_in_set)
  ultimately have "a \<noteq> []" "last a \<noteq> CHR ''/''" by blast+
  then show ?thesis using snoc by (intro strip_back_name) (simp_all add: below_def slashed_snoc)
qed (simp add: below_def slashed_def strip_back_idem)

lemma below_below: "good_names cs \<Longrightarrow> below (below b cs) ds = below b (cs @ ds)"
  by (simp add: below_def [of "below b cs"] strip_below) (simp add: below_def slashed_def)

text \<open>The path is a plain path below one of the two folders.\<close>

definition path_confined :: "string \<Rightarrow> string \<Rightarrow> string \<Rightarrow> bool" where
  "path_confined sd dir p \<longleftrightarrow> (\<exists>cs. good_names cs \<and> (p = below sd cs \<or> p = below dir cs))"

lemma MakeAbsolute_confined:
  assumes "MakeAbsoluteFromRelative sd dir ext = Some p"
  shows "path_confined sd dir p"
proof -
  have "p = below sd (canonical_components ext) \<or> p = below dir (canonical_components ext)"
    using assms by (auto simp: MakeAbsolute_canonical split: if_splits)
  then show ?thesis using canonical_good [of ext] unfolding path_confined_def by blast
qed

lemma confined_root: "path_confined sd (ResolvePatchRoot sd dir root) p \<Longrightarrow> path_confined sd dir p"
proof -
  assume p: "path_confined sd (ResolvePatchRoot sd dir root) p"
  have "ResolvePatchRoot sd dir root = dir \<or> path_confined sd dir (ResolvePatchRoot sd dir root)"
    using MakeAbsolute_confined by (auto simp: ResolvePatchRoot_def split: option.splits)
  moreover have "path_confined sd dir p" if "good_names cs" "p = below (below b cs) ds" "good_names ds" "b = sd \<or> b = dir" for b cs ds
    using that below_below [of cs b ds] unfolding path_confined_def by (intro exI [of _ "cs @ ds"]) auto
  ultimately show ?thesis using p unfolding path_confined_def by metis
qed

end
