(* ===== verification/Riivolution_Laws.thy ===== *)
theory Riivolution_Laws
  imports Riivolution_Load Riivolution_Paths Memory_Laws
begin

text \<open>
  The loading of the overlays: the roots, the mappings and the redirection of the saves that it leaves.
\<close>

section \<open>Mappings stay below their folders\<close>

definition mapping_ok :: "riivo_host \<Rightarrow> string \<Rightarrow> string \<Rightarrow> Mapping \<Rightarrow> bool" where
  "mapping_ok h sd dir m \<longleftrightarrow> path_confined sd dir (mp_hostPath m) \<and>
     (if mp_kind m = MapFile then rh_is_regular h (mp_hostPath m) else rh_is_directory h (mp_hostPath m))"

lemma fold_keeps: "(\<And>x y. x \<in> set xs \<Longrightarrow> P y \<Longrightarrow> P (f x y)) \<Longrightarrow> P y \<Longrightarrow> P (fold f xs y)"
  by (induction xs arbitrary: y) auto

abbreviation mappings_all :: "(Mapping \<Rightarrow> bool) \<Rightarrow> PatchSet \<Rightarrow> bool" where
  "mappings_all Q ps \<equiv> \<forall>m \<in> set (ps_mappings ps). Q m"

lemma skip_mappings [simp]: "ps_mappings (skip_external ps) = ps_mappings ps"
  and add_mappings [simp]: "ps_mappings (add_mapping m ps) = ps_mappings ps @ [m]"
  by (simp_all add: skip_external_def add_mapping_def)

lemma collect_mappings:
  assumes "mappings_all Q ps" and "\<And>m. mapping_ok h sd dir m \<Longrightarrow> Q m"
  shows "mappings_all Q (RiivoCollectMappings h sd dir patch ps)"
proof -
  let ?root = "ResolvePatchRoot sd dir (pa_root patch)"
  have ok: "MakeAbsoluteFromRelative sd ?root e = Some p \<Longrightarrow> path_confined sd dir p" for e p
    by (rule confined_root) (rule MakeAbsolute_confined)
  have "mappings_all Q (collect_file h sd ?root f ps)" if "mappings_all Q ps" for f ps
    using that ok by (auto simp: collect_file_def mapping_ok_def intro!: assms(2) split: option.splits)
  moreover have "mappings_all Q (collect_folder h sd ?root f ps)" if "mappings_all Q ps" for f ps
    using that ok by (auto simp: collect_folder_def mapping_ok_def intro!: assms(2) split: option.splits)
  ultimately show ?thesis
    unfolding RiivoCollectMappings_def Let_def
    by (intro fold_keeps [where P = "mappings_all Q"]) (use assms(1) in blast)+
qed

lemma redirect_confined:
  "save_redirect sd dir patches r = Some d \<Longrightarrow> r = Some d \<or> path_confined sd dir (sr_hostDirectory d)"
  by (auto simp: save_redirect_def dest: MakeAbsolute_confined split: option.splits)

section \<open>Loading\<close>

text \<open>A redirection belongs to a document of one of the roots.\<close>

definition redirect_ok :: "riivo_host \<Rightarrow> string set \<Rightarrow> SaveRedirect option \<Rightarrow> bool" where
  "redirect_ok h roots r \<longleftrightarrow> (\<forall>d. r = Some d \<longrightarrow> (\<exists>root \<in> roots. \<exists>xs. RiivoFindXmls h root = Some xs \<and>
     (\<exists>xml \<in> set (xs_xmlFiles xs). path_confined (xs_sdRoot xs) (rh_parent h xml) (sr_hostDirectory d))))"

text \<open>An overlay has patches exactly if its root has documents; every mapping comes from one of them.\<close>

definition overlay_loaded :: "riivo_host \<Rightarrow> Overlay \<Rightarrow> bool" where
  "overlay_loaded h ov \<longleftrightarrow>
     (case RiivoFindXmls h (ov_root ov) of
        None \<Rightarrow> ov_patches ov = None
      | Some xs \<Rightarrow> (case ov_patches ov of
          None \<Rightarrow> False
        | Some ps \<Rightarrow> mappings_all (\<lambda>m. \<exists>xml \<in> set (xs_xmlFiles xs). mapping_ok h (xs_sdRoot xs) (rh_parent h xml) m) ps))"

lemma load_documents:
  assumes "fold (load_document h gameId (xs_sdRoot xs) config) (xs_xmlFiles xs) (\<lparr>ps_mappings = [], ps_skippedExternals = 0\<rparr>, r) = (ps, r')"
    and "RiivoFindXmls h root = Some xs" "root \<in> roots" "redirect_ok h roots r"
  shows "mappings_all (\<lambda>m. \<exists>xml \<in> set (xs_xmlFiles xs). mapping_ok h (xs_sdRoot xs) (rh_parent h xml) m) ps" "redirect_ok h roots r'"
proof -
  let ?Q = "\<lambda>m. \<exists>xml \<in> set (xs_xmlFiles xs). mapping_ok h (xs_sdRoot xs) (rh_parent h xml) m"
  let ?P = "\<lambda>(ps, r). mappings_all ?Q ps \<and> redirect_ok h roots r"
  have "?P (load_document h gameId (xs_sdRoot xs) config xml y)" if xml: "xml \<in> set (xs_xmlFiles xs)" and "?P y" for xml y
  proof (cases "active_patches h gameId config xml")
    case (Some patches)
    obtain ps r where y: "y = (ps, r)" by (cases y)
    have "mappings_all ?Q (fold (RiivoCollectMappings h (xs_sdRoot xs) (rh_parent h xml)) patches ps)"
      by (rule fold_keeps [where P = "mappings_all ?Q"]; (rule collect_mappings)?) (use that y in auto)
    moreover have "redirect_ok h roots (save_redirect (xs_sdRoot xs) (rh_parent h xml) patches r)"
      using that y assms(2,3) redirect_confined unfolding redirect_ok_def by fastforce
    ultimately show ?thesis by (simp add: load_document_def y Some)
  qed (use that in \<open>auto simp: load_document_def\<close>)
  then have "?P (fold (load_document h gameId (xs_sdRoot xs) config) (xs_xmlFiles xs) (\<lparr>ps_mappings = [], ps_skippedExternals = 0\<rparr>, r))"
    by (rule fold_keeps) (use assms(4) in simp_all)
  then show "mappings_all ?Q ps" "redirect_ok h roots r'" unfolding assms(1) by simp_all
qed

lemma keeps_reads [keeps_intros]:
  "keeps (\<lambda>s. memory.more s = x) (Read16 a)" "keeps (\<lambda>s. memory.more s = x) (Read32 a)"
proof -
  have m: "memory.more (snd (materialize a n ds s)) = memory.more s" for n ds and s :: "'a memory_scheme"
    by (induction ds arbitrary: s) (simp_all add: Let_def split: prod.split)
  have d: "keeps (\<lambda>s. memory.more s = x) (ResolveDeferredReads a n)" for n
    by (simp add: keeps_def ResolveDeferredReads_def Let_def m)
  have p: "keeps (\<lambda>s. memory.more s = x) (GetPointer a n)" for n
    by (auto simp: keeps_def GetPointer_def split: option.split)
  show "keeps (\<lambda>s. memory.more s = x) (Read16 a)" "keeps (\<lambda>s. memory.more s = x) (Read32 a)"
    unfolding Read16_def Read32_def ReadChecked_def ReadScalar_def by (intro keeps_intros d p)+
qed

lemma keeps_game_id: "keeps (\<lambda>s. memory.more s = x) RiivoGameId"
  unfolding RiivoGameId_def CurrentGameCode_def Let_def by (intro keeps_intros)+

lemma game_id_frame:
  assumes "RiivoGameId s = (res, s')"
  shows "rs_overlays s' = rs_overlays s" "rs_saveRedirect s' = rs_saveRedirect s" "g_riivoOnce s' = g_riivoOnce s"
proof -
  have "memory.more s' = memory.more s" using keepsD [OF keeps_game_id refl assms] .
  then show "rs_overlays s' = rs_overlays s" "rs_saveRedirect s' = rs_saveRedirect s" "g_riivoOnce s' = g_riivoOnce s"
    by (cases s; cases s'; simp)+
qed

lemma bindP_OkE:
  assumes "bindP m f s = (Ok b, s')"
  obtains a t where "m s = (Ok a, t)" "f a t = (Ok b, s')"
  using assms by (auto simp: bindP_def split: prod.splits res.splits)

lemma load_patches:
  assumes "RiivoLoadPatchSet h root s = (Ok p, s')" "root \<in> roots" "redirect_ok h roots (rs_saveRedirect s)"
  shows "overlay_loaded h \<lparr>ov_root = root, ov_patches = p\<rparr>" "redirect_ok h roots (rs_saveRedirect s')"
    "rs_overlays s' = rs_overlays s"
proof -
  have "overlay_loaded h \<lparr>ov_root = root, ov_patches = p\<rparr> \<and> redirect_ok h roots (rs_saveRedirect s') \<and> rs_overlays s' = rs_overlays s"
  proof (cases "RiivoFindXmls h root")
    case (Some xs)
    obtain gameId t where g: "RiivoGameId s = (Ok gameId, t)"
      using assms(1) unfolding RiivoLoadPatchSet_def Some option.case by (auto elim: bindP_OkE)
    let ?config = "remembered_choices h (xs_sdRoot xs) gameId"
    obtain ps r where d: "fold (load_document h gameId (xs_sdRoot xs) ?config) (xs_xmlFiles xs)
        (\<lparr>ps_mappings = [], ps_skippedExternals = 0\<rparr>, rs_saveRedirect s) = (ps, r)" by fastforce
    have "p = Some ps" "s' = t\<lparr>rs_saveRedirect := r\<rparr>"
      using assms(1) d g game_id_frame(2) [OF g] by (auto simp: RiivoLoadPatchSet_def Some Let_def run_simps)
    then show ?thesis using load_documents [OF d Some assms(2,3)] game_id_frame(1) [OF g]
      by (simp add: overlay_loaded_def Some)
  qed (use assms in \<open>auto simp: RiivoLoadPatchSet_def overlay_loaded_def run_simps\<close>)
  then show "overlay_loaded h \<lparr>ov_root = root, ov_patches = p\<rparr>" "redirect_ok h roots (rs_saveRedirect s')"
    "rs_overlays s' = rs_overlays s" by blast+
qed

section \<open>Roots\<close>

text \<open>The configured roots in the order of their precedence.\<close>

definition root_candidates :: "riivo_host \<Rightarrow> string list" where
  "root_candidates h = map (rh_configured_path h) (rh_overlay_roots h) @
     (if rh_is_retro_rewind h \<and> rh_retro_rewind_root h \<noteq> [] then [rh_configured_path h (rh_retro_rewind_root h)] else []) @
     rh_mod_roots h"

definition firsts :: "'a list \<Rightarrow> 'a list" where
  "firsts xs = rev (remdups (rev xs))"

lemma firsts_snoc: "firsts (xs @ [x]) = (if x \<in> set xs then firsts xs else firsts xs @ [x])"
  by (simp add: firsts_def)

lemma set_firsts [simp]: "set (firsts xs) = set xs"
  by (simp add: firsts_def)

abbreviation root_name :: "riivo_host \<Rightarrow> string \<Rightarrow> string" where
  "root_name h p \<equiv> RiivoComparablePath h (normalized_root h p)"

lemma add_root_name:
  "map (\<lambda>ov. RiivoComparablePath h (ov_root ov)) (RiivoAddRoot h p os) =
   (if rh_is_directory h p \<and> root_name h p \<notin> set (map (\<lambda>ov. RiivoComparablePath h (ov_root ov)) os)
    then map (\<lambda>ov. RiivoComparablePath h (ov_root ov)) os @ [root_name h p] else map (\<lambda>ov. RiivoComparablePath h (ov_root ov)) os)"
  by (auto simp: RiivoAddRoot_def Let_def list_ex_iff intro: rev_image_eqI)

lemma add_root_names:
  "map (\<lambda>ov. RiivoComparablePath h (ov_root ov)) (fold (RiivoAddRoot h) ps []) =
   firsts (map (root_name h) (filter (rh_is_directory h) ps))"
proof (induction ps rule: rev_induct)
  case (snoc p ps)
  show ?case unfolding fold_append filter_append map_append by (simp add: add_root_name snoc.IH firsts_snoc)
qed (simp add: firsts_def)

lemma discover_candidates: "RiivoDiscoverRoots h = fold (RiivoAddRoot h) (root_candidates h) []"
  by (simp add: RiivoDiscoverRoots_def root_candidates_def Let_def fold_map comp_def)

section \<open>Initialisation\<close>

lemma stmts_loop:
  assumes "\<And>k s t. k < n \<Longrightarrow> I k s \<Longrightarrow> f k s = (Ok (), t) \<Longrightarrow> I (Suc k) t"
  shows "I 0 s \<Longrightarrow> stmts (map f [0..<n]) s = (Ok (), s') \<Longrightarrow> I n s'"
  using assms
proof (induction n arbitrary: s')
  case (Suc n)
  obtain t where t: "stmts (map f [0..<n]) s = (Ok (), t)" "f n t = (Ok (), s')"
    using Suc.prems(2) by (auto simp: stmts_append thenP_def run_simps elim!: bindP_OkE)
  then show ?case using Suc.IH [OF Suc.prems(1) t(1)] Suc.prems(3) by (meson lessI less_SucI)
qed (simp add: run_simps)

definition init_inv :: "riivo_host \<Rightarrow> string list \<Rightarrow> nat \<Rightarrow> riivo_state \<Rightarrow> bool" where
  "init_inv h roots k s \<longleftrightarrow> map ov_root (rs_overlays s) = roots \<and>
     (\<forall>i < k. overlay_loaded h (rs_overlays s ! i)) \<and> redirect_ok h (set roots) (rs_saveRedirect s)"

lemma load_overlay_inv:
  assumes "k < length roots" "init_inv h roots k s" "load_overlay h k s = (Ok (), t)"
  shows "init_inv h roots (Suc k) t"
proof -
  have roots: "map ov_root (rs_overlays s) = roots" "length (rs_overlays s) = length roots"
    using assms(2) unfolding init_inv_def by (auto dest: arg_cong [where f = length])
  let ?ov = "rs_overlays s ! k"
  have root: "ov_root ?ov \<in> set roots" using assms(1) roots by (metis length_map nth_map nth_mem)
  obtain p s1 where p: "RiivoLoadPatchSet h (ov_root ?ov) s = (Ok p, s1)"
    using assms(3) unfolding load_overlay_def by (auto simp: run_simps elim!: bindP_OkE)
  then have t: "t = s1\<lparr>rs_overlays := (rs_overlays s1)[k := (rs_overlays s1 ! k)\<lparr>ov_patches := p\<rparr>]\<rparr>"
    using assms(3) by (simp add: load_overlay_def run_simps)
  have ok: "redirect_ok h (set roots) (rs_saveRedirect s)" using assms(2) unfolding init_inv_def by blast
  note l = load_patches [OF p root ok]
  have os: "rs_overlays t = (rs_overlays s)[k := \<lparr>ov_root = ov_root ?ov, ov_patches = p\<rparr>]" "rs_saveRedirect t = rs_saveRedirect s1"
    unfolding t by (cases "rs_overlays s ! k"; simp add: l(3))+
  have "roots ! k = ov_root ?ov" unfolding roots(1) [symmetric] using assms(1) roots(2) by simp
  then have "map ov_root (rs_overlays t) = roots"
    unfolding os map_update roots(1) by (simp add: list_update_same_conv assms(1))
  moreover have "overlay_loaded h (rs_overlays t ! i)" if "i < Suc k" for i
    using that l(1) assms(1,2) roots(2) unfolding init_inv_def os by (cases "i = k") (simp_all add: less_Suc_eq)
  ultimately show ?thesis using l(2) unfolding init_inv_def os by blast
qed

lemma initialize_inv:
  assumes "RiivoInitialize h s = (Ok (), s')" "rs_saveRedirect s = None"
  shows "init_inv h (map ov_root (RiivoDiscoverRoots h)) (length (RiivoDiscoverRoots h)) s'"
proof (rule stmts_loop [where f = "load_overlay h" and I = "init_inv h (map ov_root (RiivoDiscoverRoots h))"])
  show "init_inv h (map ov_root (RiivoDiscoverRoots h)) 0 (s\<lparr>rs_overlays := RiivoDiscoverRoots h\<rparr>)"
    unfolding init_inv_def redirect_ok_def using assms(2) by simp
  show "stmts (map (load_overlay h) [0..<length (RiivoDiscoverRoots h)]) (s\<lparr>rs_overlays := RiivoDiscoverRoots h\<rparr>) = (Ok (), s')"
    using assms(1) by (simp add: RiivoInitialize_def run_simps)
qed (use load_overlay_inv in \<open>auto\<close>)

section \<open>An example\<close>

text \<open>One root with one document: a file that is found, one that climbs above the folder, and a redirection.\<close>

definition sample_document :: XmlNode where
  "sample_document = XmlNode ''wiidisc'' [(''version'', ''1'')]
     [XmlNode ''id'' [(''game'', ''RMC'')] [],
      XmlNode ''options'' [] [XmlNode ''section'' [(''name'', ''S'')] [XmlNode ''option'' [(''name'', ''O''), (''default'', ''1'')]
        [XmlNode ''choice'' [(''name'', ''On'')] [XmlNode ''patch'' [(''id'', ''p'')] []]]]],
      XmlNode ''patch'' [(''id'', ''p'')]
        [XmlNode ''file'' [(''disc'', ''/a.szs''), (''external'', ''/m/./x/../a.szs'')] [],
         XmlNode ''file'' [(''disc'', ''/b.szs''), (''external'', ''m/../../b.szs'')] [],
         XmlNode ''savegame'' [(''external'', ''/save'')] []]]"


definition sample_patch_disc :: Disc where
  "sample_patch_disc = \<lparr>di_version = 1,
     di_gameFilter = \<lparr>gf_game = Some ''RMC'', gf_developer = None, gf_disc = None, gf_version = None, gf_regions = None\<rparr>,
     di_sections = [\<lparr>se_name = ''S'', se_options = [\<lparr>op_name = ''O'', op_id = [],
       op_choices = [\<lparr>ch_name = ''On'', ch_patchReferences = [\<lparr>pr_id = ''p'', pr_params = []\<rparr>]\<rparr>], op_selectedChoice = 1\<rparr>]\<rparr>],
     di_patches = [\<lparr>pa_id = ''p'', pa_root = [],
       pa_filePatches = [\<lparr>fi_disc = ''/a.szs'', fi_external = ''/m/./x/../a.szs'', fi_resize = True, fi_create = False, fi_offset = 0,
           fi_fileoffset = 0, fi_length = 0\<rparr>,
         \<lparr>fi_disc = ''/b.szs'', fi_external = ''m/../../b.szs'', fi_resize = True, fi_create = False, fi_offset = 0,
           fi_fileoffset = 0, fi_length = 0\<rparr>],
       pa_folderPatches = [], pa_savegamePatches = [\<lparr>sg_external = ''/save'', sg_clone = True\<rparr>], pa_memoryPatches = []\<rparr>]\<rparr>"

lemma one_text: "uint_from_text ''1'' f = 1"
  by (simp add: uint_from_text_def xml_digit_def)

lemma sample_version: "AttributeInt sample_document ''version'' (- 1) = 1"
  by (simp add: AttributeInt_def FindAttribute_def sample_document_def one_text)

lemmas document_defs = children_named_def ReadParams_def parse_choice_def parse_option_def parse_section_def parse_file_def
  parse_folder_def parse_savegame_def parse_memory_def parse_patch_def parse_filter_def parse_child_def
  Attribute_def AttributeBool_def AttributeUint_def FindAttribute_def

lemma sample_parse: "ParseString (Some sample_document) = Some sample_patch_disc"
proof -
  have "ParseString (Some sample_document) = Some (fold (parse_child (Attribute sample_document ''root'')) (xml_children sample_document)
                 \<lparr>di_version = 1, di_gameFilter = \<lparr>gf_game = None, gf_developer = None, gf_disc = None, gf_version = None,
                    gf_regions = None\<rparr>, di_sections = [], di_patches = []\<rparr>)"
    using sample_version by (simp add: ParseString_def) (simp add: sample_document_def)
  also have "\<dots> = Some sample_patch_disc"
    by (simp add: sample_document_def document_defs sample_patch_disc_def one_text)
  finally show ?thesis .
qed

lemma sample_valid: "IsValidForGame sample_patch_disc ''RMCP01'' None None"
  by (simp add: IsValidForGame_def sample_patch_disc_def matches_option_def StartsWith_def)

lemma replace_plain: "list_all (\<lambda>(k, v). k \<noteq> [] \<and> hd k = CHR ''{'') reps \<Longrightarrow> CHR ''{'' \<notin> set t \<Longrightarrow> replaceVariables reps t = t"
proof (induction t)
  case (Cons c cs)
  have "find (\<lambda>(k, v). StartsWith (c # cs) k) reps = None"
    unfolding find_None_iff using Cons.prems by (auto simp: StartsWith_def list_all_iff neq_Nil_conv)
  then show ?case using Cons by simp
qed simp

lemma sample_patches: "GeneratePatches (ApplySelections [] sample_patch_disc) ''RMCP01'' = di_patches sample_patch_disc"
  by (simp add: GeneratePatches_def ApplySelections_def sample_patch_disc_def option_patches_def instantiate_patch_def placeholders_def
    replace_plain del: replaceVariables.simps)

definition sample_riivo_host :: riivo_host where
  "sample_riivo_host = \<lparr>rh_overlay_roots = [''/sd'', ''/sd''], rh_configured_path = id, rh_is_retro_rewind = False,
     rh_retro_rewind_root = [], rh_mod_roots = [], rh_mod_xml = [], rh_mod_selections = [],
     rh_is_directory = (\<lambda>p. p \<in> {''/sd'', ''/sd/riivolution''}), rh_is_regular = (\<lambda>p. p = ''/sd/m/a.szs''),
     rh_listing = (\<lambda>_. [\<lparr>he_path = ''/sd/riivolution/r.xml'', he_filename = ''r.xml'', he_relative = None, he_regular = True,
                         he_size = None\<rparr>]),
     rh_read = (\<lambda>p. if p = ''/sd/riivolution/r.xml'' then Some [] else None), rh_canonical = (\<lambda>p. Some p), rh_normal = id,
     rh_join = (\<lambda>a b. a @ CHR ''/'' # b), rh_parent = (\<lambda>p. case cut_last p of None \<Rightarrow> p | Some d \<Rightarrow> d),
     rh_extension = (\<lambda>p. drop (length p - 4) p), rh_sort = id, rh_parse = (\<lambda>_. Some sample_document)\<rparr>"

definition sample_riivo :: riivo_state where
  "sample_riivo = memory.extend (empty_memory\<lparr>Regions := []\<rparr>) (riivo_state.fields False [] None)"

definition sample_overlay :: Overlay where
  "sample_overlay = \<lparr>ov_root = ''/sd'', ov_patches = Some \<lparr>ps_mappings =
     [\<lparr>mp_kind = MapFile, mp_discPath = ''/a.szs'', mp_hostPath = ''/sd/m/a.szs'', mp_recursive = True, mp_create = False\<rparr>],
     ps_skippedExternals = 1\<rparr>\<rparr>"


lemma sample_active: "active_patches sample_riivo_host ''RMCP01'' None ''/sd/riivolution/r.xml'' = Some (di_patches sample_patch_disc)"
  using sample_patches by (simp add: active_patches_def sample_riivo_host_def sample_parse sample_valid RiivoManifestSelections_def)

lemma sample_paths:
  "MakeAbsoluteFromRelative ''/sd'' ''/sd/riivolution'' ''/m/./x/../a.szs'' = Some ''/sd/m/a.szs''"
  "MakeAbsoluteFromRelative ''/sd'' ''/sd/riivolution'' ''m/../../b.szs'' = None"
  "MakeAbsoluteFromRelative ''/sd'' ''/sd/riivolution'' ''/save'' = Some ''/sd/save''"
  by (simp_all add: MakeAbsoluteFromRelative_def strip_back_def cut_last_def)

lemma sample_load:
  "load_document sample_riivo_host ''RMCP01'' ''/sd'' None ''/sd/riivolution/r.xml'' (\<lparr>ps_mappings = [], ps_skippedExternals = 0\<rparr>, None) =
   (the (ov_patches sample_overlay), Some \<lparr>sr_hostDirectory = ''/sd/save'', sr_clone = True\<rparr>)"
proof -
  have "rh_parent sample_riivo_host ''/sd/riivolution/r.xml'' = ''/sd/riivolution''"
    by (simp add: sample_riivo_host_def cut_last_def)
  then show ?thesis
    by (simp add: load_document_def sample_active)
      (simp add: sample_patch_disc_def RiivoCollectMappings_def ResolvePatchRoot_def collect_file_def sample_paths skip_external_def
        add_mapping_def save_redirect_def FindSavegamePatch_def sample_overlay_def, simp add: sample_riivo_host_def)
qed

lemma sample_finds:
  "RiivoFindXmls sample_riivo_host ''/sd'' = Some \<lparr>xs_sdRoot = ''/sd'', xs_xmlFiles = [''/sd/riivolution/r.xml'']\<rparr>"
  "RiivoDiscoverRoots sample_riivo_host = [\<lparr>ov_root = ''/sd'', ov_patches = None\<rparr>]"
  "remembered_choices sample_riivo_host ''/sd'' ''RMCP01'' = None"
  by (simp_all add: RiivoFindXmls_def RiivoDiscoverRoots_def RiivoAddRoot_def RiivoComparablePath_def normalized_root_def
    remembered_choices_def sample_riivo_host_def Let_def)

lemma sample_id: "Regions s = [] \<Longrightarrow> RiivoGameId s = (Ok ''RMCP01'', s)"
proof -
  assume r: "Regions s = []"
  have "CurrentGameCode 0x524D4350 s = (Ok 0x524D4350, s)" "\<not> Contains s 0x80000004 2"
    using r by (simp_all add: CurrentGameCode_def bindP_def getsP_def returnP_def Contains_def TryResolveRegion_def)
  moreover have "map byte_char (BigEndian_Write32 0x524D4350 @ [0x30, 0x31]) = ''RMCP01''" by code_simp
  ultimately show ?thesis by (simp add: RiivoGameId_def bindP_def getsP_def returnP_def isalnum_def)
qed

abbreviation sample_redirect :: SaveRedirect where
  "sample_redirect \<equiv> \<lparr>sr_hostDirectory = ''/sd/save'', sr_clone = True\<rparr>"

lemma sample_set: "Regions s = [] \<Longrightarrow> rs_saveRedirect s = None \<Longrightarrow>
    RiivoLoadPatchSet sample_riivo_host ''/sd'' s = (Ok (ov_patches sample_overlay), s\<lparr>rs_saveRedirect := Some sample_redirect\<rparr>)"
  by (simp add: RiivoLoadPatchSet_def sample_finds run_simps sample_id sample_load) (simp add: sample_overlay_def)

lemma sample_init: "Regions s = [] \<Longrightarrow> rs_saveRedirect s = None \<Longrightarrow>
    RiivoInitialize sample_riivo_host s = (Ok (), s\<lparr>rs_overlays := [sample_overlay], rs_saveRedirect := Some sample_redirect\<rparr>)"
  by (simp add: RiivoInitialize_def sample_finds run_simps load_overlay_def sample_set) (simp add: sample_overlay_def)

lemma sample_overlays:
  "\<exists>t. Overlays sample_riivo_host sample_riivo = (Ok [sample_overlay], t) \<and> rs_saveRedirect t = Some sample_redirect"
proof -
  have "Regions sample_riivo = []" "rs_saveRedirect sample_riivo = None" "\<not> g_riivoOnce sample_riivo"
    by (simp_all add: sample_riivo_def memory.defs riivo_state.defs)
  then show ?thesis by (simp add: Overlays_def riivo_once_def bindP_def getsP_def modifyP_def sample_init)
qed

text \<open>C40: A first call of \<open>Overlays\<close> that returns leaves the host paths confined: an external path is rejected exactly when it
  holds a backslash or climbs above its folder, and else is its canonical path below the SD root or its folder; every mapping
  of an overlay names an existing file or folder below the SD root or the folder of one of the documents of that overlay, an
  overlay is a plain folder exactly if it has no documents, and the redirection of the saves lies below a document of one of
  the overlays.  The overlays are the reachable roots, each once, in the order of precedence, and later calls change nothing.
\<close>

theorem overlays_confined:
  assumes "Overlays h s = (Ok os, s')" "\<not> g_riivoOnce s" "rs_saveRedirect s = None"
  shows "(\<forall>sd dir ext. MakeAbsoluteFromRelative sd dir ext =
            (if CHR 0x5C \<in> set ext \<or> climbs 0 (path_components ext) then None
             else Some (below (if ext \<noteq> [] \<and> hd ext = CHR ''/'' then sd else dir) (canonical_components ext)))) \<and>
         (\<forall>ov \<in> set os. overlay_loaded h ov) \<and>
         redirect_ok h (ov_root ` set os) (rs_saveRedirect s') \<and>
         map (\<lambda>ov. RiivoComparablePath h (ov_root ov)) os =
           firsts (map (root_name h) (filter (rh_is_directory h) (root_candidates h))) \<and>
         Overlays h s' = (Ok os, s') \<and> GetSaveRedirect h s' = (Ok (rs_saveRedirect s'), s')"
proof -
  obtain t where t: "RiivoInitialize h s = (Ok (), t)" "s' = t\<lparr>g_riivoOnce := True\<rparr>" "os = rs_overlays t"
    using assms(1,2) unfolding Overlays_def riivo_once_def by (auto simp: run_simps elim!: bindP_OkE)
  have inv: "init_inv h (map ov_root (RiivoDiscoverRoots h)) (length (RiivoDiscoverRoots h)) t"
    by (rule initialize_inv [OF t(1) assms(3)])
  then have roots: "map ov_root os = map ov_root (RiivoDiscoverRoots h)" unfolding init_inv_def t(3) by blast
  have "length os = length (RiivoDiscoverRoots h)" using arg_cong [OF roots, of length] by simp
  then have "\<forall>ov \<in> set os. overlay_loaded h ov" using inv unfolding init_inv_def t(3) by (metis in_set_conv_nth)
  moreover have "redirect_ok h (ov_root ` set os) (rs_saveRedirect s')"
    using inv arg_cong [OF roots, of set] unfolding init_inv_def t(2) by simp
  moreover have "map (\<lambda>ov. RiivoComparablePath h (ov_root ov)) os =
      firsts (map (root_name h) (filter (rh_is_directory h) (root_candidates h)))"
    using roots add_root_names [of h "root_candidates h"]
    by (metis (no_types) discover_candidates map_map comp_def map_eq_conv)
  moreover have "Overlays h s' = (Ok os, s')" "GetSaveRedirect h s' = (Ok (rs_saveRedirect s'), s')"
    by (simp_all add: Overlays_def GetSaveRedirect_def riivo_once_def run_simps t)
  ultimately show ?thesis using MakeAbsolute_canonical by blast
qed

theorem overlays_confined_witness:
  "\<exists>s'. Overlays sample_riivo_host sample_riivo = (Ok [sample_overlay], s') \<and> overlay_loaded sample_riivo_host sample_overlay \<and>
     redirect_ok sample_riivo_host {''/sd''} (Some sample_redirect) \<and>
     GetSaveRedirect sample_riivo_host s' = (Ok (Some sample_redirect), s')"
proof -
  obtain t where t: "Overlays sample_riivo_host sample_riivo = (Ok [sample_overlay], t)" "rs_saveRedirect t = Some sample_redirect"
    using sample_overlays by blast
  have "\<not> g_riivoOnce sample_riivo" "rs_saveRedirect sample_riivo = None"
    by (simp_all add: sample_riivo_def memory.defs riivo_state.defs)
  note w = overlays_confined [OF t(1) this]
  have "ov_root ` set [sample_overlay] = {''/sd''}" by (simp add: sample_overlay_def)
  then show ?thesis using w t by simp
qed

end
