(* ===== verification/Spec2Isabelle.thy ===== *)
theory Spec2Isabelle
  imports Fast_Path Scheduler_Laws Timer_Laws Fiber_Laws Message_Laws Ppc_String_Laws Szs_Laws Input_Laws Nand_Launch_Laws Dvd_Read_Laws
    Riivolution_Laws
begin

text \<open>
  Verification development for the runtime under \<open>runtime/\<close>: a C++ program that runs the recompiled code of a
  Wii game.  Recompiled functions call it for every instruction that is not a plain host operation and for every
  call of the console's operating system, which it implements natively on the structures that the game keeps in
  guest memory.

  \<^bold>\<open>Parts of the program and their theories.\<close>

  \<^item> Guest memory (\<open>src/memory.cpp\<close>, \<open>include/memory_access.h\<close>, \<open>include/isa/big_endian.h\<close>,
    \<open>src/recomp_mod_loader.cpp\<close>).  \<open>Guest_Memory\<close> has the regions and their aliases, the checked accesses with
    their access violations, the reads of the disc that are deferred until their bytes are touched, and the guard
    that stops the program when it writes to recompiled code.  \<open>Fast_Path\<close> has the page tables in front of it.
    \<open>Word_Memory\<close> states what the rest needs of memory, as the locale \<open>word_memory\<close> of aligned words that behave
    like variables, and interprets it on the model; \<open>Byte_Memory\<close> has the lemmas for ranges of bytes.
    \<open>Memory_Laws\<close>: the guard filter is exact, deferred reads fire once, views alias.

  \<^item> The operating system (\<open>src/hle/os/\<close>).  \<open>Os_State\<close> has the state: memory, the registers of the processor that
    the interrupt flag lives in, the fiber table, the timer table.  \<open>Guest_List\<close> has the doubly linked lists in
    guest memory, \<open>Os_Queue\<close> the thread queues and the run queues with their bitmap, \<open>Os_Sleep\<close> timers and the
    time base, \<open>Os_Thread\<close> creation to join, \<open>Os_Alarm\<close> the alarm queue, \<open>Os_Scheduler\<close> the choice of the next
    thread, waking and mutexes, and \<open>Os_Message\<close> the message queues.  A handler is one definition; what it
    calls of the scheduler and of the fibers is tied in \<open>Os_Scheduler\<close>.

  \<^item> Fibers (\<open>src/fiber_manager.cpp\<close>): \<open>Fiber_Manager\<close>.  A host context is a number; the switch itself belongs to
    a library and is the change of the current context.

  \<^item> Instructions (\<open>include/isa/ppc_isa_int.h\<close>, \<open>ppc_isa_cr.h\<close>, \<open>src/ppc_helpers.cpp\<close>): \<open>Ppc_Integer\<close> for
    arithmetic with carry and overflow and for the condition register, \<open>Ppc_Helpers\<close> for those that touch memory,
    reservations and special purpose registers.

  \<^item> The decompressor (\<open>src/hle/egg_decomp.cpp\<close>): \<open>Szs\<close>, on guest memory.

  \<^item> Input expressions (\<open>src/input_expr.cpp\<close>): \<open>Input_Expr\<close> is the lexer and the parser, \<open>Input_Eval\<close> the evaluator.

  \<^item> The settings and the identity of the emulated console (\<open>include/nand_settings.h\<close>, \<open>console_identity.h\<close>,
    \<open>sc_serial_contract.h\<close>): \<open>Nand_Settings\<close>.

  \<^item> The disc (\<open>include/hle/dvd_contract.h\<close>, \<open>src/hle/storage/dvd.cpp\<close>, \<open>runtime_parse_helpers.h\<close>).  \<open>Dvd_Fst\<close> has
    canonical paths, the tree of the registered files, the bytes of the file table and the reader of such a table;
    \<open>Dvd_Disc\<close> the index of the host files with their overlays, the publication of the table and of the disc ranges, and
    the initialisation; \<open>Dvd_Read\<close> the reads by handle, by disc offset and through the drive.  A mapping of the library
    (\<open>std::map\<close>) is a list in the order of its keys, \<open>Sorted_Map\<close>.

  \<^item> Riivolution patches (\<open>include/hle/riivolution_contract.h\<close>, \<open>src/hle/storage/riivolution.cpp\<close>).  \<open>Riivolution\<close> has the
    documents, their options and patches and the host paths they name; \<open>Riivolution_Load\<close> finds the overlay roots and their
    documents and collects the mappings that \<open>Dvd_Disc\<close> applies to the index.  The parser of the text, the configuration
    and the host file system are the environment, a record of functions.

  \<^bold>\<open>How code is modelled.\<close>  Integers are words of the width of the code.  Code that changes state is a function of
  type \<open>('s, 'a) prog\<close> of \<open>Prelude\<close>, which returns a value or a fault and the state at that point: a C++ exception
  does not undo the stores before it.  Structures in guest memory stay there: the model reads and writes their
  fields at the offsets of the code, and the laws relate the cells to lists and records.

  \<^bold>\<open>Interfaces.\<close>  \<open>word_memory\<close> (\<open>Word_Memory\<close>) is what the queues rely on; \<open>bounded_deque\<close> (\<open>Message_Laws\<close>) is the
  contract of a message queue, interpreted on the ring buffer in guest memory; \<open>map_ops\<close> (\<open>Sorted_Map\<close>) is what the
  table and the patches use of \<open>std::map\<close>, interpreted on the sorted list.

  \<^bold>\<open>What the lemmas show.\<close>
  \<^item> Memory: the properties of \<open>Memory_Laws\<close> and \<open>Fast_Path\<close>.  A store through the page tables is the checked store;
    a load is, if it stays in its page, and the case in which it does not is the second half of \<open>fast_read_equiv\<close>.
  \<^item> Queues: \<open>Os_Queue_Laws\<close> and \<open>Run_Queues\<close> carry the invariant of the linked lists (\<open>queue_ok\<close>, \<open>runq_ok\<close>) through
    every operation; \<open>Scheduler_Laws\<close> draws the order of insertion and the choice of the scheduler from it.
  \<^item> Host side: \<open>Os_Invariants\<close> and \<open>Os_Handlers_Inv\<close> carry the invariant of the fiber and timer tables through every
    handler (\<open>Fiber_Laws\<close>), \<open>Interrupt_Laws\<close> the interrupt level.
  \<^item> Messages: \<open>Message_Laws\<close> refines a queue to a list.
  \<^item> Instructions: \<open>Ppc_Laws\<close>, \<open>Ppc_Register_Laws\<close> and \<open>Ppc_String_Laws\<close> compare them with arithmetic.
  \<^item> Decompressor: \<open>Szs_Laws\<close>, expansion of well-formed streams and confinement on all others.
  \<^item> Expressions: \<open>Input_Parser_Laws\<close> gives the language and the trees, \<open>Input_Laws\<close> the safety of evaluation.
  \<^item> Settings: \<open>Nand_Encoding_Laws\<close>, the round trip, and \<open>Nand_Launch_Laws\<close>, launches in any interleaving.
  \<^item> Disc: \<open>Dvd_Image_Laws\<close> and \<open>Dvd_Fst_Laws\<close>, what a built table holds and how it is read back; \<open>Dvd_Disc_Laws\<close>, a disc offset
    finds its file; \<open>Dvd_Read_Laws\<close>, the bytes and the failures of a read.
  \<^item> Patches: \<open>Riivolution_Paths\<close>, the host path that a document names, and \<open>Riivolution_Laws\<close>, the mappings that are left.

  \<^bold>\<open>Bounds.\<close>  A walk over guest pointers has fuel \<open>kWalkFuel\<close> \<open>= 2\<^sup>3\<^sup>2\<close>: a longer walk has met an address twice and would
  not end.  The nesting of scheduler calls has fuel \<open>n\<close>, a parameter of the handlers.  \<open>kMaxWake\<close> is the
  constant of the code.  The decompressor has one unit more than the announced size, and the parser five for each
  character of the text and ten more; that these suffice is part of \<open>decode_confined\<close> and \<open>parse_exact\<close>.

  \<^bold>\<open>Not modelled.\<close>  Floating point and paired-single instructions (IEEE arithmetic with the processor's own tables;
  doubles of input expressions are a type parameter with their operations instead).  Graphics, audio, network
  and controllers, and the NAND calls over host files, which translate calls into those of host libraries; the settings overlay, presence and
  voice chat, which are user interface and connections; process start, crash reports and the
  call bridge, which depend on the host and on generated code.  Diagnostics and log output are left out throughout.
  Aurora and the libraries under \<open>third_party\<close> are not part of this program's own code, and the translator and
  the installers are C\<sharp> programs.
\<close>

end
